(* ===== verification/Friday_Prelude.thy ===== *)
theory Friday_Prelude
  imports Main "HOL-Library.Sublist" "HOL-Library.Word"
begin

text \<open>
  Shared vocabulary of the development: Python exceptions as values with the class
  hierarchy the source declares, state-passing actions that may raise, Python strings as
  lists of code points with the whitespace operations the source calls, bounded deques,
  and the list predicates the component theories use to speak about input streams.
\<close>

named_theorems act_simps \<open>evaluation of actions\<close>
named_theorems keeps_intros \<open>state predicates kept by composed actions\<close>

section \<open>Exceptions\<close>

datatype exn_class =
    ValueErrorC | RuntimeErrorC | OSErrorC | TypeErrorC
  | VoiceCaptureErrorC | FollowUpCaptureErrorC | WakeRuntimeErrorC | WakeCaptureErrorC
  | WakeVoiceOrchestrationErrorC | BargeInErrorC | SpeechQueueClosedC
  | InvalidRuntimeTransitionC | RuntimeShuttingDownC
  | LocalAIErrorC | HistoryErrorC | HistoryDatabaseErrorC | InvalidStatusTransitionC
  | IsolationErrorC | WorktreeIdentityErrorC | CheckpointErrorC
  | RepositoryErrorC | GitTransactionErrorC | PatchValidationErrorC
  | ToolExecutionErrorC | CommandPolicyErrorC
  | IntegrityErrorC | SubprocessErrorC | KeyErrorC
  | PermissionErrorC | GatewayAuthenticationErrorC | GatewayAuthorizationErrorC
  | GitHubErrorC | GitHubRateLimitErrorC | GitHubTransientErrorC
  | ValidationIntelligenceErrorC | ValidationArtifactErrorC | TestGenerationErrorC
  | RepositoryOnboardingErrorC | RepositoryNotOnboardedC
  | AttributeErrorC | LLMErrorC | ToolNotFoundErrorC | ToolArgumentErrorC | ToolPermissionErrorC | ScopeViolationErrorC

datatype exn = Exn (exn_kind: exn_class) (exn_msg: string)

text \<open>The parent class of every exception class the modelled modules declare.\<close>

fun parent_class :: "exn_class \<Rightarrow> exn_class option" where
  "parent_class VoiceCaptureErrorC = Some RuntimeErrorC"
| "parent_class FollowUpCaptureErrorC = Some RuntimeErrorC"
| "parent_class WakeRuntimeErrorC = Some RuntimeErrorC"
| "parent_class WakeCaptureErrorC = Some RuntimeErrorC"
| "parent_class WakeVoiceOrchestrationErrorC = Some RuntimeErrorC"
| "parent_class BargeInErrorC = Some RuntimeErrorC"
| "parent_class SpeechQueueClosedC = Some RuntimeErrorC"
| "parent_class InvalidRuntimeTransitionC = Some ValueErrorC"
| "parent_class RuntimeShuttingDownC = Some RuntimeErrorC"
| "parent_class HistoryErrorC = Some LocalAIErrorC"
| "parent_class HistoryDatabaseErrorC = Some HistoryErrorC"
| "parent_class InvalidStatusTransitionC = Some HistoryErrorC"
| "parent_class IsolationErrorC = Some LocalAIErrorC"
| "parent_class WorktreeIdentityErrorC = Some IsolationErrorC"
| "parent_class CheckpointErrorC = Some IsolationErrorC"
| "parent_class RepositoryErrorC = Some LocalAIErrorC"
| "parent_class GitTransactionErrorC = Some RepositoryErrorC"
| "parent_class PatchValidationErrorC = Some GitTransactionErrorC"
| "parent_class ToolExecutionErrorC = Some LocalAIErrorC"
| "parent_class CommandPolicyErrorC = Some ToolExecutionErrorC"
| "parent_class ToolNotFoundErrorC = Some ToolExecutionErrorC"
| "parent_class ToolArgumentErrorC = Some ToolExecutionErrorC"
| "parent_class ToolPermissionErrorC = Some ToolExecutionErrorC"
| "parent_class ScopeViolationErrorC = Some ToolExecutionErrorC"
| "parent_class LLMErrorC = Some LocalAIErrorC"
| "parent_class PermissionErrorC = Some OSErrorC"
| "parent_class GatewayAuthenticationErrorC = Some PermissionErrorC"
| "parent_class GatewayAuthorizationErrorC = Some PermissionErrorC"
| "parent_class GitHubErrorC = Some RuntimeErrorC"
| "parent_class GitHubRateLimitErrorC = Some GitHubErrorC"
| "parent_class GitHubTransientErrorC = Some GitHubErrorC"
| "parent_class RepositoryOnboardingErrorC = Some RepositoryErrorC"
| "parent_class RepositoryNotOnboardedC = Some RepositoryOnboardingErrorC"
| "parent_class ValidationIntelligenceErrorC = Some LocalAIErrorC"
| "parent_class ValidationArtifactErrorC = Some ValidationIntelligenceErrorC"
| "parent_class TestGenerationErrorC = Some ValidationIntelligenceErrorC"
| "parent_class _ = None"

text \<open>No declared class is more than four steps below \<open>Exception\<close>.\<close>

primrec superclasses :: "nat \<Rightarrow> exn_class \<Rightarrow> exn_class list" where
  "superclasses 0 c = [c]"
| "superclasses (Suc n) c =
     c # (case parent_class c of None \<Rightarrow> [] | Some p \<Rightarrow> superclasses n p)"

definition is_instance :: "exn \<Rightarrow> exn_class \<Rightarrow> bool" where
  "is_instance e c \<longleftrightarrow> c \<in> set (superclasses (Suc (Suc (Suc 0))) (exn_kind e))"

abbreviation ValueError :: "string \<Rightarrow> exn" where "ValueError \<equiv> Exn ValueErrorC"
abbreviation RuntimeError :: "string \<Rightarrow> exn" where "RuntimeError \<equiv> Exn RuntimeErrorC"

definition caught_by :: "exn_class list \<Rightarrow> exn \<Rightarrow> bool" where
  "caught_by cs e \<longleftrightarrow> (\<exists>c \<in> set cs. is_instance e c)"

lemma map_sum_Inr: "map_sum id f x = Inr y \<longleftrightarrow> (\<exists>z. x = Inr z \<and> y = f z)"
  by (cases x) auto

section \<open>Actions: state passing with exceptions\<close>

text \<open>
  A Python method that mutates its object and may raise is a function from the state to a
  result and the state it leaves behind: mutations made before a raise persist.
\<close>

type_synonym ('s, 'a) act = "'s \<Rightarrow> (exn + 'a) \<times> 's"

definition act_ok :: "'a \<Rightarrow> ('s, 'a) act" where
  "act_ok x s = (Inr x, s)"

definition act_raise :: "exn \<Rightarrow> ('s, 'a) act" where
  "act_raise e s = (Inl e, s)"

definition act_bind :: "('s, 'a) act \<Rightarrow> ('a \<Rightarrow> ('s, 'b) act) \<Rightarrow> ('s, 'b) act" where
  "act_bind m f s = (case m s of (Inl e, s') \<Rightarrow> (Inl e, s') | (Inr x, s') \<Rightarrow> f x s')"

definition act_catch :: "('s, 'a) act \<Rightarrow> (exn \<Rightarrow> ('s, 'a) act) \<Rightarrow> ('s, 'a) act" where
  "act_catch m h s = (case m s of (Inl e, s') \<Rightarrow> h e s' | (Inr x, s') \<Rightarrow> (Inr x, s'))"

text \<open>
  \<open>try: m finally: fin\<close>: the finaliser runs on every path; its own exception replaces the
  body's outcome.
\<close>

definition act_finally :: "('s, 'a) act \<Rightarrow> ('s, unit) act \<Rightarrow> ('s, 'a) act" where
  "act_finally m fin s =
     (case m s of (r, s') \<Rightarrow>
        (case fin s' of (Inl e, s'') \<Rightarrow> (Inl e, s'') | (Inr _, s'') \<Rightarrow> (r, s'')))"

abbreviation act_seq :: "('s, unit) act \<Rightarrow> ('s, 'b) act \<Rightarrow> ('s, 'b) act" where
  "act_seq m n \<equiv> act_bind m (\<lambda>_. n)"

definition act_lift :: "('s \<Rightarrow> 's) \<Rightarrow> ('s, unit) act" where
  "act_lift f s = (Inr (), f s)"

lemmas act_defs [act_simps] =
  act_ok_def act_raise_def act_bind_def act_catch_def act_finally_def act_lift_def

text \<open>How a composed action may come to its result.\<close>

lemma bind_Inr: "act_bind m f w = (Inr y, w') \<longleftrightarrow> (\<exists>x v. m w = (Inr x, v) \<and> f x v = (Inr y, w'))"
  by (auto simp: act_bind_def split: prod.splits sum.splits)

lemma bind_Inl:
  "act_bind m f w = (Inl e, w') \<longleftrightarrow> m w = (Inl e, w') \<or> (\<exists>x v. m w = (Inr x, v) \<and> f x v = (Inl e, w'))"
  by (auto simp: act_bind_def split: prod.splits sum.splits)

lemma ok_eq: "act_ok x w = (r, w') \<longleftrightarrow> r = Inr x \<and> w' = w"
  by (auto simp: act_ok_def)

lemmas run_simps = bind_Inr bind_Inl ok_eq

definition keeps :: "('s \<Rightarrow> bool) \<Rightarrow> ('s, 'a) act \<Rightarrow> bool" where
  "keeps P m \<longleftrightarrow> (\<forall>s. P s \<longrightarrow> P (snd (m s)))"

lemma keepsI: "(\<And>s. P s \<Longrightarrow> P (snd (m s))) \<Longrightarrow> keeps P m"
  by (simp add: keeps_def)

lemma keepsD: "keeps P m \<Longrightarrow> P s \<Longrightarrow> P (snd (m s))"
  by (simp add: keeps_def)

lemma keeps_ok [keeps_intros]: "keeps P (act_ok x)"
  by (simp add: keeps_def act_simps)

lemma keeps_raise [keeps_intros]: "keeps P (act_raise e)"
  by (simp add: keeps_def act_simps)

lemma keeps_bind [keeps_intros]: "keeps P m \<Longrightarrow> (\<And>x. keeps P (f x)) \<Longrightarrow> keeps P (act_bind m f)"
  by (auto simp: keeps_def act_bind_def split: prod.splits sum.splits)

lemma keeps_catch [keeps_intros]: "keeps P m \<Longrightarrow> (\<And>e. keeps P (h e)) \<Longrightarrow> keeps P (act_catch m h)"
  by (auto simp: keeps_def act_catch_def split: prod.splits sum.splits)

lemma keeps_finally [keeps_intros]: "keeps P m \<Longrightarrow> keeps P fin \<Longrightarrow> keeps P (act_finally m fin)"
  by (auto simp: keeps_def act_finally_def split: prod.splits sum.splits)

lemma keeps_if [keeps_intros]: "keeps P m \<Longrightarrow> keeps P n \<Longrightarrow> keeps P (if b then m else n)"
  by simp

text \<open>After \<open>try/finally\<close> whatever the finaliser establishes from any state holds.\<close>

lemma act_finally_establishes:
  assumes "\<And>s. Q (snd (fin s))"
  shows "Q (snd (act_finally m fin s))"
  using assms[of "snd (m s)"]
  by (auto simp: act_finally_def split: prod.splits sum.splits)

text \<open>
  Partial-correctness triples: \<open>triple P m Q E\<close> says that from a state with \<open>P\<close> the action
  ends in \<open>Q\<close> of its value, or raises in a state with \<open>E\<close>.
\<close>

definition triple ::
    "('s \<Rightarrow> bool) \<Rightarrow> ('s, 'a) act \<Rightarrow> ('a \<Rightarrow> 's \<Rightarrow> bool) \<Rightarrow> ('s \<Rightarrow> bool) \<Rightarrow> bool" where
  "triple P m Q E \<longleftrightarrow>
     (\<forall>s. P s \<longrightarrow> (case m s of (Inl e, s') \<Rightarrow> E s' | (Inr x, s') \<Rightarrow> Q x s'))"

lemma tripleI:
  "(\<And>s e s'. P s \<Longrightarrow> m s = (Inl e, s') \<Longrightarrow> E s') \<Longrightarrow>
   (\<And>s x s'. P s \<Longrightarrow> m s = (Inr x, s') \<Longrightarrow> Q x s') \<Longrightarrow> triple P m Q E"
  by (auto simp: triple_def split: prod.splits sum.splits)

lemma tripleD:
  "triple P m Q E \<Longrightarrow> P s \<Longrightarrow> m s = (Inr x, s') \<Longrightarrow> Q x s'"
  "triple P m Q E \<Longrightarrow> P s \<Longrightarrow> m s = (Inl e, s') \<Longrightarrow> E s'"
  by (auto simp: triple_def dest!: spec[where x = s])

lemma triple_ok: "(\<And>s. P s \<Longrightarrow> Q x s) \<Longrightarrow> triple P (act_ok x) Q E"
  by (simp add: triple_def act_ok_def)

lemma triple_raise: "(\<And>s. P s \<Longrightarrow> E s) \<Longrightarrow> triple P (act_raise e) Q E"
  by (simp add: triple_def act_raise_def)

lemma triple_bind:
  "triple P m M E \<Longrightarrow> (\<And>x. triple (M x) (f x) Q E) \<Longrightarrow> triple P (act_bind m f) Q E"
  by (fastforce simp: triple_def act_bind_def split: prod.splits sum.splits)

lemma triple_catch:
  "triple P m Q M \<Longrightarrow> (\<And>e. triple M (h e) Q E) \<Longrightarrow> triple P (act_catch m h) Q E"
  by (fastforce simp: triple_def act_catch_def split: prod.splits sum.splits)

lemma triple_pre: "triple P m Q E \<Longrightarrow> (\<And>s. P' s \<Longrightarrow> P s) \<Longrightarrow> triple P' m Q E"
  by (auto simp: triple_def)

lemma triple_post:
  "triple P m Q E \<Longrightarrow> (\<And>x s. Q x s \<Longrightarrow> Q' x s) \<Longrightarrow> (\<And>s. E s \<Longrightarrow> E' s) \<Longrightarrow> triple P m Q' E'"
  by (fastforce simp: triple_def split: prod.splits sum.splits)

lemma triple_unless:
  "triple P m Q E \<Longrightarrow> (\<And>s. P s \<Longrightarrow> b s \<Longrightarrow> Q x s) \<Longrightarrow>
     triple P (\<lambda>s. if b s then act_ok x s else m s) Q E"
  by (simp add: triple_def act_ok_def)

section \<open>Python strings\<close>

text \<open>A \<open>str\<close> is a sequence of Unicode code points.\<close>

type_synonym pystr = "nat list"

definition lit :: "string \<Rightarrow> pystr" where
  "lit s = map of_char s"

text \<open>The code points with \<open>str.isspace()\<close>, which are also those \<open>\s\<close> matches.\<close>

definition py_isspace :: "nat \<Rightarrow> bool" where
  "py_isspace c \<longleftrightarrow>
     9 \<le> c \<and> c \<le> 13 \<or> 28 \<le> c \<and> c \<le> 32 \<or> c = 133 \<or> c = 160 \<or> c = 5760
     \<or> 8192 \<le> c \<and> c \<le> 8202 \<or> c = 8232 \<or> c = 8233 \<or> c = 8239 \<or> c = 8287 \<or> c = 12288"

definition lstrip :: "pystr \<Rightarrow> pystr" where
  "lstrip s = dropWhile py_isspace s"

definition rstrip :: "pystr \<Rightarrow> pystr" where
  "rstrip s = rev (dropWhile py_isspace (rev s))"

definition strip :: "pystr \<Rightarrow> pystr" where
  "strip s = lstrip (rstrip s)"

text \<open>\<open>s[:n]\<close> for a non-negative bound.\<close>

abbreviation str_take :: "nat \<Rightarrow> pystr \<Rightarrow> pystr" where
  "str_take n s \<equiv> take n s"

lemma length_lstrip: "length (lstrip s) \<le> length s"
  by (simp add: lstrip_def length_dropWhile_le)

lemma length_rstrip: "length (rstrip s) \<le> length s"
  by (metis rstrip_def length_dropWhile_le length_rev)

lemma length_strip: "length (strip s) \<le> length s"
  by (metis strip_def length_lstrip length_rstrip le_trans)

lemma lstrip_hd: "lstrip s \<noteq> [] \<Longrightarrow> \<not> py_isspace (hd (lstrip s))"
  by (simp add: lstrip_def hd_dropWhile)

lemma rstrip_last: "rstrip s \<noteq> [] \<Longrightarrow> \<not> py_isspace (last (rstrip s))"
  by (simp add: rstrip_def last_rev hd_dropWhile)

lemma suffix_lstrip: "suffix (lstrip s) s"
  by (simp add: lstrip_def suffix_dropWhile)

lemma strip_last: "strip s \<noteq> [] \<Longrightarrow> \<not> py_isspace (last (strip s))"
proof -
  assume ne: "strip s \<noteq> []"
  obtain p where p: "rstrip s = p @ strip s"
    using suffix_lstrip[of "rstrip s"] by (auto simp: strip_def suffix_def)
  with ne have "last (rstrip s) = last (strip s)" by simp
  with ne p show ?thesis using rstrip_last[of s] by auto
qed

lemma strip_hd: "strip s \<noteq> [] \<Longrightarrow> \<not> py_isspace (hd (strip s))"
  by (simp add: strip_def lstrip_hd)

text \<open>A string that starts and ends with a visible character is already stripped.\<close>

lemma strip_id:
  assumes "s = [] \<or> \<not> py_isspace (hd s) \<and> \<not> py_isspace (last s)"
  shows "strip s = s"
proof (cases "s = []")
  case False
  with assms have "dropWhile py_isspace (rev s) = rev s"
    by (metis dropWhile_eq_self_iff hd_rev)
  then have "rstrip s = s" by (simp add: rstrip_def)
  with False assms show ?thesis by (simp add: strip_def lstrip_def dropWhile_eq_self_iff)
qed (simp add: strip_def rstrip_def lstrip_def)

lemma strip_strip [simp]: "strip (strip s) = strip s"
  by (rule strip_id) (use strip_hd strip_last in blast)

lemma strip_eq_Nil: "strip s = [] \<longleftrightarrow> (\<forall>c \<in> set s. py_isspace c)"
proof
  assume "\<forall>c \<in> set s. py_isspace c"
  then have "rstrip s = []" by (simp add: rstrip_def dropWhile_eq_Nil_conv)
  then show "strip s = []" by (simp add: strip_def lstrip_def)
next
  assume "strip s = []"
  then have sp: "\<forall>c \<in> set (rstrip s). py_isspace c"
    by (simp add: strip_def lstrip_def dropWhile_eq_Nil_conv)
  then have "rstrip s = []" using rstrip_last[of s] by (meson last_in_set)
  then show "\<forall>c \<in> set s. py_isspace c" by (simp add: rstrip_def dropWhile_eq_Nil_conv)
qed

section \<open>Bounded deques\<close>

text \<open>\<open>collections.deque(maxlen=m).append\<close>: the oldest entries fall off the left.\<close>

definition deque_append :: "nat option \<Rightarrow> 'a list \<Rightarrow> 'a \<Rightarrow> 'a list" where
  "deque_append m xs x =
     (case m of None \<Rightarrow> xs @ [x]
      | Some n \<Rightarrow> (let ys = xs @ [x] in drop (length ys - n) ys))"

lemma deque_append_suffix: "suffix (deque_append m xs x) (xs @ [x])"
  by (auto simp: deque_append_def Let_def suffix_drop split: option.splits)

lemma deque_append_length: "length (deque_append (Some n) xs x) \<le> n"
  by (simp add: deque_append_def Let_def)

lemma deque_append_length_eq:
  "length (deque_append (Some n) xs x) = min n (Suc (length xs))"
  by (simp add: deque_append_def Let_def)

lemma deque_append_Nil: "deque_append (Some n) xs x = [] \<longleftrightarrow> n = 0"
  by (auto simp: deque_append_def Let_def)

text \<open>A deque that holds the last entries of a log still does after an append.\<close>

lemma deque_append_last_entries:
  assumes "1 \<le> m"
  shows "deque_append (Some m) (drop (length xs - m) xs) x = drop (Suc (length xs) - m) (xs @ [x])"
proof (cases "length xs < m")
  case True
  then show ?thesis by (simp add: deque_append_def Let_def)
next
  case False
  then have "Suc (length xs) - m = Suc (length xs - m)" "length xs - m < length xs"
    using assms by simp_all
  with False show ?thesis by (simp add: deque_append_def Let_def)
qed

section \<open>Disjoint contiguous occurrences in a stream\<close>

text \<open>
  \<open>in_order xs us\<close>: the blocks \<open>us\<close> occur in \<open>xs\<close> as contiguous pieces, in this order and
  without overlap.
\<close>

primrec in_order :: "'a list \<Rightarrow> 'a list list \<Rightarrow> bool" where
  "in_order xs [] \<longleftrightarrow> True"
| "in_order xs (u # us) \<longleftrightarrow> (\<exists>p q. xs = p @ u @ q \<and> in_order q us)"

lemma in_order_ConsI: "in_order q us \<Longrightarrow> in_order (p @ u @ q) (u # us)"
  by auto

lemma in_order_append: "in_order xs us \<Longrightarrow> in_order (xs @ ys) us"
proof (induction us arbitrary: xs)
  case (Cons u us)
  then obtain p q where "xs = p @ u @ q" "in_order q us" by auto
  with in_order_ConsI[OF Cons.IH, of q p u] show ?case by simp
qed simp

lemma in_order_snoc: "in_order xs us \<Longrightarrow> suffix u ys \<Longrightarrow> in_order (xs @ ys) (us @ [u])"
proof (induction us arbitrary: xs)
  case Nil
  then obtain p where "ys = p @ u" by (auto simp: suffix_def)
  with in_order_ConsI[of "[]" "[]" "xs @ p" u] show ?case by simp
next
  case (Cons v us)
  then obtain p q where "xs = p @ v @ q" "in_order q us" by auto
  with in_order_ConsI[OF Cons.IH, of q p v] Cons.prems(2) show ?case by simp
qed

lemma suffix_concat: "suffix xs ys \<Longrightarrow> suffix (concat xs) (concat ys)"
  by (auto simp: suffix_def)

section \<open>Runs at the end of a list\<close>

definition trailing :: "('a \<Rightarrow> bool) \<Rightarrow> 'a list \<Rightarrow> nat" where
  "trailing P xs = length (takeWhile P (rev xs))"

lemma trailing_Nil [simp]: "trailing P [] = 0"
  by (simp add: trailing_def)

lemma trailing_snoc [simp]:
  "trailing P (xs @ [x]) = (if P x then Suc (trailing P xs) else 0)"
  by (simp add: trailing_def)

section \<open>Updating several positions of a list\<close>

definition update_each :: "('a \<Rightarrow> 'a) \<Rightarrow> nat list \<Rightarrow> 'a list \<Rightarrow> 'a list" where
  "update_each f js xs = fold (\<lambda>j ys. ys[j := f (ys ! j)]) js xs"

lemma update_each_simps [simp]:
  "update_each f [] xs = xs"
  "update_each f (j # js) xs = update_each f js (xs[j := f (xs ! j)])"
  by (simp_all add: update_each_def)

lemma length_update_each [simp]: "length (update_each f js xs) = length xs"
  by (induction js arbitrary: xs) auto

lemma nth_update_each:
  "distinct js \<Longrightarrow> i < length xs \<Longrightarrow>
     update_each f js xs ! i = (if i \<in> set js then f (xs ! i) else xs ! i)"
proof (induction js arbitrary: xs)
  case (Cons j js)
  then show ?case by (cases "i = j") auto
qed simp

end
