(* ===== verification/Py_Text.thy ===== *)
theory Py_Text
  imports Friday_Prelude
begin

text \<open>
  The parts of Python's standard library that the policies over commands and patches call on
  text: \<open>shlex.split\<close> in POSIX mode, \<open>PurePosixPath\<close>, \<open>str.splitlines\<close>, \<open>startswith\<close>,
  \<open>endswith\<close> and \<open>in\<close>. Text is a list of code points.
\<close>

section \<open>Substrings\<close>

definition starts_with :: "pystr \<Rightarrow> pystr \<Rightarrow> bool" where
  "starts_with p s \<longleftrightarrow> take (length p) s = p"

definition ends_with :: "pystr \<Rightarrow> pystr \<Rightarrow> bool" where
  "ends_with p s \<longleftrightarrow> starts_with (rev p) (rev s)"

primrec has_part :: "pystr \<Rightarrow> pystr \<Rightarrow> bool" where
  "has_part p [] \<longleftrightarrow> p = []"
| "has_part p (c # s) \<longleftrightarrow> starts_with p (c # s) \<or> has_part p s"

lemma starts_with_prefix: "starts_with p s \<longleftrightarrow> prefix p s"
  by (metis append_eq_conv_conj append_take_drop_id prefix_def starts_with_def)

lemma ends_with_suffix: "ends_with p s \<longleftrightarrow> suffix p s"
  by (simp add: ends_with_def starts_with_prefix suffix_to_prefix)

lemma has_part_sublist: "has_part p s \<longleftrightarrow> sublist p s"
proof (induction s)
  case (Cons c s)
  then show ?case by (auto simp: sublist_Cons_right starts_with_prefix)
qed simp

text \<open>\<open>s.split(sep)\<close> for a separator of one character.\<close>

fun split_char :: "nat \<Rightarrow> pystr \<Rightarrow> pystr list" where
  "split_char sep [] = [[]]"
| "split_char sep (c # s) =
     (if c = sep then [] # split_char sep s
      else (case split_char sep s of [] \<Rightarrow> [[c]] | w # ws \<Rightarrow> (c # w) # ws))"

primrec join_char :: "nat \<Rightarrow> pystr list \<Rightarrow> pystr" where
  "join_char sep [] = []"
| "join_char sep (w # ws) = (if ws = [] then w else w @ sep # join_char sep ws)"

lemma split_char_not_Nil [simp]: "split_char sep s \<noteq> []"
  by (cases s) (auto split: list.splits)

lemma split_char_no_sep: "w \<in> set (split_char sep s) \<Longrightarrow> sep \<notin> set w"
proof (induction s arbitrary: w)
  case (Cons c s)
  then show ?case by (cases "split_char sep s") (auto split: if_splits)
qed simp

lemma split_char_id: "sep \<notin> set w \<Longrightarrow> split_char sep w = [w]"
  by (induction w) auto

lemma split_char_append: "sep \<notin> set w \<Longrightarrow> split_char sep (w @ sep # s) = w # split_char sep s"
  by (induction w) auto

lemma split_join:
  assumes "ws \<noteq> []" and "\<forall>w \<in> set ws. sep \<notin> set w"
  shows "split_char sep (join_char sep ws) = ws"
  using assms by (induction ws) (auto simp: split_char_id split_char_append)

section \<open>Lines\<close>

definition line_boundary :: "nat \<Rightarrow> bool" where
  "line_boundary c \<longleftrightarrow> c \<in> {10, 11, 12, 13, 28, 29, 30, 133, 8232, 8233}"

text \<open>
  \<open>str.splitlines()\<close>, with the line read so far, reversed, and whether the boundary just
  passed was a carriage return, which a line feed then completes.
\<close>

primrec split_lines :: "bool \<Rightarrow> pystr \<Rightarrow> pystr \<Rightarrow> pystr list" where
  "split_lines cr acc [] = (if acc = [] then [] else [rev acc])"
| "split_lines cr acc (c # s) =
     (if cr \<and> c = 10 then split_lines False [] s
      else if line_boundary c then rev acc # split_lines (c = 13) [] s
      else split_lines False (c # acc) s)"

definition splitlines :: "pystr \<Rightarrow> pystr list" where
  "splitlines s = split_lines False [] s"

section \<open>Shell words\<close>

text \<open>
  The states of \<open>shlex.read_token\<close>: between words, in a word, in quotes, and after a backslash
  with the state to return to.
\<close>

datatype lex_state = Between | In_Word | Quoted nat | Escaped "nat option"

definition lex_space :: "nat \<Rightarrow> bool" where
  "lex_space c \<longleftrightarrow> c \<in> {32, 9, 13, 10}"

abbreviation dquote :: nat where "dquote \<equiv> 34"
abbreviation squote :: nat where "squote \<equiv> 39"
abbreviation backslash :: nat where "backslash \<equiv> 92"

text \<open>
  \<open>shlex_words st tok quoted s\<close>: the words of the rest \<open>s\<close>, in state \<open>st\<close> with the token read so
  far (reversed) and whether a part of it was quoted. An unquoted word is never empty.
\<close>

fun shlex_words :: "lex_state \<Rightarrow> pystr \<Rightarrow> bool \<Rightarrow> pystr \<Rightarrow> exn + pystr list" where
  "shlex_words Between tok q [] = (if tok = [] \<and> \<not> q then Inr [] else Inr [rev tok])"
| "shlex_words In_Word tok q [] = (if tok = [] \<and> \<not> q then Inr [] else Inr [rev tok])"
| "shlex_words (Quoted d) tok q [] = Inl (ValueError ''No closing quotation'')"
| "shlex_words (Escaped r) tok q [] = Inl (ValueError ''No escaped character'')"
| "shlex_words Between tok q (c # s) =
     (if lex_space c then
        (if tok = [] \<and> \<not> q then shlex_words Between [] False s
         else map_sum id ((#) (rev tok)) (shlex_words Between [] False s))
      else if c = backslash then shlex_words (Escaped None) tok q s
      else if c = dquote \<or> c = squote then shlex_words (Quoted c) tok q s
      else shlex_words In_Word [c] q s)"
| "shlex_words In_Word tok q (c # s) =
     (if lex_space c then
        (if tok = [] \<and> \<not> q then shlex_words Between [] False s
         else map_sum id ((#) (rev tok)) (shlex_words Between [] False s))
      else if c = dquote \<or> c = squote then shlex_words (Quoted c) tok q s
      else if c = backslash then shlex_words (Escaped None) tok q s
      else shlex_words In_Word (c # tok) q s)"
| "shlex_words (Quoted d) tok q (c # s) =
     (if c = d then shlex_words In_Word tok True s
      else if c = backslash \<and> d = dquote then shlex_words (Escaped (Some d)) tok True s
      else shlex_words (Quoted d) (c # tok) True s)"
| "shlex_words (Escaped r) tok q (c # s) =
     (case r of
        None \<Rightarrow> shlex_words In_Word (c # tok) q s
      | Some d \<Rightarrow> shlex_words (Quoted d)
          (if c \<noteq> backslash \<and> c \<noteq> d then c # backslash # tok else c # tok) q s)"

definition shlex_split :: "pystr \<Rightarrow> exn + pystr list" where
  "shlex_split s = shlex_words Between [] False s"

text \<open>Plain words: nothing in them is special to the shell splitter.\<close>

definition plain_word :: "pystr \<Rightarrow> bool" where
  "plain_word w \<longleftrightarrow> w \<noteq> [] \<and> (\<forall>c \<in> set w. \<not> lex_space c \<and> c \<noteq> backslash \<and> c \<noteq> dquote \<and> c \<noteq> squote)"

lemma shlex_In_Word:
  "\<forall>c \<in> set w. \<not> lex_space c \<and> c \<noteq> backslash \<and> c \<noteq> dquote \<and> c \<noteq> squote \<Longrightarrow>
     shlex_words In_Word tok q (w @ s) = shlex_words In_Word (rev w @ tok) q s"
  by (induction w arbitrary: tok) auto

lemma shlex_plain_word:
  assumes "plain_word w"
  shows "shlex_words Between [] False (w @ s) = shlex_words In_Word (rev w) False s"
proof -
  obtain c v where w: "w = c # v" using assms by (cases w) (auto simp: plain_word_def)
  then show ?thesis using assms shlex_In_Word[of v "[c]" False s] by (simp add: plain_word_def)
qed

lemma shlex_split_join:
  "\<forall>w \<in> set ws. plain_word w \<Longrightarrow> shlex_split (join_char 32 ws) = Inr ws"
proof (induction ws)
  case (Cons w ws)
  then have w: "plain_word w" and ne: "w \<noteq> []" by (auto simp: plain_word_def)
  show ?case
  proof (cases "ws = []")
    case True
    then show ?thesis using shlex_plain_word[OF w, of "[]"] ne by (simp add: shlex_split_def)
  next
    case False
    then show ?thesis
      using Cons shlex_plain_word[OF w, of "32 # join_char 32 ws"] ne
      by (simp add: shlex_split_def lex_space_def)
  qed
qed (simp add: shlex_split_def)

section \<open>Pure POSIX paths\<close>

abbreviation slash :: nat where "slash \<equiv> 47"
abbreviation dot :: nat where "dot \<equiv> 46"

text \<open>The root of a path: two leading slashes are kept, three or more are one.\<close>

definition path_root :: "pystr \<Rightarrow> pystr" where
  "path_root s =
     (if starts_with [slash] s then
        (if starts_with [slash, slash] s \<and> \<not> starts_with [slash, slash, slash] s
         then [slash, slash] else [slash])
      else [])"

definition path_tail :: "pystr \<Rightarrow> pystr list" where
  "path_tail s = filter (\<lambda>p. p \<noteq> [] \<and> p \<noteq> [dot]) (split_char slash s)"

definition path_parts :: "pystr \<Rightarrow> pystr list" where
  "path_parts s = (if path_root s = [] then path_tail s else path_root s # path_tail s)"

definition is_absolute :: "pystr \<Rightarrow> bool" where
  "is_absolute s \<longleftrightarrow> path_root s \<noteq> []"

definition as_posix :: "pystr \<Rightarrow> pystr" where
  "as_posix s =
     (if path_root s = [] \<and> path_tail s = [] then [dot]
      else path_root s @ join_char slash (path_tail s))"

definition path_name :: "pystr \<Rightarrow> pystr" where
  "path_name s = (if path_tail s = [] then [] else last (path_tail s))"

text \<open>\<open>name.rfind('.')\<close>: the length of the part before the last dot.\<close>

definition rfind_dot :: "pystr \<Rightarrow> nat option" where
  "rfind_dot n = (if dot \<in> set n
     then Some (length n - Suc (length (takeWhile (\<lambda>c. c \<noteq> dot) (rev n)))) else None)"

definition name_suffix :: "pystr \<Rightarrow> pystr" where
  "name_suffix n =
     (case rfind_dot n of None \<Rightarrow> []
      | Some i \<Rightarrow> if 0 < i \<and> i < length n - 1 then drop i n else [])"

text \<open>\<open>PurePosixPath(s).with_suffix('').as_posix()\<close>\<close>

definition without_suffix :: "pystr \<Rightarrow> exn + pystr" where
  "without_suffix s =
     (let n = path_name s
      in if n = [] then Inl (ValueError ''path has an empty name'')
         else Inr (path_root s @ join_char slash
           (butlast (path_tail s) @ [take (length n - length (name_suffix n)) n])))"

lemma path_tail_props:
  "p \<in> set (path_tail s) \<Longrightarrow> p \<noteq> [] \<and> p \<noteq> [dot] \<and> slash \<notin> set p"
  by (auto simp: path_tail_def dest: split_char_no_sep)

lemma join_char_Nil: "\<forall>w \<in> set ws. w \<noteq> [] \<Longrightarrow> join_char sep ws = [] \<longleftrightarrow> ws = []"
  by (cases ws) auto

lemma join_char_hd:
  "ws \<noteq> [] \<Longrightarrow> hd ws \<noteq> [] \<Longrightarrow> \<exists>s. join_char sep ws = hd (hd ws) # s"
  by (cases ws; cases "hd ws") auto

text \<open>A relative path without a parent reference stays one when it is normalised.\<close>

lemma path_tail_join:
  assumes "\<forall>p \<in> set ps. p \<noteq> [] \<and> p \<noteq> [dot] \<and> slash \<notin> set p"
  shows "path_tail (join_char slash ps) = ps"
proof (cases "ps = []")
  case False
  then show ?thesis using assms split_join[of ps slash] by (auto simp: path_tail_def intro: filter_True)
qed (simp add: path_tail_def)

lemma relative_as_posix:
  assumes "\<not> is_absolute s"
  shows "\<not> is_absolute (as_posix s)" and "path_tail (as_posix s) = path_tail s"
proof -
  have r: "path_root s = []" using assms by (simp add: is_absolute_def)
  have p: "\<forall>p \<in> set (path_tail s). p \<noteq> [] \<and> p \<noteq> [dot] \<and> slash \<notin> set p"
    using path_tail_props by blast
  show "path_tail (as_posix s) = path_tail s"
    using path_tail_join[OF p] r by (auto simp: as_posix_def) (simp add: path_tail_def)
  show "\<not> is_absolute (as_posix s)"
  proof (cases "path_tail s = []")
    case True
    then show ?thesis using r by (simp add: as_posix_def is_absolute_def path_root_def starts_with_def)
  next
    case False
    then obtain v where v: "join_char slash (path_tail s) = hd (hd (path_tail s)) # v"
      using join_char_hd p by (metis list.set_sel(1))
    have "hd (hd (path_tail s)) \<noteq> slash" using p False by (metis list.set_sel(1))
    then show ?thesis using r v False
      by (simp add: as_posix_def is_absolute_def path_root_def starts_with_def)
  qed
qed

end
