(* ===== verification/Vad.thy ===== *)
theory Vad
  imports Friday_Prelude Complex_Main
begin

text \<open>
  Voice activity detection and utterance segmentation: \<open>voice/vad.py\<close> and the
  configuration of \<open>voice/audio.py\<close>. PCM is a list of bytes. The segmenter is written over
  an arbitrary detector, as the code is (the \<open>VadDetector\<close> protocol); the adaptive energy
  detector is one instance. Levels in dBFS and other Python floats are reals, so rounding,
  infinities and NaN are not modelled.
\<close>

named_theorems seg_simps \<open>unfolding of the segmenter's steps\<close>

type_synonym pcm = "8 word list"

section \<open>Configuration\<close>

record audio_config =
  ac_device :: string
  ac_sample_rate :: int
  ac_channels :: int
  ac_sample_format :: string
  ac_sample_width_bytes :: int
  ac_chunk_ms :: int
  ac_arecord_path :: string
  ac_read_timeout_seconds :: "real option"

definition audio_config_check :: "audio_config \<Rightarrow> exn + audio_config" where
  "audio_config_check c =
     (if (case ac_read_timeout_seconds c of None \<Rightarrow> False | Some t \<Rightarrow> t \<le> 0) then
        Inl (ValueError ''read_timeout_seconds must be finite and positive'')
      else if ac_device c = [] then Inl (ValueError ''audio device must not be empty'')
      else if ac_sample_rate c \<le> 0 then Inl (ValueError ''sample_rate must be positive'')
      else if ac_channels c \<le> 0 then Inl (ValueError ''channels must be positive'')
      else if ac_sample_width_bytes c \<le> 0 then
        Inl (ValueError ''sample_width_bytes must be positive'')
      else if ac_chunk_ms c \<le> 0 then Inl (ValueError ''chunk_ms must be positive'')
      else if ac_arecord_path c = [] then Inl (ValueError ''arecord_path must not be empty'')
      else Inr c)"

definition chunk_frames :: "audio_config \<Rightarrow> int" where
  "chunk_frames c = max 1 (ac_sample_rate c * ac_chunk_ms c div 1000)"

definition chunk_bytes :: "audio_config \<Rightarrow> int" where
  "chunk_bytes c = chunk_frames c * ac_channels c * ac_sample_width_bytes c"

record vad_config =
  vc_absolute_speech_dbfs :: real
  vc_speech_margin_db :: real
  vc_noise_floor_initial_dbfs :: real
  vc_noise_floor_alpha :: real
  vc_speech_start_ms :: int
  vc_speech_end_silence_ms :: int
  vc_pre_roll_ms :: int
  vc_minimum_speech_ms :: int
  vc_maximum_utterance_ms :: int

text \<open>The \<open>name must not be negative\<close> loop runs over the fields in the code's order.\<close>

fun first_negative :: "(string \<times> int) list \<Rightarrow> string option" where
  "first_negative [] = None"
| "first_negative ((name, v) # rest) = (if v < 0 then Some name else first_negative rest)"

definition vad_config_check :: "vad_config \<Rightarrow> exn + vad_config" where
  "vad_config_check c =
     (if vc_speech_margin_db c \<le> 0 then Inl (ValueError ''speech_margin_db must be positive'')
      else if \<not> (0 < vc_noise_floor_alpha c \<and> vc_noise_floor_alpha c \<le> 1) then
        Inl (ValueError ''noise_floor_alpha must be in the range (0, 1]'')
      else case first_negative
          [(''speech_start_ms'', vc_speech_start_ms c),
           (''speech_end_silence_ms'', vc_speech_end_silence_ms c),
           (''pre_roll_ms'', vc_pre_roll_ms c),
           (''minimum_speech_ms'', vc_minimum_speech_ms c),
           (''maximum_utterance_ms'', vc_maximum_utterance_ms c)] of
        Some name \<Rightarrow> Inl (ValueError (name @ '' must not be negative''))
      | None \<Rightarrow>
          if vc_speech_start_ms c = 0 then Inl (ValueError ''speech_start_ms must be positive'')
          else if vc_speech_end_silence_ms c = 0 then
            Inl (ValueError ''speech_end_silence_ms must be positive'')
          else if vc_maximum_utterance_ms c = 0 then
            Inl (ValueError ''maximum_utterance_ms must be positive'')
          else Inr c)"

section \<open>Frames, utterances and results\<close>

record vad_frame =
  vf_dbfs :: real
  vf_noise_floor_dbfs :: "real option"
  vf_threshold_dbfs :: "real option"
  vf_speech :: bool
  vf_speech_probability :: "real option"

datatype completion_reason = Silence | Maximum_Duration

record voice_utterance =
  vu_pcm :: pcm
  vu_sample_rate :: int
  vu_channels :: int
  vu_sample_width_bytes :: int
  vu_duration_ms :: int
  vu_speech_ms :: int
  vu_completion_reason :: completion_reason

record segmentation_result =
  sr_frame :: vad_frame
  sr_speech_started :: bool
  sr_utterance :: "voice_utterance option"
  sr_discarded_short_utterance :: bool

section \<open>The adaptive energy detector\<close>

definition min_dbfs :: real where
  "min_dbfs = -120"

text \<open>\<open>struct.iter_unpack("<h")\<close>: little-endian signed 16-bit samples.\<close>

fun samples :: "pcm \<Rightarrow> int list" where
  "samples (lo # hi # rest) = sint (word_of_int (uint lo + 256 * uint hi) :: 16 word) # samples rest"
| "samples _ = []"

definition pcm16_dbfs :: "pcm \<Rightarrow> exn + real" where
  "pcm16_dbfs p =
     (if odd (length p) then Inl (ValueError ''16-bit PCM byte length must be even'')
      else if p = [] then Inr min_dbfs
      else
        let sample_count = length p div 2;
            total_square = (\<Sum>x\<leftarrow>samples p. real_of_int (x * x));
            rms = sqrt (total_square / real sample_count)
        in if rms \<le> 0 then Inr min_dbfs
           else Inr (max min_dbfs (20 * log 10 (rms / 32768))))"

definition update_noise_floor :: "vad_config \<Rightarrow> real \<Rightarrow> real \<Rightarrow> real" where
  "update_noise_floor c nf dbfs =
     (1 - vc_noise_floor_alpha c) * nf + vc_noise_floor_alpha c * dbfs"

text \<open>\<open>PcmEnergyVad.analyze\<close>; the state is \<open>_noise_floor_dbfs\<close>.\<close>

definition energy_analyze :: "vad_config \<Rightarrow> pcm \<Rightarrow> (real, vad_frame) act" where
  "energy_analyze c p nf =
     (case pcm16_dbfs p of Inl e \<Rightarrow> (Inl e, nf)
      | Inr dbfs \<Rightarrow>
          let threshold = max (vc_absolute_speech_dbfs c) (nf + vc_speech_margin_db c);
              speech = (dbfs \<ge> threshold);
              nf' = (if speech then nf else update_noise_floor c nf dbfs);
              threshold' = (if speech then threshold
                            else max (vc_absolute_speech_dbfs c) (nf' + vc_speech_margin_db c))
          in (Inr \<lparr>vf_dbfs = dbfs, vf_noise_floor_dbfs = Some nf',
                   vf_threshold_dbfs = Some threshold', vf_speech = speech,
                   vf_speech_probability = None\<rparr>, nf'))"

definition energy_reset :: "vad_config \<Rightarrow> real \<Rightarrow> real" where
  "energy_reset c _ = vc_noise_floor_initial_dbfs c"

section \<open>The utterance segmenter\<close>

text \<open>A detector is its two methods over its own state.\<close>

record 'd vad_detector =
  det_analyze :: "pcm \<Rightarrow> ('d, vad_frame) act"
  det_reset :: "'d \<Rightarrow> 'd"

text \<open>
  \<open>math.ceil(milliseconds / chunk_ms)\<close>: the quotient of two machine-sized integers is
  rounded up exactly.
\<close>

definition milliseconds_to_chunks :: "int \<Rightarrow> int \<Rightarrow> nat \<Rightarrow> nat" where
  "milliseconds_to_chunks milliseconds chunk_ms minimum =
     (if milliseconds \<le> 0 then minimum
      else max minimum (nat (- (- milliseconds div chunk_ms))))"

record 'd segmenter =
  sg_audio_config :: audio_config
  sg_detector :: 'd
  sg_start_chunks :: nat
  sg_end_silence_chunks :: nat
  sg_pre_roll_chunks :: nat
  sg_minimum_speech_chunks :: nat
  sg_maximum_chunks :: nat
  sg_pre_roll :: "pcm list"
  sg_active_chunks :: "pcm list"
  sg_consecutive_speech :: nat
  sg_speech_chunks :: nat
  sg_silence_chunks :: nat
  sg_active :: bool

definition segmenter_init :: "audio_config \<Rightarrow> vad_config \<Rightarrow> 'd \<Rightarrow> 'd segmenter" where
  "segmenter_init ac vc d =
     \<lparr>sg_audio_config = ac, sg_detector = d,
      sg_start_chunks = milliseconds_to_chunks (vc_speech_start_ms vc) (ac_chunk_ms ac) 1,
      sg_end_silence_chunks =
        milliseconds_to_chunks (vc_speech_end_silence_ms vc) (ac_chunk_ms ac) 1,
      sg_pre_roll_chunks = milliseconds_to_chunks (vc_pre_roll_ms vc) (ac_chunk_ms ac) 0,
      sg_minimum_speech_chunks =
        milliseconds_to_chunks (vc_minimum_speech_ms vc) (ac_chunk_ms ac) 0,
      sg_maximum_chunks =
        milliseconds_to_chunks (vc_maximum_utterance_ms vc) (ac_chunk_ms ac) 1,
      sg_pre_roll = [], sg_active_chunks = [], sg_consecutive_speech = 0,
      sg_speech_chunks = 0, sg_silence_chunks = 0, sg_active = False\<rparr>"

definition segmenter_reset :: "'d vad_detector \<Rightarrow> 'd segmenter \<Rightarrow> 'd segmenter" where
  "segmenter_reset det sg =
     sg\<lparr>sg_detector := det_reset det (sg_detector sg),
        sg_pre_roll := [], sg_active_chunks := [], sg_consecutive_speech := 0,
        sg_speech_chunks := 0, sg_silence_chunks := 0, sg_active := False\<rparr>"

definition clear_active_state :: "'d segmenter \<Rightarrow> 'd segmenter" where
  "clear_active_state sg =
     sg\<lparr>sg_active_chunks := [], sg_consecutive_speech := 0, sg_speech_chunks := 0,
        sg_silence_chunks := 0, sg_active := False, sg_pre_roll := []\<rparr>"

definition result_of :: "vad_frame \<Rightarrow> segmentation_result" where
  "result_of frame =
     \<lparr>sr_frame = frame, sr_speech_started = False, sr_utterance = None,
      sr_discarded_short_utterance = False\<rparr>"

text \<open>\<open>maxlen=self._pre_roll_chunks or None\<close>: a zero length means an unbounded deque.\<close>

definition pre_roll_maxlen :: "'d segmenter \<Rightarrow> nat option" where
  "pre_roll_maxlen sg = (if sg_pre_roll_chunks sg = 0 then None else Some (sg_pre_roll_chunks sg))"

definition process_idle ::
    "pcm \<Rightarrow> vad_frame \<Rightarrow> 'd segmenter \<Rightarrow> segmentation_result \<times> 'd segmenter" where
  "process_idle p frame sg =
     (let sg1 = (if sg_pre_roll_chunks sg > 0
                 then sg\<lparr>sg_pre_roll := deque_append (pre_roll_maxlen sg) (sg_pre_roll sg) p\<rparr>
                 else sg);
          sg2 = (if vf_speech frame
                 then sg1\<lparr>sg_consecutive_speech := Suc (sg_consecutive_speech sg1)\<rparr>
                 else sg1\<lparr>sg_consecutive_speech := 0\<rparr>)
      in if sg_consecutive_speech sg2 < sg_start_chunks sg2 then (result_of frame, sg2)
         else
           let chunks = (if sg_pre_roll_chunks sg2 > 0 then sg_pre_roll sg2 else [p])
           in ((result_of frame)\<lparr>sr_speech_started := True\<rparr>,
               sg2\<lparr>sg_active := True, sg_active_chunks := chunks, sg_pre_roll := [],
                   sg_speech_chunks := sg_consecutive_speech sg2,
                   sg_silence_chunks := 0, sg_consecutive_speech := 0\<rparr>))"

definition segmenter_finish ::
    "vad_frame \<Rightarrow> completion_reason \<Rightarrow> 'd segmenter \<Rightarrow> segmentation_result \<times> 'd segmenter" where
  "segmenter_finish frame reason sg =
     (if sg_speech_chunks sg < sg_minimum_speech_chunks sg then
        ((result_of frame)\<lparr>sr_discarded_short_utterance := True\<rparr>, clear_active_state sg)
      else
        let ac = sg_audio_config sg;
            utterance =
              \<lparr>vu_pcm = concat (sg_active_chunks sg),
               vu_sample_rate = ac_sample_rate ac,
               vu_channels = ac_channels ac,
               vu_sample_width_bytes = ac_sample_width_bytes ac,
               vu_duration_ms = int (length (sg_active_chunks sg)) * ac_chunk_ms ac,
               vu_speech_ms = int (sg_speech_chunks sg) * ac_chunk_ms ac,
               vu_completion_reason = reason\<rparr>
        in ((result_of frame)\<lparr>sr_utterance := Some utterance\<rparr>, clear_active_state sg))"

definition process_active ::
    "pcm \<Rightarrow> vad_frame \<Rightarrow> 'd segmenter \<Rightarrow> segmentation_result \<times> 'd segmenter" where
  "process_active p frame sg =
     (let sg1 = sg\<lparr>sg_active_chunks := sg_active_chunks sg @ [p]\<rparr>;
          sg2 = (if vf_speech frame
                 then sg1\<lparr>sg_speech_chunks := Suc (sg_speech_chunks sg1), sg_silence_chunks := 0\<rparr>
                 else sg1\<lparr>sg_silence_chunks := Suc (sg_silence_chunks sg1)\<rparr>)
      in if length (sg_active_chunks sg2) \<ge> sg_maximum_chunks sg2
         then segmenter_finish frame Maximum_Duration sg2
         else if sg_silence_chunks sg2 \<ge> sg_end_silence_chunks sg2
         then segmenter_finish frame Silence sg2
         else (result_of frame, sg2))"

definition segmenter_process ::
    "'d vad_detector \<Rightarrow> pcm \<Rightarrow> ('d segmenter, segmentation_result) act" where
  "segmenter_process det p sg =
     (if int (length p) \<noteq> chunk_bytes (sg_audio_config sg) then
        (Inl (ValueError ''PCM chunk must contain exactly chunk_bytes bytes''), sg)
      else case det_analyze det p (sg_detector sg) of
        (Inl e, d) \<Rightarrow> (Inl e, sg\<lparr>sg_detector := d\<rparr>)
      | (Inr frame, d) \<Rightarrow>
          let sg' = sg\<lparr>sg_detector := d\<rparr>;
              (r, sg'') = (if \<not> sg_active sg' then process_idle p frame sg'
                           else process_active p frame sg')
          in (Inr r, sg''))"

section \<open>Steps of the segmenter\<close>

lemmas core_defs [seg_simps] =
  process_idle_def process_active_def segmenter_finish_def clear_active_state_def
  result_of_def pre_roll_maxlen_def Let_def

lemma milliseconds_to_chunks_ge: "minimum \<le> milliseconds_to_chunks ms c minimum"
  by (simp add: milliseconds_to_chunks_def)

text \<open>The chunks a limit stands for always cover the configured time.\<close>

lemma milliseconds_to_chunks_covers:
  assumes "0 < c" shows "ms \<le> int (milliseconds_to_chunks ms c minimum) * c"
proof (cases "ms \<le> 0")
  case True
  moreover have "0 \<le> int minimum * c" using assms by simp
  ultimately show ?thesis by (simp add: milliseconds_to_chunks_def del: zero_le_mult_iff)
next
  case False
  let ?q = "- (- ms div c)"
  have "(- ms div c) * c \<le> - ms"
    using div_mult_mod_eq[of "- ms" c] pos_mod_sign[OF assms, of "- ms"] by linarith
  then have q: "ms \<le> ?q * c" by simp
  have "nat ?q \<le> milliseconds_to_chunks ms c minimum"
    using False by (simp add: milliseconds_to_chunks_def)
  then have "?q \<le> int (milliseconds_to_chunks ms c minimum)" by linarith
  then have "?q * c \<le> int (milliseconds_to_chunks ms c minimum) * c"
    by (rule mult_right_mono) (use assms in simp)
  with q show ?thesis by simp
qed

text \<open>A step that returns is the idle or the active step on the detector's frame.\<close>

lemma segmenter_process_InrE:
  assumes "segmenter_process det p sg = (Inr r, sg')"
  obtains frame d where
    "int (length p) = chunk_bytes (sg_audio_config sg)"
    "det_analyze det p (sg_detector sg) = (Inr frame, d)"
    "\<not> sg_active sg \<Longrightarrow> process_idle p frame (sg\<lparr>sg_detector := d\<rparr>) = (r, sg')"
    "sg_active sg \<Longrightarrow> process_active p frame (sg\<lparr>sg_detector := d\<rparr>) = (r, sg')"
  using assms
  by (auto simp: segmenter_process_def Let_def split: if_splits prod.splits sum.splits)

text \<open>A step that raises leaves everything but the detector's own state alone.\<close>

lemma segmenter_process_Inl:
  "segmenter_process det p sg = (Inl e, sg') \<Longrightarrow> \<exists>d. sg' = sg\<lparr>sg_detector := d\<rparr>"
  by (cases "int (length p) = chunk_bytes (sg_audio_config sg)")
     (auto simp: segmenter_process_def Let_def split: prod.splits sum.splits
       intro: exI[of _ "sg_detector sg"])

definition same_limits :: "'d segmenter \<Rightarrow> 'd segmenter \<Rightarrow> bool" where
  "same_limits sg sg' \<longleftrightarrow>
     sg_audio_config sg' = sg_audio_config sg \<and> sg_start_chunks sg' = sg_start_chunks sg
     \<and> sg_end_silence_chunks sg' = sg_end_silence_chunks sg
     \<and> sg_pre_roll_chunks sg' = sg_pre_roll_chunks sg
     \<and> sg_minimum_speech_chunks sg' = sg_minimum_speech_chunks sg
     \<and> sg_maximum_chunks sg' = sg_maximum_chunks sg"

lemma same_limits_refl [simp]: "same_limits sg sg"
  by (simp add: same_limits_def)

lemma same_limits_trans: "same_limits a b \<Longrightarrow> same_limits b c \<Longrightarrow> same_limits a c"
  by (simp add: same_limits_def)

lemma process_idle_limits: "process_idle p f sg = (r, sg') \<Longrightarrow> same_limits sg sg'"
  by (auto simp: seg_simps same_limits_def split: if_splits)

lemma process_active_limits: "process_active p f sg = (r, sg') \<Longrightarrow> same_limits sg sg'"
  by (auto simp: seg_simps same_limits_def split: if_splits)

lemma segmenter_process_limits:
  "segmenter_process det p sg = (r, sg') \<Longrightarrow> same_limits sg sg'"
proof (cases r)
  case (Inl e)
  assume "segmenter_process det p sg = (r, sg')"
  with Inl show ?thesis by (auto dest!: segmenter_process_Inl simp: same_limits_def)
next
  case (Inr x)
  assume "segmenter_process det p sg = (r, sg')"
  then have step: "segmenter_process det p sg = (Inr x, sg')" using Inr by simp
  have upd: "same_limits sg (sg\<lparr>sg_detector := d\<rparr>)" for d by (simp add: same_limits_def)
  from step show ?thesis
    by (rule segmenter_process_InrE)
       (cases "sg_active sg"; blast intro: same_limits_trans[OF upd] process_idle_limits
          process_active_limits)
qed

section \<open>The segmenter's invariant\<close>

text \<open>
  What construction from checked configurations gives, and what holds between calls. While
  idle nothing is buffered but the bounded pre-roll; while active the pre-roll is empty, the
  utterance so far is non-empty and neither limit has been reached.
\<close>

definition segmenter_wf :: "'d segmenter \<Rightarrow> bool" where
  "segmenter_wf sg \<longleftrightarrow>
     1 \<le> sg_start_chunks sg \<and> 1 \<le> sg_end_silence_chunks sg \<and> 1 \<le> sg_maximum_chunks sg
     \<and> 0 < ac_chunk_ms (sg_audio_config sg)"

definition pre_roll_limit :: "'d segmenter \<Rightarrow> nat" where
  "pre_roll_limit sg = max 1 (sg_pre_roll_chunks sg)"

definition utterance_limit :: "'d segmenter \<Rightarrow> nat" where
  "utterance_limit sg = max (sg_maximum_chunks sg) (Suc (pre_roll_limit sg))"

definition chunk_sized :: "'d segmenter \<Rightarrow> pcm \<Rightarrow> bool" where
  "chunk_sized sg p \<longleftrightarrow> int (length p) = chunk_bytes (sg_audio_config sg)"

definition segmenter_inv :: "'d segmenter \<Rightarrow> bool" where
  "segmenter_inv sg \<longleftrightarrow> segmenter_wf sg
     \<and> (\<forall>p \<in> set (sg_pre_roll sg @ sg_active_chunks sg). chunk_sized sg p)
     \<and> (if sg_active sg then
          sg_consecutive_speech sg = 0 \<and> sg_pre_roll sg = [] \<and> sg_active_chunks sg \<noteq> []
          \<and> length (sg_active_chunks sg) < utterance_limit sg
          \<and> sg_silence_chunks sg < sg_end_silence_chunks sg
        else
          sg_active_chunks sg = [] \<and> sg_speech_chunks sg = 0 \<and> sg_silence_chunks sg = 0
          \<and> sg_consecutive_speech sg < sg_start_chunks sg
          \<and> length (sg_pre_roll sg) \<le> sg_pre_roll_chunks sg)"

lemma segmenter_init_wf:
  assumes "audio_config_check ac = Inr ac" and "vad_config_check vc = Inr vc"
  shows "segmenter_wf (segmenter_init ac vc d)"
  using assms milliseconds_to_chunks_ge[of 1]
  by (auto simp: segmenter_wf_def segmenter_init_def audio_config_check_def split: if_splits)

lemma segmenter_init_inv:
  "segmenter_wf (segmenter_init ac vc d) \<Longrightarrow> segmenter_inv (segmenter_init ac vc d)"
  by (auto simp: segmenter_inv_def segmenter_init_def segmenter_wf_def)

lemma segmenter_reset_inv: "segmenter_inv sg \<Longrightarrow> segmenter_inv (segmenter_reset det sg)"
  by (auto simp: segmenter_inv_def segmenter_reset_def segmenter_wf_def)

lemma process_idle_inv:
  assumes "process_idle p f sg = (r, sg')" and "segmenter_inv sg" and "\<not> sg_active sg"
    and "chunk_sized sg p"
  shows "segmenter_inv sg'"
proof -
  have dq: "x \<in> set (deque_append m xs p) \<Longrightarrow> x \<in> set xs \<or> x = p" for m xs x
    using set_mono_suffix[OF deque_append_suffix[of m xs p]] by auto
  show ?thesis
    using assms
    by (auto simp: seg_simps segmenter_inv_def segmenter_wf_def chunk_sized_def
          pre_roll_limit_def utterance_limit_def deque_append_length_eq deque_append_Nil
        dest!: dq split: if_splits)
qed

lemma segmenter_finish_inv:
  "segmenter_wf sg \<Longrightarrow> segmenter_inv (snd (segmenter_finish f reason sg))"
  by (auto simp: segmenter_finish_def clear_active_state_def Let_def segmenter_inv_def
      segmenter_wf_def)

lemma process_active_inv:
  assumes "process_active p f sg = (r, sg')" and inv: "segmenter_inv sg" and act: "sg_active sg"
    and p: "chunk_sized sg p"
  shows "segmenter_inv sg'"
proof -
  define sg1 where "sg1 = sg\<lparr>sg_active_chunks := sg_active_chunks sg @ [p]\<rparr>"
  define sg2 where "sg2 =
     (if vf_speech f
      then sg1\<lparr>sg_speech_chunks := Suc (sg_speech_chunks sg1), sg_silence_chunks := 0\<rparr>
      else sg1\<lparr>sg_silence_chunks := Suc (sg_silence_chunks sg1)\<rparr>)"
  have wf: "segmenter_wf sg2"
    using inv by (simp add: sg2_def sg1_def segmenter_inv_def segmenter_wf_def)
  have fin: "segmenter_finish f reason sg2 = (r, sg') \<Longrightarrow> segmenter_inv sg'" for reason
    using segmenter_finish_inv[OF wf, of f reason] by simp
  have cont: "segmenter_inv sg2"
    if "length (sg_active_chunks sg2) < sg_maximum_chunks sg2"
      and "sg_silence_chunks sg2 < sg_end_silence_chunks sg2"
    using that wf inv act p
    by (auto simp: segmenter_inv_def sg2_def sg1_def chunk_sized_def utterance_limit_def)
  have eq: "process_active p f sg =
      (if length (sg_active_chunks sg2) \<ge> sg_maximum_chunks sg2
       then segmenter_finish f Maximum_Duration sg2
       else if sg_silence_chunks sg2 \<ge> sg_end_silence_chunks sg2
       then segmenter_finish f Silence sg2
       else (result_of f, sg2))"
    by (simp only: process_active_def Let_def sg1_def sg2_def)
  show ?thesis
  proof (cases "length (sg_active_chunks sg2) \<ge> sg_maximum_chunks sg2
      \<or> sg_silence_chunks sg2 \<ge> sg_end_silence_chunks sg2")
    case True
    with eq assms(1) show ?thesis by (metis fin)
  next
    case False
    then have "process_active p f sg = (result_of f, sg2)"
      by (simp only: eq de_Morgan_disj if_False)
    with assms(1) have "sg' = sg2" by simp
    with False cont show ?thesis by (simp only: de_Morgan_disj not_le)
  qed
qed

lemma segmenter_inv_detector: "segmenter_inv (sg\<lparr>sg_detector := d\<rparr>) = segmenter_inv sg"
  by (simp add: segmenter_inv_def segmenter_wf_def chunk_sized_def pre_roll_limit_def
      utterance_limit_def)

text \<open>
  Whatever both kinds of step establish, under the invariant and for a chunk of the right
  size, a step that returns establishes.
\<close>

lemma segmenter_process_rule:
  assumes step: "segmenter_process det p sg = (Inr r, sg')" and inv: "segmenter_inv sg"
    and idle: "\<And>frame d. \<lbrakk>\<not> sg_active sg; chunk_sized sg p;
      process_idle p frame (sg\<lparr>sg_detector := d\<rparr>) = (r, sg')\<rbrakk> \<Longrightarrow> Q"
    and active: "\<And>frame d. \<lbrakk>sg_active sg; chunk_sized sg p;
      process_active p frame (sg\<lparr>sg_detector := d\<rparr>) = (r, sg')\<rbrakk> \<Longrightarrow> Q"
  shows Q
  using step
proof (rule segmenter_process_InrE)
  fix frame d
  assume "int (length p) = chunk_bytes (sg_audio_config sg)"
    and i: "\<not> sg_active sg \<Longrightarrow> process_idle p frame (sg\<lparr>sg_detector := d\<rparr>) = (r, sg')"
    and a: "sg_active sg \<Longrightarrow> process_active p frame (sg\<lparr>sg_detector := d\<rparr>) = (r, sg')"
  then have p: "chunk_sized sg p" by (simp add: chunk_sized_def)
  show Q
  proof (cases "sg_active sg")
    case True show ?thesis by (rule active[OF True p a[OF True]])
  next
    case False show ?thesis by (rule idle[OF False p i[OF False]])
  qed
qed

lemma chunk_sized_detector [simp]: "chunk_sized (sg\<lparr>sg_detector := d\<rparr>) p = chunk_sized sg p"
  by (simp add: chunk_sized_def)

lemma segmenter_process_inv:
  assumes "segmenter_inv sg" shows "segmenter_inv (snd (segmenter_process det p sg))"
proof -
  obtain r sg' where eq: "segmenter_process det p sg = (r, sg')" by fastforce
  show ?thesis
  proof (cases r)
    case (Inl e)
    with eq assms show ?thesis
      by (auto dest!: segmenter_process_Inl simp: segmenter_inv_detector)
  next
    case (Inr x)
    with eq have "segmenter_process det p sg = (Inr x, sg')" by simp
    then have "segmenter_inv sg'"
      by (rule segmenter_process_rule[OF _ assms])
         (erule process_idle_inv process_active_inv; simp add: segmenter_inv_detector assms)+
    with eq show ?thesis by simp
  qed
qed

section \<open>Runs of the segmenter\<close>

text \<open>
  \<open>segmenter_trace det sg0 cs fl us sg\<close>: from \<open>sg0\<close>, calls that processed the chunks \<open>cs\<close>,
  which the detector classified as \<open>fl\<close>, and calls of \<open>reset\<close> in between, emitted the
  utterances \<open>us\<close> and led to \<open>sg\<close>.
\<close>

definition emitted :: "segmentation_result \<Rightarrow> voice_utterance list" where
  "emitted r = (case sr_utterance r of None \<Rightarrow> [] | Some u \<Rightarrow> [u])"

inductive segmenter_trace ::
    "'d vad_detector \<Rightarrow> 'd segmenter \<Rightarrow> pcm list \<Rightarrow> bool list \<Rightarrow> voice_utterance list
     \<Rightarrow> 'd segmenter \<Rightarrow> bool" for det sg0 where
  trace_start: "segmenter_trace det sg0 [] [] [] sg0"
| trace_process: "segmenter_trace det sg0 cs fl us sg \<Longrightarrow>
    segmenter_process det p sg = (Inr r, sg') \<Longrightarrow>
    segmenter_trace det sg0 (cs @ [p]) (fl @ [vf_speech (sr_frame r)]) (us @ emitted r) sg'"
| trace_reset: "segmenter_trace det sg0 cs fl us sg \<Longrightarrow>
    segmenter_trace det sg0 cs fl us (segmenter_reset det sg)"

lemma segmenter_trace_inv:
  "segmenter_trace det sg0 cs fl us sg \<Longrightarrow> segmenter_inv sg0 \<Longrightarrow> segmenter_inv sg"
proof (induction rule: segmenter_trace.induct)
  case (trace_process cs fl us sg p r sg')
  then show ?case using segmenter_process_inv[of sg det p] by simp
qed (auto intro: segmenter_reset_inv)

lemma segmenter_trace_limits:
  "segmenter_trace det sg0 cs fl us sg \<Longrightarrow> same_limits sg0 sg"
proof (induction rule: segmenter_trace.induct)
  case (trace_process cs fl us sg p r sg')
  then show ?case by (blast intro: same_limits_trans segmenter_process_limits)
qed (auto simp: same_limits_def segmenter_reset_def)

subsection \<open>Utterances are disjoint pieces of the stream\<close>

definition pending :: "'d segmenter \<Rightarrow> pcm" where
  "pending sg = concat (sg_pre_roll sg @ sg_active_chunks sg)"

lemma process_idle_pending:
  assumes "process_idle p f sg = (r, sg')" and "segmenter_inv sg" and "\<not> sg_active sg"
  shows "suffix (pending sg') (pending sg @ p) \<and> sr_utterance r = None"
proof -
  have dq: "suffix (concat (deque_append m xs p)) (concat xs @ p)" for m xs
    using suffix_concat[OF deque_append_suffix[of m xs p]] by simp
  show ?thesis
    using assms dq[of _ "sg_pre_roll sg"]
    by (auto simp: seg_simps pending_def segmenter_inv_def suffix_def split: if_splits)
qed

lemma process_active_pending:
  assumes "process_active p f sg = (r, sg')" and "segmenter_inv sg" and "sg_active sg"
  shows "case sr_utterance r of None \<Rightarrow> suffix (pending sg') (pending sg @ p)
    | Some u \<Rightarrow> vu_pcm u = pending sg @ p \<and> pending sg' = []"
  using assms
  by (auto simp: seg_simps pending_def segmenter_inv_def suffix_def split: if_splits)

lemma segmenter_process_pending:
  assumes "segmenter_process det p sg = (Inr r, sg')" and "segmenter_inv sg"
  shows "case sr_utterance r of None \<Rightarrow> suffix (pending sg') (pending sg @ p)
    | Some u \<Rightarrow> vu_pcm u = pending sg @ p \<and> pending sg' = []"
  using assms
proof (rule segmenter_process_rule)
  have pd: "pending (sg\<lparr>sg_detector := d\<rparr>) = pending sg" for d by (simp add: pending_def)
  { fix frame d assume "\<not> sg_active sg"
      and "process_idle p frame (sg\<lparr>sg_detector := d\<rparr>) = (r, sg')"
    then show ?thesis
      using process_idle_pending[of p frame "sg\<lparr>sg_detector := d\<rparr>"] assms(2)
      by (simp add: segmenter_inv_detector pd) }
  { fix frame d assume "sg_active sg"
      and "process_active p frame (sg\<lparr>sg_detector := d\<rparr>) = (r, sg')"
    then show ?thesis
      using process_active_pending[of p frame "sg\<lparr>sg_detector := d\<rparr>"] assms(2)
      by (simp add: segmenter_inv_detector pd split: option.splits) }
qed

lemma segmenter_trace_pending:
  assumes "segmenter_trace det sg0 cs fl us sg" and "segmenter_inv sg0" and "pending sg0 = []"
  shows "\<exists>q r. concat cs = q @ r \<and> in_order q (map vu_pcm us) \<and> suffix (pending sg) r"
  using assms
proof (induction rule: segmenter_trace.induct)
  case (trace_process cs fl us sg p r sg')
  then obtain q rest where cs: "concat cs = q @ rest" and io: "in_order q (map vu_pcm us)"
    and sf: "suffix (pending sg) rest" by auto
  from trace_process.hyps(1) trace_process.prems(1) have "segmenter_inv sg"
    by (rule segmenter_trace_inv)
  note step = segmenter_process_pending[OF trace_process.hyps(2) this]
  from sf have sp: "suffix (pending sg @ p) (rest @ p)" by (auto simp: suffix_def)
  show ?case
  proof (cases "sr_utterance r")
    case None
    with step sp have "suffix (pending sg') (rest @ p)"
      by (auto intro: suffix_order.trans)
    with cs io None show ?thesis
      by (intro exI[of _ q] exI[of _ "rest @ p"]) (simp add: emitted_def)
  next
    case (Some u)
    with step sp have "suffix (vu_pcm u) (rest @ p)" and "pending sg' = []" by auto
    with cs io Some in_order_snoc[OF io, of "vu_pcm u" "rest @ p"] show ?thesis
      by (intro exI[of _ "q @ rest @ p"] exI[of _ "[]"]) (simp add: emitted_def)
  qed
next
  case (trace_reset cs fl us sg)
  then show ?case by (force simp: pending_def segmenter_reset_def)
qed (auto intro!: exI[of _ "[]"])

lemma segmenter_trace_in_order:
  assumes "segmenter_trace det sg0 cs fl us sg" and "segmenter_inv sg0" and "pending sg0 = []"
  shows "in_order (concat cs) (map vu_pcm us)"
  using segmenter_trace_pending[OF assms] by (auto intro: in_order_append)

subsection \<open>Confirmation and trailing silence\<close>

definition flags_agree :: "bool list \<Rightarrow> 'd segmenter \<Rightarrow> bool" where
  "flags_agree fl sg \<longleftrightarrow>
     (if sg_active sg then sg_silence_chunks sg \<le> trailing Not fl
      else sg_consecutive_speech sg \<le> trailing (\<lambda>b. b) fl)"

lemma process_idle_flags:
  assumes "process_idle p f sg = (r, sg')" and "\<not> sg_active sg" and "flags_agree fl sg"
  shows "flags_agree (fl @ [vf_speech (sr_frame r)]) sg'
    \<and> (sr_speech_started r \<longrightarrow>
        sg_start_chunks sg \<le> trailing (\<lambda>b. b) (fl @ [vf_speech (sr_frame r)]))"
  using assms by (auto simp: seg_simps flags_agree_def split: if_splits)

lemma process_active_flags:
  assumes "process_active p f sg = (r, sg')" and "sg_active sg" and "flags_agree fl sg"
  shows "flags_agree (fl @ [vf_speech (sr_frame r)]) sg' \<and> \<not> sr_speech_started r
    \<and> (\<forall>u. sr_utterance r = Some u \<longrightarrow> vu_completion_reason u = Silence \<longrightarrow>
        sg_end_silence_chunks sg \<le> trailing Not (fl @ [vf_speech (sr_frame r)]))"
  using assms by (auto simp: seg_simps flags_agree_def split: if_splits)

lemma segmenter_process_flags:
  assumes "segmenter_process det p sg = (Inr r, sg')" and "segmenter_inv sg"
    and fl: "flags_agree fl sg"
  shows "flags_agree (fl @ [vf_speech (sr_frame r)]) sg'
    \<and> (sr_speech_started r \<longrightarrow>
        sg_start_chunks sg \<le> trailing (\<lambda>b. b) (fl @ [vf_speech (sr_frame r)]))
    \<and> (\<forall>u. sr_utterance r = Some u \<longrightarrow> vu_completion_reason u = Silence \<longrightarrow>
        sg_end_silence_chunks sg \<le> trailing Not (fl @ [vf_speech (sr_frame r)]))"
  using assms(1,2)
proof (rule segmenter_process_rule)
  have up: "flags_agree fl (sg\<lparr>sg_detector := d\<rparr>)" for d
    using fl by (simp add: flags_agree_def)
  { fix frame d assume "\<not> sg_active sg"
      and st: "process_idle p frame (sg\<lparr>sg_detector := d\<rparr>) = (r, sg')"
    then show ?thesis
      using process_idle_flags[OF st _ up] process_idle_pending[OF st] assms(2)
      by (simp add: segmenter_inv_detector) }
  { fix frame d assume "sg_active sg"
      and st: "process_active p frame (sg\<lparr>sg_detector := d\<rparr>) = (r, sg')"
    then show ?thesis
      using process_active_flags[OF st _ up] by simp }
qed

lemma segmenter_trace_flags:
  assumes "segmenter_trace det sg0 cs fl us sg" and "segmenter_inv sg0" and "flags_agree [] sg0"
  shows "flags_agree fl sg"
  using assms
proof (induction rule: segmenter_trace.induct)
  case (trace_process cs fl us sg p r sg')
  then show ?case
    using segmenter_process_flags[OF trace_process.hyps(2)] segmenter_trace_inv by blast
qed (auto simp: flags_agree_def segmenter_reset_def)

lemma segmenter_init_flags: "flags_agree [] (segmenter_init ac vc d)"
  by (simp add: flags_agree_def segmenter_init_def)

subsection \<open>The shape of an emitted utterance\<close>

text \<open>
  Every emitted utterance is non-empty, at most \<open>utterance_limit\<close> chunks long, holds exactly
  the bytes its duration claims, carries the format of the configuration, and holds at least
  the configured minimum of speech.
\<close>

definition utterance_ok :: "'d segmenter \<Rightarrow> voice_utterance \<Rightarrow> bool" where
  "utterance_ok sg u \<longleftrightarrow>
     (let ac = sg_audio_config sg in
        0 < vu_duration_ms u
        \<and> vu_duration_ms u \<le> int (utterance_limit sg) * ac_chunk_ms ac
        \<and> int (length (vu_pcm u)) * ac_chunk_ms ac = vu_duration_ms u * chunk_bytes ac
        \<and> int (sg_minimum_speech_chunks sg) * ac_chunk_ms ac \<le> vu_speech_ms u
        \<and> vu_sample_rate u = ac_sample_rate ac \<and> vu_channels u = ac_channels ac
        \<and> vu_sample_width_bytes u = ac_sample_width_bytes ac)"

lemma length_concat_chunks:
  "\<forall>p \<in> set ps. chunk_sized sg p \<Longrightarrow>
     int (length (concat ps)) = int (length ps) * chunk_bytes (sg_audio_config sg)"
  by (induction ps) (auto simp: chunk_sized_def algebra_simps)

lemma segmenter_finish_ok:
  assumes fin: "segmenter_finish f reason sg = (r, sg')" and u: "sr_utterance r = Some u"
    and sized: "\<forall>p \<in> set (sg_active_chunks sg). chunk_sized sg p"
    and len: "0 < length (sg_active_chunks sg)" "length (sg_active_chunks sg) \<le> utterance_limit sg"
    and ms: "0 < ac_chunk_ms (sg_audio_config sg)"
  shows "utterance_ok sg u"
proof -
  have u': "vu_pcm u = concat (sg_active_chunks sg)"
    "vu_duration_ms u = int (length (sg_active_chunks sg)) * ac_chunk_ms (sg_audio_config sg)"
    "vu_speech_ms u = int (sg_speech_chunks sg) * ac_chunk_ms (sg_audio_config sg)"
    "vu_sample_rate u = ac_sample_rate (sg_audio_config sg)"
    "vu_channels u = ac_channels (sg_audio_config sg)"
    "vu_sample_width_bytes u = ac_sample_width_bytes (sg_audio_config sg)"
    "sg_minimum_speech_chunks sg \<le> sg_speech_chunks sg"
    using fin u by (auto simp: segmenter_finish_def result_of_def Let_def split: if_splits)
  have "int (length (vu_pcm u)) * ac_chunk_ms (sg_audio_config sg)
      = vu_duration_ms u * chunk_bytes (sg_audio_config sg)"
    by (simp add: u' length_concat_chunks[OF sized])
  with u' len ms show ?thesis
    by (simp add: utterance_ok_def Let_def)
qed

lemma process_active_ok:
  assumes st: "process_active p f sg = (r, sg')" and u: "sr_utterance r = Some u"
    and inv: "segmenter_inv sg" and act: "sg_active sg" and p: "chunk_sized sg p"
  shows "utterance_ok sg u"
proof -
  define sg2 where "sg2 =
     (if vf_speech f
      then sg\<lparr>sg_active_chunks := sg_active_chunks sg @ [p],
              sg_speech_chunks := Suc (sg_speech_chunks sg), sg_silence_chunks := 0\<rparr>
      else sg\<lparr>sg_active_chunks := sg_active_chunks sg @ [p],
              sg_silence_chunks := Suc (sg_silence_chunks sg)\<rparr>)"
  obtain reason where fin: "segmenter_finish f reason sg2 = (r, sg')"
    using st u by (auto simp: process_active_def Let_def sg2_def result_of_def split: if_splits)
  have same: "utterance_ok sg2 u = utterance_ok sg u"
    by (simp add: utterance_ok_def sg2_def utterance_limit_def pre_roll_limit_def Let_def)
  have "utterance_ok sg2 u"
    using fin u
  proof (rule segmenter_finish_ok)
    show "\<forall>q \<in> set (sg_active_chunks sg2). chunk_sized sg2 q"
      using inv act p by (auto simp: segmenter_inv_def sg2_def chunk_sized_def)
  qed (use inv act in \<open>auto simp: segmenter_inv_def segmenter_wf_def sg2_def utterance_limit_def
      pre_roll_limit_def\<close>)
  with same show ?thesis by simp
qed

lemma segmenter_process_ok:
  assumes "segmenter_process det p sg = (Inr r, sg')" and "segmenter_inv sg"
    and u: "sr_utterance r = Some u"
  shows "utterance_ok sg u"
  using assms(1,2)
proof (rule segmenter_process_rule)
  { fix frame d assume "\<not> sg_active sg"
      and st: "process_idle p frame (sg\<lparr>sg_detector := d\<rparr>) = (r, sg')"
    then show ?thesis using process_idle_pending[OF st] assms(2) u
      by (simp add: segmenter_inv_detector) }
  { fix frame d assume "sg_active sg" "chunk_sized sg p"
      and st: "process_active p frame (sg\<lparr>sg_detector := d\<rparr>) = (r, sg')"
    then have "utterance_ok (sg\<lparr>sg_detector := d\<rparr>) u"
      using process_active_ok[OF st u] assms(2) by (simp add: segmenter_inv_detector)
    then show ?thesis
      by (simp add: utterance_ok_def utterance_limit_def pre_roll_limit_def Let_def) }
qed

lemma utterance_ok_limits: "same_limits sg sg' \<Longrightarrow> utterance_ok sg' u = utterance_ok sg u"
  by (simp add: utterance_ok_def utterance_limit_def pre_roll_limit_def same_limits_def Let_def)

lemma segmenter_trace_ok:
  assumes "segmenter_trace det sg0 cs fl us sg" and "segmenter_inv sg0"
  shows "\<forall>u \<in> set us. utterance_ok sg0 u"
  using assms
proof (induction rule: segmenter_trace.induct)
  case (trace_process cs fl us sg p r sg')
  then have "segmenter_inv sg" and "same_limits sg0 sg"
    by (blast intro: segmenter_trace_inv segmenter_trace_limits)+
  then have "sr_utterance r = Some u \<Longrightarrow> utterance_ok sg0 u" for u
    using segmenter_process_ok[OF trace_process.hyps(2)] utterance_ok_limits by blast
  with trace_process show ?case by (auto simp: emitted_def split: option.splits)
qed auto

section \<open>The contract the capture loops rely on\<close>

text \<open>
  The wake loop, the follow-up capture and the barge-in monitor use a segmenter through
  \<open>process\<close> and \<open>reset\<close> only. The contract: an invariant is kept, an emitted utterance is
  good, and between its start and its end (an utterance or a discarded one) the segmenter is
  active, never otherwise.
\<close>

locale utterance_segmenter =
  fixes process :: "pcm \<Rightarrow> ('s, segmentation_result) act"
    and reset :: "'s \<Rightarrow> 's"
    and inv :: "'s \<Rightarrow> bool"
    and active :: "'s \<Rightarrow> bool"
    and good :: "voice_utterance \<Rightarrow> bool"
  assumes process_inv: "inv s \<Longrightarrow> inv (snd (process p s))"
    and reset_inv: "inv s \<Longrightarrow> inv (reset s)"
    and process_good: "inv s \<Longrightarrow> process p s = (Inr r, s') \<Longrightarrow> sr_utterance r = Some u \<Longrightarrow> good u"
    and process_active: "process p s = (Inr r, s') \<Longrightarrow> active s \<Longrightarrow>
      \<not> sr_speech_started r
      \<and> (active s' \<longleftrightarrow> sr_utterance r = None \<and> \<not> sr_discarded_short_utterance r)"
    and process_idle: "process p s = (Inr r, s') \<Longrightarrow> \<not> active s \<Longrightarrow>
      sr_utterance r = None \<and> \<not> sr_discarded_short_utterance r
      \<and> (active s' \<longleftrightarrow> sr_speech_started r)"
    and process_raises: "process p s = (Inl e, s') \<Longrightarrow> active s' \<longleftrightarrow> active s"
    and reset_idle: "\<not> active (reset s)"
begin

lemma process_inv_step: "inv s \<Longrightarrow> process p s = (r, s') \<Longrightarrow> inv s'"
  using process_inv[of s p] by simp

end

lemma segmenter_process_active_law:
  assumes "segmenter_process det p sg = (Inr r, sg')"
  shows "if sg_active sg then \<not> sr_speech_started r \<and>
      (sg_active sg' \<longleftrightarrow> sr_utterance r = None \<and> \<not> sr_discarded_short_utterance r)
    else sr_utterance r = None \<and> \<not> sr_discarded_short_utterance r
      \<and> (sg_active sg' \<longleftrightarrow> sr_speech_started r)"
  using assms
proof (rule segmenter_process_InrE)
  fix frame d
  assume i: "\<not> sg_active sg \<Longrightarrow> process_idle p frame (sg\<lparr>sg_detector := d\<rparr>) = (r, sg')"
    and a: "sg_active sg \<Longrightarrow> process_active p frame (sg\<lparr>sg_detector := d\<rparr>) = (r, sg')"
  show ?thesis
  proof (cases "sg_active sg")
    case True
    from a[OF True] True show ?thesis by (auto simp: seg_simps split: if_splits)
  next
    case False
    from i[OF False] False show ?thesis by (auto simp: seg_simps split: if_splits)
  qed
qed

text \<open>The segmenter meets its contract, with the limits it was constructed with.\<close>

interpretation vad_segmenter: utterance_segmenter "segmenter_process det" "segmenter_reset det"
    "\<lambda>sg. segmenter_inv sg \<and> same_limits sg0 sg" sg_active "utterance_ok sg0"
  for det :: "'d vad_detector" and sg0 :: "'d segmenter"
proof unfold_locales
  show "segmenter_inv (snd (segmenter_process det p s)) \<and>
      same_limits sg0 (snd (segmenter_process det p s))"
    if "segmenter_inv s \<and> same_limits sg0 s" for s p
    using that segmenter_process_inv[of s det p]
      segmenter_process_limits[of det p s "fst (segmenter_process det p s)"]
    by (auto intro: same_limits_trans)
  show "segmenter_inv (segmenter_reset det s) \<and> same_limits sg0 (segmenter_reset det s)"
    if "segmenter_inv s \<and> same_limits sg0 s" for s
    using that segmenter_reset_inv[of s det] by (simp add: same_limits_def segmenter_reset_def)
  show "utterance_ok sg0 u"
    if "segmenter_inv s \<and> same_limits sg0 s" and "segmenter_process det p s = (Inr r, s')"
      and "sr_utterance r = Some u" for s p r s' u
    using that segmenter_process_ok[of det p s r s' u] utterance_ok_limits by blast
  show "sg_active s' \<longleftrightarrow> sg_active s" if "segmenter_process det p s = (Inl e, s')" for p s e s'
    using segmenter_process_Inl[OF that] by auto
  show "\<not> sg_active (segmenter_reset det s)" for s
    by (simp add: segmenter_reset_def)
qed (auto dest: segmenter_process_active_law)

text \<open>
  A segmenter that records: what it buffers between calls is the end of what it was given
  since the last reset, and an utterance is all of that buffer and the chunk that ended it.
\<close>

locale recording_segmenter = utterance_segmenter process reset inv active good
  for process :: "pcm \<Rightarrow> ('s, segmentation_result) act"
    and reset :: "'s \<Rightarrow> 's"
    and inv :: "'s \<Rightarrow> bool"
    and active :: "'s \<Rightarrow> bool"
    and good :: "voice_utterance \<Rightarrow> bool" +
  fixes buffered :: "'s \<Rightarrow> pcm"
  assumes reset_empty: "buffered (reset s) = []"
    and process_buffered: "inv s \<Longrightarrow> process p s = (Inr r, s') \<Longrightarrow>
      (case sr_utterance r of None \<Rightarrow> suffix (buffered s') (buffered s @ p)
       | Some u \<Rightarrow> vu_pcm u = buffered s @ p \<and> buffered s' = [])"
    and raise_buffered: "process p s = (Inl e, s') \<Longrightarrow> buffered s' = buffered s"

interpretation vad_recorder: recording_segmenter "segmenter_process det" "segmenter_reset det"
    "\<lambda>sg. segmenter_inv sg \<and> same_limits sg0 sg" sg_active "utterance_ok sg0" pending
  for det :: "'d vad_detector" and sg0 :: "'d segmenter"
proof unfold_locales
  show "pending (segmenter_reset det s) = []" for s
    by (simp add: pending_def segmenter_reset_def)
  show "pending s' = pending s" if "segmenter_process det p s = (Inl e, s')" for p s e s'
    using segmenter_process_Inl[OF that] by (auto simp: pending_def)
qed (rule segmenter_process_pending; simp)

section \<open>Executable runs\<close>

fun segmenter_run ::
    "'d vad_detector \<Rightarrow> pcm list \<Rightarrow> ('d segmenter, bool list \<times> voice_utterance list) act" where
  "segmenter_run det [] sg = (Inr ([], []), sg)"
| "segmenter_run det (p # ps) sg =
     (case segmenter_process det p sg of (Inl e, sg1) \<Rightarrow> (Inl e, sg1)
      | (Inr r, sg1) \<Rightarrow>
          (case segmenter_run det ps sg1 of (Inl e, sg2) \<Rightarrow> (Inl e, sg2)
           | (Inr (fl, us), sg2) \<Rightarrow>
               (Inr (vf_speech (sr_frame r) # fl, emitted r @ us), sg2)))"

lemma segmenter_run_trace_from:
  assumes "segmenter_run det ps sg = (Inr (fl, us), sg')"
    and "segmenter_trace det sg0 cs fl0 us0 sg"
  shows "segmenter_trace det sg0 (cs @ ps) (fl0 @ fl) (us0 @ us) sg'"
  using assms
proof (induction ps arbitrary: sg cs fl0 us0 fl us)
  case (Cons p ps)
  then obtain r sg1 fl1 us1 where p: "segmenter_process det p sg = (Inr r, sg1)"
    and rest: "segmenter_run det ps sg1 = (Inr (fl1, us1), sg')"
    and fl: "fl = vf_speech (sr_frame r) # fl1" and us: "us = emitted r @ us1"
    by (auto split: prod.splits sum.splits)
  from Cons.IH[OF rest trace_process[OF Cons.prems(2) p]] fl us show ?case by simp
qed simp

lemma segmenter_run_trace:
  "segmenter_run det ps sg = (Inr (fl, us), sg') \<Longrightarrow> segmenter_trace det sg ps fl us sg'"
  by (drule segmenter_run_trace_from[OF _ trace_start]) simp

text \<open>A small configuration and a detector that hears every chunk whose first byte is set.\<close>

definition tiny_audio :: audio_config where
  "tiny_audio = \<lparr>ac_device = ''default'', ac_sample_rate = 1000, ac_channels = 1,
     ac_sample_format = ''S16_LE'', ac_sample_width_bytes = 2, ac_chunk_ms = 1,
     ac_arecord_path = ''arecord'', ac_read_timeout_seconds = None\<rparr>"

definition tiny_vad :: "int \<Rightarrow> vad_config" where
  "tiny_vad pre_roll = \<lparr>vc_absolute_speech_dbfs = -42, vc_speech_margin_db = 10,
     vc_noise_floor_initial_dbfs = -58, vc_noise_floor_alpha = 1 / 20, vc_speech_start_ms = 3,
     vc_speech_end_silence_ms = 2, vc_pre_roll_ms = pre_roll, vc_minimum_speech_ms = 1,
     vc_maximum_utterance_ms = 9\<rparr>"

definition byte_frame :: "pcm \<Rightarrow> vad_frame" where
  "byte_frame p = \<lparr>vf_dbfs = 0, vf_noise_floor_dbfs = None, vf_threshold_dbfs = None,
     vf_speech = (case p of [] \<Rightarrow> False | b # _ \<Rightarrow> b \<noteq> 0), vf_speech_probability = None\<rparr>"

definition byte_detector :: "unit vad_detector" where
  "byte_detector = \<lparr>det_analyze = (\<lambda>p d. (Inr (byte_frame p), d)), det_reset = (\<lambda>d. d)\<rparr>"

definition tiny_chunks :: "pcm list" where
  "tiny_chunks = [[0, 7], [1, 2], [3, 4], [5, 6], [0, 8], [0, 9], [0, 0]]"

lemma tiny_checks:
  "audio_config_check tiny_audio = Inr tiny_audio"
  "0 \<le> p \<Longrightarrow> vad_config_check (tiny_vad p) = Inr (tiny_vad p)"
  by (simp_all add: audio_config_check_def tiny_audio_def vad_config_check_def tiny_vad_def)

lemmas tiny_defs = tiny_audio_def tiny_vad_def byte_frame_def byte_detector_def tiny_chunks_def

lemma tiny_init:
  "segmenter_init tiny_audio (tiny_vad 4) () =
     \<lparr>sg_audio_config = tiny_audio, sg_detector = (), sg_start_chunks = 3,
      sg_end_silence_chunks = 2, sg_pre_roll_chunks = 4, sg_minimum_speech_chunks = 1,
      sg_maximum_chunks = 9, sg_pre_roll = [], sg_active_chunks = [],
      sg_consecutive_speech = 0, sg_speech_chunks = 0, sg_silence_chunks = 0,
      sg_active = False\<rparr>"
  by (simp add: segmenter_init_def tiny_defs milliseconds_to_chunks_def)

definition tiny_utterance :: voice_utterance where
  "tiny_utterance = \<lparr>vu_pcm = [0, 7, 1, 2, 3, 4, 5, 6, 0, 8, 0, 9], vu_sample_rate = 1000,
     vu_channels = 1, vu_sample_width_bytes = 2, vu_duration_ms = 6, vu_speech_ms = 3,
     vu_completion_reason = Silence\<rparr>"

lemma tiny_run:
  "fst (segmenter_run byte_detector tiny_chunks (segmenter_init tiny_audio (tiny_vad 4) ())) =
     Inr ([False, True, True, True, False, False, False], [tiny_utterance])"
  unfolding tiny_init
  by (simp add: tiny_chunks_def segmenter_process_def tiny_audio_def chunk_bytes_def
      chunk_frames_def byte_detector_def byte_frame_def process_idle_def process_active_def
      segmenter_finish_def clear_active_state_def result_of_def pre_roll_maxlen_def
      deque_append_def emitted_def tiny_utterance_def)

lemma tiny_trace:
  obtains sg where "segmenter_trace byte_detector (segmenter_init tiny_audio (tiny_vad 4) ())
    tiny_chunks [False, True, True, True, False, False, False] [tiny_utterance] sg"
proof (cases "segmenter_run byte_detector tiny_chunks (segmenter_init tiny_audio (tiny_vad 4) ())")
  case (Pair r sg)
  with tiny_run have "segmenter_run byte_detector tiny_chunks
      (segmenter_init tiny_audio (tiny_vad 4) ()) =
      (Inr ([False, True, True, True, False, False, False], [tiny_utterance]), sg)" by simp
  then show thesis by (rule that[OF segmenter_run_trace])
qed

section \<open>Levels of the energy detector\<close>

lemma length_samples: "length (samples p) = length p div 2"
  by (induction p rule: samples.induct) auto

lemma samples_range: "x \<in> set (samples p) \<Longrightarrow> - 32768 \<le> x \<and> x \<le> 32767"
proof (induction p rule: samples.induct)
  case (1 lo hi rest)
  have rng: "- 32768 \<le> sint w \<and> sint w \<le> 32767" for w :: "16 word"
    using sint_ge[of w] sint_lt[of w] by simp
  from "1.prems" consider w :: "16 word" where "x = sint w" | "x \<in> set (samples rest)"
    by auto
  then show ?case
    by cases (use rng "1.IH" in blast)+
qed auto

lemma sample_square_le:
  assumes "x \<in> set (samples p)" shows "real_of_int (x * x) \<le> 32768 ^ 2"
proof -
  have b: "\<bar>x\<bar> \<le> 32768" using samples_range[OF assms] by arith
  have "\<bar>x\<bar> * \<bar>x\<bar> \<le> 32768 * 32768" by (rule mult_mono[OF b b]) auto
  then have "x * x \<le> 32768 ^ 2" by (simp add: abs_mult_self_eq)
  then have "real_of_int (x * x) \<le> real_of_int (32768 ^ 2)" by (simp only: of_int_le_iff)
  then show ?thesis by simp
qed

lemma sum_list_le_length:
  fixes f :: "'a \<Rightarrow> real"
  shows "(\<And>x. x \<in> set xs \<Longrightarrow> f x \<le> b) \<Longrightarrow> (\<Sum>x\<leftarrow>xs. f x) \<le> real (length xs) * b"
  by (induction xs) (auto simp: algebra_simps add_mono)

lemma rms_le:
  assumes "p \<noteq> []" and "even (length p)"
  shows "sqrt ((\<Sum>x\<leftarrow>samples p. real_of_int (x * x)) / real (length p div 2)) \<le> 32768"
proof -
  have n: "0 < real (length p div 2)" using assms by (cases p) (auto elim: evenE)
  have "(\<Sum>x\<leftarrow>samples p. real_of_int (x * x)) \<le> real (length (samples p)) * 32768 ^ 2"
    by (rule sum_list_le_length) (rule sample_square_le)
  then have "(\<Sum>x\<leftarrow>samples p. real_of_int (x * x)) \<le> real (length p div 2) * 32768 ^ 2"
    by (simp only: length_samples)
  with n have "(\<Sum>x\<leftarrow>samples p. real_of_int (x * x)) / real (length p div 2) \<le> 32768 ^ 2"
    by (simp add: divide_le_eq mult.commute)
  then show ?thesis by (rule real_le_lsqrt[rotated 1]) simp
qed

lemma dbfs_range:
  assumes "pcm16_dbfs p = Inr x" shows "-120 \<le> x \<and> x \<le> 0"
proof -
  let ?rms = "sqrt ((\<Sum>x\<leftarrow>samples p. real_of_int (x * x)) / real (length p div 2))"
  have "x = min_dbfs \<or> p \<noteq> [] \<and> even (length p) \<and> 0 < ?rms \<and>
      x = max min_dbfs (20 * log 10 (?rms / 32768))"
    using assms by (auto simp: pcm16_dbfs_def Let_def not_le split: if_splits)
  then show ?thesis
  proof
    assume "x = min_dbfs" then show ?thesis by (simp add: min_dbfs_def)
  next
    assume a: "p \<noteq> [] \<and> even (length p) \<and> 0 < ?rms \<and>
      x = max min_dbfs (20 * log 10 (?rms / 32768))"
    with rms_le[of p] have "?rms / 32768 \<le> 1" and "0 < ?rms / 32768" by simp_all
    then have "log 10 (?rms / 32768) \<le> 0" by (simp add: log_le_zero_cancel_iff)
    with a show ?thesis by (simp add: min_dbfs_def)
  qed
qed

lemma convex_between:
  fixes a x y :: real
  assumes "0 \<le> a" and "a \<le> 1"
  shows "min x y \<le> (1 - a) * x + a * y \<and> (1 - a) * x + a * y \<le> max x y"
proof -
  have "(1 - a) * min x y + a * min x y \<le> (1 - a) * x + a * y"
    using assms by (intro add_mono mult_left_mono) auto
  moreover have "(1 - a) * x + a * y \<le> (1 - a) * max x y + a * max x y"
    using assms by (intro add_mono mult_left_mono) auto
  ultimately show ?thesis by (simp add: algebra_simps)
qed

section \<open>Properties\<close>

text \<open>C1: however the detector classifies the chunks and whenever the segmenter is reset, the
  utterances it emits are contiguous pieces of the audio stream, in the order of the stream
  and without overlap: no audio is invented, repeated, reordered or dropped from the middle
  of an utterance.\<close>

theorem utterances_disjoint_pieces:
  assumes "audio_config_check ac = Inr ac" and "vad_config_check vc = Inr vc"
    and "segmenter_trace det (segmenter_init ac vc d) cs fl us sg"
  shows "in_order (concat cs) (map vu_pcm us)"
  using assms(3) segmenter_init_inv[OF segmenter_init_wf[OF assms(1,2)]]
  by (rule segmenter_trace_in_order) (simp add: pending_def segmenter_init_def)

theorem utterances_disjoint_pieces_witness:
  "in_order (concat tiny_chunks) (map vu_pcm [tiny_utterance])"
proof -
  obtain sg where t: "segmenter_trace byte_detector (segmenter_init tiny_audio (tiny_vad 4) ())
    tiny_chunks [False, True, True, True, False, False, False] [tiny_utterance] sg"
    by (rule tiny_trace)
  show ?thesis
    by (rule utterances_disjoint_pieces[OF tiny_checks(1) tiny_checks(2) t]) simp
qed

text \<open>every emitted utterance is non-empty, holds exactly as many bytes as its duration
  claims, carries the configured sample format, contains at least the configured minimum of
  speech, and is no longer than the larger of the maximum duration and one chunk more than
  the pre-roll: the buffer is bounded.\<close>

theorem utterances_well_formed:
  assumes "audio_config_check ac = Inr ac" and "vad_config_check vc = Inr vc"
    and "segmenter_trace det (segmenter_init ac vc d) cs fl us sg" and "u \<in> set us"
  shows "utterance_ok (segmenter_init ac vc d) u \<and> vc_minimum_speech_ms vc \<le> vu_speech_ms u"
proof -
  have wf: "segmenter_wf (segmenter_init ac vc d)" using assms(1,2) by (rule segmenter_init_wf)
  have ok: "utterance_ok (segmenter_init ac vc d) u"
    using segmenter_trace_ok[OF assms(3) segmenter_init_inv[OF wf]] assms(4) by blast
  have "0 < ac_chunk_ms ac" using wf by (simp add: segmenter_wf_def segmenter_init_def)
  from ok milliseconds_to_chunks_covers[OF this, of "vc_minimum_speech_ms vc" 0] show ?thesis
    by (simp add: utterance_ok_def segmenter_init_def Let_def)
qed

theorem utterances_well_formed_witness:
  "utterance_ok (segmenter_init tiny_audio (tiny_vad 4) ()) tiny_utterance
   \<and> vc_minimum_speech_ms (tiny_vad 4) \<le> vu_speech_ms tiny_utterance"
proof -
  obtain sg where t: "segmenter_trace byte_detector (segmenter_init tiny_audio (tiny_vad 4) ())
    tiny_chunks [False, True, True, True, False, False, False] [tiny_utterance] sg"
    by (rule tiny_trace)
  show ?thesis
    by (rule utterances_well_formed[OF tiny_checks(1) tiny_checks(2) t]) simp_all
qed

text \<open>speech is announced only after an unbroken run of speech chunks that lasts at least
  the configured start time, and an utterance ends for silence only after an unbroken run of
  non-speech chunks that lasts at least the configured end time.\<close>

theorem segmentation_is_confirmed:
  assumes "audio_config_check ac = Inr ac" and "vad_config_check vc = Inr vc"
    and "segmenter_trace det (segmenter_init ac vc d) cs fl us sg"
    and "segmenter_process det p sg = (Inr r, sg')"
  shows "(sr_speech_started r \<longrightarrow> vc_speech_start_ms vc
      \<le> int (trailing (\<lambda>b. b) (fl @ [vf_speech (sr_frame r)])) * ac_chunk_ms ac)
    \<and> (\<forall>u. sr_utterance r = Some u \<longrightarrow> vu_completion_reason u = Silence \<longrightarrow>
      vc_speech_end_silence_ms vc
      \<le> int (trailing Not (fl @ [vf_speech (sr_frame r)])) * ac_chunk_ms ac)"
proof -
  have wf: "segmenter_wf (segmenter_init ac vc d)" using assms(1,2) by (rule segmenter_init_wf)
  then have ms: "0 < ac_chunk_ms ac" by (simp add: segmenter_wf_def segmenter_init_def)
  have sg: "segmenter_inv sg" "flags_agree fl sg" "same_limits (segmenter_init ac vc d) sg"
    using assms(3) segmenter_init_inv[OF wf]
    by (blast intro: segmenter_trace_inv segmenter_trace_flags segmenter_trace_limits
        segmenter_init_flags)+
  have cover: "milliseconds_to_chunks t (ac_chunk_ms ac) 1 \<le> n \<Longrightarrow> t \<le> int n * ac_chunk_ms ac"
    for t n
    by (rule order_trans[OF milliseconds_to_chunks_covers[OF ms]], rule mult_right_mono)
       (use ms in simp_all)
  have lim: "sg_start_chunks sg = milliseconds_to_chunks (vc_speech_start_ms vc) (ac_chunk_ms ac) 1"
    "sg_end_silence_chunks sg =
       milliseconds_to_chunks (vc_speech_end_silence_ms vc) (ac_chunk_ms ac) 1"
    using sg(3) by (simp_all add: same_limits_def segmenter_init_def)
  from segmenter_process_flags[OF assms(4) sg(1,2), unfolded lim] show ?thesis
    using cover by blast
qed

theorem segmentation_is_confirmed_witness:
  "\<exists>sg r sg'. segmenter_process byte_detector [5, 6] sg = (Inr r, sg') \<and> sr_speech_started r
     \<and> vc_speech_start_ms (tiny_vad 4)
         \<le> int (trailing (\<lambda>b. b) ([False, True, True] @ [vf_speech (sr_frame r)]))
            * ac_chunk_ms tiny_audio"
proof -
  have "\<exists>sg. segmenter_run byte_detector [[0, 7], [1, 2], [3, 4]]
        (segmenter_init tiny_audio (tiny_vad 4) ()) = (Inr ([False, True, True], []), sg)
      \<and> (\<exists>r sg'. segmenter_process byte_detector [5, 6] sg = (Inr r, sg')
           \<and> sr_speech_started r)"
    unfolding tiny_init
    by (simp add: segmenter_process_def tiny_audio_def chunk_bytes_def chunk_frames_def
        byte_detector_def byte_frame_def process_idle_def result_of_def pre_roll_maxlen_def
        deque_append_def emitted_def)
  then obtain sg r sg' where run: "segmenter_run byte_detector [[0, 7], [1, 2], [3, 4]]
        (segmenter_init tiny_audio (tiny_vad 4) ()) = (Inr ([False, True, True], []), sg)"
    and st: "segmenter_process byte_detector [5, 6] sg = (Inr r, sg')" "sr_speech_started r"
    by blast
  have "vad_config_check (tiny_vad 4) = Inr (tiny_vad 4)" by (simp add: tiny_checks)
  from segmentation_is_confirmed[OF tiny_checks(1) this segmenter_run_trace[OF run] st(1)] st
  show ?thesis by blast
qed

text \<open>the level of a PCM chunk is defined exactly for an even number of bytes and then
  lies between the silence floor of -120 dBFS and full scale at 0 dBFS.\<close>

theorem pcm16_dbfs_range:
  "case pcm16_dbfs p of Inl e \<Rightarrow> odd (length p) \<and> exn_kind e = ValueErrorC
   | Inr x \<Rightarrow> even (length p) \<and> -120 \<le> x \<and> x \<le> 0"
proof (cases "pcm16_dbfs p")
  case (Inl e)
  then show ?thesis by (auto simp: pcm16_dbfs_def Let_def split: if_splits)
next
  case (Inr x)
  then have "even (length p)" by (auto simp: pcm16_dbfs_def split: if_splits)
  with Inr dbfs_range[OF Inr] show ?thesis by simp
qed

text \<open>the energy detector never adapts to speech: a chunk judged speech leaves the noise
  floor alone, any other chunk moves it to a value between the old floor and the chunk's
  level, and a raised error leaves it alone, so a floor that starts between -120 and 0 dBFS
  stays there.\<close>

theorem noise_floor_bounded:
  assumes "vad_config_check c = Inr c" and "-120 \<le> nf" and "nf \<le> 0"
  shows "case energy_analyze c p nf of
      (Inl e, nf') \<Rightarrow> nf' = nf
    | (Inr f, nf') \<Rightarrow> -120 \<le> nf' \<and> nf' \<le> 0 \<and> vf_noise_floor_dbfs f = Some nf'
        \<and> (if vf_speech f then nf' = nf \<and> nf + vc_speech_margin_db c \<le> vf_dbfs f
           else min nf (vf_dbfs f) \<le> nf' \<and> nf' \<le> max nf (vf_dbfs f))"
proof (cases "pcm16_dbfs p")
  case (Inl e)
  then show ?thesis by (simp add: energy_analyze_def)
next
  case (Inr x)
  have a: "0 \<le> vc_noise_floor_alpha c" "vc_noise_floor_alpha c \<le> 1"
    using assms(1) by (auto simp: vad_config_check_def split: if_splits)
  note conv = convex_between[OF a, of nf x]
  have "-120 \<le> min nf x" "max nf x \<le> 0" using dbfs_range[OF Inr] assms(2,3) by simp_all
  with conv Inr assms(2,3) show ?thesis
    by (auto simp: energy_analyze_def update_noise_floor_def Let_def)
qed

theorem noise_floor_bounded_witness:
  "case energy_analyze (tiny_vad 4) [] (-58) of (Inl e, nf') \<Rightarrow> False
   | (Inr f, nf') \<Rightarrow> -120 \<le> nf' \<and> nf' \<le> -58"
proof -
  have c: "vad_config_check (tiny_vad 4) = Inr (tiny_vad 4)" by (simp add: tiny_checks)
  have f: "-120 \<le> (-58::real)" "(-58::real) \<le> 0" by simp_all
  have "pcm16_dbfs [] = Inr (-120)" by (simp add: pcm16_dbfs_def min_dbfs_def)
  with noise_floor_bounded[OF c f, of "[]"] show ?thesis
    by (simp add: energy_analyze_def tiny_vad_def Let_def)
qed

text \<open>With a pre-roll shorter than the confirmation time the beginning of the speech is lost,
  and the utterance claims more speech than it holds.\<close>

lemma short_pre_roll_clips:
  "\<exists>u. fst (segmenter_run byte_detector tiny_chunks (segmenter_init tiny_audio (tiny_vad 0) ())) =
     Inr ([False, True, True, True, False, False, False], [u])
   \<and> vu_pcm u = [5, 6, 0, 8, 0, 9] \<and> vu_speech_ms u = 3 \<and> vu_duration_ms u = 3"
  by (simp add: segmenter_init_def tiny_vad_def milliseconds_to_chunks_def tiny_chunks_def
      segmenter_process_def tiny_audio_def chunk_bytes_def
      chunk_frames_def byte_detector_def byte_frame_def process_idle_def process_active_def
      segmenter_finish_def clear_active_state_def result_of_def emitted_def)

end
