(* ===== verification/Wake.thy ===== *)
theory Wake
  imports Vad
begin

text \<open>
  The strict wake-phrase policy of \<open>voice/wake.py\<close>: text normalisation, the phrase matcher
  and the primary/fallback detector cascade. The parts of the Unicode database the code reads
  through the standard library (NFKC normalisation with case folding, and the word class of
  regular expressions) are a parameter; whitespace is written out in the prelude.
\<close>

section \<open>Normalisation\<close>

record unicode_db =
  ucd_nfkc_casefold :: "pystr \<Rightarrow> pystr"
  ucd_is_word :: "nat \<Rightarrow> bool"

text \<open>\<open>re.sub(r"[^\w\s]", " ", s)\<close>\<close>

definition blank_punctuation :: "unicode_db \<Rightarrow> pystr \<Rightarrow> pystr" where
  "blank_punctuation db s = map (\<lambda>c. if ucd_is_word db c \<or> py_isspace c then c else 32) s"

text \<open>\<open>re.sub(r"\s+", " ", s)\<close>\<close>

fun collapse_spaces :: "pystr \<Rightarrow> pystr" where
  "collapse_spaces [] = []"
| "collapse_spaces [c] = [if py_isspace c then 32 else c]"
| "collapse_spaces (c # d # s) =
     (if py_isspace c then
        if py_isspace d then collapse_spaces (d # s) else 32 # collapse_spaces (d # s)
      else c # collapse_spaces (d # s))"

definition normalize_wake_text :: "unicode_db \<Rightarrow> pystr \<Rightarrow> pystr" where
  "normalize_wake_text db text =
     strip (collapse_spaces (blank_punctuation db (ucd_nfkc_casefold db text)))"

section \<open>Matching\<close>

record wake_phrase_match =
  wm_matched :: bool
  wm_normalized_text :: pystr
  wm_remainder :: pystr

definition default_wake_phrase :: pystr where
  "default_wake_phrase = lit ''hey friday''"

definition match_wake_phrase :: "unicode_db \<Rightarrow> pystr \<Rightarrow> pystr \<Rightarrow> exn + wake_phrase_match" where
  "match_wake_phrase db text phrase =
     (let normalized = normalize_wake_text db text;
          normalized_phrase = normalize_wake_text db phrase;
          pre = normalized_phrase @ [32]
      in if normalized_phrase = [] then Inl (ValueError ''wake phrase must not be empty'')
         else if normalized = normalized_phrase then
           Inr \<lparr>wm_matched = True, wm_normalized_text = normalized, wm_remainder = []\<rparr>
         else if prefix pre normalized then
           Inr \<lparr>wm_matched = True, wm_normalized_text = normalized,
                wm_remainder = strip (drop (length pre) normalized)\<rparr>
         else Inr \<lparr>wm_matched = False, wm_normalized_text = normalized, wm_remainder = []\<rparr>)"

section \<open>Detector results and the supervisor\<close>

record wake_detection =
  wd_detector :: pystr
  wd_transcript :: pystr
  wd_elapsed_seconds :: real

text \<open>The checks of \<open>WakeDetectionResult.__post_init__\<close>.\<close>

definition wake_detection_check :: "wake_detection \<Rightarrow> exn + wake_detection" where
  "wake_detection_check d =
     (if strip (wd_detector d) = [] then Inl (ValueError ''detector must not be empty'')
      else if wd_elapsed_seconds d < 0 then
        Inl (ValueError ''elapsed_seconds must not be negative'')
      else Inr d)"

record supervisor_result =
  wr_enabled :: bool
  wr_wake :: bool
  wr_source :: "pystr option"
  wr_remainder :: pystr
  wr_primary :: "wake_detection option"
  wr_fallback :: "wake_detection option"

type_synonym 'w wake_detector = "voice_utterance \<Rightarrow> ('w, wake_detection) act"

record 'w wake_supervisor =
  ws_primary :: "'w wake_detector"
  ws_fallback :: "'w wake_detector option"
  ws_enabled :: bool
  ws_phrase :: pystr

definition supervisor_init ::
    "unicode_db \<Rightarrow> 'w wake_detector \<Rightarrow> 'w wake_detector option \<Rightarrow> bool \<Rightarrow> pystr
     \<Rightarrow> exn + 'w wake_supervisor" where
  "supervisor_init db primary fallback enabled phrase =
     (let normalized_phrase = normalize_wake_text db phrase
      in if normalized_phrase = [] then Inl (ValueError ''wake phrase must not be empty'')
         else Inr \<lparr>ws_primary = primary, ws_fallback = fallback, ws_enabled = enabled,
                   ws_phrase = normalized_phrase\<rparr>)"

definition supervisor_detect ::
    "unicode_db \<Rightarrow> 'w wake_supervisor \<Rightarrow> voice_utterance \<Rightarrow> ('w, supervisor_result) act" where
  "supervisor_detect db ws u w =
     (if \<not> ws_enabled ws then
        (Inr \<lparr>wr_enabled = False, wr_wake = False, wr_source = None, wr_remainder = [],
              wr_primary = None, wr_fallback = None\<rparr>, w)
      else case ws_primary ws u w of (Inl e, w1) \<Rightarrow> (Inl e, w1)
      | (Inr primary, w1) \<Rightarrow>
        (case match_wake_phrase db (wd_transcript primary) (ws_phrase ws) of
          Inl e \<Rightarrow> (Inl e, w1)
        | Inr primary_match \<Rightarrow>
          if wm_matched primary_match then
            (Inr \<lparr>wr_enabled = True, wr_wake = True, wr_source = Some (wd_detector primary),
                  wr_remainder = wm_remainder primary_match, wr_primary = Some primary,
                  wr_fallback = None\<rparr>, w1)
          else case ws_fallback ws of
            None \<Rightarrow>
              (Inr \<lparr>wr_enabled = True, wr_wake = False, wr_source = None, wr_remainder = [],
                    wr_primary = Some primary, wr_fallback = None\<rparr>, w1)
          | Some detect_fallback \<Rightarrow>
            (case detect_fallback u w1 of (Inl e, w2) \<Rightarrow> (Inl e, w2)
             | (Inr fallback, w2) \<Rightarrow>
               (case match_wake_phrase db (wd_transcript fallback) (ws_phrase ws) of
                  Inl e \<Rightarrow> (Inl e, w2)
                | Inr m \<Rightarrow>
                  (Inr \<lparr>wr_enabled = True, wr_wake = wm_matched m,
                        wr_source = (if wm_matched m then Some (wd_detector fallback) else None),
                        wr_remainder = (if wm_matched m then wm_remainder m else []),
                        wr_primary = Some primary, wr_fallback = Some fallback\<rparr>, w2)))))"

section \<open>What normalisation guarantees\<close>

text \<open>
  Canonical text: only word characters and single plain blanks, with no blank at either end.
\<close>

definition single_blanks :: "pystr \<Rightarrow> bool" where
  "single_blanks s \<longleftrightarrow> successively (\<lambda>c d. \<not> (py_isspace c \<and> py_isspace d)) s"

definition canonical_text :: "unicode_db \<Rightarrow> pystr \<Rightarrow> bool" where
  "canonical_text db s \<longleftrightarrow>
     (\<forall>c \<in> set s. if py_isspace c then c = 32 else ucd_is_word db c)
     \<and> single_blanks s
     \<and> (s \<noteq> [] \<longrightarrow> \<not> py_isspace (hd s) \<and> \<not> py_isspace (last s))"

lemma isspace_blank [simp]: "py_isspace 32"
  by (simp add: py_isspace_def)

lemma hd_collapse:
  "s \<noteq> [] \<Longrightarrow> collapse_spaces s \<noteq> []
     \<and> (py_isspace (hd (collapse_spaces s)) \<longleftrightarrow> py_isspace (hd s))"
  by (induction s rule: collapse_spaces.induct) auto

lemma single_blanks_collapse: "single_blanks (collapse_spaces s)"
  unfolding single_blanks_def
proof (induction s rule: collapse_spaces.induct)
  case (3 c d s)
  then show ?case
    using hd_collapse[of "d # s"] by (auto simp: successively_Cons)
qed auto

lemma set_collapse:
  "c \<in> set (collapse_spaces s) \<Longrightarrow> if py_isspace c then c = 32 else c \<in> set s"
  by (induction s rule: collapse_spaces.induct) (auto split: if_splits)

lemma collapse_id:
  "\<forall>c \<in> set s. py_isspace c \<longrightarrow> c = 32 \<Longrightarrow> single_blanks s \<Longrightarrow> collapse_spaces s = s"
  unfolding single_blanks_def
  by (induction s rule: collapse_spaces.induct) auto

lemma single_blanks_sublist: "single_blanks s \<Longrightarrow> sublist t s \<Longrightarrow> single_blanks t"
  by (auto simp: single_blanks_def sublist_def successively_append_iff)

lemma sublist_strip: "sublist (strip s) s"
proof -
  have "suffix (strip s) (rstrip s)" unfolding strip_def by (rule suffix_lstrip)
  moreover have "prefix (rstrip s) s"
    using suffix_lstrip[of "rev s"] by (simp add: rstrip_def lstrip_def suffix_to_prefix)
  ultimately show ?thesis by (meson prefix_imp_sublist suffix_imp_sublist sublist_order.order.trans)
qed

lemma normalize_canonical: "canonical_text db (normalize_wake_text db text)"
proof -
  let ?b = "blank_punctuation db (ucd_nfkc_casefold db text)"
  let ?n = "normalize_wake_text db text"
  have sub: "sublist ?n (collapse_spaces ?b)"
    unfolding normalize_wake_text_def by (rule sublist_strip)
  then have "set ?n \<subseteq> set (collapse_spaces ?b)" by (rule set_mono_sublist)
  moreover have "if py_isspace c then c = 32 else ucd_is_word db c"
    if "c \<in> set (collapse_spaces ?b)" for c
    using set_collapse[OF that] by (auto simp: blank_punctuation_def split: if_splits)
  moreover have "single_blanks ?n"
    by (rule single_blanks_sublist[OF single_blanks_collapse sub])
  moreover have "?n \<noteq> [] \<Longrightarrow> \<not> py_isspace (hd ?n) \<and> \<not> py_isspace (last ?n)"
    unfolding normalize_wake_text_def using strip_hd strip_last by blast
  ultimately show ?thesis unfolding canonical_text_def by blast
qed

text \<open>After the phrase and a blank, canonical text goes on with a command.\<close>

lemma canonical_after_blank:
  assumes "canonical_text db (p @ 32 # r)"
  shows "r \<noteq> [] \<and> strip r = r"
proof -
  have r: "r \<noteq> []" using assms by (auto simp: canonical_text_def)
  moreover have "\<not> py_isspace (hd r)"
    using assms r by (cases r) (auto simp: canonical_text_def single_blanks_def
        successively_append_iff)
  moreover have "\<not> py_isspace (last r)" using assms r by (simp add: canonical_text_def)
  ultimately show ?thesis using strip_id by blast
qed

section \<open>What the matcher decides\<close>

text \<open>The specification: the phrase alone, or the phrase, one blank and a command.\<close>

definition says_phrase :: "pystr \<Rightarrow> pystr \<Rightarrow> pystr \<Rightarrow> bool" where
  "says_phrase phrase text remainder \<longleftrightarrow>
     (if remainder = [] then text = phrase else text = phrase @ 32 # remainder)"

lemma match_cases:
  assumes "match_wake_phrase db text phrase = Inr m"
  shows "wm_normalized_text m = normalize_wake_text db text
    \<and> (if wm_matched m then
         says_phrase (normalize_wake_text db phrase) (normalize_wake_text db text) (wm_remainder m)
       else wm_remainder m = [] \<and>
         (\<forall>r. \<not> says_phrase (normalize_wake_text db phrase) (normalize_wake_text db text) r))"
proof -
  let ?p = "normalize_wake_text db phrase" and ?n = "normalize_wake_text db text"
  have after: "strip r = r \<and> r \<noteq> []" if "?n = ?p @ 32 # r" for r
    using canonical_after_blank[of db "?p" r] normalize_canonical[of db "text"] that by simp
  show ?thesis
  proof (cases "\<exists>r. ?n = ?p @ 32 # r")
    case True
    then obtain r where r: "?n = ?p @ 32 # r" by blast
    with assms after[OF r] show ?thesis
      by (auto simp: match_wake_phrase_def says_phrase_def Let_def split: if_splits)
  next
    case False
    then have "\<not> prefix (?p @ [32]) ?n" by (auto simp: prefix_def)
    with False assms show ?thesis
      by (auto simp: match_wake_phrase_def says_phrase_def Let_def split: if_splits)
  qed
qed

lemma match_says:
  assumes "normalize_wake_text db phrase \<noteq> []"
    and "says_phrase (normalize_wake_text db phrase) (normalize_wake_text db text) r"
  shows "\<exists>m. match_wake_phrase db text phrase = Inr m \<and> wm_matched m \<and> wm_remainder m = r"
proof -
  let ?p = "normalize_wake_text db phrase" and ?n = "normalize_wake_text db text"
  have "strip r = r" if "?n = ?p @ 32 # r"
    using canonical_after_blank[of db ?p r] normalize_canonical[of db "text"] that by simp
  with assms show ?thesis
    by (auto simp: match_wake_phrase_def says_phrase_def Let_def prefix_def split: if_splits)
qed

section \<open>ASCII text\<close>

definition ascii :: "pystr \<Rightarrow> bool" where
  "ascii s \<longleftrightarrow> (\<forall>c \<in> set s. c < 128)"

definition ascii_lower :: "nat \<Rightarrow> nat" where
  "ascii_lower c = (if 65 \<le> c \<and> c \<le> 90 then c + 32 else c)"

definition ascii_word :: "nat \<Rightarrow> bool" where
  "ascii_word c \<longleftrightarrow>
     48 \<le> c \<and> c \<le> 57 \<or> 65 \<le> c \<and> c \<le> 90 \<or> c = 95 \<or> 97 \<le> c \<and> c \<le> 122"

text \<open>
  What Unicode says of ASCII: NFKC leaves it alone, case folding is lower-casing, and the
  word characters are letters, digits and the underscore.
\<close>

definition ascii_law :: "unicode_db \<Rightarrow> bool" where
  "ascii_law db \<longleftrightarrow>
     (\<forall>s. ascii s \<longrightarrow> ucd_nfkc_casefold db s = map ascii_lower s)
     \<and> (\<forall>c < 128. ucd_is_word db c = ascii_word c)"

definition ascii_db :: unicode_db where
  "ascii_db = \<lparr>ucd_nfkc_casefold = map ascii_lower, ucd_is_word = ascii_word\<rparr>"

lemma ascii_db_law: "ascii_law ascii_db"
  by (simp add: ascii_law_def ascii_db_def)

lemma set_strip: "set (strip s) \<subseteq> set s"
  by (rule set_mono_sublist[OF sublist_strip])

lemma normalize_ascii_chars:
  assumes "ascii_law db" and "ascii s" and "c \<in> set (normalize_wake_text db s)"
  shows "c < 128 \<and> ascii_lower c = c"
proof -
  have fold: "ucd_nfkc_casefold db s = map ascii_lower s"
    using assms(1,2) by (simp add: ascii_law_def)
  from assms(3) have "c \<in> set (collapse_spaces (blank_punctuation db (map ascii_lower s)))"
    using set_strip by (auto simp: normalize_wake_text_def fold)
  from set_collapse[OF this] have "c = 32 \<or> (\<exists>d \<in> set s. c = ascii_lower d)"
    by (auto simp: blank_punctuation_def split: if_splits)
  then show ?thesis
  proof
    assume "\<exists>d \<in> set s. c = ascii_lower d"
    then obtain d where "d < 128" and "c = ascii_lower d" using assms(2) by (auto simp: ascii_def)
    then show ?thesis by (cases "65 \<le> d \<and> d \<le> 90") (auto simp: ascii_lower_def)
  qed (simp add: ascii_lower_def)
qed

lemma normalize_idempotent:
  assumes "ascii_law db" and "ascii s"
  shows "normalize_wake_text db (normalize_wake_text db s) = normalize_wake_text db s"
proof -
  let ?n = "normalize_wake_text db s"
  have "ascii ?n" and lower: "map ascii_lower ?n = ?n"
    using normalize_ascii_chars[OF assms] by (auto simp: ascii_def intro: map_idI)
  then have fold: "ucd_nfkc_casefold db ?n = ?n"
    using assms(1) by (simp add: ascii_law_def)
  have can: "canonical_text db ?n" by (rule normalize_canonical)
  then have blank: "blank_punctuation db ?n = ?n"
    by (auto simp: blank_punctuation_def canonical_text_def intro!: map_idI split: if_splits)
  from can have coll: "collapse_spaces ?n = ?n"
    by (intro collapse_id) (auto simp: canonical_text_def split: if_splits)
  from can have "strip ?n = ?n" by (intro strip_id) (auto simp: canonical_text_def)
  then show ?thesis by (simp only: normalize_wake_text_def[of db ?n] fold blank coll)
qed

lemmas wake_eval =
  match_wake_phrase_def normalize_wake_text_def blank_punctuation_def ascii_db_def
  ascii_lower_def ascii_word_def ascii_def py_isspace_def strip_def lstrip_def rstrip_def lit_def
  default_wake_phrase_def Let_def

section \<open>Properties\<close>

lemma says_phrase_unique:
  "says_phrase p t r \<Longrightarrow> says_phrase p t q \<Longrightarrow> q = r"
  by (auto simp: says_phrase_def split: if_splits)

text \<open>the matcher is strict: with a non-empty phrase it accepts a transcript exactly when
  the normalised transcript is the normalised phrase, or that phrase followed by one blank
  and a non-empty command, and it returns exactly that command; an empty phrase is an error.\<close>

theorem wake_match_strict:
  "case match_wake_phrase db transcript phrase of
     Inl e \<Rightarrow> normalize_wake_text db phrase = [] \<and> exn_kind e = ValueErrorC
   | Inr m \<Rightarrow> normalize_wake_text db phrase \<noteq> []
       \<and> wm_normalized_text m = normalize_wake_text db transcript
       \<and> (wm_matched m \<or> wm_remainder m = [])
       \<and> (\<forall>r. (wm_matched m \<and> wm_remainder m = r) \<longleftrightarrow>
            says_phrase (normalize_wake_text db phrase) (normalize_wake_text db transcript) r)"
proof (cases "match_wake_phrase db transcript phrase")
  case (Inl e)
  then show ?thesis by (auto simp: match_wake_phrase_def Let_def split: if_splits)
next
  case (Inr m)
  then have "normalize_wake_text db phrase \<noteq> []"
    by (auto simp: match_wake_phrase_def Let_def split: if_splits)
  with Inr match_cases[OF Inr] show ?thesis
    by (auto dest: says_phrase_unique split: if_splits)
qed

text \<open>whatever the recogniser returns, the text the policy compares is canonical: only word
  characters and plain blanks, no two blanks in a row, none at either end; and on ASCII text
  normalising twice is normalising once, so the phrase stored by the supervisor means the same
  when the matcher normalises it again.\<close>

theorem normalisation_canonical:
  assumes "ascii_law db"
  shows "canonical_text db (normalize_wake_text db t)
    \<and> (ascii t \<longrightarrow> normalize_wake_text db (normalize_wake_text db t) = normalize_wake_text db t)"
  using assms normalize_canonical normalize_idempotent by blast

theorem normalisation_canonical_witness:
  "canonical_text ascii_db (normalize_wake_text ascii_db (lit ''  Hey,  FRIDAY! ''))
   \<and> normalize_wake_text ascii_db (lit ''  Hey,  FRIDAY! '') = lit ''hey friday''"
proof
  show "canonical_text ascii_db (normalize_wake_text ascii_db (lit ''  Hey,  FRIDAY! ''))"
    using normalisation_canonical[OF ascii_db_law, of "lit ''  Hey,  FRIDAY! ''"] by simp
  show "normalize_wake_text ascii_db (lit ''  Hey,  FRIDAY! '') = lit ''hey friday''"
    by (simp add: wake_eval)
qed

text \<open>the cascade wakes only on a strict match. A disabled supervisor consults nothing and
  never wakes; a wake names the detector whose transcript said the phrase and carries its
  command; the fallback is consulted only after the primary strictly missed; without a wake
  no source and no command are reported.\<close>

theorem supervisor_wakes_strictly:
  assumes "supervisor_detect db ws u w = (Inr r, w')"
  shows "(if \<not> ws_enabled ws then w' = w \<and> \<not> wr_enabled r \<and> \<not> wr_wake r \<and> wr_primary r = None
      else wr_enabled r \<and> wr_primary r \<noteq> None)
    \<and> (if wr_wake r then \<exists>d. wr_source r = Some (wd_detector d)
           \<and> (wr_primary r = Some d \<and> wr_fallback r = None \<or> wr_fallback r = Some d)
           \<and> says_phrase (normalize_wake_text db (ws_phrase ws))
               (normalize_wake_text db (wd_transcript d)) (wr_remainder r)
       else wr_source r = None \<and> wr_remainder r = [])
    \<and> (\<forall>d f q. wr_primary r = Some d \<and> wr_fallback r = Some f \<longrightarrow>
         \<not> says_phrase (normalize_wake_text db (ws_phrase ws))
             (normalize_wake_text db (wd_transcript d)) q)"
proof (cases "ws_enabled ws")
  case False
  with assms show ?thesis by (auto simp: supervisor_detect_def)
next
  case True
  with assms obtain p w1 m where p: "ws_primary ws u w = (Inr p, w1)"
    and m: "match_wake_phrase db (wd_transcript p) (ws_phrase ws) = Inr m"
    by (auto simp: supervisor_detect_def split: prod.splits sum.splits)
  show ?thesis
  proof (cases "wm_matched m \<or> ws_fallback ws = None")
    case True
    with assms p m \<open>ws_enabled ws\<close> match_cases[OF m] show ?thesis
      by (auto simp: supervisor_detect_def split: if_splits)
  next
    case False
    then obtain fb where fb: "ws_fallback ws = Some fb" and miss: "\<not> wm_matched m" by auto
    with assms p m \<open>ws_enabled ws\<close> obtain f w2 n where "fb u w1 = (Inr f, w2)"
      and n: "match_wake_phrase db (wd_transcript f) (ws_phrase ws) = Inr n"
      by (auto simp: supervisor_detect_def split: prod.splits sum.splits)
    with assms p m fb miss \<open>ws_enabled ws\<close> match_cases[OF m] match_cases[OF n] show ?thesis
      by (auto simp: supervisor_detect_def split: if_splits)
  qed
qed

definition heard :: "string \<Rightarrow> 'w wake_detector" where
  "heard s u w = (Inr \<lparr>wd_detector = lit ''parakeet'', wd_transcript = lit s,
                      wd_elapsed_seconds = 0\<rparr>, w)"

definition any_utterance :: voice_utterance where
  "any_utterance = \<lparr>vu_pcm = [], vu_sample_rate = 16000, vu_channels = 1,
     vu_sample_width_bytes = 2, vu_duration_ms = 30, vu_speech_ms = 30,
     vu_completion_reason = Silence\<rparr>"

definition friday_supervisor :: "unit wake_supervisor" where
  "friday_supervisor = \<lparr>ws_primary = heard ''a friday'', ws_fallback = Some (heard ''hey friday, stop''),
     ws_enabled = True, ws_phrase = lit ''hey friday''\<rparr>"

lemma match_hey_friday:
  "match_wake_phrase ascii_db (lit ''a friday'') (lit ''hey friday'') =
     Inr \<lparr>wm_matched = False, wm_normalized_text = lit ''a friday'', wm_remainder = []\<rparr>"
  "match_wake_phrase ascii_db (lit ''hey friday, stop'') (lit ''hey friday'') =
     Inr \<lparr>wm_matched = True, wm_normalized_text = lit ''hey friday stop'',
          wm_remainder = lit ''stop''\<rparr>"
  by (simp_all add: wake_eval)

theorem supervisor_wakes_strictly_witness:
  "\<exists>r. supervisor_detect ascii_db friday_supervisor any_utterance () = (Inr r, ())
     \<and> wr_wake r \<and> wr_remainder r = lit ''stop''
     \<and> says_phrase (normalize_wake_text ascii_db (lit ''hey friday''))
         (normalize_wake_text ascii_db (lit ''hey friday, stop'')) (lit ''stop'')"
proof -
  obtain r where r: "supervisor_detect ascii_db friday_supervisor any_utterance () = (Inr r, ())"
    and w: "wr_wake r" "wr_remainder r = lit ''stop''"
    and f: "wr_fallback r = Some \<lparr>wd_detector = lit ''parakeet'',
        wd_transcript = lit ''hey friday, stop'', wd_elapsed_seconds = 0\<rparr>"
    by (simp add: supervisor_detect_def friday_supervisor_def heard_def match_hey_friday)
  from supervisor_wakes_strictly[OF r] w f r show ?thesis
    by (auto simp: friday_supervisor_def)
qed

text \<open>a configured ASCII phrase works: when the primary detector hears the phrase, alone or
  with a command, the enabled supervisor wakes on it at once, reports that command, and does
  not consult the fallback.\<close>

theorem configured_phrase_wakes:
  assumes "ascii_law db" and "ascii phrase"
    and "supervisor_init db primary fallback True phrase = Inr ws"
    and "primary u w = (Inr d, w')"
    and "says_phrase (normalize_wake_text db phrase) (normalize_wake_text db (wd_transcript d)) r"
  shows "\<exists>res. supervisor_detect db ws u w = (Inr res, w') \<and> wr_wake res
    \<and> wr_source res = Some (wd_detector d) \<and> wr_remainder res = r \<and> wr_fallback res = None"
proof -
  let ?p = "normalize_wake_text db phrase"
  have ne: "?p \<noteq> []" and ws: "ws = \<lparr>ws_primary = primary, ws_fallback = fallback,
      ws_enabled = True, ws_phrase = ?p\<rparr>"
    using assms(3) by (auto simp: supervisor_init_def Let_def split: if_splits)
  have idem: "normalize_wake_text db ?p = ?p" using assms(1,2) by (rule normalize_idempotent)
  obtain m where "match_wake_phrase db (wd_transcript d) ?p = Inr m" "wm_matched m"
      "wm_remainder m = r"
    using match_says[of db ?p "wd_transcript d" r] ne assms(5) idem by auto
  with assms(4) show ?thesis by (simp add: supervisor_detect_def ws)
qed

theorem configured_phrase_wakes_witness:
  "\<exists>ws res. supervisor_init ascii_db (heard ''HEY Friday: lights'') None True default_wake_phrase
       = Inr ws
     \<and> supervisor_detect ascii_db ws any_utterance () = (Inr res, ())
     \<and> wr_wake res \<and> wr_remainder res = lit ''lights''"
proof -
  have a: "ascii default_wake_phrase" by (simp add: wake_eval)
  have n: "normalize_wake_text ascii_db default_wake_phrase = lit ''hey friday''" by (simp add: wake_eval)
  have "lit ''hey friday'' \<noteq> []" by (simp add: lit_def)
  then obtain ws where ws: "supervisor_init ascii_db (heard ''HEY Friday: lights'') None True
      default_wake_phrase = Inr (ws :: unit wake_supervisor)"
    by (simp add: supervisor_init_def n)
  have "normalize_wake_text ascii_db (lit ''HEY Friday: lights'') = lit ''hey friday'' @ 32 # lit ''lights''"
    by (simp add: wake_eval)
  then have s: "says_phrase (normalize_wake_text ascii_db default_wake_phrase)
      (normalize_wake_text ascii_db (wd_transcript \<lparr>wd_detector = lit ''parakeet'',
        wd_transcript = lit ''HEY Friday: lights'', wd_elapsed_seconds = 0\<rparr>)) (lit ''lights'')"
    by (simp add: says_phrase_def n lit_def)
  have "heard ''HEY Friday: lights'' any_utterance () =
      (Inr \<lparr>wd_detector = lit ''parakeet'', wd_transcript = lit ''HEY Friday: lights'',
        wd_elapsed_seconds = 0\<rparr>, ())" by (rule heard_def)
  from configured_phrase_wakes[OF ascii_db_law a ws this s] ws show ?thesis by blast
qed

end
