(* ===== verification/Follow_Up.thy ===== *)
theory Follow_Up
  imports Vad
begin

text \<open>
  One-shot capture of the command after a bare wake: \<open>voice/follow_up_capture.py\<close>. The
  microphone and the clock are the environment: one tick per pass of the capture loop holds
  the time the loop reads and what the next read of the stream does. A list of ticks that
  runs out means the loop is still waiting, so the result is an option.
\<close>

datatype pcm_read = Read_Chunk pcm | Read_Raises exn

record capture_tick =
  ct_now :: real
  ct_read :: pcm_read

definition follow_up_init_check :: "real \<Rightarrow> exn + real" where
  "follow_up_init_check max_wait_seconds =
     (if max_wait_seconds \<le> 0 then Inl (ValueError ''max_wait_seconds must be positive'')
      else Inr max_wait_seconds)"

abbreviation follow_up_error :: "string \<Rightarrow> exn" where
  "follow_up_error \<equiv> Exn FollowUpCaptureErrorC"

text \<open>One pass of the loop body after the deadline check: a final result or \<open>None\<close> to go on.\<close>

definition follow_up_body ::
    "(pcm \<Rightarrow> ('s, segmentation_result) act) \<Rightarrow> pcm_read \<Rightarrow> 's
     \<Rightarrow> (exn + voice_utterance) option \<times> 's" where
  "follow_up_body process rd s =
     (case rd of
        Read_Raises e \<Rightarrow>
          (Some (Inl (if caught_by [VoiceCaptureErrorC, OSErrorC] e
                      then follow_up_error ''follow-up microphone read failed'' else e)), s)
      | Read_Chunk p \<Rightarrow>
          if p = [] then
            (Some (Inl (follow_up_error ''follow-up microphone returned empty PCM'')), s)
          else case process p s of (Inl e, s') \<Rightarrow> (Some (Inl e), s')
            | (Inr r, s') \<Rightarrow> (map_option Inr (sr_utterance r), s'))"

fun follow_up_loop ::
    "(pcm \<Rightarrow> ('s, segmentation_result) act) \<Rightarrow> real \<Rightarrow> capture_tick list \<Rightarrow> 's
     \<Rightarrow> (exn + voice_utterance option) option \<times> 's" where
  "follow_up_loop process deadline [] s = (None, s)"
| "follow_up_loop process deadline (t # ts) s =
     (if \<not> ct_now t < deadline then (Some (Inr None), s)
      else case follow_up_body process (ct_read t) s of
        (Some (Inl e), s') \<Rightarrow> (Some (Inl e), s')
      | (Some (Inr u), s') \<Rightarrow> (Some (Inr (Some u)), s')
      | (None, s') \<Rightarrow> follow_up_loop process deadline ts s')"

record follow_up_run =
  fr_result :: "(exn + voice_utterance option) option"
  fr_stream_open :: bool

text \<open>
  \<open>capture_utterance\<close>: \<open>s0\<close> is the fresh segmenter of the factory, \<open>opened\<close> the outcome of
  opening the stream, \<open>t0\<close> the time the deadline is computed from and \<open>closing\<close> the outcome
  of closing the stream in the \<open>finally\<close> clause, where an \<open>OSError\<close> is swallowed.
\<close>

definition capture_utterance ::
    "(pcm \<Rightarrow> ('s, segmentation_result) act) \<Rightarrow> 's \<Rightarrow> real \<Rightarrow> exn option \<Rightarrow> real
     \<Rightarrow> capture_tick list \<Rightarrow> exn option \<Rightarrow> follow_up_run" where
  "capture_utterance process s0 max_wait_seconds opened t0 ticks closing =
     (case opened of
        Some e \<Rightarrow>
          \<lparr>fr_result = Some (Inl (if caught_by [VoiceCaptureErrorC, OSErrorC] e
             then follow_up_error ''follow-up microphone open failed'' else e)),
           fr_stream_open = False\<rparr>
      | None \<Rightarrow>
          (case fst (follow_up_loop process (t0 + max_wait_seconds) ticks s0) of
             None \<Rightarrow> \<lparr>fr_result = None, fr_stream_open = True\<rparr>
           | Some res \<Rightarrow>
               \<lparr>fr_result = Some (case closing of
                   Some e \<Rightarrow> if caught_by [OSErrorC] e then res else Inl e
                 | None \<Rightarrow> res),
                fr_stream_open = False\<rparr>))"

section \<open>The loop over any segmenter that meets the contract\<close>

lemma follow_up_loop_reaches_deadline:
  assumes "t \<in> set ts" and "deadline \<le> ct_now t"
  shows "fst (follow_up_loop process deadline ts s) \<noteq> None"
  using assms
proof (induction ts arbitrary: s)
  case (Cons t' ts)
  then show ?case
    by (cases "follow_up_body process (ct_read t') s")
       (auto split: option.splits sum.splits)
qed simp

lemma follow_up_body_raises:
  "fst (follow_up_body process (Read_Chunk []) s) =
     Some (Inl (follow_up_error ''follow-up microphone returned empty PCM''))"
  "caught_by [VoiceCaptureErrorC, OSErrorC] e \<Longrightarrow>
     fst (follow_up_body process (Read_Raises e) s) =
       Some (Inl (follow_up_error ''follow-up microphone read failed''))"
  by (simp_all add: follow_up_body_def)

context utterance_segmenter
begin

lemma follow_up_body_good:
  assumes "follow_up_body process rd s = (res, s')" and "inv s"
  shows "inv s' \<and> (\<forall>u. res = Some (Inr u) \<longrightarrow> good u)"
  using assms process_good[of s] process_inv_step[of s]
  by (auto simp: follow_up_body_def split: pcm_read.splits if_splits prod.splits sum.splits)

lemma follow_up_loop_good:
  assumes "follow_up_loop process deadline ts s = (res, s')" and "inv s"
  shows "inv s' \<and> (\<forall>u. res = Some (Inr (Some u)) \<longrightarrow> good u)"
  using assms
proof (induction ts arbitrary: s)
  case (Cons t ts)
  obtain b s1 where b: "follow_up_body process (ct_read t) s = (b, s1)" by fastforce
  from follow_up_body_good[OF b Cons.prems(2)] Cons b show ?case
    by (auto split: if_splits option.splits sum.splits)
qed simp

lemma capture_utterance_good:
  assumes "inv s0" and "fr_result (capture_utterance process s0 mw opened t0 ts cl) = Some (Inr (Some u))"
  shows "good u"
  using assms follow_up_loop_good[of _ ts s0]
  by (cases "follow_up_loop process (t0 + mw) ts s0")
     (auto simp: capture_utterance_def split: option.splits if_splits)

end

section \<open>Properties\<close>

text \<open>follow-up capture is bounded and releases the microphone: once the clock reaches the
  deadline the capture has returned, the stream is closed exactly when the capture has
  returned, an utterance it returns meets the segmenter's guarantees, and an open or read
  failure of the microphone surfaces as the capture's own error.\<close>

theorem follow_up_bounded_and_closed:
  assumes "segmenter_wf (segmenter_init ac vc d)"
    and "run = capture_utterance (segmenter_process det) (segmenter_init ac vc d)
                 max_wait opened t0 ticks closing"
  shows "(opened \<noteq> None \<or> (\<exists>t \<in> set ticks. t0 + max_wait \<le> ct_now t) \<longrightarrow> fr_result run \<noteq> None)
    \<and> (fr_stream_open run \<longleftrightarrow> fr_result run = None)
    \<and> (\<forall>u. fr_result run = Some (Inr (Some u)) \<longrightarrow> utterance_ok (segmenter_init ac vc d) u)
    \<and> (\<forall>e. opened = Some e \<and> caught_by [VoiceCaptureErrorC, OSErrorC] e \<longrightarrow>
        (\<exists>m. fr_result run = Some (Inl (Exn FollowUpCaptureErrorC m))))"
proof -
  let ?s0 = "segmenter_init ac vc d"
  have inv: "segmenter_inv ?s0 \<and> same_limits ?s0 ?s0"
    using segmenter_init_inv[OF assms(1)] by simp
  have "fr_result run \<noteq> None"
    if "opened \<noteq> None \<or> (\<exists>t \<in> set ticks. t0 + max_wait \<le> ct_now t)"
  proof (cases opened)
    case None
    with that obtain t where "t \<in> set ticks" "t0 + max_wait \<le> ct_now t" by blast
    then have "fst (follow_up_loop (segmenter_process det) (t0 + max_wait) ticks ?s0) \<noteq> None"
      by (rule follow_up_loop_reaches_deadline)
    with None show ?thesis by (auto simp: assms(2) capture_utterance_def)
  qed (simp add: assms(2) capture_utterance_def)
  moreover have "fr_stream_open run \<longleftrightarrow> fr_result run = None"
    by (auto simp: assms(2) capture_utterance_def split: option.splits)
  moreover have "\<forall>u. fr_result run = Some (Inr (Some u)) \<longrightarrow> utterance_ok ?s0 u"
    using vad_segmenter.capture_utterance_good[OF inv] assms(2) by blast
  moreover have "\<forall>e. opened = Some e \<and> caught_by [VoiceCaptureErrorC, OSErrorC] e \<longrightarrow>
        (\<exists>m. fr_result run = Some (Inl (Exn FollowUpCaptureErrorC m)))"
    by (auto simp: assms(2) capture_utterance_def)
  ultimately show ?thesis by blast
qed

definition follow_up_ticks :: "capture_tick list" where
  "follow_up_ticks =
     map (\<lambda>(t, p). \<lparr>ct_now = t, ct_read = Read_Chunk p\<rparr>)
       [(0, [1, 1]), (1, [1, 1]), (2, [1, 1]), (3, [0, 0]), (4, [0, 0]), (9, [0, 0])]"

theorem follow_up_bounded_and_closed_witness:
  "\<exists>u. fr_result (capture_utterance (segmenter_process byte_detector)
          (segmenter_init tiny_audio (tiny_vad 4) ()) 8 None 0 follow_up_ticks None)
       = Some (Inr (Some u))
     \<and> utterance_ok (segmenter_init tiny_audio (tiny_vad 4) ()) u"
proof -
  have wf: "segmenter_wf (segmenter_init tiny_audio (tiny_vad 4) ())"
    by (rule segmenter_init_wf) (simp_all add: tiny_checks)
  have "\<exists>u. fr_result (capture_utterance (segmenter_process byte_detector)
      (segmenter_init tiny_audio (tiny_vad 4) ()) 8 None 0 follow_up_ticks None) = Some (Inr (Some u))"
    unfolding tiny_init
    by (simp add: capture_utterance_def follow_up_ticks_def follow_up_body_def
        segmenter_process_def tiny_audio_def chunk_bytes_def chunk_frames_def byte_detector_def
        byte_frame_def process_idle_def process_active_def segmenter_finish_def
        clear_active_state_def result_of_def pre_roll_maxlen_def deque_append_def)
  with follow_up_bounded_and_closed[OF wf refl, where det = byte_detector and max_wait = 8
      and opened = None and ?t0.0 = 0 and ticks = follow_up_ticks and closing = None]
  show ?thesis by blast
qed

end
