(* ===== verification/Barge_In.thy ===== *)
theory Barge_In
  imports Follow_Up
begin

text \<open>
  The barge-in monitor of \<open>voice/barge_in.py\<close>: it listens to the echo-cancelled microphone
  while Friday speaks, stops playback once human speech is confirmed, and hands the
  interrupting utterance on. The clock, the microphone, the player and the stop request are
  the environment: one tick per pass of the loop holds every value that pass may read.
\<close>

named_theorems barge_simps \<open>unfolding of one pass of the barge-in loop\<close>

section \<open>Policy\<close>

record barge_in_policy =
  bp_silero_threshold :: real
  bp_confirmation_ms :: int
  bp_aec_arm_delay_seconds :: real
  bp_pre_roll_ms :: int
  bp_speech_end_silence_ms :: int
  bp_minimum_speech_ms :: int
  bp_maximum_utterance_ms :: int
  bp_max_wait_seconds :: real

definition default_barge_in_policy :: barge_in_policy where
  "default_barge_in_policy = \<lparr>bp_silero_threshold = 85 / 100, bp_confirmation_ms = 180,
     bp_aec_arm_delay_seconds = 1, bp_pre_roll_ms = 300, bp_speech_end_silence_ms = 600,
     bp_minimum_speech_ms = 180, bp_maximum_utterance_ms = 30000, bp_max_wait_seconds = 30\<rparr>"

fun first_non_positive :: "(string \<times> int) list \<Rightarrow> string option" where
  "first_non_positive [] = None"
| "first_non_positive ((name, v) # rest) =
     (if v \<le> 0 then Some name else first_non_positive rest)"

definition barge_in_policy_check :: "barge_in_policy \<Rightarrow> exn + barge_in_policy" where
  "barge_in_policy_check p =
     (if \<not> (0 < bp_silero_threshold p \<and> bp_silero_threshold p < 1) then
        Inl (ValueError ''silero_threshold must be in (0, 1)'')
      else case first_non_positive
          [(''confirmation_ms'', bp_confirmation_ms p), (''pre_roll_ms'', bp_pre_roll_ms p),
           (''speech_end_silence_ms'', bp_speech_end_silence_ms p),
           (''minimum_speech_ms'', bp_minimum_speech_ms p),
           (''maximum_utterance_ms'', bp_maximum_utterance_ms p)] of
        Some name \<Rightarrow> Inl (ValueError (name @ '' must be positive''))
      | None \<Rightarrow>
          if bp_aec_arm_delay_seconds p < 0 then
            Inl (ValueError ''aec_arm_delay_seconds must not be negative'')
          else if bp_max_wait_seconds p \<le> 0 then
            Inl (ValueError ''max_wait_seconds must be positive'')
          else Inr p)"

text \<open>\<open>build_barge_in_segmenter\<close>: the levels stay at the defaults of \<open>VoiceVadConfig\<close>.\<close>

definition barge_in_vad_config :: "barge_in_policy \<Rightarrow> vad_config" where
  "barge_in_vad_config p =
     \<lparr>vc_absolute_speech_dbfs = -42, vc_speech_margin_db = 10,
      vc_noise_floor_initial_dbfs = -58, vc_noise_floor_alpha = 5 / 100,
      vc_speech_start_ms = bp_confirmation_ms p,
      vc_speech_end_silence_ms = bp_speech_end_silence_ms p,
      vc_pre_roll_ms = bp_pre_roll_ms p,
      vc_minimum_speech_ms = bp_minimum_speech_ms p,
      vc_maximum_utterance_ms = bp_maximum_utterance_ms p\<rparr>"

definition build_barge_in_segmenter ::
    "audio_config \<Rightarrow> barge_in_policy \<Rightarrow> 'd \<Rightarrow> exn + 'd segmenter" where
  "build_barge_in_segmenter ac p d =
     (case vad_config_check (barge_in_vad_config p) of Inl e \<Rightarrow> Inl e
      | Inr vc \<Rightarrow> Inr (segmenter_init ac vc d))"

section \<open>Results and the environment\<close>

record speech_stop_result =
  ss_stopped :: bool
  ss_elapsed_seconds :: real

datatype barge_in_outcome =
  Monitor_Stopped | Playback_Completed | Stop_Failed | Triggered | Monitor_Timeout

record barge_in_result =
  br_triggered :: bool
  br_detection_elapsed_seconds :: "real option"
  br_stop_result :: "speech_stop_result option"
  br_utterance :: "voice_utterance option"
  br_max_speech_probability :: real
  br_outcome :: barge_in_outcome

text \<open>
  What one pass reads, in order: the clock at the loop test; whether a stop was requested;
  whether the player is playing at the completion test and at the transition test; the clock
  when arming restarts; the chunk; the clock after the read and at the arming test; whether
  the player plays when speech is confirmed and what stopping it gives; the same again for
  the retry.
\<close>

record barge_tick =
  bt_now :: real
  bt_stop_requested :: bool
  bt_playing_check :: bool
  bt_playing :: bool
  bt_rearm_time :: real
  bt_read :: pcm_read
  bt_read_time :: real
  bt_arm_time :: real
  bt_playing_trigger :: bool
  bt_stop_trigger :: "exn + speech_stop_result"
  bt_playing_retry :: bool
  bt_stop_retry :: "exn + speech_stop_result"

record 's barge_state =
  bs_segmenter :: 's
  bs_last_playing :: bool
  bs_arm_started :: real
  bs_armed :: bool
  bs_triggered :: bool
  bs_detection_elapsed :: "real option"
  bs_stop_result :: "speech_stop_result option"
  bs_max_probability :: real

section \<open>One pass of the loop\<close>

text \<open>A result with no detection: the early returns of the loop.\<close>

definition no_detection ::
    "'s barge_state \<Rightarrow> speech_stop_result option \<Rightarrow> barge_in_outcome \<Rightarrow> barge_in_result" where
  "no_detection b stop outcome =
     \<lparr>br_triggered = False, br_detection_elapsed_seconds = None, br_stop_result = stop,
      br_utterance = None, br_max_speech_probability = bs_max_probability b,
      br_outcome = outcome\<rparr>"

definition barge_transition ::
    "('s \<Rightarrow> 's) \<Rightarrow> barge_in_policy \<Rightarrow> barge_tick \<Rightarrow> 's barge_state \<Rightarrow> 's barge_state" where
  "barge_transition reset pol t b =
     (if bt_playing t \<noteq> bs_last_playing b then
        b\<lparr>bs_segmenter := (if \<not> bs_triggered b then reset (bs_segmenter b) else bs_segmenter b),
          bs_last_playing := bt_playing t, bs_arm_started := bt_rearm_time t,
          bs_armed := (bp_aec_arm_delay_seconds pol = 0 \<or> \<not> bt_playing t)\<rparr>
      else b)"

text \<open>The two calls of \<open>speech_player.stop()\<close>: a failed stop ends the capture.\<close>

definition barge_stop_playback ::
    "bool \<Rightarrow> exn + speech_stop_result \<Rightarrow> 's barge_state
     \<Rightarrow> (exn + barge_in_result) option \<times> 's barge_state" where
  "barge_stop_playback wanted stop b =
     (if \<not> wanted then (None, b)
      else case stop of Inl e \<Rightarrow> (Some (Inl e), b)
      | Inr st \<Rightarrow>
          if \<not> ss_stopped st then (Some (Inr (no_detection b (Some st) Stop_Failed)), b)
          else (None, b\<lparr>bs_stop_result := Some st\<rparr>))"

definition barge_probability :: "vad_frame \<Rightarrow> 's barge_state \<Rightarrow> 's barge_state" where
  "barge_probability f b =
     (case vf_speech_probability f of None \<Rightarrow> b
      | Some p \<Rightarrow> b\<lparr>bs_max_probability := max (bs_max_probability b) p\<rparr>)"

text \<open>A part of a pass either ends the capture or hands the state on to the next part.\<close>

definition pass_bind :: "'x option \<times> 'b \<Rightarrow> ('b \<Rightarrow> 'x option \<times> 'b) \<Rightarrow> 'x option \<times> 'b" where
  "pass_bind m f = (case m of (Some res, b) \<Rightarrow> (Some res, b) | (None, b) \<Rightarrow> f b)"

definition barge_trigger :: "bool \<Rightarrow> real \<Rightarrow> 's barge_state \<Rightarrow> 's barge_state" where
  "barge_trigger first elapsed b =
     (if first then b\<lparr>bs_triggered := True, bs_detection_elapsed := Some elapsed\<rparr> else b)"

definition barge_finish ::
    "segmentation_result \<Rightarrow> 's barge_state \<Rightarrow> (exn + barge_in_result) option \<times> 's barge_state" where
  "barge_finish r b =
     (case sr_utterance r of None \<Rightarrow> (None, b)
      | Some u \<Rightarrow>
          if bs_triggered b then
            (Some (Inr \<lparr>br_triggered = True,
               br_detection_elapsed_seconds = bs_detection_elapsed b,
               br_stop_result = bs_stop_result b, br_utterance = Some u,
               br_max_speech_probability = bs_max_probability b,
               br_outcome = Triggered\<rparr>), b)
          else (None, b))"

text \<open>What happens to a segmented chunk: \<open>elapsed\<close> is the time since the capture started.\<close>

definition barge_detect ::
    "barge_tick \<Rightarrow> real \<Rightarrow> segmentation_result \<Rightarrow> 's barge_state
     \<Rightarrow> (exn + barge_in_result) option \<times> 's barge_state" where
  "barge_detect t elapsed r b0 =
     (let b = barge_probability (sr_frame r) b0;
          first = (sr_speech_started r \<and> \<not> bs_triggered b);
          b1 = barge_trigger first elapsed b
      in pass_bind (barge_stop_playback (first \<and> bt_playing_trigger t) (bt_stop_trigger t) b1)
           (\<lambda>b2. pass_bind
             (barge_stop_playback (bs_triggered b2 \<and> bs_stop_result b2 = None \<and> bt_playing_retry t)
               (bt_stop_retry t) b2)
             (barge_finish r)))"

text \<open>From the read to the end of the pass.\<close>

definition barge_listen ::
    "(pcm \<Rightarrow> ('s, segmentation_result) act) \<Rightarrow> ('s \<Rightarrow> 's) \<Rightarrow> barge_in_policy \<Rightarrow> real
     \<Rightarrow> barge_tick \<Rightarrow> 's barge_state \<Rightarrow> (exn + barge_in_result) option \<times> 's barge_state" where
  "barge_listen process reset pol started t b =
     (case bt_read t of Read_Raises e \<Rightarrow> (Some (Inl e), b)
      | Read_Chunk p \<Rightarrow>
          if p = [] then
            (Some (Inl (Exn BargeInErrorC ''AEC microphone stream ended unexpectedly'')), b)
          else if \<not> bs_armed b \<and> bt_arm_time t - bs_arm_started b < bp_aec_arm_delay_seconds pol
          then (None, b)
          else
            let b1 = (if \<not> bs_armed b
                      then b\<lparr>bs_segmenter := reset (bs_segmenter b), bs_armed := True\<rparr> else b)
            in case process p (bs_segmenter b1) of
                 (Inl e, s) \<Rightarrow> (Some (Inl e), b1\<lparr>bs_segmenter := s\<rparr>)
               | (Inr r, s) \<Rightarrow>
                   barge_detect t (bt_read_time t - started) r (b1\<lparr>bs_segmenter := s\<rparr>))"

definition barge_pass ::
    "(pcm \<Rightarrow> ('s, segmentation_result) act) \<Rightarrow> ('s \<Rightarrow> 's) \<Rightarrow> barge_in_policy \<Rightarrow> bool \<Rightarrow> real
     \<Rightarrow> barge_tick \<Rightarrow> 's barge_state \<Rightarrow> (exn + barge_in_result) option \<times> 's barge_state" where
  "barge_pass process reset pol allow_idle started t b =
     (if bt_stop_requested t \<and> \<not> bs_triggered b then
        (Some (Inr (no_detection b None Monitor_Stopped)), b)
      else if \<not> bs_triggered b \<and> \<not> bt_playing_check t \<and> \<not> allow_idle then
        (Some (Inr (no_detection b None Playback_Completed)), b)
      else barge_listen process reset pol started t (barge_transition reset pol t b))"

fun barge_loop ::
    "(pcm \<Rightarrow> ('s, segmentation_result) act) \<Rightarrow> ('s \<Rightarrow> 's) \<Rightarrow> barge_in_policy \<Rightarrow> bool \<Rightarrow> real
     \<Rightarrow> real \<Rightarrow> barge_tick list \<Rightarrow> 's barge_state
     \<Rightarrow> (exn + barge_in_result) option \<times> 's barge_state" where
  "barge_loop process reset pol allow_idle started timeout [] b = (None, b)"
| "barge_loop process reset pol allow_idle started timeout (t # ts) b =
     (if \<not> bt_now t - started < timeout then
        (Some (Inr \<lparr>br_triggered = bs_triggered b,
           br_detection_elapsed_seconds = bs_detection_elapsed b,
           br_stop_result = bs_stop_result b, br_utterance = None,
           br_max_speech_probability = bs_max_probability b,
           br_outcome = (if bs_triggered b then Triggered else Monitor_Timeout)\<rparr>), b)
      else case barge_pass process reset pol allow_idle started t b of
        (Some res, b') \<Rightarrow> (Some res, b')
      | (None, b') \<Rightarrow> barge_loop process reset pol allow_idle started timeout ts b')"

definition barge_state_init :: "barge_in_policy \<Rightarrow> real \<Rightarrow> bool \<Rightarrow> 's \<Rightarrow> 's barge_state" where
  "barge_state_init pol started playing s0 =
     \<lparr>bs_segmenter = s0, bs_last_playing = playing, bs_arm_started = started,
      bs_armed = (bp_aec_arm_delay_seconds pol = 0 \<or> \<not> playing), bs_triggered = False,
      bs_detection_elapsed = None, bs_stop_result = None, bs_max_probability = 0\<rparr>"

text \<open>
  \<open>capture_interruption\<close>: \<open>playing0\<close> and \<open>playing1\<close> are the player's state at the entry check
  and when arming starts, \<open>opened\<close> the outcome of opening the stream.
\<close>

definition capture_interruption ::
    "(pcm \<Rightarrow> ('s, segmentation_result) act) \<Rightarrow> ('s \<Rightarrow> 's) \<Rightarrow> barge_in_policy \<Rightarrow> 's
     \<Rightarrow> real option \<Rightarrow> bool \<Rightarrow> bool \<Rightarrow> real \<Rightarrow> bool \<Rightarrow> exn option \<Rightarrow> barge_tick list
     \<Rightarrow> (exn + barge_in_result) option" where
  "capture_interruption process reset pol s0 max_wait allow_idle playing0 started playing1
     opened ticks =
     (let timeout = (case max_wait of None \<Rightarrow> bp_max_wait_seconds pol | Some w \<Rightarrow> w)
      in if \<not> allow_idle \<and> \<not> playing0 then
           Some (Inl (Exn BargeInErrorC ''barge-in monitoring requires active Friday speech''))
         else if timeout \<le> 0 then Some (Inl (ValueError ''max_wait_seconds must be positive''))
         else case opened of Some e \<Rightarrow> Some (Inl e)
         | None \<Rightarrow> fst (barge_loop process reset pol allow_idle started timeout ticks
                      (barge_state_init pol started playing1 s0)))"

lemmas barge_defs [barge_simps] =
  pass_bind_def barge_trigger_def barge_finish_def barge_transition_def barge_stop_playback_def barge_probability_def barge_detect_def
  barge_listen_def barge_pass_def no_detection_def Let_def

text \<open>\<open>detector.reset(); segmenter.reset()\<close>, where the segmenter resets the same detector.\<close>

definition barge_reset :: "'d vad_detector \<Rightarrow> 'd segmenter \<Rightarrow> 'd segmenter" where
  "barge_reset det sg =
     segmenter_reset det (sg\<lparr>sg_detector := det_reset det (sg_detector sg)\<rparr>)"

interpretation barge_segmenter: utterance_segmenter "segmenter_process det" "barge_reset det"
    "\<lambda>sg. segmenter_inv sg \<and> same_limits sg0 sg" sg_active "utterance_ok sg0"
  for det :: "'d vad_detector" and sg0 :: "'d segmenter"
proof unfold_locales
  have upd: "same_limits sg0 (s\<lparr>sg_detector := d\<rparr>) = same_limits sg0 s" for s :: "'d segmenter" and d
    by (simp add: same_limits_def)
  show "segmenter_inv (barge_reset det s) \<and> same_limits sg0 (barge_reset det s)"
    if "segmenter_inv s \<and> same_limits sg0 s" for s
    using that vad_segmenter.reset_inv[of "s\<lparr>sg_detector := det_reset det (sg_detector s)\<rparr>" sg0 det]
    by (simp add: barge_reset_def segmenter_inv_detector upd)
  show "\<not> sg_active (barge_reset det s)" for s
    by (simp add: barge_reset_def vad_segmenter.reset_idle)
qed (rule vad_segmenter.process_inv vad_segmenter.process_good vad_segmenter.process_active
    vad_segmenter.process_idle vad_segmenter.process_raises; assumption)+

section \<open>What a pass can return\<close>

text \<open>The loop's own bookkeeping, and what it makes of a result.\<close>

definition barge_consistent :: "'s barge_state \<Rightarrow> bool" where
  "barge_consistent b \<longleftrightarrow>
     (bs_triggered b \<longleftrightarrow> bs_detection_elapsed b \<noteq> None)
     \<and> (\<forall>st. bs_stop_result b = Some st \<longrightarrow> ss_stopped st \<and> bs_triggered b)"

definition barge_result_ok :: "barge_in_result \<Rightarrow> bool" where
  "barge_result_ok r \<longleftrightarrow>
     (br_outcome r = Triggered \<longleftrightarrow> br_triggered r)
     \<and> (br_detection_elapsed_seconds r = None \<longleftrightarrow> \<not> br_triggered r)
     \<and> (br_utterance r = None \<or> br_triggered r)
     \<and> (br_outcome r = Stop_Failed \<longleftrightarrow> (\<exists>st. br_stop_result r = Some st \<and> \<not> ss_stopped st))
     \<and> (\<forall>st. br_stop_result r = Some st \<longrightarrow> ss_stopped st \<longrightarrow> br_triggered r)"

definition barge_step_ok ::
    "(voice_utterance \<Rightarrow> bool) \<Rightarrow> bool \<Rightarrow> (exn + barge_in_result) option \<times> 's barge_state \<Rightarrow> bool"
    where
  "barge_step_ok good was_triggered out \<longleftrightarrow>
     barge_consistent (snd out)
     \<and> (was_triggered \<longrightarrow> bs_triggered (snd out))
     \<and> (\<forall>r. fst out = Some (Inr r) \<longrightarrow> barge_result_ok r
         \<and> (was_triggered \<longrightarrow> br_outcome r \<in> {Triggered, Stop_Failed})
         \<and> (\<forall>u. br_utterance r = Some u \<longrightarrow> good u))"

lemma barge_probability_simps [simp]:
  "bs_triggered (barge_probability f b) = bs_triggered b"
  "bs_stop_result (barge_probability f b) = bs_stop_result b"
  "bs_detection_elapsed (barge_probability f b) = bs_detection_elapsed b"
  "bs_segmenter (barge_probability f b) = bs_segmenter b"
  by (simp_all add: barge_probability_def split: option.splits)

lemma barge_step_bind:
  assumes "barge_step_ok good w m"
    and "\<And>b. fst m = None \<Longrightarrow> snd m = b \<Longrightarrow> barge_consistent b \<Longrightarrow> (w \<longrightarrow> bs_triggered b) \<Longrightarrow>
      barge_step_ok good w (f b)"
  shows "barge_step_ok good w (pass_bind m f)"
  using assms
  by (cases m; cases "fst m") (auto simp: pass_bind_def barge_step_ok_def)

lemma barge_step_stop:
  assumes "barge_consistent b" and "w \<longrightarrow> bs_triggered b" and "want \<longrightarrow> bs_triggered b"
  shows "barge_step_ok good w (barge_stop_playback want stop b)"
  using assms
  by (auto simp: barge_stop_playback_def barge_consistent_def no_detection_def
      barge_result_ok_def barge_step_ok_def split: if_splits sum.splits)

lemma barge_step_finish:
  assumes "barge_consistent b" and "w \<longrightarrow> bs_triggered b"
    and "\<And>u. sr_utterance r = Some u \<Longrightarrow> good u"
  shows "barge_step_ok good w (barge_finish r b)"
  using assms
  by (auto simp: barge_finish_def barge_consistent_def barge_result_ok_def barge_step_ok_def
      split: option.splits)

lemma barge_detect_ok:
  assumes "barge_consistent b0" and "\<And>u. sr_utterance r = Some u \<Longrightarrow> good u"
  shows "barge_step_ok good (bs_triggered b0) (barge_detect t el r b0)"
proof -
  define b where "b = barge_probability (sr_frame r) b0"
  have c: "barge_consistent (barge_trigger f el b)"
    if "f \<longrightarrow> \<not> bs_triggered b" for f
    using that assms(1)
    by (auto simp: b_def barge_trigger_def barge_consistent_def split: option.splits)
  show ?thesis
    unfolding barge_detect_def Let_def b_def[symmetric]
  proof (rule barge_step_bind, rule barge_step_stop)
    show "barge_consistent (barge_trigger (sr_speech_started r \<and> \<not> bs_triggered b) el b)"
      by (rule c) simp
  next
    fix b2 assume "barge_consistent b2" and "bs_triggered b0 \<longrightarrow> bs_triggered b2"
    then show "barge_step_ok good (bs_triggered b0)
      (pass_bind (barge_stop_playback
          (bs_triggered b2 \<and> bs_stop_result b2 = None \<and> bt_playing_retry t) (bt_stop_retry t) b2)
        (barge_finish r))"
      by (intro barge_step_bind barge_step_stop barge_step_finish) (auto intro: assms(2))
  qed (simp_all add: b_def barge_trigger_def)
qed

lemma pass_bind_segmenter:
  "bs_segmenter (snd m) = s \<Longrightarrow> (\<And>b. bs_segmenter b = s \<Longrightarrow> bs_segmenter (snd (f b)) = s) \<Longrightarrow>
     bs_segmenter (snd (pass_bind m f)) = s"
  by (cases m; cases "fst m") (auto simp: pass_bind_def)

lemma barge_detect_segmenter:
  "bs_segmenter (snd (barge_detect t el r b)) = bs_segmenter b"
  unfolding barge_detect_def Let_def
  by (intro pass_bind_segmenter)
     (auto simp: barge_stop_playback_def barge_trigger_def barge_finish_def
       split: sum.splits option.splits)

context utterance_segmenter
begin

lemma barge_listen_ok:
  assumes "barge_consistent b" and "inv (bs_segmenter b)"
  shows "barge_step_ok good (bs_triggered b) (barge_listen process reset pol st t b)
    \<and> inv (bs_segmenter (snd (barge_listen process reset pol st t b)))"
proof (cases "bt_read t")
  case (Read_Raises e)
  with assms show ?thesis by (simp add: barge_listen_def barge_step_ok_def)
next
  case (Read_Chunk p)
  define b1 where "b1 =
    (if \<not> bs_armed b then b\<lparr>bs_segmenter := reset (bs_segmenter b), bs_armed := True\<rparr> else b)"
  have b1: "barge_consistent b1" "inv (bs_segmenter b1)" "bs_triggered b1 = bs_triggered b"
    using assms reset_inv by (auto simp: b1_def barge_consistent_def)
  show ?thesis
  proof (cases "p = [] \<or> \<not> bs_armed b \<and> bt_arm_time t - bs_arm_started b < bp_aec_arm_delay_seconds pol")
    case True
    with assms Read_Chunk show ?thesis by (auto simp: barge_listen_def barge_step_ok_def)
  next
    case False
    then have eq: "barge_listen process reset pol st t b =
      (case process p (bs_segmenter b1) of (Inl e, s) \<Rightarrow> (Some (Inl e), b1\<lparr>bs_segmenter := s\<rparr>)
       | (Inr r, s) \<Rightarrow> barge_detect t (bt_read_time t - st) r (b1\<lparr>bs_segmenter := s\<rparr>))"
      using Read_Chunk unfolding barge_listen_def Let_def b1_def[symmetric]
      by (simp only: pcm_read.case de_Morgan_disj if_False)
    obtain x s where pr: "process p (bs_segmenter b1) = (x, s)" by fastforce
    have s: "inv s" by (rule process_inv_step[OF b1(2) pr])
    have c: "barge_consistent (b1\<lparr>bs_segmenter := s\<rparr>)" using b1(1) by (auto simp: barge_consistent_def)
    show ?thesis
    proof (cases x)
      case (Inl e)
      with eq pr s c b1(3) show ?thesis by (simp add: barge_step_ok_def)
    next
      case (Inr r)
      with pr have "process p (bs_segmenter b1) = (Inr r, s)" by simp
      then have g: "sr_utterance r = Some u \<Longrightarrow> good u" for u
        using process_good[OF b1(2)] by blast
      from barge_detect_ok[where r = r and good = good, OF c g] eq pr Inr b1(3) s
      show ?thesis by (simp add: barge_detect_segmenter)
    qed
  qed
qed

lemma barge_transition_ok:
  assumes "barge_consistent b" and "inv (bs_segmenter b)"
  shows "barge_consistent (barge_transition reset pol t b)
    \<and> inv (bs_segmenter (barge_transition reset pol t b))
    \<and> bs_triggered (barge_transition reset pol t b) = bs_triggered b"
  using assms reset_inv by (auto simp: barge_transition_def barge_consistent_def)

lemma barge_pass_ok:
  assumes "barge_consistent b" and "inv (bs_segmenter b)"
  shows "barge_step_ok good (bs_triggered b) (barge_pass process reset pol idle st t b)
    \<and> inv (bs_segmenter (snd (barge_pass process reset pol idle st t b)))"
proof (cases "\<not> bs_triggered b \<and> (bt_stop_requested t \<or> \<not> bt_playing_check t \<and> \<not> idle)")
  case True
  with assms show ?thesis
    by (auto simp: barge_pass_def barge_step_ok_def no_detection_def barge_result_ok_def)
next
  case False
  then have "barge_pass process reset pol idle st t b =
      barge_listen process reset pol st t (barge_transition reset pol t b)"
    by (auto simp: barge_pass_def)
  with barge_listen_ok[of "barge_transition reset pol t b" pol st t] barge_transition_ok[OF assms, of pol t]
  show ?thesis by simp
qed

lemma barge_loop_ok:
  assumes "barge_consistent b" and "inv (bs_segmenter b)"
  shows "barge_step_ok good (bs_triggered b) (barge_loop process reset pol idle st tmo ts b)"
  using assms
proof (induction ts arbitrary: b)
  case Nil
  then show ?case by (simp add: barge_step_ok_def)
next
  case (Cons t ts)
  obtain x b' where ps: "barge_pass process reset pol idle st t b = (x, b')" by fastforce
  have ok: "barge_step_ok good (bs_triggered b) (x, b')" and inv: "inv (bs_segmenter b')"
    using barge_pass_ok[OF Cons.prems, of pol idle st t] ps by simp_all
  show ?case
  proof (cases "bt_now t - st < tmo")
    case False
    with Cons.prems show ?thesis
      by (auto simp: barge_step_ok_def barge_consistent_def barge_result_ok_def)
  next
    case True
    have c: "barge_consistent b'" "bs_triggered b \<longrightarrow> bs_triggered b'"
      using ok by (simp_all add: barge_step_ok_def)
    show ?thesis
    proof (cases x)
      case None
      with True ps Cons.IH[OF c(1) inv] c(2) show ?thesis
        by (auto simp: barge_step_ok_def)
    qed (use True ps ok in simp)
  qed
qed

end

lemma barge_state_init_ok: "barge_consistent (barge_state_init pol st playing s0)"
  by (simp add: barge_consistent_def barge_state_init_def)

lemma barge_loop_reaches_deadline:
  assumes "t \<in> set ts" and "st + tmo \<le> bt_now t"
  shows "fst (barge_loop process reset pol idle st tmo ts b) \<noteq> None"
  using assms
proof (induction ts arbitrary: b)
  case (Cons t' ts)
  then show ?case
    by (cases "barge_pass process reset pol idle st t' b")
       (auto split: option.splits)
qed simp

text \<open>A policy the class accepts always builds a segmenter.\<close>

lemma barge_in_policy_segmenter:
  assumes "barge_in_policy_check pol = Inr pol"
  shows "vad_config_check (barge_in_vad_config pol) = Inr (barge_in_vad_config pol)"
  using assms
  by (auto simp: barge_in_policy_check_def vad_config_check_def barge_in_vad_config_def
      split: if_splits)

section \<open>Arming\<close>

text \<open>While echo cancellation settles a pass changes nothing the segmenter or trigger sees.\<close>

lemma barge_pass_settling:
  assumes "\<not> bs_armed b" and "bs_last_playing b" and "bt_playing t"
    and "bt_arm_time t - bs_arm_started b < bp_aec_arm_delay_seconds pol"
    and "\<not> bs_triggered b"
  shows "snd (barge_pass process reset pol idle st t b) = b
    \<and> (\<forall>r. fst (barge_pass process reset pol idle st t b) = Some (Inr r) \<longrightarrow> \<not> br_triggered r)"
  using assms
  by (auto simp: barge_pass_def barge_listen_def barge_transition_def no_detection_def
      split: pcm_read.splits)

lemma barge_loop_settling:
  assumes "\<not> bs_armed b" and "bs_last_playing b" and "\<not> bs_triggered b"
    and "\<forall>t \<in> set ts. bt_playing t
       \<and> bt_arm_time t - bs_arm_started b < bp_aec_arm_delay_seconds pol"
  shows "snd (barge_loop process reset pol idle st tmo ts b) = b
    \<and> (\<forall>r. fst (barge_loop process reset pol idle st tmo ts b) = Some (Inr r) \<longrightarrow> \<not> br_triggered r)"
  using assms(4)
proof (induction ts)
  case (Cons t ts)
  obtain x b' where ps: "barge_pass process reset pol idle st t b = (x, b')" by fastforce
  with barge_pass_settling[OF assms(1,2), of t pol process reset idle st] Cons.prems assms(3)
  have "b' = b" "\<forall>r. x = Some (Inr r) \<longrightarrow> \<not> br_triggered r" by simp_all
  with Cons ps assms(3) show ?case by (auto split: option.splits)
qed simp

section \<open>Properties\<close>

definition tiny_policy :: barge_in_policy where
  "tiny_policy = \<lparr>bp_silero_threshold = 1 / 2, bp_confirmation_ms = 2,
     bp_aec_arm_delay_seconds = 1, bp_pre_roll_ms = 4, bp_speech_end_silence_ms = 2,
     bp_minimum_speech_ms = 1, bp_maximum_utterance_ms = 9, bp_max_wait_seconds = 30\<rparr>"

definition tiny_tick :: "real \<Rightarrow> bool \<Rightarrow> pcm \<Rightarrow> barge_tick" where
  "tiny_tick now playing p = \<lparr>bt_now = now, bt_stop_requested = False,
     bt_playing_check = playing, bt_playing = playing, bt_rearm_time = now,
     bt_read = Read_Chunk p, bt_read_time = now, bt_arm_time = now,
     bt_playing_trigger = playing, bt_stop_trigger = Inr \<lparr>ss_stopped = True, ss_elapsed_seconds = 0\<rparr>,
     bt_playing_retry = playing, bt_stop_retry = Inr \<lparr>ss_stopped = True, ss_elapsed_seconds = 0\<rparr>\<rparr>"

definition tiny_barge_segmenter :: "unit segmenter" where
  "tiny_barge_segmenter =
     \<lparr>sg_audio_config = tiny_audio, sg_detector = (), sg_start_chunks = 2,
      sg_end_silence_chunks = 2, sg_pre_roll_chunks = 4, sg_minimum_speech_chunks = 1,
      sg_maximum_chunks = 9, sg_pre_roll = [], sg_active_chunks = [],
      sg_consecutive_speech = 0, sg_speech_chunks = 0, sg_silence_chunks = 0,
      sg_active = False\<rparr>"

lemma tiny_barge_build: "build_barge_in_segmenter tiny_audio tiny_policy () = Inr tiny_barge_segmenter"
  by (simp add: build_barge_in_segmenter_def vad_config_check_def barge_in_vad_config_def
      tiny_policy_def segmenter_init_def tiny_barge_segmenter_def tiny_audio_def
      milliseconds_to_chunks_def)

lemma tiny_policy_check: "barge_in_policy_check tiny_policy = Inr tiny_policy"
  by (simp add: barge_in_policy_check_def tiny_policy_def)

lemmas barge_eval = capture_interruption_def barge_state_init_def tiny_tick_def tiny_policy_def
  tiny_barge_segmenter_def segmenter_process_def tiny_audio_def chunk_bytes_def chunk_frames_def
  byte_detector_def byte_frame_def process_idle_def process_active_def segmenter_finish_def
  clear_active_state_def result_of_def pre_roll_maxlen_def deque_append_def
  barge_reset_def segmenter_reset_def

abbreviation tiny_capture where
  "tiny_capture idle playing ticks \<equiv> capture_interruption (segmenter_process byte_detector)
     (barge_reset byte_detector) tiny_policy tiny_barge_segmenter None idle playing 0 playing
     None ticks"

definition tiny_speech :: "(real \<times> bool \<times> pcm) list \<Rightarrow> barge_tick list" where
  "tiny_speech xs = map (\<lambda>(now, playing, p). tiny_tick now playing p) xs"

lemma tiny_interruption:
  "\<exists>u. tiny_capture False True (tiny_speech
      [(0, True, [1, 0]), (1, True, [2, 0]), (2, True, [3, 0]), (3, False, [0, 4]), (4, False, [0, 5])])
    = Some (Inr \<lparr>br_triggered = True, br_detection_elapsed_seconds = Some 2,
        br_stop_result = Some \<lparr>ss_stopped = True, ss_elapsed_seconds = 0\<rparr>,
        br_utterance = Some u, br_max_speech_probability = 0, br_outcome = Triggered\<rparr>)
    \<and> vu_pcm u = [2, 0, 3, 0, 0, 4, 0, 5]"
  by (simp add: barge_eval tiny_speech_def barge_defs)

lemma build_barge_in_inv:
  assumes "audio_config_check ac = Inr ac" and "build_barge_in_segmenter ac pol d = Inr sg0"
  shows "segmenter_inv sg0"
proof -
  have sg0: "sg0 = segmenter_init ac (barge_in_vad_config pol) d"
    and vc: "vad_config_check (barge_in_vad_config pol) = Inr (barge_in_vad_config pol)"
    using assms(2)
    by (auto simp: build_barge_in_segmenter_def vad_config_check_def split: sum.splits if_splits
        option.splits)
  show ?thesis unfolding sg0 by (rule segmenter_init_inv, rule segmenter_init_wf[OF assms(1) vc])
qed

lemma capture_interruption_loop:
  assumes "capture_interruption process reset pol s0 mw idle p0 st p1 opened ticks = Some (Inr r)"
  obtains tmo b where "barge_loop process reset pol idle st tmo ticks
    (barge_state_init pol st p1 s0) = (Some (Inr r), b)"
  using assms
  by (cases "barge_loop process reset pol idle st
        (case mw of None \<Rightarrow> bp_max_wait_seconds pol | Some w \<Rightarrow> w) ticks
        (barge_state_init pol st p1 s0)")
     (auto simp: capture_interruption_def Let_def split: if_splits option.splits)

text \<open>whatever the microphone, the player, the clock and the stop request do, a result of
  the barge-in monitor is coherent: its outcome is "triggered" exactly when it is marked as
  triggered and then carries the detection time; an utterance comes only with a trigger and
  meets the segmenter's guarantees; a stop result of a player that did stop comes only with a
  trigger, and one of a player that did not comes exactly with the outcome "stop_failed".\<close>

theorem barge_in_result_coherent:
  assumes "audio_config_check ac = Inr ac" and "build_barge_in_segmenter ac pol d = Inr sg0"
    and "capture_interruption (segmenter_process det) (barge_reset det) pol sg0 max_wait
           allow_idle playing0 started playing1 opened ticks = Some (Inr r)"
  shows "(br_outcome r = Triggered \<longleftrightarrow> br_triggered r)
    \<and> (br_triggered r \<longleftrightarrow> br_detection_elapsed_seconds r \<noteq> None)
    \<and> (\<forall>u. br_utterance r = Some u \<longrightarrow> br_triggered r \<and> utterance_ok sg0 u)
    \<and> (br_outcome r = Stop_Failed \<longleftrightarrow> (\<exists>st. br_stop_result r = Some st \<and> \<not> ss_stopped st))
    \<and> (\<forall>st. br_stop_result r = Some st \<and> ss_stopped st \<longrightarrow> br_triggered r)"
proof -
  let ?b0 = "barge_state_init pol started playing1 sg0"
  obtain tmo b where run: "barge_loop (segmenter_process det) (barge_reset det) pol allow_idle
      started tmo ticks ?b0 = (Some (Inr r), b)"
    by (rule capture_interruption_loop[OF assms(3)])
  have "segmenter_inv (bs_segmenter ?b0) \<and> same_limits sg0 (bs_segmenter ?b0)"
    using build_barge_in_inv[OF assms(1,2)] by (simp add: barge_state_init_def)
  from barge_segmenter.barge_loop_ok[OF barge_state_init_ok this, where st = started and det = det
      and tmo = tmo and idle = allow_idle and ts = ticks and pol = pol] run
  have "barge_result_ok r" "\<forall>u. br_utterance r = Some u \<longrightarrow> utterance_ok sg0 u"
    by (simp_all add: barge_step_ok_def)
  then show ?thesis by (auto simp: barge_result_ok_def)
qed

abbreviation tiny_interrupting :: "barge_tick list" where
  "tiny_interrupting \<equiv> tiny_speech
      [(0, True, [1, 0]), (1, True, [2, 0]), (2, True, [3, 0]), (3, False, [0, 4]), (4, False, [0, 5])]"

theorem barge_in_result_coherent_witness:
  "\<exists>r u. tiny_capture False True tiny_interrupting = Some (Inr r) \<and> br_outcome r = Triggered
     \<and> br_utterance r = Some u \<and> utterance_ok tiny_barge_segmenter u"
proof -
  have ac: "audio_config_check tiny_audio = Inr tiny_audio" by (simp add: tiny_checks)
  obtain r u where r: "tiny_capture False True tiny_interrupting = Some (Inr r)"
    and u: "br_utterance r = Some u" and o: "br_outcome r = Triggered"
    using tiny_interruption by fastforce
  from barge_in_result_coherent[OF ac tiny_barge_build r] u have "utterance_ok tiny_barge_segmenter u"
    by blast
  with r u o show ?thesis by blast
qed

text \<open>confirmed speech is not abandoned: once an interruption is confirmed, neither a stop
  request nor the end of playback ends the capture, which then returns only as "triggered" or
  because the player could not be stopped, and a pass does not even read the stop request or
  the player's completion.\<close>

theorem confirmed_interruption_kept:
  assumes "segmenter_inv (bs_segmenter b)" and "barge_consistent b" and "bs_triggered b"
  shows "(\<forall>r b'. barge_loop (segmenter_process det) (barge_reset det) pol idle started timeout ticks b
            = (Some (Inr r), b') \<longrightarrow> br_outcome r = Triggered \<or> br_outcome r = Stop_Failed)
    \<and> barge_pass (segmenter_process det) (barge_reset det) pol idle started
        (t\<lparr>bt_stop_requested := x, bt_playing_check := y\<rparr>) b
      = barge_pass (segmenter_process det) (barge_reset det) pol idle started t b"
proof
  have "segmenter_inv (bs_segmenter b) \<and> same_limits (bs_segmenter b) (bs_segmenter b)"
    using assms(1) by simp
  from barge_segmenter.barge_loop_ok[OF assms(2) this, where st = started and det = det
      and tmo = timeout and idle = idle and ts = ticks and pol = pol] assms(3)
  show "\<forall>r b'. barge_loop (segmenter_process det) (barge_reset det) pol idle started timeout ticks b
            = (Some (Inr r), b') \<longrightarrow> br_outcome r = Triggered \<or> br_outcome r = Stop_Failed"
    by (auto simp: barge_step_ok_def)
  show "barge_pass (segmenter_process det) (barge_reset det) pol idle started
        (t\<lparr>bt_stop_requested := x, bt_playing_check := y\<rparr>) b
      = barge_pass (segmenter_process det) (barge_reset det) pol idle started t b"
    using assms(3)
    by (cases t) (simp add: barge_pass_def barge_listen_def barge_transition_def
        barge_detect_def Let_def split: pcm_read.splits prod.splits sum.splits)
qed

definition tiny_triggered :: "unit segmenter barge_state" where
  "tiny_triggered = \<lparr>bs_segmenter = tiny_barge_segmenter, bs_last_playing = False,
     bs_arm_started = 0, bs_armed = True, bs_triggered = True,
     bs_detection_elapsed = Some 1, bs_stop_result = None, bs_max_probability = 0\<rparr>"

theorem confirmed_interruption_kept_witness:
  "\<exists>r b'. barge_loop (segmenter_process byte_detector) (barge_reset byte_detector) tiny_policy
       False 0 5 [(tiny_tick 6 False [])\<lparr>bt_stop_requested := True\<rparr>] tiny_triggered
       = (Some (Inr r), b') \<and> (br_outcome r = Triggered \<or> br_outcome r = Stop_Failed)"
proof -
  have inv: "segmenter_inv (bs_segmenter tiny_triggered)"
    using build_barge_in_inv[OF tiny_checks(1) tiny_barge_build] by (simp add: tiny_triggered_def)
  have con: "barge_consistent tiny_triggered" "bs_triggered tiny_triggered"
    by (simp_all add: tiny_triggered_def barge_consistent_def)
  have "\<exists>r b'. barge_loop (segmenter_process byte_detector) (barge_reset byte_detector) tiny_policy
       False 0 5 [(tiny_tick 6 False [])\<lparr>bt_stop_requested := True\<rparr>] tiny_triggered
       = (Some (Inr r), b')"
    by (simp add: tiny_triggered_def tiny_tick_def)
  with confirmed_interruption_kept[OF inv con] show ?thesis by blast
qed

text \<open>while echo cancellation settles nothing Friday hears can interrupt: as long as playback
  continues and the arming delay has not passed since the capture started, no result is a
  trigger and the segmenter has seen no audio at all.\<close>

theorem settling_playback_not_interrupted:
  assumes "\<forall>t \<in> set ticks. bt_playing t \<and> bt_arm_time t - started < bp_aec_arm_delay_seconds pol"
    and "bp_aec_arm_delay_seconds pol \<noteq> 0"
  shows "\<forall>r b. barge_loop process reset pol idle started timeout ticks
            (barge_state_init pol started True s0) = (Some (Inr r), b) \<longrightarrow>
          \<not> br_triggered r \<and> bs_segmenter b = s0"
  using barge_loop_settling[where b = "barge_state_init pol started True s0" and ts = ticks
      and pol = pol and process = process and reset = reset and idle = idle and st = started
      and tmo = timeout] assms
  by (auto simp: barge_state_init_def)

abbreviation slow_policy :: barge_in_policy where
  "slow_policy \<equiv> tiny_policy\<lparr>bp_aec_arm_delay_seconds := 10\<rparr>"

theorem settling_playback_not_interrupted_witness:
  "\<exists>r b. barge_loop (segmenter_process byte_detector) (barge_reset byte_detector) slow_policy
         False 0 2 (tiny_speech [(0, True, [1, 0]), (1, True, [2, 0]), (2, True, [3, 0])])
         (barge_state_init slow_policy 0 True tiny_barge_segmenter) = (Some (Inr r), b)
       \<and> \<not> br_triggered r \<and> bs_segmenter b = tiny_barge_segmenter"
proof -
  let ?ts = "tiny_speech [(0, True, [1, 0]), (1, True, [2, 0]), (2, True, [3, 0])]"
  have h: "\<forall>t \<in> set ?ts. bt_playing t \<and> bt_arm_time t - 0 < bp_aec_arm_delay_seconds slow_policy"
    "bp_aec_arm_delay_seconds slow_policy \<noteq> 0"
    by (simp_all add: tiny_speech_def tiny_tick_def)
  have "\<exists>r b. barge_loop (segmenter_process byte_detector) (barge_reset byte_detector)
         slow_policy False 0 2 ?ts (barge_state_init slow_policy 0 True tiny_barge_segmenter)
       = (Some (Inr r), b)"
    by (simp add: barge_eval tiny_speech_def barge_defs)
  then obtain r b where r: "barge_loop (segmenter_process byte_detector)
      (barge_reset byte_detector) slow_policy False 0 2 ?ts
      (barge_state_init slow_policy 0 True tiny_barge_segmenter) = (Some (Inr r), b)"
    by blast
  from settling_playback_not_interrupted[OF h, rule_format, OF r] r show ?thesis by blast
qed

text \<open>the monitor always returns: once the clock of a pass reaches the start time plus the
  wait limit the capture has returned, and it returns at once when it cannot start.\<close>

theorem barge_in_returns:
  assumes "(\<exists>t \<in> set ticks. started + (case max_wait of None \<Rightarrow> bp_max_wait_seconds pol
        | Some w \<Rightarrow> w) \<le> bt_now t) \<or> opened \<noteq> None \<or> \<not> allow_idle \<and> \<not> playing0"
  shows "\<exists>res. capture_interruption process reset pol s0 max_wait allow_idle playing0 started
    playing1 opened ticks = Some res"
proof -
  let ?tmo = "case max_wait of None \<Rightarrow> bp_max_wait_seconds pol | Some w \<Rightarrow> w"
  show ?thesis
  proof (cases "opened \<noteq> None \<or> \<not> allow_idle \<and> \<not> playing0 \<or> ?tmo \<le> 0")
    case True
    then show ?thesis by (auto simp: capture_interruption_def Let_def split: option.splits)
  next
    case False
    with assms obtain t where "t \<in> set ticks" "started + ?tmo \<le> bt_now t" by blast
    then have "fst (barge_loop process reset pol allow_idle started ?tmo ticks
        (barge_state_init pol started playing1 s0)) \<noteq> None"
      by (rule barge_loop_reaches_deadline)
    with False show ?thesis by (auto simp: capture_interruption_def Let_def)
  qed
qed

theorem barge_in_returns_witness:
  "\<exists>res. tiny_capture False True (tiny_speech [(0, True, [1, 0]), (31, True, [2, 0])]) = Some res"
  by (rule barge_in_returns) (simp add: tiny_speech_def tiny_tick_def tiny_policy_def)

text \<open>
  A confirmed interruption loses its utterance when playback starts while the speech is still
  being collected: the transition keeps the segmenter, but the end of the arming delay resets
  it without looking at the trigger. The same speech without the playback is returned.
\<close>

lemma rearming_loses_confirmed_speech:
  "\<exists>r. tiny_capture True False (tiny_speech
      [(0, False, [1, 0]), (1 / 4, False, [2, 0]), (1 / 2, True, [3, 0]), (2, True, [4, 0]),
       (3, False, [0, 5]), (4, False, [0, 6]), (30, False, [0, 7])]) = Some (Inr r)
     \<and> br_outcome r = Triggered \<and> br_utterance r = None"
  "\<exists>r u. tiny_capture True False (tiny_speech
      [(0, False, [1, 0]), (1 / 4, False, [2, 0]), (1 / 2, False, [3, 0]), (2, False, [4, 0]),
       (3, False, [0, 5]), (4, False, [0, 6]), (30, False, [0, 7])]) = Some (Inr r)
     \<and> br_outcome r = Triggered \<and> br_utterance r = Some u
     \<and> vu_pcm u = [1, 0, 2, 0, 3, 0, 4, 0, 0, 5, 0, 6]"
  by (simp_all add: barge_eval tiny_speech_def barge_defs)

end
