(* ===== verification/Speech_Text.thy ===== *)
theory Speech_Text
  imports Friday_Prelude
begin

text \<open>
  Text on its way to speech synthesis: the sentence chunker of \<open>voice/speech_chunks.py\<close> and the
  bounded handoff of \<open>voice/speech_queue.py\<close>. The chunker's loop is a partial function, so that
  returning is something to prove. The queue is shared by producers and one reader, which run
  concurrently: its operations are events, split where the code does not hold a lock.
\<close>

section \<open>The chunker\<close>

record chunker =
  ck_max_chars :: int
  ck_buffer :: pystr

definition chunker_init :: "int \<Rightarrow> exn + chunker" where
  "chunker_init max_chars =
     (if max_chars < 32 then Inl (ValueError ''max_chars must be at least 32'')
      else Inr \<lparr>ck_max_chars = max_chars, ck_buffer = []\<rparr>)"

definition sentence_mark :: "nat \<Rightarrow> bool" where
  "sentence_mark c \<longleftrightarrow> c \<in> set (lit ''.!?'')"

text \<open>The \<open>for index, character\<close> loop of \<open>_boundary\<close>.\<close>

fun sentence_boundary :: "nat \<Rightarrow> pystr \<Rightarrow> nat option" where
  "sentence_boundary i [] = None"
| "sentence_boundary i (c # rest) =
     (if sentence_mark c \<and> (rest = [] \<or> py_isspace (hd rest)) then Some (i + 1)
      else sentence_boundary (i + 1) rest)"

text \<open>\<open>s.rfind(" ", 0, stop)\<close>: the last blank before \<open>stop\<close>, or -1.\<close>

definition rfind_blank :: "pystr \<Rightarrow> nat \<Rightarrow> int" where
  "rfind_blank s stop =
     int (length (dropWhile (\<lambda>c. c \<noteq> 32) (rev (take stop s)))) - 1"

definition boundary :: "int \<Rightarrow> pystr \<Rightarrow> nat option" where
  "boundary max_chars buffer =
     (case sentence_boundary 0 buffer of Some i \<Rightarrow> Some i
      | None \<Rightarrow>
          if int (length buffer) > max_chars then
            let split = rfind_blank buffer (nat (max_chars + 1))
            in Some (nat (if split > 0 then split else max_chars))
          else None)"

partial_function (option) push_loop ::
    "int \<Rightarrow> pystr \<Rightarrow> pystr list \<Rightarrow> (pystr list \<times> pystr) option" where
  "push_loop max_chars buffer emitted =
     (case boundary max_chars buffer of None \<Rightarrow> Some (emitted, buffer)
      | Some b \<Rightarrow>
          push_loop max_chars (lstrip (drop b buffer))
            (let chunk = strip (take b buffer)
             in if chunk \<noteq> [] then emitted @ [chunk] else emitted))"

definition chunker_push :: "pystr \<Rightarrow> chunker \<Rightarrow> (pystr list \<times> chunker) option" where
  "chunker_push s ck =
     map_option (\<lambda>(emitted, buffer). (emitted, ck\<lparr>ck_buffer := buffer\<rparr>))
       (push_loop (ck_max_chars ck) (ck_buffer ck @ s) [])"

definition chunker_finish :: "chunker \<Rightarrow> pystr list \<times> chunker" where
  "chunker_finish ck =
     (let chunk = strip (ck_buffer ck)
      in ((if chunk \<noteq> [] then [chunk] else []), ck\<lparr>ck_buffer := []\<rparr>))"

text \<open>A stream of deltas, then the end of the turn.\<close>

fun chunker_run :: "pystr list \<Rightarrow> chunker \<Rightarrow> (pystr list \<times> chunker) option" where
  "chunker_run [] ck = Some (chunker_finish ck)"
| "chunker_run (s # ss) ck =
     (case chunker_push s ck of None \<Rightarrow> None
      | Some (out, ck') \<Rightarrow> map_option (\<lambda>(out', ck''). (out @ out', ck'')) (chunker_run ss ck'))"

section \<open>Where the chunker cuts\<close>

definition visible :: "pystr \<Rightarrow> pystr" where
  "visible s = filter (\<lambda>c. \<not> py_isspace c) s"

lemma visible_append [simp]: "visible (s @ t) = visible s @ visible t"
  by (simp add: visible_def)

lemma visible_Nil [simp]: "visible [] = []"
  by (simp add: visible_def)

lemma visible_dropWhile: "visible (dropWhile py_isspace s) = visible s"
  by (induction s) (auto simp: visible_def)

lemma visible_rev: "visible (rev s) = rev (visible s)"
  by (simp add: visible_def rev_filter)

lemma visible_lstrip [simp]: "visible (lstrip s) = visible s"
  by (simp add: lstrip_def visible_dropWhile)

lemma visible_rstrip [simp]: "visible (rstrip s) = visible s"
  by (simp add: rstrip_def visible_rev visible_dropWhile)

lemma visible_strip [simp]: "visible (strip s) = visible s"
  by (simp add: strip_def)

lemma sentence_boundary_Some:
  "sentence_boundary i s = Some b \<Longrightarrow>
     i < b \<and> b \<le> i + length s \<and> sentence_mark (s ! (b - i - 1))"
proof (induction i s rule: sentence_boundary.induct)
  case (2 i c rest)
  show ?case
  proof (cases "sentence_mark c \<and> (rest = [] \<or> py_isspace (hd rest))")
    case False
    then have "sentence_boundary (i + 1) rest = Some b"
      using "2.prems" by (simp only: sentence_boundary.simps if_False)
    from "2.IH"[OF False this] have "i + 1 < b" "b \<le> i + 1 + length rest"
      "sentence_mark (rest ! (b - (i + 1) - 1))" by simp_all
    moreover then have "b - i - 1 = Suc (b - (i + 1) - 1)" by simp
    ultimately show ?thesis by simp
  qed (use "2.prems" in auto)
qed simp

lemma rfind_blank_less: "rfind_blank s stop < int (length s) \<or> s = [] \<and> rfind_blank s stop = -1"
proof -
  have "length (dropWhile (\<lambda>c. c \<noteq> 32) (rev (take stop s))) \<le> length (take stop s)"
    using length_dropWhile_le[of _ "rev (take stop s)"] by simp
  then show ?thesis by (auto simp: rfind_blank_def)
qed

lemma rfind_blank_stop: "rfind_blank s stop < int stop \<or> stop = 0"
proof -
  have "length (dropWhile (\<lambda>c. c \<noteq> 32) (rev (take stop s))) \<le> length (take stop s)"
    using length_dropWhile_le[of _ "rev (take stop s)"] by simp
  then show ?thesis by (auto simp: rfind_blank_def)
qed

text \<open>A boundary always cuts something off, and a cut without a sentence mark is short.\<close>

lemma boundary_Some:
  assumes "boundary m s = Some b" and "0 < m"
  shows "0 < b \<and> b \<le> length s \<and> (int b \<le> m \<or> sentence_mark (s ! (b - 1)))"
proof (cases "sentence_boundary 0 s")
  case (Some i)
  with assms(1) sentence_boundary_Some[OF Some] show ?thesis by (simp add: boundary_def)
next
  case None
  with assms(1) have "int (length s) > m" and b: "b = nat (if rfind_blank s (nat (m + 1)) > 0
      then rfind_blank s (nat (m + 1)) else m)"
    by (auto simp: boundary_def Let_def split: if_splits)
  with assms(2) rfind_blank_less[of s "nat (m + 1)"] rfind_blank_stop[of s "nat (m + 1)"]
  show ?thesis by (auto split: if_splits)
qed

lemma boundary_None: "boundary m s = None \<Longrightarrow> int (length s) \<le> m"
  by (auto simp: boundary_def Let_def split: option.splits if_splits)

definition chunk_ok :: "int \<Rightarrow> pystr \<Rightarrow> bool" where
  "chunk_ok m c \<longleftrightarrow> c \<noteq> [] \<and> strip c = c \<and> (int (length c) \<le> m \<or> sentence_mark (last c))"

lemma sentence_mark_visible: "sentence_mark c \<Longrightarrow> \<not> py_isspace c"
  by (auto simp: sentence_mark_def lit_def py_isspace_def)

lemma strip_keeps_last:
  assumes "s \<noteq> []" and "\<not> py_isspace (last s)"
  shows "strip s \<noteq> [] \<and> last (strip s) = last s"
proof -
  have "rstrip s = s"
    using assms by (cases s rule: rev_cases) (auto simp: rstrip_def)
  then have eq: "strip s = lstrip s" by (simp add: strip_def)
  have ne: "strip s \<noteq> []" using assms by (auto simp: strip_eq_Nil)
  obtain p where "s = p @ strip s" using suffix_lstrip[of s] eq by (auto simp: suffix_def)
  with ne show ?thesis by (metis last_appendR)
qed

lemma cut_chunk_ok:
  assumes "boundary m s = Some b" and "0 < m" and "strip (take b s) \<noteq> []"
  shows "chunk_ok m (strip (take b s))"
proof -
  note b = boundary_Some[OF assms(1,2)]
  have len: "length (strip (take b s)) \<le> b"
    using length_strip[of "take b s"] by simp
  show ?thesis
  proof (cases "int b \<le> m")
    case True
    with len assms(3) show ?thesis by (simp add: chunk_ok_def)
  next
    case False
    with b have mark: "sentence_mark (s ! (b - 1))" by simp
    have ne: "take b s \<noteq> []" using b by auto
    then have "last (take b s) = s ! (b - 1)" using b by (simp add: last_conv_nth)
    with ne mark strip_keeps_last[of "take b s"] sentence_mark_visible show ?thesis
      by (simp add: chunk_ok_def)
  qed
qed

lemma lstrip_drop_shorter:
  assumes "boundary m s = Some b" and "0 < m"
  shows "length (lstrip (drop b s)) < length s"
  using boundary_Some[OF assms] length_lstrip[of "drop b s"]
  by (metis diff_less length_drop less_le_trans order_le_less_trans)

text \<open>The loop returns, and what it returns.\<close>

lemma push_loop_returns:
  assumes "0 < m"
  shows "\<exists>out rest. push_loop m s em = Some (em @ out, rest) \<and> (\<forall>c \<in> set out. chunk_ok m c)
    \<and> int (length rest) \<le> m \<and> visible s = visible (concat out) @ visible rest"
proof (induction s arbitrary: em rule: length_induct)
  case (1 s)
  show ?case
  proof (cases "boundary m s")
    case None
    with boundary_None[OF None] show ?thesis by (simp add: push_loop.simps[of m s])
  next
    case (Some b)
    define c where "c = strip (take b s)"
    let ?em = "if c \<noteq> [] then em @ [c] else em"
    have vis: "visible s = visible c @ visible (lstrip (drop b s))"
      by (simp add: c_def flip: visible_append)
    obtain out rest where o: "push_loop m (lstrip (drop b s)) ?em = Some (?em @ out, rest)"
      "\<forall>c \<in> set out. chunk_ok m c" "int (length rest) \<le> m"
      "visible (lstrip (drop b s)) = visible (concat out) @ visible rest"
      using "1.IH"[rule_format, OF lstrip_drop_shorter[OF Some assms], of ?em] by blast
    have step: "push_loop m s em = push_loop m (lstrip (drop b s)) ?em"
      using Some by (simp add: push_loop.simps[of m s] c_def Let_def)
    show ?thesis
    proof (cases "c = []")
      case True
      with step o vis show ?thesis by auto
    next
      case False
      with cut_chunk_ok[OF Some assms] have "chunk_ok m c" by (simp add: c_def)
      with False step o vis show ?thesis
        by (intro exI[of _ "c # out"] exI[of _ rest]) auto
    qed
  qed
qed

lemma chunker_push_returns:
  assumes "0 < ck_max_chars ck"
  obtains out ck' where "chunker_push s ck = Some (out, ck')"
    "ck_max_chars ck' = ck_max_chars ck" "int (length (ck_buffer ck')) \<le> ck_max_chars ck"
    "\<forall>c \<in> set out. chunk_ok (ck_max_chars ck) c"
    "visible (ck_buffer ck) @ visible s = visible (concat out) @ visible (ck_buffer ck')"
  using push_loop_returns[OF assms, of "ck_buffer ck @ s" "[]"] that
  by (fastforce simp: chunker_push_def)

lemma chunker_finish_ok:
  assumes "int (length (ck_buffer ck)) \<le> ck_max_chars ck"
  shows "(\<forall>c \<in> set (fst (chunker_finish ck)). chunk_ok (ck_max_chars ck) c)
    \<and> visible (concat (fst (chunker_finish ck))) = visible (ck_buffer ck)
    \<and> ck_buffer (snd (chunker_finish ck)) = []"
proof -
  have "length (strip (ck_buffer ck)) \<le> length (ck_buffer ck)" by (rule length_strip)
  moreover have "visible (ck_buffer ck) = []" if "strip (ck_buffer ck) = []"
    using that visible_strip[of "ck_buffer ck"] by simp
  ultimately show ?thesis
    using assms by (auto simp: chunker_finish_def Let_def chunk_ok_def)
qed

lemma chunker_run_ok:
  assumes "0 < ck_max_chars ck" and "int (length (ck_buffer ck)) \<le> ck_max_chars ck"
  shows "\<exists>out ck'. chunker_run ss ck = Some (out, ck') \<and> ck_buffer ck' = []
    \<and> (\<forall>c \<in> set out. chunk_ok (ck_max_chars ck) c)
    \<and> visible (concat out) = visible (ck_buffer ck) @ visible (concat ss)"
  using assms
proof (induction ss arbitrary: ck)
  case Nil
  from chunker_finish_ok[OF Nil(2)] show ?case
    by (cases "chunker_finish ck") simp
next
  case (Cons s ss)
  obtain out ck' where p: "chunker_push s ck = Some (out, ck')"
    "ck_max_chars ck' = ck_max_chars ck" "int (length (ck_buffer ck')) \<le> ck_max_chars ck"
    "\<forall>c \<in> set out. chunk_ok (ck_max_chars ck) c"
    "visible (ck_buffer ck) @ visible s = visible (concat out) @ visible (ck_buffer ck')"
    by (rule chunker_push_returns[OF Cons.prems(1)])
  obtain out' ck'' where r: "chunker_run ss ck' = Some (out', ck'')" "ck_buffer ck'' = []"
    "\<forall>c \<in> set out'. chunk_ok (ck_max_chars ck) c"
    "visible (concat out') = visible (ck_buffer ck') @ visible (concat ss)"
    using Cons.IH[of ck'] Cons.prems p by auto
  have "visible (ck_buffer ck) @ visible s @ visible (concat ss)
      = visible (concat out) @ visible (concat out')"
    using p(5) r(4) by (metis append.assoc)
  with p r show ?case by auto
qed



section \<open>The queue\<close>

text \<open>
  The reader is at \<open>get\<close>, has seen \<open>Empty\<close> and not yet looked at \<open>_closed\<close>, or has returned.
  \<open>sq_waiting\<close> are the \<open>put\<close> calls past the closed check and inside \<open>Queue.put\<close>. The last two
  fields are history: the texts whose \<open>put\<close> returned, and those the reader yielded.
\<close>

datatype queue_reader = Getting | Saw_Empty | Returned

record speech_queue =
  sq_max_items :: int
  sq_items :: "pystr list"
  sq_closed :: bool
  sq_waiting :: "pystr list"
  sq_reader :: queue_reader
  sq_accepted :: "pystr list"
  sq_yielded :: "pystr list"

definition speech_queue_init :: "int \<Rightarrow> speech_queue" where
  "speech_queue_init max_items =
     \<lparr>sq_max_items = max_items, sq_items = [], sq_closed = False, sq_waiting = [],
      sq_reader = Getting, sq_accepted = [], sq_yielded = []\<rparr>"

text \<open>\<open>queue.Queue.full\<close>: a bound that is not positive means no bound.\<close>

definition queue_full :: "speech_queue \<Rightarrow> bool" where
  "queue_full q \<longleftrightarrow> 0 < sq_max_items q \<and> sq_max_items q \<le> int (length (sq_items q))"

datatype queue_event =
    Put_Start pystr
  | Put_Store nat
  | Put_Timeout nat
  | Close_Queue
  | Get_Item
  | Get_Timeout
  | Check_Closed

definition queue_closed_error :: "string \<Rightarrow> exn" where
  "queue_closed_error m = Exn SpeechQueueClosedC m"

definition remove_at :: "nat \<Rightarrow> 'a list \<Rightarrow> 'a list" where
  "remove_at i xs = take i xs @ drop (Suc i) xs"

text \<open>One event: not enabled, or the outcome of the call it ends and the new state.\<close>

fun queue_step :: "queue_event \<Rightarrow> speech_queue \<Rightarrow> ((exn + unit) \<times> speech_queue) option" where
  "queue_step (Put_Start x) q =
     Some (if sq_closed q then (Inl (queue_closed_error ''speech queue is closed''), q)
           else (Inr (), q\<lparr>sq_waiting := sq_waiting q @ [x]\<rparr>))"
| "queue_step (Put_Store i) q =
     (if i < length (sq_waiting q) \<and> \<not> queue_full q then
        Some (Inr (), q\<lparr>sq_items := sq_items q @ [sq_waiting q ! i],
          sq_waiting := remove_at i (sq_waiting q),
          sq_accepted := sq_accepted q @ [sq_waiting q ! i]\<rparr>)
      else None)"
| "queue_step (Put_Timeout i) q =
     (if i < length (sq_waiting q) \<and> queue_full q then
        Some (Inl (queue_closed_error ''speech queue backpressure timeout''),
          q\<lparr>sq_waiting := remove_at i (sq_waiting q)\<rparr>)
      else None)"
| "queue_step Close_Queue q = Some (Inr (), q\<lparr>sq_closed := True\<rparr>)"
| "queue_step Get_Item q =
     (if sq_reader q = Getting then
        case sq_items q of [] \<Rightarrow> None
        | x # rest \<Rightarrow> Some (Inr (), q\<lparr>sq_items := rest, sq_yielded := sq_yielded q @ [x]\<rparr>)
      else None)"
| "queue_step Get_Timeout q =
     (if sq_reader q = Getting \<and> sq_items q = [] then Some (Inr (), q\<lparr>sq_reader := Saw_Empty\<rparr>)
      else None)"
| "queue_step Check_Closed q =
     (if sq_reader q = Saw_Empty then
        Some (Inr (), q\<lparr>sq_reader := (if sq_closed q then Returned else Getting)\<rparr>)
      else None)"

inductive queue_reachable :: "int \<Rightarrow> speech_queue \<Rightarrow> bool" for max_items where
  init: "queue_reachable max_items (speech_queue_init max_items)"
| step: "queue_reachable max_items q \<Longrightarrow> queue_step ev q = Some (r, q') \<Longrightarrow>
    queue_reachable max_items q'"

fun queue_run :: "queue_event list \<Rightarrow> speech_queue \<Rightarrow> speech_queue option" where
  "queue_run [] q = Some q"
| "queue_run (ev # evs) q =
     (case queue_step ev q of None \<Rightarrow> None | Some (_, q') \<Rightarrow> queue_run evs q')"

lemma queue_run_reachable:
  "queue_run evs q = Some q' \<Longrightarrow> queue_reachable m q \<Longrightarrow> queue_reachable m q'"
proof (induction evs arbitrary: q)
  case (Cons ev evs)
  then obtain r q1 where "queue_step ev q = Some (r, q1)" "queue_run evs q1 = Some q'"
    by (auto split: option.splits)
  with Cons show ?case by (blast intro: queue_reachable.step)
qed simp

definition queue_inv :: "int \<Rightarrow> speech_queue \<Rightarrow> bool" where
  "queue_inv m q \<longleftrightarrow> sq_max_items q = m
     \<and> sq_accepted q = sq_yielded q @ sq_items q
     \<and> (0 < m \<longrightarrow> int (length (sq_items q)) \<le> m)
     \<and> (sq_reader q = Returned \<longrightarrow> sq_closed q)"

lemma queue_step_inv:
  "queue_step ev q = Some (r, q') \<Longrightarrow> queue_inv m q \<Longrightarrow> queue_inv m q'"
  by (cases ev) (auto simp: queue_inv_def queue_full_def split: if_splits list.splits)

lemma queue_reachable_inv: "queue_reachable m q \<Longrightarrow> queue_inv m q"
proof (induction rule: queue_reachable.induct)
  case init
  show ?case by (simp add: queue_inv_def speech_queue_init_def)
qed (rule queue_step_inv)

text \<open>the handoff is an ordered, bounded queue under every interleaving of producers, closer
  and reader: what the reader has yielded followed by what waits in the queue is exactly what
  was accepted, in that order, the queue never holds more than its bound, the reader stops
  only after the queue was closed, and from then on a new put raises and changes nothing.\<close>

theorem speech_queue_ordered_bounded:
  assumes "queue_reachable max_items q"
  shows "sq_accepted q = sq_yielded q @ sq_items q
    \<and> (0 < max_items \<longrightarrow> int (length (sq_items q)) \<le> max_items)
    \<and> (sq_reader q = Returned \<longrightarrow> sq_closed q)
    \<and> (sq_closed q \<longrightarrow> (\<forall>x. \<exists>e. queue_step (Put_Start x) q = Some (Inl e, q)
        \<and> exn_kind e = SpeechQueueClosedC))"
  using queue_reachable_inv[OF assms]
  by (simp add: queue_inv_def queue_closed_error_def)

theorem speech_queue_ordered_bounded_witness:
  "\<exists>q. queue_run [Put_Start [65], Put_Store 0, Put_Start [66], Put_Store 0, Get_Item]
         (speech_queue_init 4) = Some q
     \<and> sq_yielded q = [[65]] \<and> sq_items q = [[66]] \<and> sq_accepted q = sq_yielded q @ sq_items q"
proof -
  obtain q where q: "queue_run [Put_Start [65], Put_Store 0, Put_Start [66], Put_Store 0, Get_Item]
         (speech_queue_init 4) = Some q" "sq_yielded q = [[65]]" "sq_items q = [[66]]"
    by (simp add: speech_queue_init_def queue_full_def remove_at_def)
  with speech_queue_ordered_bounded[OF queue_run_reachable[OF q(1) queue_reachable.init]]
  show ?thesis by blast
qed

text \<open>
  The reader can miss an accepted text: between the timeout of its \<open>get\<close> and its look at the
  closed flag a producer may store a text and close the queue.
\<close>

lemma reader_can_miss_accepted_text:
  "\<exists>q. queue_run [Get_Timeout, Put_Start [65], Put_Store 0, Close_Queue, Check_Closed]
         (speech_queue_init 4) = Some q
     \<and> sq_reader q = Returned \<and> sq_accepted q = [[65]] \<and> sq_yielded q = []"
  by (simp add: speech_queue_init_def queue_full_def remove_at_def)

end
