(* ===== verification/Session.thy ===== *)
theory Session
  imports Friday_Prelude
begin

text \<open>
  The active conversation (\<open>interface/session.py\<close>) and the admission of one interaction at a
  time (\<open>interface/interaction.py\<close>). Every method of the two classes holds the object's lock
  for its whole effect, so a method is one step.
\<close>

section \<open>The bounded conversation\<close>

record conversation_turn =
  ct_role :: pystr
  ct_text :: pystr

record conversation =
  cs_max_turns :: int
  cs_max_characters :: int
  cs_turns :: "conversation_turn list"
  cs_active :: bool
  cs_capability_mode :: "pystr option"
  cs_capability_context :: "pystr option"

definition session_init :: "int \<Rightarrow> int \<Rightarrow> exn + conversation" where
  "session_init max_turns max_characters =
     (if max_turns < 2 \<or> max_characters < 256 then
        Inl (ValueError ''session context bounds are too small'')
      else Inr \<lparr>cs_max_turns = max_turns, cs_max_characters = max_characters, cs_turns = [],
             cs_active = False, cs_capability_mode = None, cs_capability_context = None\<rparr>)"

definition session_begin :: "conversation \<Rightarrow> conversation" where
  "session_begin cs = cs\<lparr>cs_active := True\<rparr>"

definition session_close :: "conversation \<Rightarrow> conversation" where
  "session_close cs = cs\<lparr>cs_active := False, cs_turns := [], cs_capability_mode := None,
     cs_capability_context := None\<rparr>"

definition set_capability_mode :: "pystr \<Rightarrow> pystr \<Rightarrow> (conversation, unit) act" where
  "set_capability_mode mode ctx cs =
     (if strip mode = [] \<or> strip ctx = [] then
        (Inl (ValueError ''capability mode and context must not be empty''), cs)
      else (Inr (), cs\<lparr>cs_capability_mode := Some (take 160 (strip mode)),
             cs_capability_context := Some (take 8000 (strip ctx))\<rparr>))"

definition capability_context :: "conversation \<Rightarrow> pystr" where
  "capability_context cs = (case cs_capability_context cs of None \<Rightarrow> [] | Some c \<Rightarrow> c)"

text \<open>\<open>"\n".join(...)\<close>\<close>

fun join_lines :: "pystr list \<Rightarrow> pystr" where
  "join_lines [] = []"
| "join_lines [l] = l"
| "join_lines (l # ls) = l @ [10] @ join_lines ls"

definition prior_context :: "conversation \<Rightarrow> pystr" where
  "prior_context cs =
     (if cs_turns cs = [] then []
      else join_lines (map (\<lambda>t. ct_role t @ lit '': '' @ ct_text t) (cs_turns cs)))"

definition session_characters :: "conversation_turn list \<Rightarrow> int" where
  "session_characters turns =
     (\<Sum>t\<leftarrow>turns. int (length (ct_role t)) + int (length (ct_text t)) + 2)"

text \<open>The \<open>while\<close> loop of \<open>append\<close>; the bounds of the constructor stop it at the empty list.\<close>

fun trim_turns :: "int \<Rightarrow> int \<Rightarrow> conversation_turn list \<Rightarrow> conversation_turn list" where
  "trim_turns max_turns max_characters [] = []"
| "trim_turns max_turns max_characters (t # ts) =
     (if int (length (t # ts)) > max_turns \<or> session_characters (t # ts) > max_characters
      then trim_turns max_turns max_characters ts
      else t # ts)"

definition known_role :: "pystr \<Rightarrow> bool" where
  "known_role r \<longleftrightarrow> r = lit ''Owner'' \<or> r = lit ''Friday''"

definition session_append :: "pystr \<Rightarrow> pystr \<Rightarrow> (conversation, unit) act" where
  "session_append role said cs =
     (if \<not> known_role role \<or> strip said = [] then
        (Inl (ValueError ''session turn must have a known role and non-empty text''), cs)
      else (Inr (), cs\<lparr>cs_turns := trim_turns (cs_max_turns cs) (cs_max_characters cs)
             (cs_turns cs @ [\<lparr>ct_role = role, ct_text = take 4000 (strip said)\<rparr>])\<rparr>))"

text \<open>The trimmed list is the longest suffix within the bounds.\<close>

definition fits :: "int \<Rightarrow> int \<Rightarrow> conversation_turn list \<Rightarrow> bool" where
  "fits mt mc ts \<longleftrightarrow> int (length ts) \<le> mt \<and> session_characters ts \<le> mc"

lemma session_characters_append:
  "session_characters (xs @ ys) = session_characters xs + session_characters ys"
  by (simp add: session_characters_def)

lemma session_characters_nonneg: "0 \<le> session_characters xs"
  unfolding session_characters_def by (rule sum_list_nonneg) auto

lemma fits_suffix: "fits mt mc xs \<Longrightarrow> suffix ys xs \<Longrightarrow> fits mt mc ys"
proof -
  assume f: "fits mt mc xs" and "suffix ys xs"
  then obtain p where "xs = p @ ys" by (auto simp: suffix_def)
  with f session_characters_nonneg[of p] show ?thesis
    by (simp add: fits_def session_characters_append)
qed

lemma trim_turns_unfold:
  "trim_turns mt mc ts = (if fits mt mc ts then ts else trim_turns mt mc (tl ts))"
  by (cases ts) (auto simp: fits_def)

lemma trim_turns_suffix: "suffix (trim_turns mt mc ts) ts"
  by (induction ts) (auto simp: suffix_ConsI)

lemma trim_turns_fits: "0 \<le> mt \<Longrightarrow> 0 \<le> mc \<Longrightarrow> fits mt mc (trim_turns mt mc ts)"
  by (induction ts) (auto simp: fits_def session_characters_def)

lemma trim_turns_longest:
  "suffix ys ts \<Longrightarrow> fits mt mc ys \<Longrightarrow> suffix ys (trim_turns mt mc ts)"
proof (induction ts)
  case (Cons t ts)
  show ?case
  proof (cases "fits mt mc (t # ts)")
    case True
    then have "trim_turns mt mc (t # ts) = t # ts" by (subst trim_turns_unfold) simp
    with Cons.prems show ?thesis by simp
  next
    case False
    with Cons.prems have "suffix ys ts" by (auto simp: suffix_Cons)
    moreover have "trim_turns mt mc (t # ts) = trim_turns mt mc ts"
      using False by (subst trim_turns_unfold) simp
    ultimately show ?thesis using Cons.IH Cons.prems(2) by simp
  qed
qed simp

lemma suffix_antisym_fits:
  assumes "0 \<le> mt" and "0 \<le> mc" and "suffix ys xs" and "fits mt mc ys"
    and "\<And>zs. suffix zs xs \<Longrightarrow> fits mt mc zs \<Longrightarrow> suffix zs ys"
  shows "ys = trim_turns mt mc xs"
  using assms trim_turns_suffix trim_turns_fits trim_turns_longest
  by (metis suffix_order.antisym)

text \<open>Trimming after every turn loses nothing against trimming the whole log.\<close>

lemma trim_turns_snoc:
  assumes "0 \<le> mt" and "0 \<le> mc"
  shows "trim_turns mt mc (trim_turns mt mc log @ [t]) = trim_turns mt mc (log @ [t])"
proof (rule suffix_antisym_fits[OF assms])
  let ?k = "trim_turns mt mc log @ [t]"
  have sub: "suffix ?k (log @ [t])" by (simp add: trim_turns_suffix)
  show "suffix (trim_turns mt mc ?k) (log @ [t])"
    using trim_turns_suffix sub by (rule suffix_order.trans)
  show "fits mt mc (trim_turns mt mc ?k)" by (rule trim_turns_fits[OF assms])
  fix zs assume z: "suffix zs (log @ [t])" "fits mt mc zs"
  have "suffix zs ?k"
  proof (cases zs rule: rev_cases)
    case (snoc ws w)
    with z(1) have "suffix ws log" "w = t" by (simp_all add: suffix_snoc)
    moreover have "fits mt mc ws"
    proof -
      have "session_characters [w] \<ge> 0" by (rule session_characters_nonneg)
      with z(2) snoc show ?thesis by (simp add: fits_def session_characters_append)
    qed
    ultimately have "suffix ws (trim_turns mt mc log)" by (blast intro: trim_turns_longest)
    with snoc \<open>w = t\<close> show ?thesis by simp
  qed simp
  then show "suffix zs (trim_turns mt mc ?k)" using z(2) by (rule trim_turns_longest)
qed

datatype session_op =
    Begin_Session
  | Close_Session
  | Append_Turn pystr pystr
  | Set_Capability pystr pystr

fun session_do :: "session_op \<Rightarrow> (conversation, unit) act" where
  "session_do Begin_Session cs = (Inr (), session_begin cs)"
| "session_do Close_Session cs = (Inr (), session_close cs)"
| "session_do (Append_Turn role said) cs = session_append role said cs"
| "session_do (Set_Capability mode ctx) cs = set_capability_mode mode ctx cs"

text \<open>Callers see the exceptions; the object goes on from the state a raise leaves.\<close>

definition session_run :: "session_op list \<Rightarrow> conversation \<Rightarrow> conversation" where
  "session_run ops cs = fold (\<lambda>op c. snd (session_do op c)) ops cs"

text \<open>The specification: the log of the accepted turns since the last close.\<close>

fun log_turn :: "session_op \<Rightarrow> conversation_turn list \<Rightarrow> conversation_turn list" where
  "log_turn Close_Session turns = []"
| "log_turn (Append_Turn role said) turns =
     (if known_role role \<and> strip said \<noteq> []
      then turns @ [\<lparr>ct_role = role, ct_text = take 4000 (strip said)\<rparr>] else turns)"
| "log_turn _ turns = turns"

definition session_log :: "session_op list \<Rightarrow> conversation_turn list" where
  "session_log ops = fold log_turn ops []"

definition turn_ok :: "conversation_turn \<Rightarrow> bool" where
  "turn_ok t \<longleftrightarrow> known_role (ct_role t) \<and> ct_text t \<noteq> [] \<and> length (ct_text t) \<le> 4000"

definition session_inv :: "conversation \<Rightarrow> bool" where
  "session_inv cs \<longleftrightarrow> 2 \<le> cs_max_turns cs \<and> 256 \<le> cs_max_characters cs
     \<and> fits (cs_max_turns cs) (cs_max_characters cs) (cs_turns cs)
     \<and> (\<forall>t \<in> set (cs_turns cs). turn_ok t)
     \<and> (\<forall>m. cs_capability_mode cs = Some m \<longrightarrow> m \<noteq> [] \<and> length m \<le> 160)
     \<and> (\<forall>c. cs_capability_context cs = Some c \<longrightarrow> c \<noteq> [] \<and> length c \<le> 8000)
     \<and> (cs_capability_mode cs = None \<longleftrightarrow> cs_capability_context cs = None)"

lemma session_init_inv: "session_init mt mc = Inr cs \<Longrightarrow> session_inv cs \<and> cs_turns cs = []
    \<and> cs_max_turns cs = mt \<and> cs_max_characters cs = mc"
  by (auto simp: session_init_def session_inv_def fits_def session_characters_def split: if_splits)

lemma session_do_bounds:
  "cs_max_turns (snd (session_do op cs)) = cs_max_turns cs"
  "cs_max_characters (snd (session_do op cs)) = cs_max_characters cs"
  by (cases op; simp add: session_begin_def session_close_def session_append_def
      set_capability_mode_def)+

lemma session_append_inv:
  assumes "session_inv cs" shows "session_inv (snd (session_append role said cs))"
proof -
  let ?t = "\<lparr>ct_role = role, ct_text = take 4000 (strip said)\<rparr>"
  let ?new = "trim_turns (cs_max_turns cs) (cs_max_characters cs) (cs_turns cs @ [?t])"
  have b: "0 \<le> cs_max_turns cs" "0 \<le> cs_max_characters cs"
    using assms by (simp_all add: session_inv_def)
  show ?thesis
  proof (cases "known_role role \<and> strip said \<noteq> []")
    case True
    then have "turn_ok ?t" by (simp add: turn_ok_def)
    moreover have "set ?new \<subseteq> set (cs_turns cs) \<union> {?t}"
      using set_mono_suffix[OF trim_turns_suffix, of "cs_max_turns cs" "cs_max_characters cs"
          "cs_turns cs @ [?t]"] by auto
    ultimately have "\<forall>t \<in> set ?new. turn_ok t" using assms by (auto simp: session_inv_def)
    with trim_turns_fits[OF b, of "cs_turns cs @ [?t]"] True assms show ?thesis
      by (simp add: session_append_def session_inv_def)
  next
    case False
    with assms show ?thesis by (auto simp: session_append_def)
  qed
qed

lemma session_do_inv: "session_inv cs \<Longrightarrow> session_inv (snd (session_do op cs))"
proof (cases op)
  case (Append_Turn role said)
  assume "session_inv cs"
  with Append_Turn session_append_inv show ?thesis by simp
qed (auto simp: session_inv_def session_begin_def session_close_def set_capability_mode_def
    fits_def session_characters_def)

lemma session_run_inv: "session_inv cs \<Longrightarrow> session_inv (session_run ops cs)"
  unfolding session_run_def
  by (rule fold_invariant[where Q = "\<lambda>_. True"]) (auto intro: session_do_inv)

lemma session_do_log:
  assumes "session_inv cs"
    and "cs_turns cs = trim_turns (cs_max_turns cs) (cs_max_characters cs) log"
  shows "cs_turns (snd (session_do op cs)) =
    trim_turns (cs_max_turns cs) (cs_max_characters cs) (log_turn op log)"
  using assms trim_turns_snoc[of "cs_max_turns cs" "cs_max_characters cs"]
  by (cases op) (auto simp: session_inv_def session_begin_def session_close_def
      session_append_def set_capability_mode_def)

lemma session_run_log:
  assumes "session_inv cs"
    and "cs_turns cs = trim_turns (cs_max_turns cs) (cs_max_characters cs) log"
  shows "cs_turns (session_run ops cs) =
    trim_turns (cs_max_turns cs) (cs_max_characters cs) (fold log_turn ops log)"
  using assms
proof (induction ops arbitrary: cs log)
  case (Cons op ops)
  from Cons.IH[OF session_do_inv[OF Cons.prems(1), of op], of "log_turn op log"]
    session_do_log[OF Cons.prems, of op]
  show ?case by (simp add: session_run_def session_do_bounds)
qed (simp add: session_run_def)

text \<open>C4: the conversation context implements the log it abbreviates: after any sequence of
  operations, accepted or rejected, the turns it holds are the longest suffix of the turns
  accepted since the last close that fits both the turn and the character bound.\<close>

theorem session_is_longest_recent_log:
  assumes "session_init max_turns max_characters = Inr cs"
  shows "suffix (cs_turns (session_run ops cs)) (session_log ops)
    \<and> fits max_turns max_characters (cs_turns (session_run ops cs))
    \<and> (\<forall>ts. suffix ts (session_log ops) \<and> fits max_turns max_characters ts \<longrightarrow>
         suffix ts (cs_turns (session_run ops cs)))"
proof -
  note i = session_init_inv[OF assms]
  then have b: "0 \<le> max_turns" "0 \<le> max_characters" by (auto simp: session_inv_def)
  have "cs_turns (session_run ops cs) = trim_turns max_turns max_characters (session_log ops)"
    using session_run_log[of cs "[]" ops] i by (simp add: session_log_def)
  with trim_turns_suffix trim_turns_fits[OF b] trim_turns_longest show ?thesis by metis
qed

lemmas session_eval = known_role_def lit_def strip_def lstrip_def rstrip_def py_isspace_def
  take_Cons'

definition some_talk :: "session_op list" where
  "some_talk = [Begin_Session, Append_Turn (lit ''Owner'') (lit '' hi ''),
     Append_Turn (lit ''Owner'') [], Append_Turn (lit ''Friday'') (lit ''hello''),
     Append_Turn (lit ''Owner'') (lit ''bye'')]"

lemma some_talk_facts:
  "known_role (lit ''Owner'')" "known_role (lit ''Friday'')" "strip [] = []"
  "strip (lit '' hi '') = lit ''hi''" "strip (lit ''hello'') = lit ''hello''"
  "strip (lit ''bye'') = lit ''bye''" "lit ''hi'' \<noteq> []" "lit ''hello'' \<noteq> []" "lit ''bye'' \<noteq> []"
  by (simp_all add: session_eval)

lemma some_talk_log:
  "map ct_text (session_log some_talk) = [lit ''hi'', lit ''hello'', lit ''bye'']"
proof -
  have "take 4000 (lit ''hi'') = lit ''hi''" "take 4000 (lit ''hello'') = lit ''hello''"
    "take 4000 (lit ''bye'') = lit ''bye''" by (simp_all add: lit_def)
  then show ?thesis
    unfolding session_log_def some_talk_def fold_simps log_turn.simps
    by (simp only: some_talk_facts append_Nil append_Cons list.map conversation_turn.simps
        id_apply o_apply HOL.simp_thms if_True if_False fold_simps log_turn.simps)
qed

theorem session_is_longest_recent_log_witness:
  "\<exists>cs. session_init 2 256 = Inr cs
     \<and> map ct_text (session_log some_talk) = [lit ''hi'', lit ''hello'', lit ''bye'']
     \<and> suffix (cs_turns (session_run some_talk cs)) (session_log some_talk)"
proof -
  obtain cs where i: "session_init 2 256 = Inr cs" by (simp add: session_init_def)
  have "suffix (cs_turns (session_run some_talk cs)) (session_log some_talk)"
    by (rule session_is_longest_recent_log[OF i, of some_talk, THEN conjunct1])
  then show ?thesis by (intro exI[of _ cs] conjI i some_talk_log)
qed

text \<open>a conversation object stays bounded and well-formed under any operations: turns have a
  known role and between 1 and 4000 characters, the turn, character and capability bounds
  hold, a rejected call changes nothing, and a close forgets everything. With room for one
  full turn an accepted turn is always kept as the latest.\<close>

theorem session_bounded:
  assumes "session_init max_turns max_characters = Inr cs0" and "cs = session_run ops cs0"
  shows "session_inv cs
    \<and> (\<forall>op e cs'. session_do op cs = (Inl e, cs') \<longrightarrow> cs' = cs \<and> exn_kind e = ValueErrorC)
    \<and> cs_turns (session_close cs) = [] \<and> capability_context (session_close cs) = []
    \<and> (\<forall>role said cs'. 4008 \<le> max_characters \<and> session_append role said cs = (Inr (), cs') \<longrightarrow>
         cs_turns cs' \<noteq> [] \<and> last (cs_turns cs')
           = \<lparr>ct_role = role, ct_text = take 4000 (strip said)\<rparr>)"
proof -
  note i = session_init_inv[OF assms(1)]
  have inv: "session_inv cs" using i assms(2) session_run_inv by blast
  have bnd: "cs_max_turns cs = max_turns" "cs_max_characters cs = max_characters"
    unfolding assms(2) session_run_def using i
    by (induction ops arbitrary: cs0 rule: rev_induct) (simp_all add: session_do_bounds)
  have err: "\<forall>op e cs'. session_do op cs = (Inl e, cs') \<longrightarrow> cs' = cs \<and> exn_kind e = ValueErrorC"
  proof (intro allI impI)
    fix op e cs' assume "session_do op cs = (Inl e, cs')"
    then show "cs' = cs \<and> exn_kind e = ValueErrorC"
      by (cases op) (auto simp: session_append_def set_capability_mode_def split: if_splits)
  qed
  have latest: "cs_turns cs' \<noteq> [] \<and> last (cs_turns cs')
       = \<lparr>ct_role = role, ct_text = take 4000 (strip said)\<rparr>"
    if big: "4008 \<le> max_characters" and ok: "session_append role said cs = (Inr (), cs')"
    for role said cs'
  proof -
    let ?t = "\<lparr>ct_role = role, ct_text = take 4000 (strip said)\<rparr>"
    have "known_role role" and cs': "cs_turns cs' =
        trim_turns max_turns max_characters (cs_turns cs @ [?t])"
      using ok by (auto simp: session_append_def bnd split: if_splits)
    then have "length role \<le> 6" by (auto simp: known_role_def lit_def)
    then have "fits max_turns max_characters [?t]"
      using big inv bnd by (simp add: fits_def session_characters_def session_inv_def)
    then have "suffix [?t] (cs_turns cs')"
      unfolding cs' by (rule trim_turns_longest[rotated]) simp
    then show ?thesis by (auto simp: suffix_def)
  qed
  show ?thesis
    by (intro conjI inv err allI impI)
       (use latest in \<open>auto simp: session_close_def capability_context_def\<close>)
qed

theorem session_bounded_witness:
  "\<exists>cs0. session_init 16 12000 = Inr cs0 \<and> session_inv (session_run some_talk cs0)"
proof -
  obtain cs0 where i: "session_init 16 12000 = Inr cs0" by (simp add: session_init_def)
  from session_bounded[OF i refl, of some_talk, THEN conjunct1] i show ?thesis by blast
qed

end
