(* ===== verification/Interaction.thy ===== *)
theory Interaction
  imports Friday_Prelude
begin

text \<open>
  Admission of one user-facing interaction at a time: \<open>interface/interaction.py\<close>. Leases are
  named by their position in the list of leases handed out, tokens by a fresh number, as
  \<open>object()\<close> gives a fresh identity. A release is two steps, because the coordinator is free
  before the lease notes that it was released; the lease's own lock keeps a second release
  of the same lease waiting in between.
\<close>

datatype lease_stage = Held | Releasing | Released

record lease =
  ls_owner :: pystr
  ls_token :: nat
  ls_stage :: lease_stage

record interactions =
  ix_owner :: "pystr option"
  ix_token :: "nat option"
  ix_generation :: nat
  ix_next_token :: nat
  ix_leases :: "lease list"

definition interactions_init :: interactions where
  "interactions_init = \<lparr>ix_owner = None, ix_token = None, ix_generation = 0,
     ix_next_token = 0, ix_leases = []\<rparr>"

definition try_acquire :: "pystr \<Rightarrow> (interactions, nat option) act" where
  "try_acquire raw ix =
     (let owner = strip raw
      in if owner = [] then (Inl (ValueError ''interaction owner must not be empty''), ix)
         else if ix_owner ix \<noteq> None then (Inr None, ix)
         else
           (Inr (Some (length (ix_leases ix))),
            ix\<lparr>ix_owner := Some owner, ix_token := Some (ix_next_token ix),
               ix_next_token := Suc (ix_next_token ix),
               ix_generation := Suc (ix_generation ix),
               ix_leases := ix_leases ix @
                 [\<lparr>ls_owner = owner, ls_token = ix_next_token ix, ls_stage = Held\<rparr>]\<rparr>))"

text \<open>\<open>FridayInteractionCoordinator._release\<close>\<close>

definition release_token :: "nat \<Rightarrow> (interactions, unit) act" where
  "release_token token ix =
     (if ix_token ix \<noteq> Some token then (Inl (RuntimeError ''interaction lease is stale''), ix)
      else (Inr (), ix\<lparr>ix_owner := None, ix_token := None\<rparr>))"

definition set_stage :: "nat \<Rightarrow> lease_stage \<Rightarrow> interactions \<Rightarrow> interactions" where
  "set_stage i st ix = ix\<lparr>ix_leases := (ix_leases ix)[i := (ix_leases ix ! i)\<lparr>ls_stage := st\<rparr>]\<rparr>"

definition release_start :: "nat \<Rightarrow> (interactions, unit) act" where
  "release_start i ix =
     (if ls_stage (ix_leases ix ! i) = Released then (Inr (), ix)
      else case release_token (ls_token (ix_leases ix ! i)) ix of
        (Inl e, ix') \<Rightarrow> (Inl e, ix')
      | (Inr _, ix') \<Rightarrow> (Inr (), set_stage i Releasing ix'))"

definition release_end :: "nat \<Rightarrow> interactions \<Rightarrow> interactions" where
  "release_end i ix = set_stage i Released ix"

definition interactions_snapshot :: "interactions \<Rightarrow> pystr option \<times> nat" where
  "interactions_snapshot ix = (ix_owner ix, ix_generation ix)"

text \<open>The steps of any number of threads; a start waits while the same lease is releasing.\<close>

inductive interaction_step :: "interactions \<Rightarrow> interactions \<Rightarrow> bool" where
  acquire: "try_acquire owner ix = (r, ix') \<Longrightarrow> interaction_step ix ix'"
| start: "i < length (ix_leases ix) \<Longrightarrow> ls_stage (ix_leases ix ! i) \<noteq> Releasing \<Longrightarrow>
    release_start i ix = (r, ix') \<Longrightarrow> interaction_step ix ix'"
| "end": "i < length (ix_leases ix) \<Longrightarrow> ls_stage (ix_leases ix ! i) = Releasing \<Longrightarrow>
    interaction_step ix (release_end i ix)"

inductive_cases interaction_stepE: "interaction_step ix ix'"

abbreviation interactions_reachable :: "interactions \<Rightarrow> bool" where
  "interactions_reachable \<equiv> interaction_step\<^sup>*\<^sup>* interactions_init"

text \<open>A lease is held exactly while the coordinator remembers its token.\<close>

definition interactions_inv :: "interactions \<Rightarrow> bool" where
  "interactions_inv ix \<longleftrightarrow>
     ix_generation ix = length (ix_leases ix) \<and> ix_next_token ix = length (ix_leases ix)
     \<and> (\<forall>i < length (ix_leases ix). ls_token (ix_leases ix ! i) = i
         \<and> (ls_stage (ix_leases ix ! i) = Held \<longleftrightarrow> ix_token ix = Some i)
         \<and> (ix_token ix = Some i \<longrightarrow> ix_owner ix = Some (ls_owner (ix_leases ix ! i))))
     \<and> (ix_owner ix = None \<longleftrightarrow> ix_token ix = None)
     \<and> (\<forall>i. ix_token ix = Some i \<longrightarrow> i < length (ix_leases ix))"

lemma try_acquire_inv: "try_acquire owner ix = (r, ix') \<Longrightarrow> interactions_inv ix \<Longrightarrow> interactions_inv ix'"
  by (auto simp: try_acquire_def Let_def interactions_inv_def nth_append less_Suc_eq
      split: if_splits)

lemma release_start_inv:
  "release_start i ix = (r, ix') \<Longrightarrow> i < length (ix_leases ix) \<Longrightarrow>
     ls_stage (ix_leases ix ! i) \<noteq> Releasing \<Longrightarrow> interactions_inv ix \<Longrightarrow> interactions_inv ix'"
  by (auto simp: release_start_def release_token_def set_stage_def interactions_inv_def
      nth_list_update split: if_splits)

lemma release_end_inv:
  "i < length (ix_leases ix) \<Longrightarrow> ls_stage (ix_leases ix ! i) = Releasing \<Longrightarrow>
     interactions_inv ix \<Longrightarrow> interactions_inv (release_end i ix)"
  by (auto simp: release_end_def set_stage_def interactions_inv_def nth_list_update)

lemma interaction_step_inv: "interaction_step ix ix' \<Longrightarrow> interactions_inv ix \<Longrightarrow> interactions_inv ix'"
  by (erule interaction_stepE) (auto intro: try_acquire_inv release_start_inv release_end_inv)

lemma interactions_reachable_inv: "interactions_reachable ix \<Longrightarrow> interactions_inv ix"
proof (induction rule: rtranclp_induct)
  case base
  show ?case by (simp add: interactions_init_def interactions_inv_def)
next
  case (step y z)
  from step.hyps(2) step.IH show ?case by (rule interaction_step_inv)
qed

text \<open>one interaction at a time: under every interleaving of acquisitions and releases at
  most one lease is held, an acquisition with a usable owner is admitted exactly when no lease
  is held and then gets a new generation, and releasing a lease that was handed out never
  fails as stale: a held lease frees the coordinator, a released one changes nothing.\<close>

theorem single_interaction_owner:
  assumes "interactions_reachable ix"
  shows "(\<forall>i j. i < length (ix_leases ix) \<and> j < length (ix_leases ix)
        \<and> ls_stage (ix_leases ix ! i) = Held \<and> ls_stage (ix_leases ix ! j) = Held \<longrightarrow> i = j)
    \<and> (\<forall>owner r ix'. strip owner \<noteq> [] \<and> try_acquire owner ix = (r, ix') \<longrightarrow>
        (if \<exists>i < length (ix_leases ix). ls_stage (ix_leases ix ! i) = Held
         then r = Inr None \<and> ix' = ix
         else r = Inr (Some (length (ix_leases ix)))
           \<and> interactions_snapshot ix' = (Some (strip owner), Suc (ix_generation ix))))
    \<and> (\<forall>i r ix'. i < length (ix_leases ix) \<and> release_start i ix = (r, ix')
        \<and> ls_stage (ix_leases ix ! i) \<noteq> Releasing \<longrightarrow> r = Inr ()
        \<and> (if ls_stage (ix_leases ix ! i) = Held then ix_owner ix' = None else ix' = ix))"
proof -
  have inv: "interactions_inv ix" using assms by (rule interactions_reachable_inv)
  have "(\<exists>i < length (ix_leases ix). ls_stage (ix_leases ix ! i) = Held) \<longleftrightarrow> ix_owner ix \<noteq> None"
    using inv by (auto simp: interactions_inv_def)
  moreover have "r = Inr () \<and> (if ls_stage (ix_leases ix ! i) = Held then ix_owner ix' = None else ix' = ix)"
    if "i < length (ix_leases ix)" "release_start i ix = (r, ix')"
      "ls_stage (ix_leases ix ! i) \<noteq> Releasing" for i r ix'
    using that inv
    by (cases "ls_stage (ix_leases ix ! i)")
       (auto simp: release_start_def release_token_def set_stage_def interactions_inv_def)
  ultimately show ?thesis
    using inv by (auto simp: try_acquire_def Let_def interactions_snapshot_def interactions_inv_def)
qed

definition voice_turn :: interactions where
  "voice_turn = snd (try_acquire (lit ''voice'') interactions_init)"

lemma voice_turn_eq: "voice_turn = \<lparr>ix_owner = Some (lit ''voice''), ix_token = Some 0,
    ix_generation = 1, ix_next_token = 1,
    ix_leases = [\<lparr>ls_owner = lit ''voice'', ls_token = 0, ls_stage = Held\<rparr>]\<rparr>"
proof -
  have "strip (lit ''voice'') = lit ''voice''" "lit ''voice'' \<noteq> []"
    by (simp_all add: lit_def strip_def lstrip_def rstrip_def py_isspace_def)
  then show ?thesis by (simp add: voice_turn_def try_acquire_def interactions_init_def Let_def)
qed

theorem single_interaction_owner_witness:
  "\<exists>r ix'. interactions_reachable voice_turn
     \<and> try_acquire [101, 118] voice_turn = (r, ix') \<and> r = Inr None \<and> ix' = voice_turn"
proof -
  have re: "interactions_reachable voice_turn"
    by (rule r_into_rtranclp, rule acquire, rule prod.collapse[symmetric, of "try_acquire (lit ''voice'') interactions_init", folded voice_turn_def])
  obtain r ix' where t: "try_acquire [101, 118] voice_turn = (r, ix')" by fastforce
  have "strip [101, 118] \<noteq> []" by (simp add: strip_eq_Nil py_isspace_def)
  moreover have "\<exists>i < length (ix_leases voice_turn). ls_stage (ix_leases voice_turn ! i) = Held"
    by (simp add: voice_turn_eq)
  ultimately have "r = Inr None \<and> ix' = voice_turn"
    using single_interaction_owner[OF re, THEN conjunct2, THEN conjunct1, rule_format,
        of "[101, 118]" r ix'] t by simp
  with re t show ?thesis by blast
qed

end
