(* ===== verification/Events.thy ===== *)
theory Events
  imports Friday_Prelude Complex_Main
begin

text \<open>
  Runtime states and presentation events: \<open>interface/states.py\<close> and \<open>interface/events.py\<close>.
  Metadata is dynamically typed in the source; \<open>meta\<close> has one constructor per kind of value
  the validation distinguishes, and \<open>Meta_Other\<close> for every other Python object.
\<close>

datatype runtime_state =
    SLEEPING | IDLE | LISTENING | TRANSCRIBING | THINKING | RETRIEVING | PLANNING
  | WAITING_FOR_APPROVAL | EXECUTING | VALIDATING | REVIEWING | SPEAKING | COMPLETED
  | ERROR | CANCELLED

fun state_value :: "runtime_state \<Rightarrow> string" where
  "state_value SLEEPING = ''sleeping''"
| "state_value IDLE = ''idle''"
| "state_value LISTENING = ''listening''"
| "state_value TRANSCRIBING = ''transcribing''"
| "state_value THINKING = ''thinking''"
| "state_value RETRIEVING = ''retrieving''"
| "state_value PLANNING = ''planning''"
| "state_value WAITING_FOR_APPROVAL = ''waiting_for_approval''"
| "state_value EXECUTING = ''executing''"
| "state_value VALIDATING = ''validating''"
| "state_value REVIEWING = ''reviewing''"
| "state_value SPEAKING = ''speaking''"
| "state_value COMPLETED = ''completed''"
| "state_value ERROR = ''error''"
| "state_value CANCELLED = ''cancelled''"

datatype event_type =
    RUNTIME_STATE_CHANGED
  | CONVERSATION_USER_TEXT | CONVERSATION_ASSISTANT_STARTED | CONVERSATION_ASSISTANT_DELTA
  | CONVERSATION_ASSISTANT_COMPLETED
  | RETRIEVAL_STARTED | RETRIEVAL_COMPLETED
  | TASK_CREATED | TASK_UPDATED
  | COMPUTER_TASK_STARTED | COMPUTER_TASK_COMPLETED | COMPUTER_TASK_FAILED
  | COMPUTER_TASK_AWAITING_CLARIFICATION | COMPUTER_TASK_CLARIFICATION_DELIVERED
  | COMPUTER_TASK_CLARIFICATION_DELIVERY_FAILED
  | PLANNING_STARTED | PLANNING_COMPLETED | APPROVAL_REQUIRED
  | EXECUTION_STARTED | EXECUTION_COMPLETED
  | VALIDATION_STARTED | VALIDATION_COMPLETED
  | REVIEW_STARTED | REVIEW_COMPLETED
  | VOICE_LISTENING_STARTED | VOICE_LISTENING_STOPPED | VOICE_TRANSCRIPTION
  | VOICE_SPEECH_STARTED | VOICE_SPEECH_COMPLETED | VOICE_SPEECH_INTERRUPTED
  | VOICE_TURN_CANCELLED | VOICE_LEARNING_CONTEXT | VOICE_LEARNING_STATE | VOICE_SCREEN_CONTEXT
  | SYSTEM_HEALTH | PROACTIVE_NOTIFICATION | RUNTIME_ERROR

datatype meta_key = Str_Key pystr | Other_Key string

datatype meta =
    Meta_None
  | Meta_Bool bool
  | Meta_Int int
  | Meta_Float real
  | Meta_Str pystr
  | Meta_List "meta list"
  | Meta_Dict "(meta_key \<times> meta) list"
  | Meta_Other string

abbreviation max_event_text :: nat where "max_event_text \<equiv> 20000"
abbreviation max_metadata_items :: nat where "max_metadata_items \<equiv> 64"
abbreviation max_metadata_key :: nat where "max_metadata_key \<equiv> 128"
abbreviation max_metadata_string :: nat where "max_metadata_string \<equiv> 4000"

definition good_key :: "meta_key \<Rightarrow> bool" where
  "good_key k = (case k of Str_Key s \<Rightarrow> s \<noteq> [] \<and> length s \<le> max_metadata_key | Other_Key _ \<Rightarrow> False)"

definition key_error :: exn where
  "key_error = ValueError ''event metadata keys must be bounded strings''"

text \<open>\<open>_validate_metadata_value\<close>: \<open>None\<close> when it returns, else what it raises.\<close>

fun validate_metadata_value :: "meta \<Rightarrow> exn option"
  and validate_metadata_values :: "meta list \<Rightarrow> exn option"
  and validate_metadata_items :: "(meta_key \<times> meta) list \<Rightarrow> exn option" where
  "validate_metadata_value Meta_None = None"
| "validate_metadata_value (Meta_Bool _) = None"
| "validate_metadata_value (Meta_Int _) = None"
| "validate_metadata_value (Meta_Float _) = None"
| "validate_metadata_value (Meta_Str s) =
     (if length s > max_metadata_string
      then Some (ValueError ''event metadata string exceeds configured bound'') else None)"
| "validate_metadata_value (Meta_List vs) =
     (if length vs > max_metadata_items
      then Some (ValueError ''event metadata collection exceeds configured bound'')
      else validate_metadata_values vs)"
| "validate_metadata_value (Meta_Dict kvs) =
     (if length kvs > max_metadata_items
      then Some (ValueError ''event metadata object exceeds configured bound'')
      else validate_metadata_items kvs)"
| "validate_metadata_value (Meta_Other t) =
     Some (ValueError (''event metadata value type is not serializable: '' @ t))"
| "validate_metadata_values [] = None"
| "validate_metadata_values (v # vs) =
     (case validate_metadata_value v of Some e \<Rightarrow> Some e | None \<Rightarrow> validate_metadata_values vs)"
| "validate_metadata_items [] = None"
| "validate_metadata_items ((k, v) # kvs) =
     (if \<not> good_key k then Some key_error
      else case validate_metadata_value v of Some e \<Rightarrow> Some e
      | None \<Rightarrow> validate_metadata_items kvs)"

record runtime_event =
  ev_event_type :: event_type
  ev_session_id :: pystr
  ev_sequence :: int
  ev_timestamp :: pystr
  ev_task_id :: "pystr option"
  ev_state :: "runtime_state option"
  ev_text :: "pystr option"
  ev_transient :: bool
  ev_metadata :: "(meta_key \<times> meta) list"

definition runtime_event_check :: "runtime_event \<Rightarrow> exn option" where
  "runtime_event_check ev =
     (if ev_session_id ev = [] \<or> length (ev_session_id ev) > 256 then
        Some (ValueError ''session_id must be a bounded non-empty string'')
      else if ev_sequence ev < 0 then Some (ValueError ''sequence must be non-negative'')
      else if (case ev_task_id ev of None \<Rightarrow> False | Some t \<Rightarrow> t = [] \<or> length t > 256) then
        Some (ValueError ''task_id must be a bounded non-empty string'')
      else if (case ev_text ev of None \<Rightarrow> False | Some t \<Rightarrow> length t > max_event_text) then
        Some (ValueError ''event text exceeds configured bound'')
      else if length (ev_metadata ev) > max_metadata_items then
        Some (ValueError ''event metadata contains too many items'')
      else validate_metadata_items (ev_metadata ev))"

text \<open>\<open>FridayRuntimeEvent.create\<close>: \<open>now\<close> is the clock, read when no timestamp is given.\<close>

definition runtime_event_create ::
    "pystr \<Rightarrow> event_type \<Rightarrow> pystr \<Rightarrow> int \<Rightarrow> pystr option \<Rightarrow> runtime_state option \<Rightarrow> pystr option
     \<Rightarrow> bool \<Rightarrow> (meta_key \<times> meta) list option \<Rightarrow> pystr option \<Rightarrow> exn + runtime_event" where
  "runtime_event_create now ty session sequence task st said transient md timestamp =
     (let ev = \<lparr>ev_event_type = ty, ev_session_id = session, ev_sequence = sequence,
                ev_timestamp = (case timestamp of Some t \<Rightarrow> if t \<noteq> [] then t else now | None \<Rightarrow> now),
                ev_task_id = task, ev_state = st, ev_text = said, ev_transient = transient,
                ev_metadata = (case md of None \<Rightarrow> [] | Some kvs \<Rightarrow> kvs)\<rparr>
      in case runtime_event_check ev of Some e \<Rightarrow> Inl e | None \<Rightarrow> Inr ev)"

section \<open>What validation accepts\<close>

text \<open>
  The values a client can be sent: every string, collection and key within its bound at
  every depth, and nothing that has no JSON form.
\<close>

fun bounded_value :: "meta \<Rightarrow> bool" where
  "bounded_value (Meta_Str s) \<longleftrightarrow> length s \<le> max_metadata_string"
| "bounded_value (Meta_List vs) \<longleftrightarrow>
     length vs \<le> max_metadata_items \<and> (\<forall>v \<in> set vs. bounded_value v)"
| "bounded_value (Meta_Dict kvs) \<longleftrightarrow>
     length kvs \<le> max_metadata_items \<and> (\<forall>(k, v) \<in> set kvs. good_key k \<and> bounded_value v)"
| "bounded_value (Meta_Other _) \<longleftrightarrow> False"
| "bounded_value _ \<longleftrightarrow> True"

definition bounded_items :: "(meta_key \<times> meta) list \<Rightarrow> bool" where
  "bounded_items kvs \<longleftrightarrow> (\<forall>(k, v) \<in> set kvs. good_key k \<and> bounded_value v)"

lemma validate_metadata_iff:
  "validate_metadata_value v = None \<longleftrightarrow> bounded_value v"
  "validate_metadata_values vs = None \<longleftrightarrow> (\<forall>v \<in> set vs. bounded_value v)"
  "validate_metadata_items kvs = None \<longleftrightarrow> bounded_items kvs"
  unfolding bounded_items_def
  by (induction v and vs and kvs rule: validate_metadata_value_validate_metadata_values_validate_metadata_items.induct)
     (auto simp: bounded_items_def split: option.splits)

lemma validate_metadata_kind:
  "validate_metadata_value v = Some e \<Longrightarrow> exn_kind e = ValueErrorC"
  "validate_metadata_values vs = Some e \<Longrightarrow> exn_kind e = ValueErrorC"
  "validate_metadata_items kvs = Some e \<Longrightarrow> exn_kind e = ValueErrorC"
  by (induction v and vs and kvs rule: validate_metadata_value_validate_metadata_values_validate_metadata_items.induct)
     (auto simp: key_error_def split: option.splits if_splits)

definition bounded_event :: "runtime_event \<Rightarrow> bool" where
  "bounded_event ev \<longleftrightarrow>
     ev_session_id ev \<noteq> [] \<and> length (ev_session_id ev) \<le> 256 \<and> 0 \<le> ev_sequence ev
     \<and> (\<forall>t. ev_task_id ev = Some t \<longrightarrow> t \<noteq> [] \<and> length t \<le> 256)
     \<and> (\<forall>t. ev_text ev = Some t \<longrightarrow> length t \<le> max_event_text)
     \<and> length (ev_metadata ev) \<le> max_metadata_items \<and> bounded_items (ev_metadata ev)"

lemma runtime_event_check_iff: "runtime_event_check ev = None \<longleftrightarrow> bounded_event ev"
  by (auto simp: runtime_event_check_def bounded_event_def validate_metadata_iff
      split: option.splits)

lemma runtime_event_check_kind: "runtime_event_check ev = Some e \<Longrightarrow> exn_kind e = ValueErrorC"
  by (auto simp: runtime_event_check_def validate_metadata_kind split: if_splits)

text \<open>an event exists exactly when it is bounded at every depth: creation succeeds if and only
  if session, task, text and metadata respect their limits, including every nested string,
  list, object and key; otherwise it raises a value error.\<close>

theorem events_bounded:
  "case runtime_event_create now ty session sequence task st said transient md timestamp of
     Inr ev \<Rightarrow> bounded_event ev \<and> ev_event_type ev = ty \<and> ev_session_id ev = session
       \<and> ev_sequence ev = sequence \<and> ev_task_id ev = task \<and> ev_state ev = st
       \<and> ev_text ev = said \<and> ev_metadata ev = (case md of None \<Rightarrow> [] | Some kvs \<Rightarrow> kvs)
   | Inl e \<Rightarrow> exn_kind e = ValueErrorC \<and>
       (\<forall>stamp. \<not> bounded_event \<lparr>ev_event_type = ty, ev_session_id = session,
          ev_sequence = sequence, ev_timestamp = stamp, ev_task_id = task, ev_state = st,
          ev_text = said, ev_transient = transient,
          ev_metadata = (case md of None \<Rightarrow> [] | Some kvs \<Rightarrow> kvs)\<rparr>)"
proof -
  define ev where "ev = \<lparr>ev_event_type = ty, ev_session_id = session, ev_sequence = sequence,
      ev_timestamp = (case timestamp of Some t \<Rightarrow> if t \<noteq> [] then t else now | None \<Rightarrow> now),
      ev_task_id = task, ev_state = st, ev_text = said, ev_transient = transient,
      ev_metadata = (case md of None \<Rightarrow> [] | Some kvs \<Rightarrow> kvs)\<rparr>"
  have eq: "runtime_event_create now ty session sequence task st said transient md timestamp =
      (case runtime_event_check ev of Some e \<Rightarrow> Inl e | None \<Rightarrow> Inr ev)"
    by (simp only: runtime_event_create_def ev_def Let_def)
  show ?thesis
  proof (cases "runtime_event_check ev")
    case None
    then have "bounded_event ev" by (simp add: runtime_event_check_iff)
    with eq None show ?thesis by (simp add: ev_def)
  next
    case (Some e)
    then have "exn_kind e = ValueErrorC" by (rule runtime_event_check_kind)
    moreover have "\<not> bounded_event ev" using Some by (simp flip: runtime_event_check_iff)
    ultimately show ?thesis unfolding eq Some by (simp add: ev_def bounded_event_def)
  qed
qed

end
