(* ===== verification/Runtime.thy ===== *)
theory Runtime
  imports Events
begin

text \<open>
  The presentation runtime of one session: \<open>interface/runtime.py\<close>. Every method that touches
  shared state holds the runtime's lock, so a method is one step; the callbacks it schedules
  on an event loop are separate steps, as are the reads of the clients. A subscriber is named
  by its position in the list of all subscribers ever created. The fields marked as history
  are not in the code: they record what was published and what each client has read.
\<close>

section \<open>State\<close>

text \<open>A bounded queue with its reader; \<open>None\<close> is the end marker.\<close>

record event_queue =
  eq_maxsize :: int
  eq_items :: "runtime_event option list"
  eq_taken :: "runtime_event option list" \<comment> \<open>history: read by the client\<close>
  eq_joined :: nat \<comment> \<open>history: events published before the subscription\<close>
  eq_left :: bool \<comment> \<open>history: the client unsubscribed\<close>

text \<open>A callback waiting on the loop that owns the subscriber.\<close>

datatype loop_callback = Deliver runtime_event | Finish

record async_subscriber =
  as_queue :: event_queue
  as_closed :: bool
  as_loop_running :: bool
  as_callbacks :: "loop_callback list"

record runtime =
  rt_session_id :: pystr
  rt_state :: runtime_state
  rt_max_events :: int
  rt_events :: "runtime_event list"
  rt_queues :: "event_queue list"
  rt_subscribers :: "nat list"
  rt_asyncs :: "async_subscriber list"
  rt_async_subscribers :: "nat list"
  rt_shutdown_started :: bool
  rt_next_sequence :: int
  rt_log :: "runtime_event list" \<comment> \<open>history: every event published\<close>

definition runtime_init :: "pystr \<Rightarrow> runtime_state \<Rightarrow> int \<Rightarrow> exn + runtime" where
  "runtime_init session st max_events =
     (if session = [] \<or> length session > 256 then
        Inl (ValueError ''session_id must be a bounded non-empty string'')
      else if max_events < 1 then Inl (ValueError ''max_events must be positive'')
      else Inr \<lparr>rt_session_id = session, rt_state = st, rt_max_events = max_events,
             rt_events = [], rt_queues = [], rt_subscribers = [], rt_asyncs = [],
             rt_async_subscribers = [], rt_shutdown_started = False, rt_next_sequence = 1,
             rt_log = []\<rparr>)"

fun allowed_transitions :: "runtime_state \<Rightarrow> runtime_state list" where
  "allowed_transitions SLEEPING = [IDLE, ERROR]"
| "allowed_transitions IDLE = [SLEEPING, LISTENING, THINKING, PLANNING, ERROR]"
| "allowed_transitions LISTENING = [SPEAKING, TRANSCRIBING, IDLE, ERROR, CANCELLED]"
| "allowed_transitions TRANSCRIBING = [THINKING, IDLE, ERROR, CANCELLED]"
| "allowed_transitions THINKING = [RETRIEVING, PLANNING, SPEAKING, COMPLETED, ERROR, CANCELLED]"
| "allowed_transitions RETRIEVING = [THINKING, PLANNING, SPEAKING, ERROR, CANCELLED]"
| "allowed_transitions PLANNING =
     [WAITING_FOR_APPROVAL, EXECUTING, SPEAKING, COMPLETED, ERROR, CANCELLED]"
| "allowed_transitions WAITING_FOR_APPROVAL = [EXECUTING, IDLE, ERROR, CANCELLED]"
| "allowed_transitions EXECUTING = [VALIDATING, REVIEWING, COMPLETED, ERROR, CANCELLED]"
| "allowed_transitions VALIDATING = [REVIEWING, EXECUTING, COMPLETED, ERROR, CANCELLED]"
| "allowed_transitions REVIEWING = [EXECUTING, COMPLETED, SPEAKING, ERROR, CANCELLED]"
| "allowed_transitions SPEAKING = [IDLE, LISTENING, COMPLETED, ERROR, CANCELLED]"
| "allowed_transitions COMPLETED = [IDLE, SPEAKING]"
| "allowed_transitions ERROR = [IDLE, SLEEPING]"
| "allowed_transitions CANCELLED = [IDLE, SLEEPING]"

section \<open>Queues\<close>

text \<open>A queue with a bound that is not positive is unbounded.\<close>

definition queue_room :: "int \<Rightarrow> 'a list \<Rightarrow> bool" where
  "queue_room maxsize xs \<longleftrightarrow> maxsize \<le> 0 \<or> int (length xs) < maxsize"

text \<open>\<open>_queue_terminal_locked\<close> and \<open>_finish_async_subscription\<close>: drop the oldest until it fits.\<close>

fun put_terminal :: "int \<Rightarrow> runtime_event option list \<Rightarrow> runtime_event option list" where
  "put_terminal maxsize [] = [None]"
| "put_terminal maxsize (x # xs) =
     (if queue_room maxsize (x # xs) then x # xs @ [None] else put_terminal maxsize xs)"

definition queue_terminal :: "event_queue \<Rightarrow> event_queue" where
  "queue_terminal q = q\<lparr>eq_items := put_terminal (eq_maxsize q) (eq_items q)\<rparr>"

definition new_queue :: "int \<Rightarrow> nat \<Rightarrow> event_queue" where
  "new_queue maxsize joined =
     \<lparr>eq_maxsize = maxsize, eq_items = [], eq_taken = [], eq_joined = joined, eq_left = False\<rparr>"

definition queue_put :: "runtime_event \<Rightarrow> event_queue \<Rightarrow> event_queue" where
  "queue_put ev q = q\<lparr>eq_items := eq_items q @ [Some ev]\<rparr>"

definition queue_get :: "event_queue \<Rightarrow> event_queue" where
  "queue_get q = q\<lparr>eq_items := tl (eq_items q), eq_taken := eq_taken q @ [hd (eq_items q)]\<rparr>"

definition has_room :: "event_queue \<Rightarrow> bool" where
  "has_room q \<longleftrightarrow> queue_room (eq_maxsize q) (eq_items q)"

section \<open>Publishing\<close>

text \<open>The two loops of \<open>_publish_locked\<close>, one subscriber each.\<close>

definition offer_sync :: "runtime_event \<Rightarrow> nat \<Rightarrow> runtime \<Rightarrow> runtime" where
  "offer_sync ev i rt =
     (let q = rt_queues rt ! i
      in if has_room q then rt\<lparr>rt_queues := (rt_queues rt)[i := queue_put ev q]\<rparr>
         else rt\<lparr>rt_subscribers := removeAll i (rt_subscribers rt),
                 rt_queues := (rt_queues rt)[i := queue_terminal q]\<rparr>)"

definition offer_async :: "runtime_event \<Rightarrow> nat \<Rightarrow> runtime \<Rightarrow> runtime" where
  "offer_async ev i rt =
     (let s = rt_asyncs rt ! i
      in if as_loop_running s
         then rt\<lparr>rt_asyncs := (rt_asyncs rt)[i := s\<lparr>as_callbacks := as_callbacks s @ [Deliver ev]\<rparr>]\<rparr>
         else rt\<lparr>rt_asyncs := (rt_asyncs rt)[i := s\<lparr>as_closed := True\<rparr>],
                 rt_async_subscribers := removeAll i (rt_async_subscribers rt)\<rparr>)"

definition publish_locked :: "runtime_event \<Rightarrow> runtime \<Rightarrow> runtime_event \<times> runtime" where
  "publish_locked ev rt =
     (let published = ev\<lparr>ev_sequence := rt_next_sequence rt\<rparr>;
          rt1 = rt\<lparr>rt_next_sequence := rt_next_sequence rt + 1,
                   rt_events := deque_append (Some (nat (rt_max_events rt))) (rt_events rt) published,
                   rt_log := rt_log rt @ [published]\<rparr>;
          rt2 = fold (offer_sync published) (rt_subscribers rt1) rt1;
          rt3 = fold (offer_async published) (rt_async_subscribers rt2) rt2
      in (published, rt3))"

section \<open>Methods\<close>

definition transition_metadata :: "runtime_state \<Rightarrow> pystr option \<Rightarrow> (meta_key \<times> meta) list" where
  "transition_metadata previous reason =
     (Str_Key (lit ''previous_state''), Meta_Str (lit (state_value previous)))
     # (case reason of None \<Rightarrow> []
        | Some r \<Rightarrow> if r = [] then [] else [(Str_Key (lit ''reason''), Meta_Str r)])"

definition runtime_transition ::
    "pystr \<Rightarrow> runtime_state \<Rightarrow> pystr option \<Rightarrow> pystr option \<Rightarrow> (runtime, runtime_event) act" where
  "runtime_transition now st task reason rt =
     (let previous = rt_state rt
      in if st = previous then
           (Inl (Exn InvalidRuntimeTransitionC
                  (''runtime is already in state '' @ state_value st)), rt)
         else if st \<notin> set (allowed_transitions previous) then
           (Inl (Exn InvalidRuntimeTransitionC (''runtime transition '' @ state_value previous
                  @ '' -> '' @ state_value st @ '' is not permitted'')), rt)
         else
           let rt1 = rt\<lparr>rt_state := st\<rparr>
           in case runtime_event_create now RUNTIME_STATE_CHANGED (rt_session_id rt1) 0 task
                    (Some st) None False (Some (transition_metadata previous reason)) None of
                Inl e \<Rightarrow> (Inl e, rt1)
              | Inr ev \<Rightarrow> (case publish_locked ev rt1 of (p, rt2) \<Rightarrow> (Inr p, rt2)))"

definition runtime_emit ::
    "pystr \<Rightarrow> event_type \<Rightarrow> pystr option \<Rightarrow> runtime_state option \<Rightarrow> pystr option \<Rightarrow> bool
     \<Rightarrow> (meta_key \<times> meta) list option \<Rightarrow> (runtime, runtime_event) act" where
  "runtime_emit now ty task st said transient md rt =
     (case runtime_event_create now ty (rt_session_id rt) 0 task st said transient md None of
        Inl e \<Rightarrow> (Inl e, rt)
      | Inr ev \<Rightarrow> (case publish_locked ev rt of (p, rt') \<Rightarrow> (Inr p, rt')))"

definition events_since :: "int \<Rightarrow> int \<Rightarrow> runtime \<Rightarrow> exn + runtime_event list" where
  "events_since sequence limit rt =
     (if sequence < 0 then Inl (ValueError ''sequence must be non-negative'')
      else if limit < 1 \<or> limit > 1000 then
        Inl (ValueError ''limit must be between 1 and 1000'')
      else Inr (take (nat limit) (filter (\<lambda>ev. ev_sequence ev > sequence) (rt_events rt))))"

definition runtime_subscribe :: "int \<Rightarrow> (runtime, nat) act" where
  "runtime_subscribe max_pending rt =
     (if max_pending < 1 \<or> max_pending > 10000 then
        (Inl (ValueError ''max_pending must be between 1 and 10000''), rt)
      else if rt_shutdown_started rt then
        (Inl (Exn RuntimeShuttingDownC ''Friday is shutting down''), rt)
      else
        let i = length (rt_queues rt)
        in (Inr i, rt\<lparr>rt_queues := rt_queues rt @ [new_queue max_pending (length (rt_log rt))],
                      rt_subscribers := rt_subscribers rt @ [i]\<rparr>))"

definition runtime_subscribe_async :: "int \<Rightarrow> (runtime, nat) act" where
  "runtime_subscribe_async max_pending rt =
     (if max_pending < 1 \<or> max_pending > 10000 then
        (Inl (ValueError ''max_pending must be between 1 and 10000''), rt)
      else if rt_shutdown_started rt then
        (Inl (Exn RuntimeShuttingDownC ''Friday is shutting down''), rt)
      else
        let i = length (rt_asyncs rt)
        in (Inr i, rt\<lparr>rt_asyncs := rt_asyncs rt @
              [\<lparr>as_queue = new_queue max_pending (length (rt_log rt)), as_closed = False,
                as_loop_running = True, as_callbacks = []\<rparr>],
            rt_async_subscribers := rt_async_subscribers rt @ [i]\<rparr>))"

definition runtime_unsubscribe :: "nat \<Rightarrow> runtime \<Rightarrow> runtime" where
  "runtime_unsubscribe i rt =
     rt\<lparr>rt_subscribers := removeAll i (rt_subscribers rt),
        rt_queues := (rt_queues rt)[i := (rt_queues rt ! i)\<lparr>eq_left := True\<rparr>]\<rparr>"

definition leave_async :: "async_subscriber \<Rightarrow> async_subscriber" where
  "leave_async s = s\<lparr>as_closed := True, as_queue := (as_queue s)\<lparr>eq_left := True\<rparr>\<rparr>"

definition runtime_unsubscribe_async :: "nat \<Rightarrow> runtime \<Rightarrow> runtime" where
  "runtime_unsubscribe_async i rt =
     rt\<lparr>rt_asyncs := (rt_asyncs rt)[i := leave_async (rt_asyncs rt ! i)],
        rt_async_subscribers := removeAll i (rt_async_subscribers rt)\<rparr>"

definition end_sync :: "nat \<Rightarrow> runtime \<Rightarrow> runtime" where
  "end_sync i rt = rt\<lparr>rt_queues := (rt_queues rt)[i := queue_terminal (rt_queues rt ! i)]\<rparr>"

definition end_async :: "nat \<Rightarrow> runtime \<Rightarrow> runtime" where
  "end_async i rt =
     (let s = (rt_asyncs rt ! i)\<lparr>as_closed := True\<rparr>
      in rt\<lparr>rt_asyncs := (rt_asyncs rt)[i :=
           if as_loop_running s then s\<lparr>as_callbacks := as_callbacks s @ [Finish]\<rparr> else s]\<rparr>)"

definition runtime_begin_shutdown :: "runtime \<Rightarrow> runtime" where
  "runtime_begin_shutdown rt =
     (if rt_shutdown_started rt then rt
      else
        let rt1 = fold end_sync (rt_subscribers rt)
                    (rt\<lparr>rt_shutdown_started := True, rt_subscribers := []\<rparr>)
        in fold end_async (rt_async_subscribers rt1) (rt1\<lparr>rt_async_subscribers := []\<rparr>))"

text \<open>\<open>_deliver_async\<close> and \<open>_finish_async_subscription\<close>, run by the subscriber's loop.\<close>

definition run_callback :: "nat \<Rightarrow> runtime \<Rightarrow> runtime" where
  "run_callback i rt =
     (let s = rt_asyncs rt ! i; s' = s\<lparr>as_callbacks := tl (as_callbacks s)\<rparr>; q = as_queue s
      in case hd (as_callbacks s) of
        Finish \<Rightarrow> rt\<lparr>rt_asyncs := (rt_asyncs rt)[i := s'\<lparr>as_queue := queue_terminal q\<rparr>]\<rparr>
      | Deliver ev \<Rightarrow>
          if as_closed s \<or> rt_shutdown_started rt then rt\<lparr>rt_asyncs := (rt_asyncs rt)[i := s']\<rparr>
          else if has_room q then
            rt\<lparr>rt_asyncs := (rt_asyncs rt)[i := s'\<lparr>as_queue := queue_put ev q\<rparr>]\<rparr>
          else
            rt\<lparr>rt_asyncs := (rt_asyncs rt)[i :=
                 s'\<lparr>as_closed := True, as_queue := queue_terminal q\<rparr>],
               rt_async_subscribers := removeAll i (rt_async_subscribers rt)\<rparr>)"

section \<open>The loops over the subscribers\<close>

definition offered :: "runtime_event \<Rightarrow> event_queue \<Rightarrow> event_queue" where
  "offered ev q = (if has_room q then queue_put ev q else queue_terminal q)"

definition scheduled :: "runtime_event \<Rightarrow> async_subscriber \<Rightarrow> async_subscriber" where
  "scheduled ev s = (if as_loop_running s then s\<lparr>as_callbacks := as_callbacks s @ [Deliver ev]\<rparr>
     else s\<lparr>as_closed := True\<rparr>)"

definition ended :: "async_subscriber \<Rightarrow> async_subscriber" where
  "ended s = (if as_loop_running s
     then s\<lparr>as_closed := True, as_callbacks := as_callbacks s @ [Finish]\<rparr> else s\<lparr>as_closed := True\<rparr>)"

lemma removeAll_filter: "removeAll i xs = filter (\<lambda>j. j \<noteq> i) xs"
  by (induction xs) auto

lemma other_entry: "j \<notin> set js \<Longrightarrow> x \<in> set js \<Longrightarrow> xs[j := y] ! x = xs ! x"
  by (cases "j = x") auto

lemma fold_offer_sync:
  "distinct js \<Longrightarrow> fold (offer_sync ev) js rt =
     rt\<lparr>rt_queues := update_each (offered ev) js (rt_queues rt),
        rt_subscribers :=
          filter (\<lambda>i. i \<in> set js \<longrightarrow> has_room (rt_queues rt ! i)) (rt_subscribers rt)\<rparr>"
proof (induction js arbitrary: rt)
  case (Cons j js)
  have "filter (\<lambda>i. i \<in> set js \<longrightarrow> has_room (rt_queues (offer_sync ev j rt) ! i))
          (rt_subscribers (offer_sync ev j rt))
      = filter (\<lambda>i. i \<in> set (j # js) \<longrightarrow> has_room (rt_queues rt ! i)) (rt_subscribers rt)"
    using Cons.prems
    by (auto simp: offer_sync_def Let_def removeAll_filter other_entry intro!: filter_cong)
  with Cons show ?case by (simp add: offer_sync_def offered_def Let_def)
qed simp

lemma fold_offer_async:
  "distinct js \<Longrightarrow> fold (offer_async ev) js rt =
     rt\<lparr>rt_asyncs := update_each (scheduled ev) js (rt_asyncs rt),
        rt_async_subscribers := filter (\<lambda>i. i \<in> set js \<longrightarrow> as_loop_running (rt_asyncs rt ! i))
          (rt_async_subscribers rt)\<rparr>"
proof (induction js arbitrary: rt)
  case (Cons j js)
  have "filter (\<lambda>i. i \<in> set js \<longrightarrow> as_loop_running (rt_asyncs (offer_async ev j rt) ! i))
          (rt_async_subscribers (offer_async ev j rt))
      = filter (\<lambda>i. i \<in> set (j # js) \<longrightarrow> as_loop_running (rt_asyncs rt ! i))
          (rt_async_subscribers rt)"
    using Cons.prems
    by (auto simp: offer_async_def Let_def removeAll_filter other_entry intro!: filter_cong)
  with Cons show ?case by (simp add: offer_async_def scheduled_def Let_def)
qed simp

lemma fold_end_sync:
  "fold end_sync js rt = rt\<lparr>rt_queues := update_each queue_terminal js (rt_queues rt)\<rparr>"
  by (induction js arbitrary: rt) (simp_all add: end_sync_def)

lemma fold_end_async:
  "fold end_async js rt = rt\<lparr>rt_asyncs := update_each ended js (rt_asyncs rt)\<rparr>"
proof (induction js arbitrary: rt)
  case (Cons j js)
  have "end_async j rt = rt\<lparr>rt_asyncs := (rt_asyncs rt)[j := ended (rt_asyncs rt ! j)]\<rparr>"
    by (simp add: end_async_def ended_def Let_def)
  with Cons show ?case by simp
qed simp

section \<open>What holds for a client\<close>

definition pending_item :: "loop_callback \<Rightarrow> runtime_event option" where
  "pending_item c = (case c of Deliver ev \<Rightarrow> Some ev | Finish \<Rightarrow> None)"

definition published_since :: "runtime_event list \<Rightarrow> event_queue \<Rightarrow> runtime_event option list" where
  "published_since hist q = map Some (drop (eq_joined q) hist)"

definition ends_marked :: "event_queue \<Rightarrow> bool" where
  "ends_marked q \<longleftrightarrow> eq_taken q @ eq_items q \<noteq> [] \<and> last (eq_taken q @ eq_items q) = None"

definition queue_bounded :: "runtime_event list \<Rightarrow> event_queue \<Rightarrow> bool" where
  "queue_bounded hist q \<longleftrightarrow> 0 < eq_maxsize q \<and> int (length (eq_items q)) \<le> eq_maxsize q
     \<and> eq_joined q \<le> length hist"

definition sync_ok :: "runtime_event list \<Rightarrow> bool \<Rightarrow> event_queue \<Rightarrow> bool" where
  "sync_ok hist live q \<longleftrightarrow> queue_bounded hist q
     \<and> (if live then eq_taken q @ eq_items q = published_since hist q
        else eq_left q \<or> ends_marked q)"

definition async_ok :: "runtime_event list \<Rightarrow> bool \<Rightarrow> async_subscriber \<Rightarrow> bool" where
  "async_ok hist live s \<longleftrightarrow> queue_bounded hist (as_queue s)
     \<and> (if live then \<not> as_closed s \<and>
          eq_taken (as_queue s) @ eq_items (as_queue s) @ map pending_item (as_callbacks s)
            = published_since hist (as_queue s)
        else as_closed s \<and> (eq_left (as_queue s) \<or> \<not> as_loop_running s
          \<or> Finish \<in> set (as_callbacks s) \<or> ends_marked (as_queue s)))"

lemma put_terminal_props:
  "put_terminal m xs \<noteq> [] \<and> last (put_terminal m xs) = None
   \<and> (0 < m \<longrightarrow> int (length (put_terminal m xs)) \<le> m)"
  by (induction m xs rule: put_terminal.induct) (auto simp: queue_room_def)

lemma queue_terminal_simps [simp]:
  "eq_maxsize (queue_terminal q) = eq_maxsize q" "eq_taken (queue_terminal q) = eq_taken q"
  "eq_joined (queue_terminal q) = eq_joined q" "eq_left (queue_terminal q) = eq_left q"
  "ends_marked (queue_terminal q)"
  "queue_bounded hist q \<Longrightarrow> queue_bounded hist (queue_terminal q)"
  using put_terminal_props[of "eq_maxsize q" "eq_items q"]
  by (auto simp: queue_terminal_def ends_marked_def queue_bounded_def)

lemma queue_put_bounded:
  "queue_bounded hist q \<Longrightarrow> has_room q \<Longrightarrow> queue_bounded hist (queue_put ev q)"
  by (auto simp: queue_bounded_def has_room_def queue_room_def queue_put_def)

lemma queue_bounded_snoc: "queue_bounded hist q \<Longrightarrow> queue_bounded (hist @ [ev]) q"
  by (simp add: queue_bounded_def)

lemma published_since_snoc:
  "eq_joined q \<le> length hist \<Longrightarrow> published_since (hist @ [ev]) q = published_since hist q @ [Some ev]"
  by (simp add: published_since_def)

lemma sync_ok_unconnected_snoc: "sync_ok hist False q \<Longrightarrow> sync_ok (hist @ [ev]) False q"
  by (simp add: sync_ok_def queue_bounded_snoc)

lemma sync_ok_offered:
  assumes "sync_ok hist True q"
  shows "sync_ok (hist @ [ev]) (has_room q) (offered ev q)"
proof -
  have b: "queue_bounded (hist @ [ev]) q" and j: "eq_joined q \<le> length hist"
    using assms by (simp_all add: sync_ok_def queue_bounded_snoc, simp add: queue_bounded_def)
  show ?thesis
  proof (cases "has_room q")
    case True
    with assms b queue_put_bounded[OF b True, of ev] published_since_snoc[OF j, of ev]
    show ?thesis by (simp add: sync_ok_def offered_def queue_put_def published_since_def)
  next
    case False
    with b show ?thesis by (simp add: sync_ok_def offered_def)
  qed
qed

lemma async_ok_unconnected_snoc: "async_ok hist False s \<Longrightarrow> async_ok (hist @ [ev]) False s"
  by (simp add: async_ok_def queue_bounded_snoc)

lemma async_ok_scheduled:
  assumes "async_ok hist True s"
  shows "async_ok (hist @ [ev]) (as_loop_running s) (scheduled ev s)"
proof -
  let ?q = "as_queue s"
  have b: "queue_bounded (hist @ [ev]) ?q" and j: "eq_joined ?q \<le> length hist"
    using assms by (simp_all add: async_ok_def queue_bounded_snoc, simp add: queue_bounded_def)
  show ?thesis
    using assms b published_since_snoc[OF j, of ev]
    by (cases "as_loop_running s")
       (simp_all add: async_ok_def scheduled_def pending_item_def flip: append_assoc)
qed

section \<open>Runs\<close>

inductive runtime_step :: "runtime \<Rightarrow> runtime \<Rightarrow> bool" where
  transition: "runtime_step rt (snd (runtime_transition now st task reason rt))"
| emit: "runtime_step rt (snd (runtime_emit now ty task st said transient md rt))"
| subscribe: "runtime_step rt (snd (runtime_subscribe max_pending rt))"
| subscribe_async: "runtime_step rt (snd (runtime_subscribe_async max_pending rt))"
| unsubscribe: "i < length (rt_queues rt) \<Longrightarrow> runtime_step rt (runtime_unsubscribe i rt)"
| unsubscribe_async: "i < length (rt_asyncs rt) \<Longrightarrow> runtime_step rt (runtime_unsubscribe_async i rt)"
| begin_shutdown: "runtime_step rt (runtime_begin_shutdown rt)"
| callback: "i < length (rt_asyncs rt) \<Longrightarrow> as_loop_running (rt_asyncs rt ! i) \<Longrightarrow>
    as_callbacks (rt_asyncs rt ! i) \<noteq> [] \<Longrightarrow> runtime_step rt (run_callback i rt)"
| read: "i < length (rt_queues rt) \<Longrightarrow> eq_items (rt_queues rt ! i) \<noteq> [] \<Longrightarrow>
    runtime_step rt (rt\<lparr>rt_queues := (rt_queues rt)[i := queue_get (rt_queues rt ! i)]\<rparr>)"
| read_async: "i < length (rt_asyncs rt) \<Longrightarrow> eq_items (as_queue (rt_asyncs rt ! i)) \<noteq> [] \<Longrightarrow>
    runtime_step rt (rt\<lparr>rt_asyncs := (rt_asyncs rt)[i :=
      (rt_asyncs rt ! i)\<lparr>as_queue := queue_get (as_queue (rt_asyncs rt ! i))\<rparr>]\<rparr>)"
| loop_stops: "i < length (rt_asyncs rt) \<Longrightarrow>
    runtime_step rt (rt\<lparr>rt_asyncs := (rt_asyncs rt)[i :=
      (rt_asyncs rt ! i)\<lparr>as_loop_running := False\<rparr>]\<rparr>)"

inductive_cases runtime_stepE: "runtime_step rt rt'"

definition log_ok :: "runtime \<Rightarrow> bool" where
  "log_ok rt \<longleftrightarrow>
     1 \<le> rt_max_events rt
     \<and> map ev_sequence (rt_log rt) = [1..int (length (rt_log rt))]
     \<and> rt_next_sequence rt = int (length (rt_log rt)) + 1
     \<and> rt_events rt = drop (length (rt_log rt) - nat (rt_max_events rt)) (rt_log rt)
     \<and> (\<forall>ev \<in> set (rt_log rt). bounded_event ev)"

definition clients_ok :: "runtime \<Rightarrow> bool" where
  "clients_ok rt \<longleftrightarrow>
     distinct (rt_subscribers rt) \<and> distinct (rt_async_subscribers rt)
     \<and> set (rt_subscribers rt) \<subseteq> {..<length (rt_queues rt)}
     \<and> set (rt_async_subscribers rt) \<subseteq> {..<length (rt_asyncs rt)}
     \<and> (rt_shutdown_started rt \<longrightarrow> rt_subscribers rt = [] \<and> rt_async_subscribers rt = [])
     \<and> (\<forall>i < length (rt_queues rt).
          sync_ok (rt_log rt) (i \<in> set (rt_subscribers rt)) (rt_queues rt ! i))
     \<and> (\<forall>i < length (rt_asyncs rt).
          async_ok (rt_log rt) (i \<in> set (rt_async_subscribers rt)) (rt_asyncs rt ! i))"

definition runtime_inv :: "runtime \<Rightarrow> bool" where
  "runtime_inv rt \<longleftrightarrow> log_ok rt \<and> clients_ok rt"

lemma runtime_init_inv: "runtime_init session st m = Inr rt \<Longrightarrow> runtime_inv rt"
  by (auto simp: runtime_init_def runtime_inv_def log_ok_def clients_ok_def split: if_splits)

lemma filter_members: "filter (\<lambda>i. i \<in> set xs \<longrightarrow> P i) xs = filter P xs"
  by (rule filter_cong) simp_all

lemma publish_locked_eq:
  assumes "distinct (rt_subscribers rt)" and "distinct (rt_async_subscribers rt)"
    and "p = ev\<lparr>ev_sequence := rt_next_sequence rt\<rparr>"
  shows "publish_locked ev rt = (p, rt\<lparr>rt_next_sequence := rt_next_sequence rt + 1,
      rt_events := deque_append (Some (nat (rt_max_events rt))) (rt_events rt) p,
      rt_log := rt_log rt @ [p],
      rt_queues := update_each (offered p) (rt_subscribers rt) (rt_queues rt),
      rt_subscribers := filter (\<lambda>i. has_room (rt_queues rt ! i)) (rt_subscribers rt),
      rt_asyncs := update_each (scheduled p) (rt_async_subscribers rt) (rt_asyncs rt),
      rt_async_subscribers :=
        filter (\<lambda>i. as_loop_running (rt_asyncs rt ! i)) (rt_async_subscribers rt)\<rparr>)"
  using assms by (simp add: publish_locked_def Let_def fold_offer_sync fold_offer_async filter_members)

lemma log_ok_publish:
  assumes "log_ok rt" and "distinct (rt_subscribers rt)" and "distinct (rt_async_subscribers rt)"
    and "bounded_event ev"
  shows "log_ok (snd (publish_locked ev rt))"
proof -
  let ?p = "ev\<lparr>ev_sequence := rt_next_sequence rt\<rparr>" and ?m = "nat (rt_max_events rt)"
  let ?l = "rt_log rt"
  have "[1..int (length ?l) + 1] = [1..int (length ?l)] @ [int (length ?l) + 1]"
    by (rule upto_rec2[THEN trans]) auto
  moreover have "bounded_event ?p"
    using assms(1,4) by (simp add: bounded_event_def log_ok_def)
  moreover have "1 \<le> ?m" using assms(1) unfolding log_ok_def by linarith
  then have "deque_append (Some ?m) (drop (length ?l - ?m) ?l) ?p
      = drop (Suc (length ?l) - ?m) (?l @ [?p])"
    by (rule deque_append_last_entries)
  ultimately show ?thesis
    using assms(1) unfolding publish_locked_eq[OF assms(2,3) refl]
    by (simp add: log_ok_def add.commute)
qed

lemma clients_ok_publish:
  assumes "clients_ok rt"
  shows "clients_ok (snd (publish_locked ev rt))"
proof -
  let ?p = "ev\<lparr>ev_sequence := rt_next_sequence rt\<rparr>" and ?h = "rt_log rt"
  have d: "distinct (rt_subscribers rt)" "distinct (rt_async_subscribers rt)"
    using assms by (simp_all add: clients_ok_def)
  have s: "sync_ok (?h @ [?p]) (i \<in> set (rt_subscribers rt) \<and> has_room (rt_queues rt ! i))
      (update_each (offered ?p) (rt_subscribers rt) (rt_queues rt) ! i)"
    if "i < length (rt_queues rt)" for i
  proof -
    have "sync_ok ?h (i \<in> set (rt_subscribers rt)) (rt_queues rt ! i)"
      using assms that by (simp add: clients_ok_def)
    then show ?thesis
      using that d sync_ok_offered[of ?h "rt_queues rt ! i" ?p]
        sync_ok_unconnected_snoc[of ?h "rt_queues rt ! i" ?p]
      by (cases "i \<in> set (rt_subscribers rt)") (simp_all add: nth_update_each)
  qed
  have a: "async_ok (?h @ [?p])
      (i \<in> set (rt_async_subscribers rt) \<and> as_loop_running (rt_asyncs rt ! i))
      (update_each (scheduled ?p) (rt_async_subscribers rt) (rt_asyncs rt) ! i)"
    if "i < length (rt_asyncs rt)" for i
  proof -
    have "async_ok ?h (i \<in> set (rt_async_subscribers rt)) (rt_asyncs rt ! i)"
      using assms that by (simp add: clients_ok_def)
    then show ?thesis
      using that d async_ok_scheduled[of ?h "rt_asyncs rt ! i" ?p]
        async_ok_unconnected_snoc[of ?h "rt_asyncs rt ! i" ?p]
      by (cases "i \<in> set (rt_async_subscribers rt)") (simp_all add: nth_update_each)
  qed
  show ?thesis
    using assms s a unfolding publish_locked_eq[OF d refl]
    by (auto simp: clients_ok_def)
qed

lemma runtime_inv_publish:
  assumes "runtime_inv rt" and "bounded_event ev"
  shows "runtime_inv (snd (publish_locked ev rt))"
proof -
  have "log_ok rt" "clients_ok rt" using assms(1) by (simp_all add: runtime_inv_def)
  moreover then have "distinct (rt_subscribers rt)" "distinct (rt_async_subscribers rt)"
    by (simp_all add: clients_ok_def)
  ultimately show ?thesis
    using log_ok_publish[OF _ _ _ assms(2)] clients_ok_publish by (simp add: runtime_inv_def)
qed

lemma log_ok_frame:
  "rt_log rt' = rt_log rt \<Longrightarrow> rt_events rt' = rt_events rt \<Longrightarrow>
     rt_max_events rt' = rt_max_events rt \<Longrightarrow> rt_next_sequence rt' = rt_next_sequence rt \<Longrightarrow>
     log_ok rt \<Longrightarrow> log_ok rt'"
  by (simp add: log_ok_def)

text \<open>A change of one client's entry, with or without its subscription.\<close>

lemma clients_ok_queue:
  assumes "clients_ok rt" and "i < length (rt_queues rt)"
    and "sync_ok (rt_log rt) (i \<in> set (rt_subscribers rt)) (rt_queues rt ! i) \<Longrightarrow>
      sync_ok (rt_log rt) (i \<in> set (rt_subscribers rt)) q"
  shows "clients_ok (rt\<lparr>rt_queues := (rt_queues rt)[i := q]\<rparr>)"
  using assms by (auto simp: clients_ok_def nth_list_update)

lemma clients_ok_queue_leaves:
  assumes "clients_ok rt" and "i < length (rt_queues rt)"
    and "queue_bounded (rt_log rt) (rt_queues rt ! i) \<Longrightarrow> sync_ok (rt_log rt) False q"
  shows "clients_ok (rt\<lparr>rt_subscribers := removeAll i (rt_subscribers rt),
    rt_queues := (rt_queues rt)[i := q]\<rparr>)"
  using assms by (auto simp: clients_ok_def nth_list_update sync_ok_def removeAll_filter)

lemma clients_ok_async:
  assumes "clients_ok rt" and "i < length (rt_asyncs rt)"
    and "async_ok (rt_log rt) (i \<in> set (rt_async_subscribers rt)) (rt_asyncs rt ! i) \<Longrightarrow>
      async_ok (rt_log rt) (i \<in> set (rt_async_subscribers rt)) s"
  shows "clients_ok (rt\<lparr>rt_asyncs := (rt_asyncs rt)[i := s]\<rparr>)"
  using assms by (auto simp: clients_ok_def nth_list_update)

lemma clients_ok_async_leaves:
  assumes "clients_ok rt" and "i < length (rt_asyncs rt)"
    and "queue_bounded (rt_log rt) (as_queue (rt_asyncs rt ! i)) \<Longrightarrow> async_ok (rt_log rt) False s"
  shows "clients_ok (rt\<lparr>rt_asyncs := (rt_asyncs rt)[i := s],
    rt_async_subscribers := removeAll i (rt_async_subscribers rt)\<rparr>)"
  using assms by (auto simp: clients_ok_def nth_list_update async_ok_def removeAll_filter)

lemma queue_get_simps [simp]:
  "eq_items q \<noteq> [] \<Longrightarrow> eq_taken (queue_get q) @ eq_items (queue_get q) = eq_taken q @ eq_items q"
  "eq_left (queue_get q) = eq_left q" "eq_joined (queue_get q) = eq_joined q"
  "queue_bounded hist q \<Longrightarrow> queue_bounded hist (queue_get q)"
  "published_since hist (queue_get q) = published_since hist q"
  by (auto simp: queue_get_def queue_bounded_def published_since_def)

lemma ends_marked_get [simp]: "eq_items q \<noteq> [] \<Longrightarrow> ends_marked (queue_get q) = ends_marked q"
  by (metis ends_marked_def queue_get_simps(1))

lemma sync_ok_get: "eq_items q \<noteq> [] \<Longrightarrow> sync_ok hist c q \<Longrightarrow> sync_ok hist c (queue_get q)"
  by (simp add: sync_ok_def)

lemma async_ok_get:
  assumes "eq_items (as_queue s) \<noteq> []" and "async_ok hist c s"
  shows "async_ok hist c (s\<lparr>as_queue := queue_get (as_queue s)\<rparr>)"
proof -
  have "eq_taken (queue_get (as_queue s)) @ eq_items (queue_get (as_queue s)) @ zs
      = eq_taken (as_queue s) @ eq_items (as_queue s) @ zs" for zs
    using queue_get_simps(1)[OF assms(1)] by (metis append.assoc)
  note get = this
  show ?thesis using assms by (cases c) (simp_all add: async_ok_def get)
qed

lemma ends_marked_terminal_async:
  "async_ok hist False s \<Longrightarrow> as_callbacks s = c # cs \<Longrightarrow>
     async_ok hist False (s\<lparr>as_callbacks := cs, as_queue := queue_terminal (as_queue s)\<rparr>)"
  by (auto simp: async_ok_def)

lemma run_callback_ok:
  assumes "clients_ok rt" and "i < length (rt_asyncs rt)"
    and "as_callbacks (rt_asyncs rt ! i) \<noteq> []"
  shows "clients_ok (run_callback i rt)"
proof -
  let ?s = "rt_asyncs rt ! i" and ?live = "i \<in> set (rt_async_subscribers rt)"
  obtain c cs where cb: "as_callbacks ?s = c # cs" using assms(3) by (cases "as_callbacks ?s") auto
  have ok: "async_ok (rt_log rt) ?live ?s" using assms(1,2) by (simp add: clients_ok_def)
  have stop: "rt_shutdown_started rt \<Longrightarrow> \<not> ?live" using assms(1) by (auto simp: clients_ok_def)
  show ?thesis
  proof (cases c)
    case Finish
    have "\<not> ?live"
    proof
      assume "?live"
      with ok have eq: "eq_taken (as_queue ?s) @ eq_items (as_queue ?s)
          @ map pending_item (as_callbacks ?s) = published_since (rt_log rt) (as_queue ?s)"
        by (simp add: async_ok_def)
      have "None \<in> set (eq_taken (as_queue ?s) @ eq_items (as_queue ?s)
          @ map pending_item (as_callbacks ?s))"
        by (simp add: cb Finish pending_item_def)
      then show False unfolding eq by (auto simp: published_since_def)
    qed
    with assms(1,2) ok cb Finish show ?thesis
      by (simp add: run_callback_def Let_def) (rule clients_ok_async, auto simp: ends_marked_terminal_async)
  next
    case (Deliver ev)
    consider (dead) "as_closed ?s \<or> rt_shutdown_started rt"
      | (put) "\<not> (as_closed ?s \<or> rt_shutdown_started rt)" "has_room (as_queue ?s)"
      | (full) "\<not> (as_closed ?s \<or> rt_shutdown_started rt)" "\<not> has_room (as_queue ?s)"
      by blast
    then show ?thesis
    proof cases
      case dead
      have "\<not> ?live" using dead stop ok by (auto simp: async_ok_def split: if_splits)
      then have "async_ok (rt_log rt) ?live (?s\<lparr>as_callbacks := cs\<rparr>)"
        using ok cb Deliver by (auto simp: async_ok_def)
      with assms(1,2) dead cb Deliver show ?thesis
        by (simp add: run_callback_def Let_def) (rule clients_ok_async, simp_all)
    next
      case put
      then have "?live" using ok by (auto simp: async_ok_def split: if_splits)
      then have "async_ok (rt_log rt) ?live
          (?s\<lparr>as_callbacks := cs, as_queue := queue_put ev (as_queue ?s)\<rparr>)"
        using ok cb Deliver put queue_put_bounded[of "rt_log rt" "as_queue ?s" ev]
        by (simp add: async_ok_def pending_item_def queue_put_def published_since_def)
      with assms(1,2) put cb Deliver show ?thesis
        by (simp add: run_callback_def Let_def) (rule clients_ok_async, simp_all)
    next
      case full
      have "clients_ok (rt\<lparr>rt_asyncs := (rt_asyncs rt)[i :=
            ?s\<lparr>as_callbacks := cs, as_closed := True, as_queue := queue_terminal (as_queue ?s)\<rparr>],
          rt_async_subscribers := removeAll i (rt_async_subscribers rt)\<rparr>)"
        using assms(1,2) by (rule clients_ok_async_leaves) (simp add: async_ok_def)
      with full cb Deliver show ?thesis by (simp add: run_callback_def Let_def)
    qed
  qed
qed

lemma runtime_transition_cases:
  obtains (refused) e where "runtime_transition now st task reason rt = (Inl e, rt)"
      "exn_kind e = InvalidRuntimeTransitionC"
      "st = rt_state rt \<or> st \<notin> set (allowed_transitions (rt_state rt))"
  | (unpublished) e where "runtime_transition now st task reason rt = (Inl e, rt\<lparr>rt_state := st\<rparr>)"
      "exn_kind e = ValueErrorC" "st \<in> set (allowed_transitions (rt_state rt))"
  | (published) ev where "bounded_event ev" "ev_event_type ev = RUNTIME_STATE_CHANGED"
      "ev_state ev = Some st" "st \<in> set (allowed_transitions (rt_state rt))" "st \<noteq> rt_state rt"
      "runtime_transition now st task reason rt =
         (Inr (fst (publish_locked ev (rt\<lparr>rt_state := st\<rparr>))),
          snd (publish_locked ev (rt\<lparr>rt_state := st\<rparr>)))"
proof (cases "st = rt_state rt \<or> st \<notin> set (allowed_transitions (rt_state rt))")
  case True
  then have "\<exists>e. runtime_transition now st task reason rt = (Inl e, rt)
      \<and> exn_kind e = InvalidRuntimeTransitionC"
    by (auto simp: runtime_transition_def Let_def)
  with True show thesis using refused by blast
next
  case False
  let ?md = "Some (transition_metadata (rt_state rt) reason)"
  let ?c = "runtime_event_create now RUNTIME_STATE_CHANGED (rt_session_id rt) 0 task
      (Some st) None False ?md None"
  have c: "case ?c of Inr ev \<Rightarrow> bounded_event ev \<and> ev_event_type ev = RUNTIME_STATE_CHANGED
      \<and> ev_state ev = Some st | Inl e \<Rightarrow> exn_kind e = ValueErrorC"
    by (auto simp: runtime_event_create_def Let_def runtime_event_check_iff
        dest: runtime_event_check_kind split: option.splits)
  show thesis
  proof (cases ?c)
    case (Inl e)
    with False c show thesis by (intro unpublished[of e]) (simp_all add: runtime_transition_def Let_def)
  next
    case (Inr ev)
    with False c show thesis
      by (intro published[of ev]) (simp_all add: runtime_transition_def Let_def split: prod.splits)
  qed
qed

lemma clients_ok_frame:
  "rt_queues rt' = rt_queues rt \<Longrightarrow> rt_subscribers rt' = rt_subscribers rt \<Longrightarrow>
     rt_asyncs rt' = rt_asyncs rt \<Longrightarrow> rt_async_subscribers rt' = rt_async_subscribers rt \<Longrightarrow>
     rt_shutdown_started rt' = rt_shutdown_started rt \<Longrightarrow> rt_log rt' = rt_log rt \<Longrightarrow>
     clients_ok rt \<Longrightarrow> clients_ok rt'"
  by (simp add: clients_ok_def)

lemma runtime_inv_state: "runtime_inv rt \<Longrightarrow> runtime_inv (rt\<lparr>rt_state := st\<rparr>)"
  unfolding runtime_inv_def by (auto intro: log_ok_frame[of _ rt] clients_ok_frame[of _ rt])

lemma runtime_inv_transition:
  assumes "runtime_inv rt"
  shows "runtime_inv (snd (runtime_transition now st task reason rt))"
  using assms runtime_inv_state[OF assms, of st] runtime_inv_publish
  by (cases rule: runtime_transition_cases[of now st task reason rt]) simp_all

lemma runtime_inv_emit:
  assumes "runtime_inv rt"
  shows "runtime_inv (snd (runtime_emit now ty task st said transient md rt))"
proof (cases "runtime_event_create now ty (rt_session_id rt) 0 task st said transient md None")
  case (Inl e)
  with assms show ?thesis by (simp add: runtime_emit_def)
next
  case (Inr ev)
  then have "bounded_event ev"
    by (auto simp: runtime_event_create_def Let_def runtime_event_check_iff split: option.splits)
  from Inr runtime_inv_publish[OF assms this] show ?thesis
    by (cases "publish_locked ev rt") (simp add: runtime_emit_def)
qed

lemma runtime_inv_subscribe:
  "runtime_inv rt \<Longrightarrow> runtime_inv (snd (runtime_subscribe m rt))"
  by (auto simp: runtime_subscribe_def Let_def runtime_inv_def log_ok_def clients_ok_def
      sync_ok_def new_queue_def queue_bounded_def published_since_def nth_append less_Suc_eq)

lemma runtime_inv_subscribe_async:
  "runtime_inv rt \<Longrightarrow> runtime_inv (snd (runtime_subscribe_async m rt))"
  by (auto simp: runtime_subscribe_async_def Let_def runtime_inv_def log_ok_def clients_ok_def
      async_ok_def new_queue_def queue_bounded_def published_since_def nth_append less_Suc_eq)

lemma runtime_inv_shutdown:
  assumes "runtime_inv rt"
  shows "runtime_inv (runtime_begin_shutdown rt)"
proof (cases "rt_shutdown_started rt")
  case True
  with assms show ?thesis by (simp add: runtime_begin_shutdown_def)
next
  case False
  let ?q = "update_each queue_terminal (rt_subscribers rt) (rt_queues rt)"
  let ?a = "update_each ended (rt_async_subscribers rt) (rt_asyncs rt)"
  have eq: "runtime_begin_shutdown rt = rt\<lparr>rt_shutdown_started := True, rt_subscribers := [],
      rt_queues := ?q, rt_async_subscribers := [], rt_asyncs := ?a\<rparr>"
    using False by (simp add: runtime_begin_shutdown_def fold_end_sync fold_end_async)
  have c: "clients_ok rt" using assms by (simp add: runtime_inv_def)
  have "sync_ok (rt_log rt) False (?q ! i)" if "i < length (rt_queues rt)" for i
    using c that by (cases "i \<in> set (rt_subscribers rt)")
      (auto simp: clients_ok_def sync_ok_def nth_update_each)
  moreover have "async_ok (rt_log rt) False (?a ! i)" if "i < length (rt_asyncs rt)" for i
    using c that by (cases "i \<in> set (rt_async_subscribers rt)")
      (auto simp: clients_ok_def async_ok_def ended_def nth_update_each)
  ultimately have "clients_ok (runtime_begin_shutdown rt)"
    unfolding eq by (simp add: clients_ok_def)
  moreover have "log_ok (runtime_begin_shutdown rt)"
    using assms unfolding eq runtime_inv_def by (auto intro: log_ok_frame[of _ rt])
  ultimately show ?thesis by (simp add: runtime_inv_def)
qed

lemma run_callback_log: "log_ok rt \<Longrightarrow> log_ok (run_callback i rt)"
  by (rule log_ok_frame[of _ rt])
     (simp_all add: run_callback_def Let_def split: loop_callback.splits)

lemma runtime_inv_unsubscribe:
  assumes "runtime_inv rt" and "i < length (rt_queues rt)"
  shows "runtime_inv (runtime_unsubscribe i rt)"
proof -
  have "clients_ok (runtime_unsubscribe i rt)"
    unfolding runtime_unsubscribe_def
    using assms by (intro clients_ok_queue_leaves) (auto simp: runtime_inv_def sync_ok_def queue_bounded_def)
  moreover have "log_ok (runtime_unsubscribe i rt)"
    using assms(1) unfolding runtime_inv_def runtime_unsubscribe_def
    by (auto intro: log_ok_frame[of _ rt])
  ultimately show ?thesis by (simp add: runtime_inv_def)
qed

lemma runtime_inv_unsubscribe_async:
  assumes "runtime_inv rt" and "i < length (rt_asyncs rt)"
  shows "runtime_inv (runtime_unsubscribe_async i rt)"
proof -
  have "clients_ok (runtime_unsubscribe_async i rt)"
    unfolding runtime_unsubscribe_async_def using assms
    by (intro clients_ok_async_leaves) (auto simp: runtime_inv_def async_ok_def leave_async_def queue_bounded_def)
  moreover have "log_ok (runtime_unsubscribe_async i rt)"
    using assms(1) unfolding runtime_inv_def runtime_unsubscribe_async_def
    by (auto intro: log_ok_frame[of _ rt])
  ultimately show ?thesis by (simp add: runtime_inv_def)
qed

lemma runtime_inv_entry:
  assumes "runtime_inv rt" and "clients_ok (rt\<lparr>rt_queues := qs, rt_asyncs := ss\<rparr>)"
  shows "runtime_inv (rt\<lparr>rt_queues := qs, rt_asyncs := ss\<rparr>)"
  using assms unfolding runtime_inv_def by (auto intro: log_ok_frame[of _ rt])

lemma runtime_step_inv: "runtime_step rt rt' \<Longrightarrow> runtime_inv rt \<Longrightarrow> runtime_inv rt'"
proof (induction rule: runtime_step.induct)
  case (callback i rt)
  then show ?case by (simp add: runtime_inv_def run_callback_log run_callback_ok)
next
  case (read i rt)
  then have "clients_ok (rt\<lparr>rt_queues := (rt_queues rt)[i := queue_get (rt_queues rt ! i)]\<rparr>)"
    by (intro clients_ok_queue) (auto simp: runtime_inv_def sync_ok_get)
  with runtime_inv_entry[OF read(3), where qs = "(rt_queues rt)[i := queue_get (rt_queues rt ! i)]"
      and ss = "rt_asyncs rt"] show ?case by simp
next
  case (read_async i rt)
  let ?s = "rt_asyncs rt ! i"
  let ?ss = "(rt_asyncs rt)[i := ?s\<lparr>as_queue := queue_get (as_queue ?s)\<rparr>]"
  from read_async have "clients_ok (rt\<lparr>rt_asyncs := ?ss\<rparr>)"
    by (intro clients_ok_async) (auto simp: runtime_inv_def async_ok_get)
  with runtime_inv_entry[OF read_async(3), where qs = "rt_queues rt" and ss = ?ss] show ?case by simp
next
  case (loop_stops i rt)
  let ?ss = "(rt_asyncs rt)[i := (rt_asyncs rt ! i)\<lparr>as_loop_running := False\<rparr>]"
  from loop_stops have "clients_ok (rt\<lparr>rt_asyncs := ?ss\<rparr>)"
    by (intro clients_ok_async) (auto simp: runtime_inv_def async_ok_def split: if_splits)
  with runtime_inv_entry[OF loop_stops(2), where qs = "rt_queues rt" and ss = ?ss] show ?case by simp
qed (blast intro: runtime_inv_transition runtime_inv_emit runtime_inv_subscribe
    runtime_inv_subscribe_async runtime_inv_unsubscribe runtime_inv_unsubscribe_async
    runtime_inv_shutdown)+

section \<open>The event stream endpoint\<close>

text \<open>
  \<open>runtime_event_stream\<close>: the replay, then the subscription; \<open>between\<close> is what other threads do
  to the runtime between the two calls. The client is sent the replay, then the queue.
\<close>

definition stream_open ::
    "int \<Rightarrow> (runtime \<Rightarrow> runtime) \<Rightarrow> (runtime, runtime_event list \<times> nat) act" where
  "stream_open cursor between rt =
     (case events_since cursor 1000 rt of Inl e \<Rightarrow> (Inl e, rt)
      | Inr replay \<Rightarrow>
          (case runtime_subscribe_async 256 (between rt) of (Inl e, rt') \<Rightarrow> (Inl e, rt')
           | (Inr i, rt') \<Rightarrow> (Inr (replay, i), rt')))"

lemma filter_sequences:
  "map ev_sequence evs = [a + 1..a + int (length evs)] \<Longrightarrow>
     filter (\<lambda>ev. ev_sequence ev > s) evs = drop (nat (s - a)) evs"
proof (induction evs arbitrary: a)
  case (Cons ev evs)
  then have hd: "ev_sequence ev = a + 1" and tl: "map ev_sequence evs = [a + 1 + 1..a + 1 + int (length evs)]"
    by (simp_all add: upto_rec1 algebra_simps)
  show ?case
  proof (cases "s \<le> a")
    case True
    then have "nat (s - (a + 1)) = 0" "nat (s - a) = 0" by simp_all
    with Cons.IH[OF tl] hd True show ?thesis by simp
  next
    case False
    then have "nat (s - a) = Suc (nat (s - (a + 1)))" by simp
    with Cons.IH[OF tl] hd False show ?thesis by simp
  qed
qed simp

lemma log_tail_sequences:
  assumes "log_ok rt" and "k \<le> length (rt_log rt)"
  shows "map ev_sequence (drop k (rt_log rt))
    = [int k + 1..int k + int (length (drop k (rt_log rt)))]"
proof (rule nth_equalityI)
  fix i assume i: "i < length (map ev_sequence (drop k (rt_log rt)))"
  have m: "map ev_sequence (rt_log rt) = [1..int (length (rt_log rt))]"
    using assms(1) by (simp add: log_ok_def)
  have "ev_sequence (rt_log rt ! (k + i)) = map ev_sequence (rt_log rt) ! (k + i)"
    using i assms(2) by simp
  also have "\<dots> = int k + 1 + int i" unfolding m using i assms(2) by (subst nth_upto) auto
  finally show "map ev_sequence (drop k (rt_log rt)) ! i
      = [int k + 1..int k + int (length (drop k (rt_log rt)))] ! i"
    using i assms(2) by (simp add: nth_upto)
qed (use assms(2) in simp)

text \<open>A cursor within the window replays the log from there.\<close>

lemma events_since_log:
  assumes "log_ok rt" and "0 \<le> s" and "1 \<le> limit" and "limit \<le> 1000"
    and "int (length (rt_log rt)) - rt_max_events rt \<le> s"
  shows "events_since s limit rt = Inr (take (nat limit) (drop (nat s) (rt_log rt)))"
proof -
  let ?k = "length (rt_log rt) - nat (rt_max_events rt)"
  have ev: "rt_events rt = drop ?k (rt_log rt)" and m: "1 \<le> rt_max_events rt"
    using assms(1) by (simp_all add: log_ok_def)
  have "filter (\<lambda>ev. ev_sequence ev > s) (drop ?k (rt_log rt)) = drop (nat (s - int ?k)) (drop ?k (rt_log rt))"
    by (rule filter_sequences[OF log_tail_sequences[OF assms(1)]]) simp
  moreover have "nat (s - int ?k) + ?k = nat s" using assms(2,5) m by linarith
  ultimately show ?thesis using assms(2-4) by (simp add: events_since_def ev)
qed

lemma runtime_reachable_inv:
  assumes "runtime_init session st m = Inr rt0" and "runtime_step\<^sup>*\<^sup>* rt0 rt"
  shows "runtime_inv rt"
  using assms(2) runtime_init_inv[OF assms(1)]
  by (induction rule: rtranclp_induct) (blast intro: runtime_step_inv)+

section \<open>Properties\<close>

text \<open>C2: a client is never fed a stream with an undetected hole while it stays connected: under
  every interleaving of publishers, clients, loop callbacks and shutdown, what a connected
  subscriber has read, still has queued, and (on an event loop) has scheduled is exactly the
  events published since it subscribed, in order; queues stay within their bound; and a
  client that was cut off without having unsubscribed, by overflow or by shutdown, finds an
  end marker behind everything else, or its loop is gone or about to write that marker.\<close>

theorem runtime_stream_gapless:
  assumes "runtime_init session st m = Inr rt0" and "runtime_step\<^sup>*\<^sup>* rt0 rt"
  shows "(\<forall>i < length (rt_queues rt). let q = rt_queues rt ! i in
      int (length (eq_items q)) \<le> eq_maxsize q
      \<and> (if i \<in> set (rt_subscribers rt)
         then eq_taken q @ eq_items q = map Some (drop (eq_joined q) (rt_log rt))
         else eq_left q \<or> last (eq_taken q @ eq_items q) = None))
    \<and> (\<forall>i < length (rt_asyncs rt). let s = rt_asyncs rt ! i; q = as_queue s in
      int (length (eq_items q)) \<le> eq_maxsize q
      \<and> (if i \<in> set (rt_async_subscribers rt)
         then eq_taken q @ eq_items q @ map pending_item (as_callbacks s)
                = map Some (drop (eq_joined q) (rt_log rt))
         else eq_left q \<or> \<not> as_loop_running s \<or> Finish \<in> set (as_callbacks s)
                \<or> last (eq_taken q @ eq_items q) = None))"
  using runtime_reachable_inv[OF assms]
  by (auto simp: runtime_inv_def clients_ok_def sync_ok_def async_ok_def queue_bounded_def
      published_since_def ends_marked_def Let_def)

text \<open>the replay is exact: published events are numbered 1, 2, 3 and so on without a hole, the
  history kept is the latest ones up to its bound, and a reader whose cursor has not fallen
  out of that window is sent exactly the events that follow its cursor, up to its limit.\<close>

theorem replay_exact:
  assumes "runtime_init session st m = Inr rt0" and "runtime_step\<^sup>*\<^sup>* rt0 rt"
    and "0 \<le> cursor" and "1 \<le> limit" and "limit \<le> 1000"
    and "int (length (rt_log rt)) - rt_max_events rt \<le> cursor"
  shows "map ev_sequence (rt_log rt) = [1..int (length (rt_log rt))]
    \<and> int (length (rt_events rt)) = min (rt_max_events rt) (int (length (rt_log rt)))
    \<and> events_since cursor limit rt = Inr (take (nat limit) (drop (nat cursor) (rt_log rt)))"
proof -
  have l: "log_ok rt" using runtime_reachable_inv[OF assms(1,2)] by (simp add: runtime_inv_def)
  from events_since_log[OF l assms(3-6)] l show ?thesis by (auto simp: log_ok_def)
qed

text \<open>the state changes only along permitted transitions. A refused transition changes
  nothing; a successful one sets the state, numbers the event next and publishes it as the
  latest; the one other outcome is a state change whose event is rejected by validation, and
  then nothing is published.\<close>

theorem transition_outcomes:
  assumes "runtime_init session st0 m = Inr rt0" and "runtime_step\<^sup>*\<^sup>* rt0 rt"
  shows "case runtime_transition now st task reason rt of
      (Inr ev, rt') \<Rightarrow> st \<in> set (allowed_transitions (rt_state rt)) \<and> st \<noteq> rt_state rt
        \<and> rt_state rt' = st \<and> ev_state ev = Some st \<and> ev_sequence ev = rt_next_sequence rt
        \<and> rt_log rt' = rt_log rt @ [ev] \<and> last (rt_events rt') = ev
    | (Inl e, rt') \<Rightarrow>
        if exn_kind e = InvalidRuntimeTransitionC
        then rt' = rt \<and> (st = rt_state rt \<or> st \<notin> set (allowed_transitions (rt_state rt)))
        else exn_kind e = ValueErrorC \<and> rt' = rt\<lparr>rt_state := st\<rparr>"
proof (cases rule: runtime_transition_cases[of now st task reason rt])
  case (published ev)
  have inv: "runtime_inv rt" by (rule runtime_reachable_inv[OF assms])
  then have d: "distinct (rt_subscribers (rt\<lparr>rt_state := st\<rparr>))"
    "distinct (rt_async_subscribers (rt\<lparr>rt_state := st\<rparr>))"
    by (simp_all add: runtime_inv_def clients_ok_def)
  have "log_ok rt" using inv by (simp add: runtime_inv_def)
  then have l: "rt_events rt = drop (length (rt_log rt) - nat (rt_max_events rt)) (rt_log rt)"
    "1 \<le> nat (rt_max_events rt)"
    unfolding log_ok_def by linarith+
  have "last (deque_append (Some (nat (rt_max_events rt))) (rt_events rt) x) = x" for x
    unfolding l(1) deque_append_last_entries[OF l(2)] using l(2)
    by (simp add: last_drop Suc_diff_le)
  with published show ?thesis unfolding publish_locked_eq[OF d refl] by simp
qed simp_all

text \<open>shutdown ends every live stream and admits no new one: afterwards no subscriber is
  registered, every subscription raises the shutdown error, the event history is untouched,
  every synchronous client that was connected finds the end marker last, and every
  asynchronous one is closed with the marker scheduled unless its loop is gone; a second
  shutdown changes nothing.\<close>

theorem shutdown_ends_streams:
  assumes "runtime_init session st m = Inr rt0" and "runtime_step\<^sup>*\<^sup>* rt0 rt"
    and "rt' = runtime_begin_shutdown rt"
  shows "rt_subscribers rt' = [] \<and> rt_async_subscribers rt' = [] \<and> rt_events rt' = rt_events rt
    \<and> runtime_begin_shutdown rt' = rt'
    \<and> (\<forall>n. 1 \<le> n \<and> n \<le> 10000 \<longrightarrow>
         runtime_subscribe n rt' = (Inl (Exn RuntimeShuttingDownC ''Friday is shutting down''), rt')
         \<and> runtime_subscribe_async n rt'
             = (Inl (Exn RuntimeShuttingDownC ''Friday is shutting down''), rt'))
    \<and> (\<forall>i \<in> set (rt_subscribers rt). last (eq_items (rt_queues rt' ! i)) = None)
    \<and> (\<forall>i \<in> set (rt_async_subscribers rt). as_closed (rt_asyncs rt' ! i)
         \<and> (as_loop_running (rt_asyncs rt ! i) \<longrightarrow> last (as_callbacks (rt_asyncs rt' ! i)) = Finish))"
proof (cases "rt_shutdown_started rt")
  case True
  have "clients_ok rt" using runtime_reachable_inv[OF assms(1,2)] by (simp add: runtime_inv_def)
  with True assms(3) show ?thesis
    by (simp add: clients_ok_def runtime_begin_shutdown_def runtime_subscribe_def
        runtime_subscribe_async_def)
next
  case False
  have c: "clients_ok rt" using runtime_reachable_inv[OF assms(1,2)] by (simp add: runtime_inv_def)
  have eq: "rt' = rt\<lparr>rt_shutdown_started := True, rt_subscribers := [],
      rt_queues := update_each queue_terminal (rt_subscribers rt) (rt_queues rt),
      rt_async_subscribers := [],
      rt_asyncs := update_each ended (rt_async_subscribers rt) (rt_asyncs rt)\<rparr>"
    using False assms(3) by (simp add: runtime_begin_shutdown_def fold_end_sync fold_end_async)
  have t: "last (eq_items (queue_terminal q)) = None" for q
    using put_terminal_props[of "eq_maxsize q" "eq_items q"] by (simp add: queue_terminal_def)
  show ?thesis
    using c unfolding eq
    by (auto simp: clients_ok_def nth_update_each t ended_def subset_iff
        runtime_begin_shutdown_def runtime_subscribe_def runtime_subscribe_async_def)
qed

section \<open>Concrete runs\<close>

definition small_runtime :: "int \<Rightarrow> runtime" where
  "small_runtime m = \<lparr>rt_session_id = [115], rt_state = IDLE, rt_max_events = m, rt_events = [],
     rt_queues = [], rt_subscribers = [], rt_asyncs = [], rt_async_subscribers = [],
     rt_shutdown_started = False, rt_next_sequence = 1, rt_log = []\<rparr>"

lemma small_runtime_init: "1 \<le> m \<Longrightarrow> runtime_init [115] IDLE m = Inr (small_runtime m)"
  by (simp add: runtime_init_def small_runtime_def)

definition health :: "runtime \<Rightarrow> runtime" where
  "health rt = snd (runtime_emit [49] SYSTEM_HEALTH None None None False None rt)"

definition joined :: "int \<Rightarrow> runtime \<Rightarrow> runtime" where
  "joined n rt = snd (runtime_subscribe n rt)"

definition health_event :: "int \<Rightarrow> runtime_event" where
  "health_event n = \<lparr>ev_event_type = SYSTEM_HEALTH, ev_session_id = [115], ev_sequence = n,
     ev_timestamp = [49], ev_task_id = None, ev_state = None, ev_text = None,
     ev_transient = False, ev_metadata = []\<rparr>"

lemma health_step: "runtime_step\<^sup>*\<^sup>* rt0 rt \<Longrightarrow> runtime_step\<^sup>*\<^sup>* rt0 (health rt)"
  unfolding health_def by (blast intro: rtranclp.rtrancl_into_rtrancl runtime_step.emit)

lemma joined_step: "runtime_step\<^sup>*\<^sup>* rt0 rt \<Longrightarrow> runtime_step\<^sup>*\<^sup>* rt0 (joined n rt)"
  unfolding joined_def by (blast intro: rtranclp.rtrancl_into_rtrancl runtime_step.subscribe)

lemma health_eq:
  "rt_session_id rt = [115] \<Longrightarrow> health rt = snd (publish_locked (health_event 0) rt)"
  by (simp add: health_def runtime_emit_def runtime_event_create_def runtime_event_check_def
      health_event_def split: prod.splits)

lemmas runtime_eval = health_eq joined_def runtime_subscribe_def small_runtime_def
  publish_locked_def offer_sync_def offer_async_def has_room_def queue_room_def queue_put_def
  queue_terminal_def new_queue_def deque_append_def Let_def health_event_def

theorem runtime_stream_gapless_witness:
  "let rt = health (joined 1 (health (small_runtime 2))) in
     rt_subscribers rt = [0] \<and> rt_log rt = [health_event 1, health_event 2]
     \<and> eq_taken (rt_queues rt ! 0) @ eq_items (rt_queues rt ! 0) = [Some (health_event 2)]"
proof -
  let ?rt = "health (joined 1 (health (small_runtime 2)))"
  have r: "runtime_step\<^sup>*\<^sup>* (small_runtime 2) ?rt"
    by (intro health_step joined_step rtranclp.rtrancl_refl)
  have i: "runtime_init [115] IDLE 2 = Inr (small_runtime 2)" by (rule small_runtime_init) simp
  have s: "rt_subscribers ?rt = [0]" "rt_log ?rt = [health_event 1, health_event 2]"
    "length (rt_queues ?rt) = 1" "eq_joined (rt_queues ?rt ! 0) = 1"
    by (simp_all add: runtime_eval)
  then have "eq_taken (rt_queues ?rt ! 0) @ eq_items (rt_queues ?rt ! 0)
      = map Some (drop (eq_joined (rt_queues ?rt ! 0)) (rt_log ?rt))"
    using runtime_stream_gapless[OF i r, THEN conjunct1] by (simp add: Let_def)
  with s show ?thesis by (simp add: Let_def)
qed

theorem replay_exact_witness:
  "events_since 1 1000 (health (health (health (small_runtime 2))))
     = Inr [health_event 2, health_event 3]"
proof -
  let ?rt = "health (health (health (small_runtime 2)))"
  have r: "runtime_step\<^sup>*\<^sup>* (small_runtime 2) ?rt"
    by (intro health_step rtranclp.rtrancl_refl)
  have i: "runtime_init [115] IDLE 2 = Inr (small_runtime 2)" by (rule small_runtime_init) simp
  have l: "rt_log ?rt = [health_event 1, health_event 2, health_event 3]" "rt_max_events ?rt = 2"
    by (simp_all add: runtime_eval)
  from replay_exact[OF i r, of 1 1000] l show ?thesis by simp
qed

theorem transition_outcomes_witness:
  "\<exists>e. runtime_transition [49] SPEAKING None None (small_runtime 2) = (Inl e, small_runtime 2)
     \<and> exn_kind e = InvalidRuntimeTransitionC \<and> SPEAKING \<notin> set (allowed_transitions IDLE)"
proof -
  have i: "runtime_init [115] IDLE 2 = Inr (small_runtime 2)" by (rule small_runtime_init) simp
  have "\<exists>e. fst (runtime_transition [49] SPEAKING None None (small_runtime 2)) = Inl e
      \<and> exn_kind e = InvalidRuntimeTransitionC"
    by (simp add: runtime_transition_def small_runtime_def)
  with transition_outcomes[OF i rtranclp.rtrancl_refl, where now = "[49]"
      and st = SPEAKING and task = None and reason = None]
  show ?thesis
    by (cases "runtime_transition [49] SPEAKING None None (small_runtime 2)") auto
qed

theorem shutdown_ends_streams_witness:
  "let rt = runtime_begin_shutdown (joined 1 (small_runtime 2)) in
     rt_subscribers rt = [] \<and> last (eq_items (rt_queues rt ! 0)) = None"
proof -
  let ?rt = "joined 1 (small_runtime 2)"
  have r: "runtime_step\<^sup>*\<^sup>* (small_runtime 2) ?rt"
    by (intro joined_step rtranclp.rtrancl_refl)
  have i: "runtime_init [115] IDLE 2 = Inr (small_runtime 2)" by (rule small_runtime_init) simp
  have "rt_subscribers ?rt = [0]" by (simp add: runtime_eval)
  with shutdown_ends_streams[OF i r refl] show ?thesis by (simp add: Let_def)
qed

text \<open>
  A transition whose event is refused has still changed the state: the clients are told
  nothing about it. An empty task id does it, or a reason longer than a metadata string.
\<close>

lemma transition_can_go_unannounced:
  "\<exists>e. runtime_transition [49] LISTENING (Some []) None (small_runtime 2)
     = (Inl e, (small_runtime 2)\<lparr>rt_state := LISTENING\<rparr>) \<and> exn_kind e = ValueErrorC"
  by (simp add: runtime_transition_def small_runtime_def runtime_event_create_def
      runtime_event_check_def)

text \<open>
  The end marker of a slow client pushes out its oldest unread event: the client reads a
  later event before the marker, so that resuming after it skips one for good.
\<close>

lemma slow_client_skips_event:
  "eq_items (rt_queues (health (health (health (joined 2 (small_runtime 9))))) ! 0)
     = [Some (health_event 2), None]"
  "events_since 2 1000 (health (health (health (joined 2 (small_runtime 9)))))
     = Inr [health_event 3]"
  by (simp_all add: runtime_eval events_since_def)

text \<open>An event published between the replay and the subscription reaches the client by neither.\<close>

lemma stream_open_can_miss_event:
  "\<exists>rt'. stream_open 0 health (small_runtime 9) = (Inr ([], 0), rt')
     \<and> rt_log rt' = [health_event 1] \<and> eq_joined (as_queue (rt_asyncs rt' ! 0)) = 1"
  by (simp add: stream_open_def events_since_def runtime_subscribe_async_def runtime_eval)

text \<open>What a step never takes back: the log grows, and a subscription keeps its start.\<close>

definition async_joins :: "runtime \<Rightarrow> nat list" where
  "async_joins rt = map (\<lambda>s. eq_joined (as_queue s)) (rt_asyncs rt)"

definition grows :: "runtime \<Rightarrow> runtime \<Rightarrow> bool" where
  "grows rt rt' \<longleftrightarrow> prefix (rt_log rt) (rt_log rt') \<and> prefix (async_joins rt) (async_joins rt')"

lemma grows_refl [simp]: "grows rt rt"
  by (simp add: grows_def)

lemma grows_trans: "grows a b \<Longrightarrow> grows b c \<Longrightarrow> grows a c"
  by (auto simp: grows_def intro: prefix_order.trans)

lemma map_list_update_same:
  assumes "g x = g (xs ! i)" shows "map g (xs[i := x]) = map g xs"
proof (rule nth_equalityI)
  fix j assume "j < length (map g (xs[i := x]))"
  then have j: "j < length xs" by simp
  then have "map g (xs[i := x]) ! j = g (xs[i := x] ! j)" by (subst nth_map) simp_all
  also have "\<dots> = g (xs ! j)" using j assms by (cases "i = j") simp_all
  finally show "map g (xs[i := x]) ! j = map g xs ! j" using j by simp
qed simp

lemma map_update_each: "(\<And>x. g (f x) = g x) \<Longrightarrow> map g (update_each f js xs) = map g xs"
proof (induction js arbitrary: xs)
  case (Cons j js)
  have "map g (xs[j := f (xs ! j)]) = map g xs"
    by (rule map_list_update_same) (rule Cons.prems)
  with Cons show ?case by simp
qed simp

lemma grows_publish:
  assumes "clients_ok rt" shows "grows rt (snd (publish_locked ev rt))"
proof -
  have d: "distinct (rt_subscribers rt)" "distinct (rt_async_subscribers rt)"
    using assms by (simp_all add: clients_ok_def)
  show ?thesis unfolding publish_locked_eq[OF d refl]
    by (simp add: grows_def async_joins_def map_update_each scheduled_def)
qed

lemma grows_same_joins:
  "rt_log rt' = rt_log rt \<Longrightarrow> async_joins rt' = async_joins rt \<Longrightarrow> grows rt rt'"
  by (simp add: grows_def)

lemma queue_terminal_joined: "eq_joined (queue_terminal q) = eq_joined q"
  by simp

lemma grows_callback: "grows rt (run_callback i rt)"
  by (rule grows_same_joins)
     (auto simp: run_callback_def Let_def async_joins_def queue_put_def
       intro!: map_list_update_same split: loop_callback.splits)

lemma grows_shutdown: "grows rt (runtime_begin_shutdown rt)"
  by (rule grows_same_joins)
     (simp_all add: runtime_begin_shutdown_def fold_end_sync fold_end_async async_joins_def
       map_update_each ended_def)

lemma grows_transition:
  assumes "runtime_inv rt"
  shows "grows rt (snd (runtime_transition now st task reason rt))"
proof -
  have "clients_ok (rt\<lparr>rt_state := st\<rparr>)"
    using runtime_inv_state[OF assms] by (simp add: runtime_inv_def)
  note p = grows_publish[OF this]
  have "grows rt (rt\<lparr>rt_state := st\<rparr>)" by (rule grows_same_joins) (simp_all add: async_joins_def)
  with grows_trans[OF this p] show ?thesis
    by (cases rule: runtime_transition_cases[of now st task reason rt]) simp_all
qed

lemma grows_emit:
  assumes "runtime_inv rt"
  shows "grows rt (snd (runtime_emit now ty task st said transient md rt))"
proof -
  have "clients_ok rt" using assms by (simp add: runtime_inv_def)
  from grows_publish[OF this] show ?thesis
    by (auto simp: runtime_emit_def split: sum.splits prod.splits) (metis snd_conv)
qed

lemma runtime_step_grows: "runtime_step rt rt' \<Longrightarrow> runtime_inv rt \<Longrightarrow> grows rt rt'"
proof (induction rule: runtime_step.induct)
  case (subscribe rt m)
  show ?case by (rule grows_same_joins) (simp_all add: runtime_subscribe_def async_joins_def Let_def)
next
  case (subscribe_async rt m)
  show ?case by (simp add: grows_def runtime_subscribe_async_def async_joins_def Let_def)
next
  case (unsubscribe i rt)
  show ?case by (rule grows_same_joins) (simp_all add: runtime_unsubscribe_def async_joins_def)
next
  case (unsubscribe_async i rt)
  show ?case
    by (rule grows_same_joins)
       (auto simp: runtime_unsubscribe_async_def async_joins_def leave_async_def intro!: map_list_update_same)
next
  case (read i rt)
  show ?case by (rule grows_same_joins) (simp_all add: async_joins_def)
next
  case (read_async i rt)
  show ?case
    by (rule grows_same_joins) (auto simp: async_joins_def intro!: map_list_update_same)
next
  case (loop_stops i rt)
  show ?case
    by (rule grows_same_joins) (auto simp: async_joins_def intro!: map_list_update_same)
qed (simp_all add: grows_transition grows_emit grows_callback grows_shutdown)

lemma runtime_steps_grow:
  "runtime_step\<^sup>*\<^sup>* rt rt' \<Longrightarrow> runtime_inv rt \<Longrightarrow> grows rt rt' \<and> runtime_inv rt'"
  by (induction rule: rtranclp_induct) (blast intro: runtime_step_inv runtime_step_grows grows_trans grows_refl)+

text \<open>a client that resumes from its cursor and is not interleaved with a publisher while it
  resumes misses nothing: as long as its cursor is within the history and within one replay,
  the replay it was sent followed by everything its subscription has read, queued or
  scheduled at any later moment while it is still connected is exactly what was published
  after its cursor.\<close>

theorem stream_resumes_gapless:
  assumes "runtime_init session st m = Inr rt0" and "runtime_step\<^sup>*\<^sup>* rt0 rt"
    and "0 \<le> cursor" and "int (length (rt_log rt)) - rt_max_events rt \<le> cursor"
    and "cursor \<le> int (length (rt_log rt))" and "int (length (rt_log rt)) - cursor \<le> 1000"
    and "stream_open cursor (\<lambda>r. r) rt = (Inr (replay, i), rt1)"
    and "runtime_step\<^sup>*\<^sup>* rt1 rt2" and "i \<in> set (rt_async_subscribers rt2)"
  shows "let s = rt_asyncs rt2 ! i in
    map Some replay @ eq_taken (as_queue s) @ eq_items (as_queue s)
      @ map pending_item (as_callbacks s)
    = map Some (drop (nat cursor) (rt_log rt2))"
proof -
  have inv: "runtime_inv rt" by (rule runtime_reachable_inv[OF assms(1,2)])
  then have l: "log_ok rt" by (simp add: runtime_inv_def)
  have rep: "replay = take 1000 (drop (nat cursor) (rt_log rt))"
    and rt1: "rt1 = snd (runtime_subscribe_async 256 rt)" and i: "i = length (rt_asyncs rt)"
    and up: "\<not> rt_shutdown_started rt"
    using assms(7) events_since_log[OF l assms(3) _ _ assms(4), of 1000]
    by (auto simp: stream_open_def runtime_subscribe_async_def Let_def
        split: if_splits prod.splits sum.splits)
  have "grows rt1 rt2" "runtime_inv rt2"
    using runtime_steps_grow[OF assms(8)] runtime_inv_subscribe_async[OF inv] rt1 by simp_all
  then obtain later where log2: "rt_log rt2 = rt_log rt @ later"
    and "prefix (async_joins rt1) (async_joins rt2)"
    using rt1 up by (auto simp: grows_def prefix_def runtime_subscribe_async_def Let_def)
  moreover have "i < length (async_joins rt1)" "async_joins rt1 ! i = length (rt_log rt)"
    using rt1 up i by (auto simp: async_joins_def runtime_subscribe_async_def Let_def new_queue_def
        nth_append)
  ultimately have "i < length (async_joins rt2)" "async_joins rt2 ! i = length (rt_log rt)"
    by (auto simp: prefix_def nth_append)
  then have "i < length (rt_asyncs rt2)"
    and "eq_joined (as_queue (rt_asyncs rt2 ! i)) = length (rt_log rt)"
    by (simp_all add: async_joins_def)
  moreover have "length (drop (nat cursor) (rt_log rt)) \<le> 1000" using assms(3,6) by simp
  moreover have "nat cursor \<le> length (rt_log rt)" using assms(5) by simp
  ultimately show ?thesis
    using \<open>runtime_inv rt2\<close> assms(9) rep log2
    by (auto simp: runtime_inv_def clients_ok_def async_ok_def published_since_def Let_def)
qed

theorem stream_resumes_gapless_witness:
  "\<exists>rt1. stream_open 1 (\<lambda>r. r) (health (health (small_runtime 9))) = (Inr ([health_event 2], 0), rt1)
     \<and> (let s = rt_asyncs (health rt1) ! 0 in
         [Some (health_event 2)] @ eq_taken (as_queue s) @ eq_items (as_queue s)
           @ map pending_item (as_callbacks s)
         = map Some (drop 1 (rt_log (health rt1))))"
proof -
  let ?rt = "health (health (small_runtime 9))"
  have r: "runtime_step\<^sup>*\<^sup>* (small_runtime 9) ?rt"
    by (intro health_step rtranclp.rtrancl_refl)
  have i: "runtime_init [115] IDLE 9 = Inr (small_runtime 9)" by (rule small_runtime_init) simp
  have w: "rt_log ?rt = [health_event 1, health_event 2]" "rt_max_events ?rt = 9"
    by (simp_all add: runtime_eval)
  obtain rt1 where o: "stream_open 1 (\<lambda>r. r) ?rt = (Inr ([health_event 2], 0), rt1)"
      "rt_async_subscribers (health rt1) = [0]"
    by (simp add: stream_open_def events_since_def runtime_subscribe_async_def runtime_eval)
  have s: "runtime_step\<^sup>*\<^sup>* rt1 (health rt1)" by (intro health_step rtranclp.rtrancl_refl)
  from stream_resumes_gapless[OF i r _ _ _ _ o(1) s] w o show ?thesis by simp
qed

end
