(* ===== verification/Wake_Runtime.thy ===== *)
theory Wake_Runtime
  imports Wake
begin

text \<open>
  The resident wake worker: \<open>voice/wake_runtime.py\<close>. Every public method holds the detector's
  lock, so a method is one step over the detector's state; the worker process, the file
  system and the clock are the environment, given as a record per call. Lines of the worker
  arrive whole. A pipe and the reader's own buffer are kept apart, because \<open>select\<close> looks at the
  pipe only. The fields marked as history are not in the code.
\<close>

section \<open>The Python values the protocol uses\<close>

datatype json =
    J_Null | J_Bool bool | J_Int int | J_Float real | J_Str pystr
  | J_List "json list" | J_Dict "(pystr \<times> json) list"

text \<open>
  \<open>json.loads\<close>, \<open>str(v)\<close> and \<open>float(v)\<close> on JSON values; \<open>None\<close> where they raise. What
  follows holds for any such functions.
\<close>

text \<open>The text of an error the worker itself reports is not carried into the exception.\<close>

record python_lib =
  py_json_loads :: "pystr \<Rightarrow> json option"
  py_str :: "json \<Rightarrow> pystr"
  py_float :: "json \<Rightarrow> real option"

definition protocol_prefix :: pystr where
  "protocol_prefix = lit ''FRIDAY_JSON:''"

abbreviation wake_error :: "string \<Rightarrow> exn" where
  "wake_error \<equiv> Exn WakeRuntimeErrorC"

section \<open>State and environment\<close>

record wake_process_config =
  pc_name :: pystr
  pc_python_path :: string
  pc_worker_path :: string
  pc_startup_timeout_seconds :: real
  pc_request_timeout_seconds :: real

definition wake_process_config_check :: "wake_process_config \<Rightarrow> exn + wake_process_config" where
  "wake_process_config_check c =
     (if strip (pc_name c) = [] then Inl (ValueError ''name must not be empty'')
      else if pc_startup_timeout_seconds c \<le> 0 then
        Inl (ValueError ''startup_timeout_seconds must be positive'')
      else if pc_request_timeout_seconds c \<le> 0 then
        Inl (ValueError ''request_timeout_seconds must be positive'')
      else Inr c)"

record worker =
  wk_id :: nat
  wk_has_stdin :: bool
  wk_has_stdout :: bool
  wk_pipe :: "pystr list"
  wk_buffer :: "pystr list"
  wk_requests :: nat \<comment> \<open>history: requests written\<close>
  wk_answers :: nat \<comment> \<open>history: responses accepted\<close>

record persistent =
  pd_config :: wake_process_config
  pd_process :: "worker option"
  pd_model_load_seconds :: "real option"
  pd_spawned :: nat \<comment> \<open>history: processes started\<close>
  pd_children :: "nat set" \<comment> \<open>history: processes not known to have ended\<close>

text \<open>
  One pass of the read loop: whether the process has exited, whether the time is up, the
  lines that have arrived in the pipe by the time of the \<open>select\<close> and whether it is at its end.
  When the passes run out, \<open>select\<close> has waited out the rest of the time.
\<close>

record read_pass =
  rp_exited :: bool
  rp_expired :: bool
  rp_arrived :: "pystr list"
  rp_eof :: bool

text \<open>
  The environment of \<open>start\<close>: the two polls, how often \<open>_terminate_process\<close> would fail to end
  a process, the two files, what \<open>Popen\<close> does, and the passes of the read.
\<close>

record start_env =
  sv_alive :: bool
  sv_terminate_old :: "exn option"
  sv_python_file :: bool
  sv_worker_file :: bool
  sv_popen :: "exn + bool \<times> bool"
  sv_running :: bool
  sv_passes :: "read_pass list"
  sv_terminate :: "exn option"

record detect_env =
  dv_alive :: bool
  dv_start :: start_env
  dv_running :: bool
  dv_directory :: "exn option"
  dv_wav_io :: "exn option"
  dv_write :: "exn option"
  dv_running_read :: bool
  dv_passes :: "read_pass list"
  dv_wall_seconds :: real
  dv_terminate :: "exn option"

section \<open>Processes\<close>

definition persistent_init :: "wake_process_config \<Rightarrow> persistent" where
  "persistent_init c = \<lparr>pd_config = c, pd_process = None, pd_model_load_seconds = None,
     pd_spawned = 0, pd_children = {}\<rparr>"

text \<open>The process has ended and its pipes are closed.\<close>

definition drop_process :: "persistent \<Rightarrow> persistent" where
  "drop_process pd =
     (case pd_process pd of None \<Rightarrow> pd
      | Some w \<Rightarrow> pd\<lparr>pd_process := None, pd_children := pd_children pd - {wk_id w}\<rparr>)"

text \<open>
  \<open>_terminate_process\<close>: \<open>stuck\<close> is what the last \<open>wait\<close> raises when the process survives its
  kill; it leaves the process in place.
\<close>

definition terminate_process :: "exn option \<Rightarrow> (persistent, unit) act" where
  "terminate_process stuck pd =
     (case pd_process pd of None \<Rightarrow> (Inr (), pd)
      | Some w \<Rightarrow> (case stuck of Some e \<Rightarrow> (Inl e, pd) | None \<Rightarrow> (Inr (), drop_process pd)))"

definition require_process :: "bool \<Rightarrow> (persistent, worker) act" where
  "require_process running pd =
     (case pd_process pd of
        None \<Rightarrow> (Inl (wake_error ''wake worker is not running''), pd)
      | Some w \<Rightarrow> if \<not> running then (Inl (wake_error ''wake worker is not running''), pd)
                  else (Inr w, pd))"

definition is_started :: "bool \<Rightarrow> persistent \<Rightarrow> bool" where
  "is_started alive pd \<longleftrightarrow> pd_process pd \<noteq> None \<and> alive"

section \<open>Reading a message\<close>

text \<open>What one line is: noise to skip, or the outcome of the read.\<close>

definition read_line :: "python_lib \<Rightarrow> pystr \<Rightarrow> (exn + (pystr \<times> json) list) option" where
  "read_line lib raw =
     (let line = strip raw
      in if take (length protocol_prefix) line \<noteq> protocol_prefix then None
         else case py_json_loads lib (drop (length protocol_prefix) line) of
           None \<Rightarrow> Some (Inl (wake_error ''wake worker returned invalid JSON''))
         | Some (J_Dict kvs) \<Rightarrow> Some (Inr kvs)
         | Some _ \<Rightarrow> Some (Inl (wake_error ''wake worker JSON must be an object'')))"

text \<open>\<open>readline\<close>: the reader's buffer first, else everything the pipe holds.\<close>

definition read_next :: "worker \<Rightarrow> pystr option \<times> worker" where
  "read_next w =
     (case wk_buffer w of l # ls \<Rightarrow> (Some l, w\<lparr>wk_buffer := ls\<rparr>)
      | [] \<Rightarrow> (case wk_pipe w of [] \<Rightarrow> (None, w)
               | l # ls \<Rightarrow> (Some l, w\<lparr>wk_pipe := [], wk_buffer := ls\<rparr>)))"

fun read_loop ::
    "python_lib \<Rightarrow> read_pass list \<Rightarrow> worker \<Rightarrow> (exn + (pystr \<times> json) list) \<times> worker" where
  "read_loop lib [] w = (Inl (wake_error ''wake worker response timed out''), w)"
| "read_loop lib (p # ps) w =
     (if rp_exited p then (Inl (wake_error ''wake worker exited before response''), w)
      else if rp_expired p then (Inl (wake_error ''wake worker response timed out''), w)
      else
        let w1 = w\<lparr>wk_pipe := wk_pipe w @ rp_arrived p\<rparr>
        in if wk_pipe w1 = [] \<and> \<not> rp_eof p then
             (Inl (wake_error ''wake worker response timed out''), w1)
           else case read_next w1 of
             (None, w2) \<Rightarrow> (Inl (wake_error ''wake worker stdout closed''), w2)
           | (Some line, w2) \<Rightarrow>
               (case read_line lib line of Some res \<Rightarrow> (res, w2) | None \<Rightarrow> read_loop lib ps w2))"

definition read_message ::
    "python_lib \<Rightarrow> bool \<Rightarrow> read_pass list \<Rightarrow> (persistent, (pystr \<times> json) list) act" where
  "read_message lib running passes pd =
     (case require_process running pd of (Inl e, pd') \<Rightarrow> (Inl e, pd')
      | (Inr w, pd') \<Rightarrow>
          if \<not> wk_has_stdout w then
            (Inl (wake_error ''wake worker stdout is unavailable''), pd')
          else case read_loop lib passes w of
            (res, w') \<Rightarrow> (res, pd'\<lparr>pd_process := Some w'\<rparr>))"

section \<open>Starting\<close>

text \<open>\<open>except Exception: self._terminate_process(); raise\<close>\<close>

definition or_terminate :: "exn option \<Rightarrow> (persistent, 'a) act \<Rightarrow> (persistent, 'a) act" where
  "or_terminate stuck m =
     act_catch m (\<lambda>e. act_bind (terminate_process stuck) (\<lambda>_. act_raise e))"

definition set_model_load :: "real \<Rightarrow> persistent \<Rightarrow> persistent" where
  "set_model_load x pd = pd\<lparr>pd_model_load_seconds := Some x\<rparr>"

text \<open>The ready event and its load time; every refusal terminates the worker first.\<close>

definition check_ready ::
    "python_lib \<Rightarrow> exn option \<Rightarrow> (pystr \<times> json) list \<Rightarrow> (persistent, unit) act" where
  "check_ready lib stuck ready =
     (if map_of ready (lit ''event'') \<noteq> Some (J_Str (lit ''ready'')) then
        act_seq (terminate_process stuck) (act_raise (wake_error ''wake worker did not report ready''))
      else case map_of ready (lit ''model_load_seconds'') of
        None \<Rightarrow> act_ok ()
      | Some J_Null \<Rightarrow> act_ok ()
      | Some raw \<Rightarrow>
          (case py_float lib raw of
             None \<Rightarrow> act_seq (terminate_process stuck)
                      (act_raise (wake_error ''invalid worker model load time''))
           | Some x \<Rightarrow>
               if x < 0 then act_seq (terminate_process stuck)
                               (act_raise (wake_error ''negative worker model load time''))
               else act_lift (set_model_load x)))"

definition spawn :: "bool \<times> bool \<Rightarrow> persistent \<Rightarrow> persistent" where
  "spawn pipes pd =
     pd\<lparr>pd_process := Some \<lparr>wk_id = pd_spawned pd, wk_has_stdin = fst pipes,
           wk_has_stdout = snd pipes, wk_pipe = [], wk_buffer = [], wk_requests = 0,
           wk_answers = 0\<rparr>,
        pd_spawned := Suc (pd_spawned pd),
        pd_children := insert (pd_spawned pd) (pd_children pd)\<rparr>"

definition start_worker :: "python_lib \<Rightarrow> start_env \<Rightarrow> (persistent, unit) act" where
  "start_worker lib env pd =
     (if is_started (sv_alive env) pd then (Inr (), pd)
      else act_seq (terminate_process (sv_terminate_old env))
        (if \<not> sv_python_file env then
           act_raise (wake_error (''wake worker Python does not exist: ''
                                   @ pc_python_path (pd_config pd)))
         else if \<not> sv_worker_file env then
           act_raise (wake_error (''wake worker script does not exist: ''
                                   @ pc_worker_path (pd_config pd)))
         else case sv_popen env of Inl e \<Rightarrow> act_raise e
           | Inr pipes \<Rightarrow>
               act_seq (act_lift (spawn pipes))
                 (act_bind (or_terminate (sv_terminate env)
                      (read_message lib (sv_running env) (sv_passes env)))
                    (check_ready lib (sv_terminate env)))) pd)"

section \<open>Detecting\<close>

definition check_wav :: "voice_utterance \<Rightarrow> exn option" where
  "check_wav u =
     (if vu_sample_rate u \<le> 0 then
        Some (wake_error ''utterance sample rate must be positive'')
      else if vu_channels u \<noteq> 1 then Some (wake_error ''wake runtime requires mono PCM'')
      else if vu_sample_width_bytes u \<noteq> 2 then
        Some (wake_error ''wake runtime requires 16-bit PCM'')
      else if vu_pcm u = [] then Some (wake_error ''wake runtime requires non-empty PCM'')
      else None)"

definition write_wav :: "exn option \<Rightarrow> voice_utterance \<Rightarrow> (persistent, unit) act" where
  "write_wav io u =
     (case check_wav u of Some e \<Rightarrow> act_raise e
      | None \<Rightarrow> (case io of Some e \<Rightarrow> act_raise e | None \<Rightarrow> act_ok ()))"

definition count_request :: "persistent \<Rightarrow> persistent" where
  "count_request pd =
     pd\<lparr>pd_process := map_option (\<lambda>w. w\<lparr>wk_requests := Suc (wk_requests w)\<rparr>) (pd_process pd)\<rparr>"

definition count_answer :: "persistent \<Rightarrow> persistent" where
  "count_answer pd =
     pd\<lparr>pd_process := map_option (\<lambda>w. w\<lparr>wk_answers := Suc (wk_answers w)\<rparr>) (pd_process pd)\<rparr>"

text \<open>
  The request on the pipe. Part of it may have been written when the write fails, so it
  counts as written either way.
\<close>

definition write_request :: "exn option \<Rightarrow> (persistent, unit) act" where
  "write_request failure =
     act_seq (act_lift count_request)
       (case failure of None \<Rightarrow> act_ok ()
        | Some e \<Rightarrow> if caught_by [OSErrorC] e
                    then act_raise (wake_error ''wake worker request pipe failed'')
                    else act_raise e)"

definition read_result ::
    "python_lib \<Rightarrow> real \<Rightarrow> (pystr \<times> json) list \<Rightarrow> exn + (pystr \<times> real)" where
  "read_result lib wall_seconds response =
     (let event = map_of response (lit ''event'')
      in if event = Some (J_Str (lit ''error'')) then
           Inl (wake_error ''wake worker error'')
         else if event \<noteq> Some (J_Str (lit ''result'')) then
           Inl (wake_error ''unexpected wake worker event'')
         else
           let transcript = (case map_of response (lit ''text'') of None \<Rightarrow> []
                             | Some v \<Rightarrow> py_str lib v);
               latency = (case map_of response (lit ''latency_seconds'') of
                   None \<Rightarrow> Some wall_seconds
                 | Some J_Null \<Rightarrow> Some wall_seconds
                 | Some raw \<Rightarrow> py_float lib raw)
           in case latency of None \<Rightarrow> Inl (wake_error ''invalid worker latency'')
              | Some x \<Rightarrow> if x < 0 then Inl (wake_error ''negative worker latency'')
                          else Inr (transcript, x))"

definition lift_result :: "exn + 'a \<Rightarrow> ('s, 'a) act" where
  "lift_result r = (case r of Inl e \<Rightarrow> act_raise e | Inr x \<Rightarrow> act_ok x)"

text \<open>The transaction inside the \<open>try\<close>: request, response, validation.\<close>

definition transact :: "python_lib \<Rightarrow> detect_env \<Rightarrow> (persistent, pystr \<times> real) act" where
  "transact lib env =
     act_seq (write_request (dv_write env))
       (act_bind (read_message lib (dv_running_read env) (dv_passes env))
         (\<lambda>response. act_bind (lift_result (read_result lib (dv_wall_seconds env) response))
            (\<lambda>r. act_seq (act_lift count_answer) (act_ok r))))"

definition wake_detect ::
    "python_lib \<Rightarrow> detect_env \<Rightarrow> voice_utterance \<Rightarrow> (persistent, wake_detection) act" where
  "wake_detect lib env u pd0 =
     act_seq (if \<not> is_started (dv_alive env) pd0 then start_worker lib (dv_start env) else act_ok ())
       (act_bind (require_process (dv_running env)) (\<lambda>w.
          if \<not> wk_has_stdin w then
            act_seq (terminate_process (dv_terminate env))
              (act_raise (wake_error ''wake worker stdin is unavailable''))
          else case dv_directory env of Some e \<Rightarrow> act_raise e
          | None \<Rightarrow>
              act_seq (write_wav (dv_wav_io env) u)
                (act_bind (or_terminate (dv_terminate env) (transact lib env))
                   (\<lambda>(transcript, elapsed) pd.
                      (wake_detection_check
                         \<lparr>wd_detector = pc_name (pd_config pd), wd_transcript = transcript,
                          wd_elapsed_seconds = elapsed\<rparr>, pd))))) pd0"

section \<open>Closing\<close>

text \<open>
  \<open>alive\<close> is the poll, \<open>quits\<close> whether the worker ends within the wait after \<open>__QUIT__\<close>; a
  failure to write the request is ignored. \<open>stuck\<close> as above.
\<close>

definition close_worker :: "bool \<Rightarrow> bool \<Rightarrow> exn option \<Rightarrow> (persistent, unit) act" where
  "close_worker alive quits stuck pd =
     (case pd_process pd of None \<Rightarrow> (Inr (), pd)
      | Some w \<Rightarrow>
          if alive \<and> \<not> quits then
            (case terminate_process stuck pd of (Inl e, pd') \<Rightarrow> (Inl e, pd')
             | (Inr _, pd') \<Rightarrow> (Inr (), pd'\<lparr>pd_process := None\<rparr>))
          else (Inr (), drop_process pd))"

section \<open>One process at a time\<close>

definition single_child :: "persistent \<Rightarrow> bool" where
  "single_child pd \<longleftrightarrow>
     (case pd_process pd of None \<Rightarrow> pd_children pd = {} | Some w \<Rightarrow> pd_children pd \<subseteq> {wk_id w})"

text \<open>No request is outstanding: the resident worker has answered everything it was asked.\<close>

definition settled :: "persistent \<Rightarrow> bool" where
  "settled pd \<longleftrightarrow> (\<forall>w. pd_process pd = Some w \<longrightarrow> wk_requests w = wk_answers w)"

lemma single_child_drop [simp]: "single_child pd \<Longrightarrow> single_child (drop_process pd)"
  by (auto simp: single_child_def drop_process_def split: option.splits)

lemma settled_drop [simp]: "settled (drop_process pd)"
  by (auto simp: settled_def drop_process_def split: option.splits)

lemma drop_process_None [simp]: "pd_process (drop_process pd) = None"
  by (simp add: drop_process_def split: option.splits)

lemma drop_process_config [simp]: "pd_config (drop_process pd) = pd_config pd"
  by (simp add: drop_process_def split: option.splits)

lemma terminate_cases:
  obtains "terminate_process stuck pd = (Inr (), drop_process pd)"
  | e where "stuck = Some e" "terminate_process stuck pd = (Inl e, pd)"
  by (cases "pd_process pd"; cases stuck) (auto simp: terminate_process_def drop_process_def)

lemma keeps_terminateI:
  assumes "\<And>pd. P pd \<Longrightarrow> P (drop_process pd)" shows "keeps P (terminate_process stuck)"
proof (rule keepsI)
  fix pd assume "P pd"
  with assms show "P (snd (terminate_process stuck pd))"
    by (cases rule: terminate_cases[of stuck pd]) simp_all
qed

lemma keeps_terminate [keeps_intros]:
  "keeps single_child (terminate_process stuck)" "keeps settled (terminate_process stuck)"
  "keeps (\<lambda>pd. pd_config pd = c) (terminate_process stuck)"
  by (rule keeps_terminateI; simp)+

lemma keeps_require [keeps_intros]: "keeps P (require_process r)"
  by (simp add: keeps_def require_process_def split: option.splits)

lemma keeps_lift_result [keeps_intros]: "keeps P (lift_result r)"
  by (simp add: keeps_def lift_result_def act_simps split: sum.splits)

lemma read_next_frame:
  "read_next w = (l, w') \<Longrightarrow> wk_id w' = wk_id w \<and> wk_requests w' = wk_requests w
     \<and> wk_answers w' = wk_answers w \<and> wk_has_stdin w' = wk_has_stdin w"
  by (auto simp: read_next_def split: list.splits)

lemma read_loop_frame:
  "read_loop lib ps w = (r, w') \<Longrightarrow> wk_id w' = wk_id w \<and> wk_requests w' = wk_requests w
     \<and> wk_answers w' = wk_answers w"
proof (induction ps arbitrary: w)
  case (Cons p ps)
  let ?w = "w\<lparr>wk_pipe := wk_pipe w @ rp_arrived p\<rparr>"
  obtain l w2 where n: "read_next ?w = (l, w2)" by fastforce
  from read_next_frame[OF n] Cons.IH[of w2] Cons.prems n show ?case
    by (auto simp: Let_def split: if_splits option.splits)
qed simp

lemma keeps_read_message [keeps_intros]:
  assumes "\<And>pd w w'. P pd \<Longrightarrow> pd_process pd = Some w \<Longrightarrow> wk_id w' = wk_id w \<Longrightarrow>
      wk_requests w' = wk_requests w \<Longrightarrow> wk_answers w' = wk_answers w \<Longrightarrow>
      P (pd\<lparr>pd_process := Some w'\<rparr>)"
  shows "keeps P (read_message lib r ps)"
proof (rule keepsI)
  fix pd assume "P pd"
  moreover obtain x pd' where q: "require_process r pd = (x, pd')" by fastforce
  then have "pd' = pd" "\<And>w. x = Inr w \<Longrightarrow> pd_process pd = Some w"
    by (auto simp: require_process_def split: option.splits if_splits)
  ultimately show "P (snd (read_message lib r ps pd))"
    using q by (auto simp: read_message_def assms dest!: read_loop_frame
        split: sum.splits prod.splits)
qed

lemma keeps_read_inv [keeps_intros]:
  "keeps single_child (read_message lib r ps)" "keeps settled (read_message lib r ps)"
  "keeps (\<lambda>pd. pd_config pd = c) (read_message lib r ps)"
  by (rule keeps_read_message; auto simp: single_child_def settled_def)+

lemma keeps_or_terminate [keeps_intros]:
  "keeps P (terminate_process stuck) \<Longrightarrow> keeps P m \<Longrightarrow> keeps P (or_terminate stuck m)"
  unfolding or_terminate_def by (intro keeps_catch keeps_bind keeps_raise)

lemma keeps_check_ready [keeps_intros]:
  assumes "keeps P (terminate_process stuck)" and "\<And>x. keeps P (act_lift (set_model_load x))"
  shows "keeps P (check_ready lib stuck ready)"
  using assms unfolding check_ready_def
  by (auto intro!: keeps_intros split: option.splits json.splits)

lemma keeps_set_model_load [keeps_intros]:
  "keeps single_child (act_lift (set_model_load x))" "keeps settled (act_lift (set_model_load x))"
  "keeps (\<lambda>pd. pd_config pd = c) (act_lift (set_model_load x))"
  by (simp_all add: keeps_def act_lift_def set_model_load_def single_child_def settled_def
      split: option.splits)

text \<open>A start spawns only after the old process is gone.\<close>

lemma start_worker_keeps:
  assumes t: "\<And>stuck. keeps P (terminate_process stuck)"
    and s: "\<And>pd pipes. P pd \<Longrightarrow> pd_process pd = None \<Longrightarrow> P (spawn pipes pd)"
    and r: "\<And>r ps. keeps P (read_message lib r ps)"
    and l: "\<And>x. keeps P (act_lift (set_model_load x))"
  shows "keeps P (start_worker lib env)"
proof (rule keepsI)
  fix pd assume P: "P pd"
  let ?rest = "\<lambda>pipes. act_bind (or_terminate (sv_terminate env)
      (read_message lib (sv_running env) (sv_passes env))) (check_ready lib (sv_terminate env))"
  have rest: "keeps P (?rest pipes)" for pipes
    by (intro keeps_bind keeps_or_terminate keeps_check_ready t r l)
  show "P (snd (start_worker lib env pd))"
  proof (rule terminate_cases[of "sv_terminate_old env" pd])
    assume ok: "terminate_process (sv_terminate_old env) pd = (Inr (), drop_process pd)"
    have "P (drop_process pd)" using keepsD[OF t P, of "sv_terminate_old env"] ok by simp
    then have "P (spawn pipes (drop_process pd))" for pipes by (rule s) simp
    from keepsD[OF rest this] \<open>P (drop_process pd)\<close> P ok show ?thesis
      by (auto simp: start_worker_def act_bind_def act_raise_def act_lift_def
          split: sum.splits)
  next
    fix e assume "terminate_process (sv_terminate_old env) pd = (Inl e, pd)"
    with P show ?thesis by (simp add: start_worker_def act_bind_def)
  qed
qed

lemma keeps_start [keeps_intros]:
  "keeps single_child (start_worker lib env)" "keeps settled (start_worker lib env)"
  "keeps (\<lambda>pd. pd_config pd = c) (start_worker lib env)"
  by (rule start_worker_keeps; (rule keeps_intros)?; simp add: spawn_def single_child_def settled_def)+

section \<open>A failed transaction leaves no worker\<close>

lemma or_terminate_None:
  "fst (or_terminate None m pd) = Inl e \<Longrightarrow> pd_process (snd (or_terminate None m pd)) = None"
  by (cases "m pd"; cases "fst (m pd)")
     (auto simp: or_terminate_def act_simps terminate_process_def split: option.splits)

lemma or_terminate_Inr: "or_terminate stuck m pd = (Inr x, pd') \<Longrightarrow> m pd = (Inr x, pd')"
  by (cases "m pd"; cases "fst (m pd)"; cases rule: terminate_cases[of stuck "snd (m pd)"])
     (auto simp: or_terminate_def act_simps)

lemma act_bind_InrE:
  assumes "act_bind m f s = (Inr y, s')"
  obtains x s1 where "m s = (Inr x, s1)" "f x s1 = (Inr y, s')"
  using assms by (auto simp: act_bind_def split: prod.splits sum.splits)

lemma read_message_InrE:
  assumes "read_message lib r ps pd = (Inr x, pd')"
  obtains w w' where "pd_process pd = Some w" "pd' = pd\<lparr>pd_process := Some w'\<rparr>"
    "wk_id w' = wk_id w" "wk_requests w' = wk_requests w" "wk_answers w' = wk_answers w"
proof -
  obtain q pd1 where q: "require_process r pd = (q, pd1)" by fastforce
  then have "pd1 = pd" "\<And>w. q = Inr w \<Longrightarrow> pd_process pd = Some w"
    by (auto simp: require_process_def split: option.splits if_splits)
  with q assms that show thesis
    by (auto simp: read_message_def split: sum.splits prod.splits if_splits dest!: read_loop_frame)
qed

lemma read_result_range: "read_result lib wall r = Inr (t, x) \<Longrightarrow> 0 \<le> x"
  by (auto simp: read_result_def Let_def split: if_splits option.splits)

lemma write_request_Inr:
  "write_request failure pd = (Inr x, pd') \<Longrightarrow> pd' = count_request pd"
  by (auto simp: write_request_def act_simps split: option.splits if_splits)

text \<open>An accepted transaction is one more request and one more answer of the same worker.\<close>

lemma transact_InrE:
  assumes "transact lib env pd = (Inr (t, x), pd')"
  obtains w w' where "pd_process pd = Some w" "pd' = pd\<lparr>pd_process := Some w'\<rparr>"
    "wk_id w' = wk_id w" "wk_requests w' = Suc (wk_requests w)"
    "wk_answers w' = Suc (wk_answers w)" "0 \<le> x"
proof -
  from assms obtain response pd1 pd2 where a: "write_request (dv_write env) pd = (Inr (), pd1)"
    and b: "read_message lib (dv_running_read env) (dv_passes env) pd1 = (Inr response, pd2)"
    and c: "lift_result (read_result lib (dv_wall_seconds env) response) pd2 = (Inr (t, x), pd2)"
    and d: "pd' = count_answer pd2"
    by (auto simp: transact_def act_simps lift_result_def elim!: act_bind_InrE
        split: prod.splits sum.splits)
  have "0 \<le> x" using c by (auto simp: lift_result_def act_simps split: sum.splits intro: read_result_range)
  moreover obtain w w' where "pd_process pd1 = Some w" "pd2 = pd1\<lparr>pd_process := Some w'\<rparr>"
    "wk_id w' = wk_id w" "wk_requests w' = wk_requests w" "wk_answers w' = wk_answers w"
    by (rule read_message_InrE[OF b])
  moreover have "pd1 = count_request pd" by (rule write_request_Inr[OF a])
  ultimately show thesis
    using d that by (auto simp: count_request_def count_answer_def)
qed

lemma transact_settled:
  assumes "settled pd" shows "settled (snd (or_terminate None (transact lib env) pd))"
proof (cases "or_terminate None (transact lib env) pd")
  case (Pair r pd')
  show ?thesis
  proof (cases r)
    case (Inl e)
    with Pair or_terminate_None[of "transact lib env" pd e] show ?thesis by (simp add: settled_def)
  next
    case (Inr tx)
    obtain t x where "tx = (t, x)" by fastforce
    with Inr Pair have "transact lib env pd = (Inr (t, x), pd')" by (auto dest: or_terminate_Inr)
    then show ?thesis
      by (rule transact_InrE) (use assms Pair in \<open>auto simp: settled_def\<close>)
  qed
qed

lemma keeps_write_wav [keeps_intros]: "keeps P (write_wav io u)"
  unfolding write_wav_def by (auto intro: keeps_intros split: option.splits)

lemma keeps_transact:
  assumes "\<And>r ps. keeps P (read_message lib r ps)"
    and "\<And>pd. P pd \<Longrightarrow> P (count_request pd)" and "\<And>pd. P pd \<Longrightarrow> P (count_answer pd)"
  shows "keeps P (transact lib env)"
proof -
  have "keeps P (act_lift count_request)" "keeps P (act_lift count_answer)"
    using assms(2,3) by (simp_all add: keeps_def act_lift_def)
  moreover from this have "keeps P (write_request (dv_write env))"
    unfolding write_request_def by (auto intro!: keeps_intros split: option.splits)
  ultimately show ?thesis unfolding transact_def by (intro keeps_intros assms(1))
qed

lemma wake_detect_keeps:
  assumes t: "keeps P (terminate_process (dv_terminate env))"
    and s: "keeps P (start_worker lib (dv_start env))"
    and m: "keeps P (or_terminate (dv_terminate env) (transact lib env))"
  shows "keeps P (wake_detect lib env u)"
proof (rule keepsI)
  fix pd assume P: "P pd"
  have last: "keeps P (\<lambda>pd. (wake_detection_check (f r pd), pd))" for f :: "pystr \<times> real \<Rightarrow> persistent \<Rightarrow> wake_detection" and r
    by (simp add: keeps_def)
  have "keeps P (act_seq (if \<not> is_started (dv_alive env) pd then start_worker lib (dv_start env)
       else act_ok ())
       (act_bind (require_process (dv_running env)) (\<lambda>w.
          if \<not> wk_has_stdin w then
            act_seq (terminate_process (dv_terminate env))
              (act_raise (wake_error ''wake worker stdin is unavailable''))
          else case dv_directory env of Some e \<Rightarrow> act_raise e
          | None \<Rightarrow>
              act_seq (write_wav (dv_wav_io env) u)
                (act_bind (or_terminate (dv_terminate env) (transact lib env))
                   (\<lambda>(transcript, elapsed) pd.
                      (wake_detection_check
                         \<lparr>wd_detector = pc_name (pd_config pd), wd_transcript = transcript,
                          wd_elapsed_seconds = elapsed\<rparr>, pd))))))"
    using s t m by (cases "dv_directory env")
      (auto intro!: keeps_intros simp: keeps_def[of P "\<lambda>pd. (_ pd, pd)"])
  from keepsD[OF this P] show "P (snd (wake_detect lib env u pd))" by (simp only: wake_detect_def)
qed

lemma keeps_detect:
  "keeps single_child (wake_detect lib env u)"
  "keeps (\<lambda>pd. pd_config pd = c) (wake_detect lib env u)"
  "dv_terminate env = None \<Longrightarrow> keeps settled (wake_detect lib env u)"
proof -
  show "keeps single_child (wake_detect lib env u)"
    by (rule wake_detect_keeps)
       (auto intro!: keeps_intros keeps_transact
         simp: single_child_def count_request_def count_answer_def split: option.splits)
  show "keeps (\<lambda>pd. pd_config pd = c) (wake_detect lib env u)"
    by (rule wake_detect_keeps)
       (auto intro!: keeps_intros keeps_transact simp: count_request_def count_answer_def)
  assume "dv_terminate env = None"
  then show "keeps settled (wake_detect lib env u)"
    by (intro wake_detect_keeps[OF keeps_terminate(2) keeps_start(2)])
       (simp add: keeps_def transact_settled)
qed

lemma keeps_close:
  "keeps single_child (close_worker alive quits stuck)" "keeps settled (close_worker alive quits stuck)"
  "keeps (\<lambda>pd. pd_config pd = c) (close_worker alive quits stuck)"
proof -
  have *: "close_worker alive quits stuck pd \<in>
      {(Inr (), pd), (Inr (), drop_process pd)} \<union> (\<lambda>e. (Inl e, pd)) ` UNIV"
    if "pd_process pd = Some w" for w and pd
    using that
    by (cases rule: terminate_cases[of stuck pd])
       (auto simp: close_worker_def drop_process_def)
  show "keeps single_child (close_worker alive quits stuck)"
    "keeps settled (close_worker alive quits stuck)"
    "keeps (\<lambda>pd. pd_config pd = c) (close_worker alive quits stuck)"
    by (rule keepsI; rename_tac pd; case_tac "pd_process pd"; use * in \<open>fastforce simp: close_worker_def\<close>)+
qed

datatype worker_call =
    Start_Call start_env
  | Detect_Call detect_env voice_utterance
  | Close_Call bool bool "exn option"

fun worker_do :: "python_lib \<Rightarrow> worker_call \<Rightarrow> persistent \<Rightarrow> persistent" where
  "worker_do lib (Start_Call env) pd = snd (start_worker lib env pd)"
| "worker_do lib (Detect_Call env u) pd = snd (wake_detect lib env u pd)"
| "worker_do lib (Close_Call alive quits stuck) pd = snd (close_worker alive quits stuck pd)"

definition worker_run :: "python_lib \<Rightarrow> worker_call list \<Rightarrow> persistent \<Rightarrow> persistent" where
  "worker_run lib calls pd = fold (worker_do lib) calls pd"

lemma worker_do_single: "single_child pd \<Longrightarrow> single_child (worker_do lib call pd)"
  by (cases call) (simp_all add: keepsD[OF keeps_detect(1)] keepsD[OF keeps_start(1)]
      keepsD[OF keeps_close(1)])

lemma worker_do_settled:
  "settled pd \<Longrightarrow> (\<forall>env u. call = Detect_Call env u \<longrightarrow> dv_terminate env = None) \<Longrightarrow>
     settled (worker_do lib call pd)"
  by (cases call) (simp_all add: keepsD[OF keeps_detect(3)] keepsD[OF keeps_start(2)]
      keepsD[OF keeps_close(2)])


definition wav_ok :: "voice_utterance \<Rightarrow> bool" where
  "wav_ok u \<longleftrightarrow> 0 < vu_sample_rate u \<and> vu_channels u = 1 \<and> vu_sample_width_bytes u = 2 \<and> vu_pcm u \<noteq> []"

lemma check_wav_iff: "check_wav u = None \<longleftrightarrow> wav_ok u"
  by (auto simp: check_wav_def wav_ok_def)

lemma wake_detect_InrE:
  assumes "wake_detect lib env u pd = (Inr d, pd')"
  obtains pd1 t x where "or_terminate (dv_terminate env) (transact lib env) pd1 = (Inr (t, x), pd')"
    "wake_detection_check \<lparr>wd_detector = pc_name (pd_config pd'), wd_transcript = t,
       wd_elapsed_seconds = x\<rparr> = Inr d" "check_wav u = None"
  using assms
  by (auto simp: wake_detect_def write_wav_def act_ok_def act_raise_def elim!: act_bind_InrE
      split: if_splits option.splits prod.splits)

lemma wake_detect_result:
  assumes "wake_detect lib env u pd = (Inr d, pd')"
  shows "wd_detector d = pc_name (pd_config pd) \<and> 0 \<le> wd_elapsed_seconds d \<and> wav_ok u
    \<and> (\<exists>w. pd_process pd' = Some w \<and> 0 < wk_requests w)"
proof -
  obtain pd1 t x where a: "or_terminate (dv_terminate env) (transact lib env) pd1 = (Inr (t, x), pd')"
    and b: "wake_detection_check \<lparr>wd_detector = pc_name (pd_config pd'), wd_transcript = t,
       wd_elapsed_seconds = x\<rparr> = Inr d" and u: "check_wav u = None"
    by (rule wake_detect_InrE[OF assms])
  have "pd_config pd' = pd_config pd"
    using keepsD[OF keeps_detect(2)[where c = "pd_config pd"], of pd lib env u] assms by simp
  moreover have "\<exists>w. pd_process pd' = Some w \<and> 0 < wk_requests w"
    by (rule transact_InrE[OF or_terminate_Inr[OF a]]) auto
  ultimately show ?thesis
    using b u by (auto simp: wake_detection_check_def check_wav_iff split: if_splits)
qed

text \<open>what a detection gives: a result carries the detector's own name and a non-negative
  time, was answered to a request for a well-formed mono 16-bit utterance, and leaves the
  worker resident; a malformed utterance is refused before the worker is touched; and a
  failure once the request may have been written leaves no worker to talk to.\<close>

theorem detection_outcomes:
  assumes "wake_detect lib env u pd = (res, pd')"
  shows "(\<forall>d. res = Inr d \<longrightarrow> wd_detector d = pc_name (pd_config pd) \<and> 0 \<le> wd_elapsed_seconds d
        \<and> wav_ok u \<and> pd_process pd' \<noteq> None)
    \<and> (\<forall>w. pd_process pd = Some w \<and> wk_has_stdin w \<and> dv_alive env \<and> dv_running env
        \<and> dv_directory env = None \<and> \<not> wav_ok u \<longrightarrow>
          pd' = pd \<and> (\<exists>m. res = Inl (Exn WakeRuntimeErrorC m)))
    \<and> (\<forall>w e. pd_process pd = Some w \<and> wk_has_stdin w \<and> dv_alive env \<and> dv_running env
        \<and> dv_directory env = None \<and> wav_ok u \<and> dv_wav_io env = None
        \<and> fst (transact lib env pd) = Inl e \<and> dv_terminate env = None \<longrightarrow>
          res = Inl e \<and> pd_process pd' = None)"
proof (intro conjI allI impI)
  fix d assume "res = Inr d"
  with assms wake_detect_result[of lib env u pd d pd']
  show "wd_detector d = pc_name (pd_config pd)" "0 \<le> wd_elapsed_seconds d" "wav_ok u"
    "pd_process pd' \<noteq> None" by auto
next
  fix w assume "pd_process pd = Some w \<and> wk_has_stdin w \<and> dv_alive env \<and> dv_running env
        \<and> dv_directory env = None \<and> \<not> wav_ok u"
  then have h: "pd_process pd = Some w" "wk_has_stdin w" "dv_alive env" "dv_running env"
    "dv_directory env = None" "check_wav u \<noteq> None" by (simp_all add: check_wav_iff)
  then obtain e where e: "check_wav u = Some e" by auto
  then have "exn_kind e = WakeRuntimeErrorC" by (auto simp: check_wav_def split: if_splits)
  moreover have "wake_detect lib env u pd = (Inl e, pd)"
    using h e by (simp add: wake_detect_def is_started_def require_process_def write_wav_def act_simps)
  ultimately show "pd' = pd" "\<exists>m. res = Inl (Exn WakeRuntimeErrorC m)"
    using assms by (auto intro: exI[of _ "exn_msg e"] simp: exn.expand)
next
  fix w e assume "pd_process pd = Some w \<and> wk_has_stdin w \<and> dv_alive env \<and> dv_running env
        \<and> dv_directory env = None \<and> wav_ok u \<and> dv_wav_io env = None
        \<and> fst (transact lib env pd) = Inl e \<and> dv_terminate env = None"
  then have h: "pd_process pd = Some w" "wk_has_stdin w" "dv_alive env" "dv_running env"
    "dv_directory env = None" "check_wav u = None" "dv_wav_io env = None"
    and t: "fst (transact lib env pd) = Inl e" "dv_terminate env = None"
    by (simp_all add: check_wav_iff)
  have o: "fst (or_terminate None (transact lib env) pd) = Inl e"
    using t by (cases "transact lib env pd")
      (auto simp: or_terminate_def act_simps terminate_process_def split: option.splits)
  have "wake_detect lib env u pd = (case or_terminate None (transact lib env) pd of
      (Inl e, pd') \<Rightarrow> (Inl e, pd')
    | (Inr (t, x), pd') \<Rightarrow> (wake_detection_check \<lparr>wd_detector = pc_name (pd_config pd'),
         wd_transcript = t, wd_elapsed_seconds = x\<rparr>, pd'))"
    using h t(2) by (simp add: wake_detect_def is_started_def require_process_def write_wav_def
        act_ok_def act_bind_def split: sum.splits prod.splits)
  with o or_terminate_None[OF o] assms show "res = Inl e" "pd_process pd' = None"
    by (auto split: prod.splits sum.splits)
qed

section \<open>A concrete worker\<close>

definition tiny_lib :: python_lib where
  "tiny_lib = \<lparr>
     py_json_loads = (\<lambda>s. if s = [49] then Some (J_Dict [(lit ''event'', J_Str (lit ''ready''))])
       else if s = [50] then Some (J_Dict [(lit ''event'', J_Str (lit ''result'')),
                                            (lit ''text'', J_Str (lit ''hey friday''))])
       else None),
     py_str = (\<lambda>v. case v of J_Str s \<Rightarrow> s | _ \<Rightarrow> []),
     py_float = (\<lambda>v. case v of J_Float x \<Rightarrow> Some x | _ \<Rightarrow> None)\<rparr>"

lemma tiny_lines:
  "read_line tiny_lib (protocol_prefix @ [49]) =
     Some (Inr [(lit ''event'', J_Str (lit ''ready''))])"
  "read_line tiny_lib (protocol_prefix @ [50]) =
     Some (Inr [(lit ''event'', J_Str (lit ''result'')), (lit ''text'', J_Str (lit ''hey friday''))])"
  "read_line tiny_lib [42] = None"
  by (simp_all add: read_line_def tiny_lib_def protocol_prefix_def lit_def strip_def lstrip_def
      rstrip_def py_isspace_def Let_def)

lemma tiny_str: "py_str tiny_lib (J_Str s) = s"
  by (simp add: tiny_lib_def)

definition arrives :: "pystr list \<Rightarrow> read_pass" where
  "arrives ls = \<lparr>rp_exited = False, rp_expired = False, rp_arrived = ls, rp_eof = False\<rparr>"

definition good_start :: start_env where
  "good_start = \<lparr>sv_alive = False, sv_terminate_old = None, sv_python_file = True,
     sv_worker_file = True, sv_popen = Inr (True, True), sv_running = True,
     sv_passes = [arrives [protocol_prefix @ [49]]], sv_terminate = None\<rparr>"

definition detect_with :: "read_pass list \<Rightarrow> detect_env" where
  "detect_with ps = \<lparr>dv_alive = True, dv_start = good_start, dv_running = True,
     dv_directory = None, dv_wav_io = None, dv_write = None, dv_running_read = True,
     dv_passes = ps, dv_wall_seconds = 1, dv_terminate = None\<rparr>"

definition wake_audio :: voice_utterance where
  "wake_audio = any_utterance\<lparr>vu_pcm := [1, 2], vu_sample_rate := 16000, vu_channels := 1,
     vu_sample_width_bytes := 2\<rparr>"

definition tiny_config :: wake_process_config where
  "tiny_config = \<lparr>pc_name = [112], pc_python_path = ''python'', pc_worker_path = ''worker'',
     pc_startup_timeout_seconds = 15, pc_request_timeout_seconds = 10\<rparr>"

definition ready_worker :: "nat \<Rightarrow> worker" where
  "ready_worker n = \<lparr>wk_id = 0, wk_has_stdin = True, wk_has_stdout = True, wk_pipe = [],
     wk_buffer = [], wk_requests = n, wk_answers = n\<rparr>"

definition ready_state :: "nat \<Rightarrow> persistent" where
  "ready_state n = \<lparr>pd_config = tiny_config, pd_process = Some (ready_worker n),
     pd_model_load_seconds = None, pd_spawned = 1, pd_children = {0}\<rparr>"

lemmas worker_eval = start_worker_def is_started_def terminate_process_def act_simps
  spawn_def or_terminate_def read_message_def require_process_def read_next_def check_ready_def
  tiny_lines arrives_def

lemma ready_literals: "lit ''event'' \<noteq> lit ''text''" "lit ''event'' \<noteq> lit ''latency_seconds''"
  "lit ''event'' \<noteq> lit ''model_load_seconds''" "lit ''text'' \<noteq> lit ''latency_seconds''"
  "lit ''result'' \<noteq> lit ''error''" "lit ''ready'' \<noteq> lit ''result''"
  by (simp_all add: lit_def)

lemma tiny_start:
  "snd (start_worker tiny_lib good_start (persistent_init tiny_config)) = ready_state 0"
  using ready_literals
  by (simp add: worker_eval good_start_def persistent_init_def ready_state_def ready_worker_def)

lemma wake_audio_ok: "wav_ok wake_audio"
  by (simp add: wav_ok_def wake_audio_def)

lemma tiny_detect:
  "wake_detect tiny_lib (detect_with [arrives [[42], protocol_prefix @ [50]], arrives [[42]]])
     wake_audio (ready_state n)
   = (Inr \<lparr>wd_detector = [112], wd_transcript = lit ''hey friday'', wd_elapsed_seconds = 1\<rparr>,
      (ready_state n)\<lparr>pd_process := Some ((ready_worker (Suc n))\<lparr>wk_pipe := [[42]]\<rparr>)\<rparr>)"
proof -
  have w: "check_wav wake_audio = None" using wake_audio_ok by (simp add: check_wav_iff)
  have "strip [112] = [112]" by (rule strip_id) (simp add: py_isspace_def)
  with w ready_literals show ?thesis
    by (simp add: wake_detect_def worker_eval detect_with_def ready_state_def ready_worker_def
        write_wav_def transact_def write_request_def lift_result_def read_result_def Let_def
        count_request_def count_answer_def wake_detection_check_def tiny_config_def tiny_str)
qed


theorem detection_outcomes_witness:
  "\<exists>d pd'. wake_detect tiny_lib (detect_with [arrives [[42], protocol_prefix @ [50]], arrives [[42]]])
       wake_audio (ready_state 0) = (Inr d, pd')
     \<and> wd_detector d = [112] \<and> 0 \<le> wd_elapsed_seconds d \<and> pd_process pd' \<noteq> None"
proof -
  have "pc_name (pd_config (ready_state 0)) = [112]" by (simp add: ready_state_def tiny_config_def)
  with detection_outcomes[OF tiny_detect[of 0]] tiny_detect[of 0] show ?thesis by auto
qed

section \<open>The supervisor over resident workers\<close>

text \<open>
  What the supervisor needs of its detectors: they keep the state sound and sign their
  results with their own names.
\<close>

locale wake_cascade =
  fixes primary fallback :: "'w wake_detector" and pname fname :: pystr and sound :: "'w \<Rightarrow> bool"
  assumes primary_sound: "sound w \<Longrightarrow> sound (snd (primary u w))"
    and fallback_sound: "sound w \<Longrightarrow> sound (snd (fallback u w))"
    and primary_named: "sound w \<Longrightarrow> primary u w = (Inr d, w') \<Longrightarrow> wd_detector d = pname"
    and fallback_named: "sound w \<Longrightarrow> fallback u w = (Inr d, w') \<Longrightarrow> wd_detector d = fname"
begin

lemma supervised_sound:
  assumes "ws_primary ws = primary" and "ws_fallback ws = Some fallback" and "sound w"
  shows "sound (snd (supervisor_detect db ws u w))"
proof -
  obtain r1 w1 where p: "primary u w = (r1, w1)" by fastforce
  obtain r2 w2 where f: "fallback u w1 = (r2, w2)" by fastforce
  have "sound w1" using primary_sound[OF assms(3), of u] p by simp
  moreover from this have "sound w2" using fallback_sound[of w1 u] f by simp
  ultimately show ?thesis
    using assms p f
    by (cases r1; cases r2) (auto simp: supervisor_detect_def split: sum.splits)
qed

lemma supervised_source:
  assumes "ws_primary ws = primary" and "ws_fallback ws = Some fallback" and "sound w"
    and "supervisor_detect db ws u w = (Inr r, w')"
  shows "wr_source r = None \<or> wr_source r = Some pname \<and> wr_fallback r = None
    \<or> wr_source r = Some fname \<and> wr_fallback r \<noteq> None"
proof (cases "ws_enabled ws")
  case False
  with assms(4) show ?thesis by (auto simp: supervisor_detect_def)
next
  case True
  obtain r1 w1 where p: "primary u w = (r1, w1)" by fastforce
  obtain r2 w2 where f: "fallback u w1 = (r2, w2)" by fastforce
  have w1: "sound w1" using primary_sound[OF assms(3), of u] p by simp
  from assms(4) True p obtain d1 where r1: "r1 = Inr d1"
    by (cases r1) (simp_all add: supervisor_detect_def assms(1,2))
  have n1: "wd_detector d1 = pname" using primary_named[OF assms(3), of u d1 w1] p r1 by simp
  obtain m where m: "match_wake_phrase db (wd_transcript d1) (ws_phrase ws) = Inr m"
    using assms(4) True p r1
    by (cases "match_wake_phrase db (wd_transcript d1) (ws_phrase ws)")
       (simp_all add: supervisor_detect_def assms(1,2))
  show ?thesis
  proof (cases "wm_matched m")
    case True
    with assms(4) \<open>ws_enabled ws\<close> p r1 m n1 show ?thesis
      by (simp add: supervisor_detect_def assms(1,2)) (auto simp: n1)
  next
    case False
    from assms(4) \<open>ws_enabled ws\<close> p r1 m False f obtain d2 where r2: "r2 = Inr d2"
      by (cases r2) (simp_all add: supervisor_detect_def assms(1,2))
    have n2: "wd_detector d2 = fname" using fallback_named[OF w1, of u d2 w2] f r2 by simp
    from assms(4) \<open>ws_enabled ws\<close> p r1 m False f r2 n2 show ?thesis
      by (cases "match_wake_phrase db (wd_transcript d2) (ws_phrase ws)")
         (auto simp: supervisor_detect_def assms(1,2) split: if_splits)
  qed
qed

end

text \<open>A resident worker with the environments of its coming detections, and two of them.\<close>

definition resident_detect ::
    "python_lib \<Rightarrow> (persistent \<times> (nat \<Rightarrow> detect_env)) wake_detector" where
  "resident_detect lib u s =
     (case wake_detect lib (snd s 0) u (fst s) of (r, pd) \<Rightarrow> (r, (pd, \<lambda>n. snd s (Suc n))))"

definition on_first :: "'a wake_detector \<Rightarrow> ('a \<times> 'b) wake_detector" where
  "on_first m u s = (case m u (fst s) of (r, a) \<Rightarrow> (r, (a, snd s)))"

definition on_second :: "'b wake_detector \<Rightarrow> ('a \<times> 'b) wake_detector" where
  "on_second m u s = (case m u (snd s) of (r, b) \<Rightarrow> (r, (fst s, b)))"

lemma on_component [simp]:
  "fst (on_first m u s) = fst (m u (fst s))" "snd (on_first m u s) = (snd (m u (fst s)), snd s)"
  "fst (on_second n u s) = fst (n u (snd s))" "snd (on_second n u s) = (fst s, snd (n u (snd s)))"
  by (simp_all add: on_first_def on_second_def split_beta)

definition resident_sound :: "pystr \<Rightarrow> persistent \<times> (nat \<Rightarrow> detect_env) \<Rightarrow> bool" where
  "resident_sound name s \<longleftrightarrow> single_child (fst s) \<and> settled (fst s)
     \<and> pc_name (pd_config (fst s)) = name \<and> (\<forall>n. dv_terminate (snd s n) = None)"

lemma resident_detect_sound:
  assumes "resident_sound name s" shows "resident_sound name (snd (resident_detect lib u s))"
proof -
  have "keeps (\<lambda>pd. single_child pd \<and> settled pd \<and> pd_config pd = pd_config (fst s))
      (wake_detect lib (snd s 0) u)"
    using keeps_detect(1)[of lib "snd s 0" u]
      keeps_detect(2)[where c = "pd_config (fst s)" and lib = lib and env = "snd s 0" and u = u]
      keeps_detect(3)[where env = "snd s 0" and lib = lib and u = u] assms
    by (auto simp: keeps_def resident_sound_def)
  from keepsD[OF this, of "fst s"] assms show ?thesis
    by (auto simp: resident_sound_def resident_detect_def split: prod.splits)
qed

lemma resident_detect_named:
  "resident_sound name s \<Longrightarrow> resident_detect lib u s = (Inr d, s') \<Longrightarrow> wd_detector d = name"
  by (auto simp: resident_detect_def resident_sound_def dest!: wake_detect_result split: prod.splits)

interpretation resident_cascade: wake_cascade
    "on_first (resident_detect lib)" "on_second (resident_detect lib)" pname fname
    "\<lambda>s. resident_sound pname (fst s) \<and> resident_sound fname (snd s)"
  for lib :: python_lib and pname fname :: pystr
proof unfold_locales
  fix u and w :: "(persistent \<times> (nat \<Rightarrow> detect_env)) \<times> (persistent \<times> (nat \<Rightarrow> detect_env))"
  assume s: "resident_sound pname (fst w) \<and> resident_sound fname (snd w)"
  show "resident_sound pname (fst (snd (on_first (resident_detect lib) u w)))
      \<and> resident_sound fname (snd (snd (on_first (resident_detect lib) u w)))"
    using s resident_detect_sound[of pname "fst w" lib u] by simp
  show "resident_sound pname (fst (snd (on_second (resident_detect lib) u w)))
      \<and> resident_sound fname (snd (snd (on_second (resident_detect lib) u w)))"
    using s resident_detect_sound[of fname "snd w" lib u] by simp
  fix d w'
  show "wd_detector d = pname" if "on_first (resident_detect lib) u w = (Inr d, w')"
    using that s resident_detect_named[of pname "fst w" lib u d]
    by (auto simp: on_first_def split: prod.splits)
  show "wd_detector d = fname" if "on_second (resident_detect lib) u w = (Inr d, w')"
    using that s resident_detect_named[of fname "snd w" lib u d]
    by (auto simp: on_second_def split: prod.splits)
qed

text \<open>the supervisor over two resident workers keeps both sound: each still has at most the one
  process it refers to and no unanswered request, and a wake is attributed to the primary by
  its name exactly when the fallback was not consulted.\<close>

theorem supervised_workers_sound:
  assumes "ws_primary ws = on_first (resident_detect lib)"
    and "ws_fallback ws = Some (on_second (resident_detect lib))"
    and "resident_sound pname (fst w)" and "resident_sound fname (snd w)"
    and "supervisor_detect db ws u w = (res, w')"
  shows "single_child (fst (fst w')) \<and> settled (fst (fst w'))
    \<and> single_child (fst (snd w')) \<and> settled (fst (snd w'))
    \<and> (\<forall>r. res = Inr r \<longrightarrow> wr_source r = None
        \<or> wr_source r = Some pname \<and> wr_fallback r = None
        \<or> wr_source r = Some fname \<and> wr_fallback r \<noteq> None)"
  using resident_cascade.supervised_sound[OF assms(1,2), of pname w fname db u]
    resident_cascade.supervised_source[OF assms(1,2), of pname w fname db u] assms(3-5)
  by (auto simp: resident_sound_def)

definition heard_env :: "nat \<Rightarrow> detect_env" where
  "heard_env n = detect_with [arrives [[42], protocol_prefix @ [50]], arrives [[42]]]"

definition resident_supervisor :: "((persistent \<times> (nat \<Rightarrow> detect_env)) \<times>
    (persistent \<times> (nat \<Rightarrow> detect_env))) wake_supervisor" where
  "resident_supervisor = \<lparr>ws_primary = on_first (resident_detect tiny_lib),
     ws_fallback = Some (on_second (resident_detect tiny_lib)), ws_enabled = True,
     ws_phrase = lit ''hey friday''\<rparr>"

theorem supervised_workers_sound_witness:
  "\<exists>res w'. supervisor_detect ascii_db resident_supervisor wake_audio
        ((ready_state 0, heard_env), (ready_state 0, heard_env)) = (res, w')
     \<and> settled (fst (fst w')) \<and> single_child (fst (snd w'))"
proof -
  let ?w = "((ready_state 0, heard_env), (ready_state 0, heard_env))"
  obtain res w' where d: "supervisor_detect ascii_db resident_supervisor wake_audio ?w = (res, w')"
    by (meson surj_pair)
  have s: "resident_sound [112] (fst ?w)" "resident_sound [112] (snd ?w)"
    by (simp_all add: resident_sound_def single_child_def settled_def ready_state_def
        ready_worker_def tiny_config_def heard_env_def detect_with_def)
  have ws: "ws_primary resident_supervisor = on_first (resident_detect tiny_lib)"
    "ws_fallback resident_supervisor = Some (on_second (resident_detect tiny_lib))"
    by (simp_all add: resident_supervisor_def)
  from supervised_workers_sound[OF ws s d] d show ?thesis by blast
qed

text \<open>
  Two lines that arrive together are read into the reader's buffer together; the next
  \<open>select\<close> watches the empty pipe and times out with the response already in the process.
\<close>

lemma buffered_response_times_out:
  "fst (wake_detect tiny_lib (detect_with [arrives [[42], protocol_prefix @ [50]]]) wake_audio
          (ready_state 0)) = Inl (wake_error ''wake worker response timed out'')"
proof -
  have "check_wav wake_audio = None" using wake_audio_ok by (simp add: check_wav_iff)
  then show ?thesis
    by (simp add: wake_detect_def worker_eval detect_with_def ready_state_def ready_worker_def
        write_wav_def transact_def write_request_def count_request_def)
qed

end
