(* ===== verification/Wake_Capture.thy ===== *)
theory Wake_Capture
  imports Wake Follow_Up
begin

text \<open>
  The always-on wake loop: \<open>voice/wake_capture.py\<close>. The loop runs in one thread while others
  call \<open>pause\<close>, \<open>resume\<close> and \<open>stop\<close>. The loop is cut where it takes or drops its lock and where
  it waits: each program counter is one such stretch, run without interruption, and between
  two of them any other thread may act. Streams are named in the order they are opened. What
  the microphone, the clock and the callbacks do is chosen by the environment of each step.
\<close>

section \<open>State\<close>

datatype capture_phase = Phase_Stopped | Phase_Opening | Phase_Listening | Phase_Detecting

record 's wake_capture =
  wc_segmenter :: 's
  wc_stop :: bool
  wc_pause :: bool
  wc_stream :: "nat option"
  wc_running :: bool
  wc_phase :: capture_phase
  wc_utterance_count :: nat
  wc_wake_count :: nat
  wc_wake_check_count :: nat
  wc_wake_rejection_count :: nat
  wc_pcm_chunks_received :: nat
  wc_pcm_chunk_count :: nat
  wc_vad_speech_frame_count :: nat
  wc_read_in_progress :: bool
  wc_read_started_ns :: "int option"
  wc_read_completed_ns :: "int option"
  wc_last_chunk_ns :: "int option"
  wc_last_frame_ns :: "int option"
  wc_last_activity_ns :: "int option"
  wc_last_handoff_ns :: "int option"
  wc_last_duration_ms :: "real option"
  wc_last_decision_ns :: "int option"
  wc_last_decision :: "bool option"
  wc_opened :: nat \<comment> \<open>history: streams opened\<close>
  wc_fed :: "(nat \<times> pcm) list" \<comment> \<open>history: chunks given to the segmenter since its last reset\<close>
  wc_heard :: "(nat \<times> pcm) list" \<comment> \<open>history: all chunks given to the segmenter\<close>

definition wake_capture_init :: "'s \<Rightarrow> 's wake_capture" where
  "wake_capture_init s0 = \<lparr>wc_segmenter = s0, wc_stop = False, wc_pause = False,
     wc_stream = None, wc_running = False, wc_phase = Phase_Stopped, wc_utterance_count = 0,
     wc_wake_count = 0, wc_wake_check_count = 0, wc_wake_rejection_count = 0,
     wc_pcm_chunks_received = 0, wc_pcm_chunk_count = 0, wc_vad_speech_frame_count = 0,
     wc_read_in_progress = False, wc_read_started_ns = None, wc_read_completed_ns = None,
     wc_last_chunk_ns = None, wc_last_frame_ns = None, wc_last_activity_ns = None,
     wc_last_handoff_ns = None, wc_last_duration_ms = None, wc_last_decision_ns = None,
     wc_last_decision = None, wc_opened = 0, wc_fed = [], wc_heard = []\<rparr>"

abbreviation capture_error :: "string \<Rightarrow> exn" where
  "capture_error \<equiv> Exn WakeCaptureErrorC"

section \<open>Calls of other threads\<close>

text \<open>\<open>_close_stream_locked\<close>; an \<open>OSError\<close> of the close is ignored.\<close>

definition close_stream :: "'s wake_capture \<Rightarrow> 's wake_capture" where
  "close_stream c = c\<lparr>wc_stream := None, wc_read_in_progress := False\<rparr>"

definition reset_segmenter :: "('s \<Rightarrow> 's) \<Rightarrow> 's wake_capture \<Rightarrow> 's wake_capture" where
  "reset_segmenter reset c = c\<lparr>wc_segmenter := reset (wc_segmenter c), wc_fed := []\<rparr>"

definition capture_pause :: "('s \<Rightarrow> 's) \<Rightarrow> 's wake_capture \<Rightarrow> 's wake_capture" where
  "capture_pause reset c = reset_segmenter reset (close_stream (c\<lparr>wc_pause := True\<rparr>))"

definition capture_resume :: "('s \<Rightarrow> 's) \<Rightarrow> 's wake_capture \<Rightarrow> 's wake_capture" where
  "capture_resume reset c =
     (let c1 = (reset_segmenter reset c)\<lparr>wc_pause := False\<rparr>
      in if wc_stream c1 = None \<and> wc_running c1 then c1\<lparr>wc_phase := Phase_Opening\<rparr> else c1)"

text \<open>\<open>stop\<close> sets its event before it takes the lock.\<close>

definition capture_stop_event :: "'s wake_capture \<Rightarrow> 's wake_capture" where
  "capture_stop_event c = c\<lparr>wc_stop := True\<rparr>"

section \<open>The loop\<close>

datatype capture_pc =
    Idle "exn option"
  | Loop_Test
  | Ensure_Stream
  | Register_Read nat
  | Read_Call nat
  | Read_Failed nat exn
  | After_Failed_Read bool exn
  | Read_Returned nat pcm
  | Empty_Chunk nat
  | After_Empty_Chunk bool
  | Process_Chunk nat pcm
  | Hand_Off nat voice_utterance
  | Detect_Call nat voice_utterance int
  | Record_Result nat voice_utterance supervisor_result
  | Dispatch_Check nat voice_utterance supervisor_result
  | On_Result_Call nat voice_utterance supervisor_result
  | On_Wake_Call nat voice_utterance supervisor_result
  | Bound_Check
  | Finish "exn option"

text \<open>What a stretch of the loop may read: the clock, the microphone, the end of a callback.\<close>

record loop_env =
  le_now :: int
  le_open :: "exn option"
  le_read :: pcm_read
  le_callback :: "exn option"

text \<open>The entry of \<open>run\<close>: refused, or the first program counter.\<close>

definition run_enter ::
    "int option \<Rightarrow> 's wake_capture \<Rightarrow> (exn + capture_pc) \<times> 's wake_capture" where
  "run_enter max_completed c =
     (if (case max_completed of None \<Rightarrow> False | Some m \<Rightarrow> m \<le> 0) then
        (Inl (ValueError ''max_completed_utterances must be positive''), c)
      else if wc_running c then (Inl (capture_error ''wake capture loop is already running''), c)
      else if wc_stop c then (Inr (Idle None), c)
      else (Inr Loop_Test, c\<lparr>wc_running := True, wc_phase := Phase_Opening\<rparr>))"

definition loop_test :: "'s wake_capture \<Rightarrow> capture_pc \<times> 's wake_capture" where
  "loop_test c =
     (if wc_stop c then (Finish None, c) else if wc_pause c then (Loop_Test, c)
      else (Ensure_Stream, c))"

definition ensure_stream :: "loop_env \<Rightarrow> 's wake_capture \<Rightarrow> capture_pc \<times> 's wake_capture" where
  "ensure_stream env c =
     (if wc_stop c \<or> wc_pause c then (Loop_Test, c)
      else case wc_stream c of Some s \<Rightarrow> (Register_Read s, c)
      | None \<Rightarrow>
          (case le_open env of
             Some e \<Rightarrow> (Finish (Some (if caught_by [VoiceCaptureErrorC, OSErrorC] e
                        then capture_error ''unable to open wake microphone stream'' else e)), c)
           | None \<Rightarrow> (Register_Read (wc_opened c),
                      c\<lparr>wc_stream := Some (wc_opened c), wc_opened := Suc (wc_opened c)\<rparr>)))"

definition retired :: "nat \<Rightarrow> 's wake_capture \<Rightarrow> bool" where
  "retired s c \<longleftrightarrow> wc_stream c \<noteq> Some s \<or> wc_stop c \<or> wc_pause c"

definition register_read ::
    "nat \<Rightarrow> loop_env \<Rightarrow> 's wake_capture \<Rightarrow> capture_pc \<times> 's wake_capture" where
  "register_read s env c =
     (if retired s c then (Loop_Test, c)
      else (Read_Call s, c\<lparr>wc_read_in_progress := True, wc_read_started_ns := Some (le_now env)\<rparr>))"

definition read_call :: "nat \<Rightarrow> loop_env \<Rightarrow> 's wake_capture \<Rightarrow> capture_pc \<times> 's wake_capture" where
  "read_call s env c =
     (case le_read env of Read_Chunk p \<Rightarrow> (Read_Returned s p, c)
      | Read_Raises e \<Rightarrow>
          if caught_by [VoiceCaptureErrorC, OSErrorC, ValueErrorC] e then (Read_Failed s e, c)
          else (Finish (Some e), c))"

definition read_failed :: "nat \<Rightarrow> exn \<Rightarrow> 's wake_capture \<Rightarrow> capture_pc \<times> 's wake_capture" where
  "read_failed s e c =
     (let stream_retired = (wc_stream c \<noteq> Some s)
      in (After_Failed_Read stream_retired e, if stream_retired then c else close_stream c))"

definition after_failed_read ::
    "bool \<Rightarrow> exn \<Rightarrow> 's wake_capture \<Rightarrow> capture_pc \<times> 's wake_capture" where
  "after_failed_read stream_retired e c =
     (if stream_retired \<or> wc_stop c \<or> wc_pause c then (Loop_Test, c)
      else (Finish (Some (capture_error ''wake microphone capture failed'')), c))"

definition read_returned ::
    "nat \<Rightarrow> pcm \<Rightarrow> loop_env \<Rightarrow> 's wake_capture \<Rightarrow> capture_pc \<times> 's wake_capture" where
  "read_returned s p env c =
     ((if p = [] then Empty_Chunk s else Process_Chunk s p),
      (if wc_stream c = Some s
       then c\<lparr>wc_read_in_progress := False, wc_read_completed_ns := Some (le_now env)\<rparr> else c))"

definition empty_chunk :: "nat \<Rightarrow> 's wake_capture \<Rightarrow> capture_pc \<times> 's wake_capture" where
  "empty_chunk s c =
     (let stream_retired = (wc_stream c \<noteq> Some s)
      in (After_Empty_Chunk stream_retired, if stream_retired then c else close_stream c))"

definition after_empty_chunk :: "bool \<Rightarrow> 's wake_capture \<Rightarrow> capture_pc \<times> 's wake_capture" where
  "after_empty_chunk stream_retired c =
     (if wc_stop c then (Finish None, c)
      else if stream_retired \<or> wc_pause c then (Loop_Test, c)
      else (Finish (Some (capture_error ''wake microphone stream ended unexpectedly'')), c))"

definition count_chunk ::
    "loop_env \<Rightarrow> segmentation_result \<Rightarrow> 's wake_capture \<Rightarrow> 's wake_capture" where
  "count_chunk env r c =
     (let c1 = c\<lparr>wc_pcm_chunk_count := Suc (wc_pcm_chunk_count c),
                 wc_last_chunk_ns := Some (le_now env), wc_last_frame_ns := Some (le_now env)\<rparr>;
          c2 = (if vf_speech (sr_frame r)
                then c1\<lparr>wc_vad_speech_frame_count := Suc (wc_vad_speech_frame_count c1),
                        wc_last_activity_ns := Some (le_now env)\<rparr>
                else c1)
      in c2\<lparr>wc_phase := Phase_Listening\<rparr>)"

definition process_chunk ::
    "(pcm \<Rightarrow> ('s, segmentation_result) act) \<Rightarrow> nat \<Rightarrow> pcm \<Rightarrow> loop_env
     \<Rightarrow> 's wake_capture \<Rightarrow> capture_pc \<times> 's wake_capture" where
  "process_chunk process s p env c =
     (if retired s c then (Loop_Test, c)
      else
        let c1 = c\<lparr>wc_pcm_chunks_received := Suc (wc_pcm_chunks_received c)\<rparr>
        in case process p (wc_segmenter c1) of
          (Inl e, sg) \<Rightarrow>
            (Finish (Some (if caught_by [ValueErrorC, RuntimeErrorC] e
                           then capture_error ''wake utterance segmentation failed'' else e)),
             c1\<lparr>wc_segmenter := sg\<rparr>)
        | (Inr r, sg) \<Rightarrow>
            ((case sr_utterance r of None \<Rightarrow> Loop_Test | Some u \<Rightarrow> Hand_Off s u),
             count_chunk env r (c1\<lparr>wc_segmenter := sg, wc_fed := wc_fed c1 @ [(s, p)],
                                   wc_heard := wc_heard c1 @ [(s, p)]\<rparr>)))"

definition hand_off ::
    "nat \<Rightarrow> voice_utterance \<Rightarrow> loop_env \<Rightarrow> 's wake_capture \<Rightarrow> capture_pc \<times> 's wake_capture" where
  "hand_off s u env c =
     (Detect_Call s u (le_now env),
      c\<lparr>wc_utterance_count := Suc (wc_utterance_count c), wc_phase := Phase_Detecting,
        wc_last_handoff_ns := Some (le_now env)\<rparr>)"

text \<open>The supervisor runs without the lock; its duration is recorded on every path.\<close>

definition detect_call ::
    "(voice_utterance \<Rightarrow> ('w, supervisor_result) act) \<Rightarrow> nat \<Rightarrow> voice_utterance \<Rightarrow> int
     \<Rightarrow> loop_env \<Rightarrow> 's wake_capture \<Rightarrow> 'w \<Rightarrow> capture_pc \<times> 's wake_capture \<times> 'w" where
  "detect_call detect s u started env c w =
     (case detect u w of (res, w') \<Rightarrow>
        ((case res of Inl e \<Rightarrow> Finish (Some e) | Inr r \<Rightarrow> Record_Result s u r),
         c\<lparr>wc_last_duration_ms := Some (max 0 (real_of_int (le_now env - started) / 1000000))\<rparr>,
         w'))"

definition record_result ::
    "bool \<Rightarrow> nat \<Rightarrow> voice_utterance \<Rightarrow> supervisor_result \<Rightarrow> loop_env
     \<Rightarrow> 's wake_capture \<Rightarrow> capture_pc \<times> 's wake_capture" where
  "record_result enabled s u r env c =
     (let checks0 = (if wr_primary r \<noteq> None then 1 else 0) + (if wr_fallback r \<noteq> None then 1 else 0);
          checks = (if checks0 = 0 \<and> enabled then 1 else checks0)
      in (Dispatch_Check s u r,
          c\<lparr>wc_wake_check_count := wc_wake_check_count c + checks,
            wc_last_decision := Some (wr_wake r), wc_last_decision_ns := Some (le_now env),
            wc_wake_rejection_count :=
              (if \<not> wr_wake r then Suc (wc_wake_rejection_count c)
               else wc_wake_rejection_count c)\<rparr>))"

definition dispatch_check ::
    "nat \<Rightarrow> voice_utterance \<Rightarrow> supervisor_result \<Rightarrow> 's wake_capture
     \<Rightarrow> capture_pc \<times> 's wake_capture" where
  "dispatch_check s u r c =
     (if retired s c then (Loop_Test, c)
      else (On_Result_Call s u r, c\<lparr>wc_phase := Phase_Listening\<rparr>))"

text \<open>A missing callback is one that returns at once.\<close>

definition on_result_call ::
    "nat \<Rightarrow> voice_utterance \<Rightarrow> supervisor_result \<Rightarrow> loop_env \<Rightarrow> 's wake_capture
     \<Rightarrow> capture_pc \<times> 's wake_capture" where
  "on_result_call s u r env c =
     (case le_callback env of Some e \<Rightarrow> (Finish (Some e), c)
      | None \<Rightarrow> if wr_wake r
          then (On_Wake_Call s u r, c\<lparr>wc_wake_count := Suc (wc_wake_count c)\<rparr>)
          else (Bound_Check, c))"

definition on_wake_call :: "loop_env \<Rightarrow> 's wake_capture \<Rightarrow> capture_pc \<times> 's wake_capture" where
  "on_wake_call env c =
     (case le_callback env of Some e \<Rightarrow> (Finish (Some e), c) | None \<Rightarrow> (Bound_Check, c))"

definition bound_check :: "int option \<Rightarrow> 's wake_capture \<Rightarrow> capture_pc \<times> 's wake_capture" where
  "bound_check max_completed c =
     ((case max_completed of None \<Rightarrow> Loop_Test
       | Some m \<Rightarrow> if int (wc_utterance_count c) \<ge> m then Finish None else Loop_Test), c)"

definition finish :: "('s \<Rightarrow> 's) \<Rightarrow> exn option \<Rightarrow> 's wake_capture \<Rightarrow> capture_pc \<times> 's wake_capture" where
  "finish reset res c =
     (Idle res, reset_segmenter reset ((close_stream c)\<lparr>wc_running := False, wc_phase := Phase_Stopped\<rparr>))"

text \<open>One stretch of the loop, over the capture and the world of the detectors.\<close>

definition loop_step ::
    "(pcm \<Rightarrow> ('s, segmentation_result) act) \<Rightarrow> ('s \<Rightarrow> 's)
     \<Rightarrow> (voice_utterance \<Rightarrow> ('w, supervisor_result) act) \<Rightarrow> bool \<Rightarrow> int option \<Rightarrow> loop_env
     \<Rightarrow> capture_pc \<Rightarrow> 's wake_capture \<Rightarrow> 'w \<Rightarrow> capture_pc \<times> 's wake_capture \<times> 'w" where
  "loop_step process reset detect enabled max_completed env pc c w =
     (case pc of
        Detect_Call s u started \<Rightarrow> detect_call detect s u started env c w
      | _ \<Rightarrow>
        (case (case pc of
            Idle res \<Rightarrow> (Idle res, c)
          | Loop_Test \<Rightarrow> loop_test c
          | Ensure_Stream \<Rightarrow> ensure_stream env c
          | Register_Read s \<Rightarrow> register_read s env c
          | Read_Call s \<Rightarrow> read_call s env c
          | Read_Failed s e \<Rightarrow> read_failed s e c
          | After_Failed_Read sr e \<Rightarrow> after_failed_read sr e c
          | Read_Returned s p \<Rightarrow> read_returned s p env c
          | Empty_Chunk s \<Rightarrow> empty_chunk s c
          | After_Empty_Chunk sr \<Rightarrow> after_empty_chunk sr c
          | Process_Chunk s p \<Rightarrow> process_chunk process s p env c
          | Hand_Off s u \<Rightarrow> hand_off s u env c
          | Record_Result s u r \<Rightarrow> record_result enabled s u r env c
          | Dispatch_Check s u r \<Rightarrow> dispatch_check s u r c
          | On_Result_Call s u r \<Rightarrow> on_result_call s u r env c
          | On_Wake_Call s u r \<Rightarrow> on_wake_call env c
          | Bound_Check \<Rightarrow> bound_check max_completed c
          | Finish res \<Rightarrow> finish reset res c
          | Detect_Call s u started \<Rightarrow> (pc, c)) of (pc', c') \<Rightarrow> (pc', c', w)))"

section \<open>The system of the loop and its callers\<close>

record ('s, 'w) capture_system =
  sy_pc :: capture_pc
  sy_max :: "int option"
  sy_capture :: "'s wake_capture"
  sy_world :: 'w

datatype capture_event =
    Run_Call "int option"
  | Loop_Continues loop_env
  | Pause_Call
  | Resume_Call
  | Stop_Event_Set
  | Stop_Closes

fun capture_step ::
    "(pcm \<Rightarrow> ('s, segmentation_result) act) \<Rightarrow> ('s \<Rightarrow> 's)
     \<Rightarrow> (voice_utterance \<Rightarrow> ('w, supervisor_result) act) \<Rightarrow> bool
     \<Rightarrow> capture_event \<Rightarrow> ('s, 'w) capture_system \<Rightarrow> ('s, 'w) capture_system" where
  "capture_step process reset detect enabled (Run_Call m) sy =
     (case sy_pc sy of
        Idle _ \<Rightarrow>
          (case run_enter m (sy_capture sy) of
             (Inl e, c) \<Rightarrow> sy\<lparr>sy_pc := Idle (Some e), sy_capture := c\<rparr>
           | (Inr pc, c) \<Rightarrow> sy\<lparr>sy_pc := pc, sy_max := m, sy_capture := c\<rparr>)
      | _ \<Rightarrow> sy\<lparr>sy_capture := snd (run_enter m (sy_capture sy))\<rparr>)"
| "capture_step process reset detect enabled (Loop_Continues env) sy =
     (case loop_step process reset detect enabled (sy_max sy) env (sy_pc sy) (sy_capture sy)
             (sy_world sy) of
        (pc, c, w) \<Rightarrow> sy\<lparr>sy_pc := pc, sy_capture := c, sy_world := w\<rparr>)"
| "capture_step process reset detect enabled Pause_Call sy =
     sy\<lparr>sy_capture := capture_pause reset (sy_capture sy)\<rparr>"
| "capture_step process reset detect enabled Resume_Call sy =
     sy\<lparr>sy_capture := capture_resume reset (sy_capture sy)\<rparr>"
| "capture_step process reset detect enabled Stop_Event_Set sy =
     sy\<lparr>sy_capture := capture_stop_event (sy_capture sy)\<rparr>"
| "capture_step process reset detect enabled Stop_Closes sy =
     (if wc_stop (sy_capture sy) then sy\<lparr>sy_capture := close_stream (sy_capture sy)\<rparr> else sy)"

definition capture_system_init :: "'s \<Rightarrow> 'w \<Rightarrow> ('s, 'w) capture_system" where
  "capture_system_init s0 w0 =
     \<lparr>sy_pc = Idle None, sy_max = None, sy_capture = wake_capture_init s0, sy_world = w0\<rparr>"

definition capture_run ::
    "(pcm \<Rightarrow> ('s, segmentation_result) act) \<Rightarrow> ('s \<Rightarrow> 's)
     \<Rightarrow> (voice_utterance \<Rightarrow> ('w, supervisor_result) act) \<Rightarrow> bool
     \<Rightarrow> capture_event list \<Rightarrow> ('s, 'w) capture_system \<Rightarrow> ('s, 'w) capture_system" where
  "capture_run process reset detect enabled evs sy =
     fold (capture_step process reset detect enabled) evs sy"

section \<open>The invariant of the capture\<close>

fun is_idle :: "capture_pc \<Rightarrow> bool" where
  "is_idle (Idle _) = True"
| "is_idle _ = False"

text \<open>The loop is on its way out after it closed the stream itself.\<close>

fun failing :: "capture_pc \<Rightarrow> bool" where
  "failing (After_Failed_Read stream_retired _) \<longleftrightarrow> \<not> stream_retired"
| "failing (After_Empty_Chunk stream_retired) \<longleftrightarrow> \<not> stream_retired"
| "failing (Finish _) \<longleftrightarrow> True"
| "failing _ \<longleftrightarrow> False"

text \<open>The utterance the loop is dealing with, and the stream it came from.\<close>

fun carried :: "capture_pc \<Rightarrow> (nat \<times> voice_utterance) option" where
  "carried (Hand_Off s u) = Some (s, u)"
| "carried (Detect_Call s u _) = Some (s, u)"
| "carried (Record_Result s u _) = Some (s, u)"
| "carried (Dispatch_Check s u _) = Some (s, u)"
| "carried (On_Result_Call s u _) = Some (s, u)"
| "carried (On_Wake_Call s u _) = Some (s, u)"
| "carried _ = None"

text \<open>Counted as an utterance, not yet as a wake or a rejection.\<close>

fun undecided :: "capture_pc \<Rightarrow> nat" where
  "undecided (Detect_Call _ _ _) = 1"
| "undecided (Record_Result _ _ _) = 1"
| "undecided (Dispatch_Check _ _ r) = (if wr_wake r then 1 else 0)"
| "undecided (On_Result_Call _ _ r) = (if wr_wake r then 1 else 0)"
| "undecided _ = 0"

definition from_stream :: "nat \<Rightarrow> voice_utterance \<Rightarrow> (nat \<times> pcm) list \<Rightarrow> bool" where
  "from_stream s u hist \<longleftrightarrow>
     (\<exists>ys. sublist ys hist \<and> (\<forall>y \<in> set ys. fst y = s) \<and> suffix (vu_pcm u) (concat (map snd ys)))"

lemma from_stream_append: "from_stream s u hist \<Longrightarrow> from_stream s u (hist @ later)"
  by (auto simp: from_stream_def sublist_def) (metis append.assoc)

text \<open>What does not depend on the segmenter's internals.\<close>

definition mic_ok :: "capture_pc \<Rightarrow> 's wake_capture \<Rightarrow> bool" where
  "mic_ok pc c \<longleftrightarrow>
     (wc_pause c \<longrightarrow> wc_stream c = None \<and> wc_fed c = [])
     \<and> (\<forall>s. wc_stream c = Some s \<longrightarrow> Suc s = wc_opened c)
     \<and> (wc_read_in_progress c \<longrightarrow> wc_stream c \<noteq> None)
     \<and> list_all (\<lambda>y. Suc (fst y) = wc_opened c) (wc_fed c)
     \<and> (wc_running c \<longleftrightarrow> \<not> is_idle pc)
     \<and> (is_idle pc \<longrightarrow> wc_stream c = None \<and> wc_fed c = [] \<and> wc_phase c = Phase_Stopped)
     \<and> (wc_stream c = None \<and> \<not> wc_stop c \<and> \<not> failing pc \<longrightarrow> wc_fed c = [])
     \<and> suffix (wc_fed c) (wc_heard c)
     \<and> wc_pcm_chunk_count c \<le> wc_pcm_chunks_received c
     \<and> wc_wake_count c + wc_wake_rejection_count c + undecided pc \<le> wc_utterance_count c"

lemma mic_ok_init: "mic_ok (Idle res) (wake_capture_init s0)"
  by (simp add: mic_ok_def wake_capture_init_def)

lemma mic_ok_run_enter:
  "mic_ok (Idle res) c \<Longrightarrow> run_enter m c = (r, c') \<Longrightarrow>
     mic_ok (case r of Inl e \<Rightarrow> Idle (Some e) | Inr pc \<Rightarrow> pc) c'"
  by (auto simp: run_enter_def mic_ok_def split: if_splits)

lemma mic_ok_pause: "mic_ok pc c \<Longrightarrow> mic_ok pc (capture_pause reset c)"
  by (simp add: mic_ok_def capture_pause_def reset_segmenter_def close_stream_def)

lemma mic_ok_resume: "mic_ok pc c \<Longrightarrow> mic_ok pc (capture_resume reset c)"
  by (auto simp: mic_ok_def capture_resume_def reset_segmenter_def Let_def)

lemma mic_ok_stop: "mic_ok pc c \<Longrightarrow> mic_ok pc (capture_stop_event c)"
  by (auto simp: mic_ok_def capture_stop_event_def)

lemma mic_ok_stop_close: "mic_ok pc c \<Longrightarrow> wc_stop c \<Longrightarrow> mic_ok pc (close_stream c)"
  by (auto simp: mic_ok_def close_stream_def)

lemmas stretch_defs = loop_test_def ensure_stream_def register_read_def read_call_def
  read_failed_def after_failed_read_def read_returned_def empty_chunk_def after_empty_chunk_def
  hand_off_def record_result_def dispatch_check_def on_result_call_def on_wake_call_def
  bound_check_def finish_def retired_def close_stream_def reset_segmenter_def Let_def

lemma mic_ok_process:
  "mic_ok (Process_Chunk s p) c \<Longrightarrow> process_chunk process s p env c = (pc', c') \<Longrightarrow> mic_ok pc' c'"
  by (auto simp: process_chunk_def retired_def mic_ok_def count_chunk_def Let_def
      split: if_splits prod.splits sum.splits option.splits)

text \<open>Every stretch of the loop keeps the microphone in order.\<close>

lemma mic_ok_detect:
  "mic_ok (Detect_Call s u t) c \<Longrightarrow> detect_call detect s u t env c w = (pc', c', w') \<Longrightarrow> mic_ok pc' c'"
  by (auto simp: detect_call_def mic_ok_def split: prod.splits sum.splits)

lemma mic_ok_register_read: "mic_ok (Register_Read s) c \<Longrightarrow> register_read s env c = (pc', c') \<Longrightarrow> mic_ok pc' c'"
  by (auto simp: stretch_defs mic_ok_def split: if_splits pcm_read.splits)

lemma mic_ok_read_call: "mic_ok (Read_Call s) c \<Longrightarrow> read_call s env c = (pc', c') \<Longrightarrow> mic_ok pc' c'"
  by (auto simp: stretch_defs mic_ok_def split: if_splits pcm_read.splits)

lemma mic_ok_read_failed: "mic_ok (Read_Failed s e) c \<Longrightarrow> read_failed s e c = (pc', c') \<Longrightarrow> mic_ok pc' c'"
  by (auto simp: stretch_defs mic_ok_def split: if_splits pcm_read.splits)

lemma mic_ok_read_returned: "mic_ok (Read_Returned s p) c \<Longrightarrow> read_returned s p env c = (pc', c') \<Longrightarrow> mic_ok pc' c'"
  by (auto simp: stretch_defs mic_ok_def split: if_splits pcm_read.splits)

lemma mic_ok_empty_chunk: "mic_ok (Empty_Chunk s) c \<Longrightarrow> empty_chunk s c = (pc', c') \<Longrightarrow> mic_ok pc' c'"
  by (auto simp: stretch_defs mic_ok_def split: if_splits pcm_read.splits)

lemmas mic_ok_reads = mic_ok_register_read mic_ok_read_call mic_ok_read_failed mic_ok_read_returned mic_ok_empty_chunk

lemma mic_ok_loop_test: "mic_ok Loop_Test c \<Longrightarrow> loop_test c = (pc', c') \<Longrightarrow> mic_ok pc' c'"
  by (auto simp: stretch_defs mic_ok_def split: if_splits option.splits)

lemma mic_ok_ensure_stream: "mic_ok Ensure_Stream c \<Longrightarrow> ensure_stream env c = (pc', c') \<Longrightarrow> mic_ok pc' c'"
  by (auto simp: stretch_defs mic_ok_def split: if_splits option.splits)

lemma mic_ok_after_failed_read: "mic_ok (After_Failed_Read sr e) c \<Longrightarrow> after_failed_read sr e c = (pc', c') \<Longrightarrow> mic_ok pc' c'"
  by (auto simp: stretch_defs mic_ok_def split: if_splits option.splits)

lemma mic_ok_after_empty_chunk: "mic_ok (After_Empty_Chunk sr) c \<Longrightarrow> after_empty_chunk sr c = (pc', c') \<Longrightarrow> mic_ok pc' c'"
  by (auto simp: stretch_defs mic_ok_def split: if_splits option.splits)

lemma mic_ok_bound_check: "mic_ok Bound_Check c \<Longrightarrow> bound_check m c = (pc', c') \<Longrightarrow> mic_ok pc' c'"
  by (auto simp: stretch_defs mic_ok_def split: if_splits option.splits)

lemma mic_ok_finish: "mic_ok (Finish res) c \<Longrightarrow> finish reset res c = (pc', c') \<Longrightarrow> mic_ok pc' c'"
  by (auto simp: stretch_defs mic_ok_def split: if_splits option.splits)

lemmas mic_ok_tests = mic_ok_loop_test mic_ok_ensure_stream mic_ok_after_failed_read mic_ok_after_empty_chunk mic_ok_bound_check mic_ok_finish

lemma mic_ok_record:
  "mic_ok (Record_Result s u r) c \<Longrightarrow> record_result en s u r env c = (pc', c') \<Longrightarrow> mic_ok pc' c'"
  by (cases "wr_wake r") (auto simp: record_result_def mic_ok_def Let_def)

lemma mic_ok_hand_off: "mic_ok (Hand_Off s u) c \<Longrightarrow> hand_off s u env c = (pc', c') \<Longrightarrow> mic_ok pc' c'"
  by (auto simp: stretch_defs mic_ok_def split: if_splits option.splits)

lemma mic_ok_dispatch_check: "mic_ok (Dispatch_Check s u r) c \<Longrightarrow> dispatch_check s u r c = (pc', c') \<Longrightarrow> mic_ok pc' c'"
  by (auto simp: stretch_defs mic_ok_def split: if_splits option.splits)

lemma mic_ok_on_result_call: "mic_ok (On_Result_Call s u r) c \<Longrightarrow> on_result_call s u r env c = (pc', c') \<Longrightarrow> mic_ok pc' c'"
  by (auto simp: stretch_defs mic_ok_def split: if_splits option.splits)

lemma mic_ok_on_wake_call: "mic_ok (On_Wake_Call s u r) c \<Longrightarrow> on_wake_call env c = (pc', c') \<Longrightarrow> mic_ok pc' c'"
  by (auto simp: stretch_defs mic_ok_def split: if_splits option.splits)

lemmas mic_ok_results = mic_ok_hand_off mic_ok_dispatch_check mic_ok_on_result_call mic_ok_on_wake_call

lemma mic_ok_loop_step:
  assumes "mic_ok pc c"
    and "loop_step process reset detect en m env pc c w = (pc', c', w')"
  shows "mic_ok pc' c'"
  using assms
  by (cases pc) (auto simp: loop_step_def split: prod.splits
      dest: mic_ok_reads mic_ok_tests mic_ok_results mic_ok_record mic_ok_process mic_ok_detect)

text \<open>What most stretches leave alone.\<close>

definition same_audio :: "capture_pc \<Rightarrow> 's wake_capture \<Rightarrow> capture_pc \<Rightarrow> 's wake_capture \<Rightarrow> bool" where
  "same_audio pc c pc' c' \<longleftrightarrow> wc_segmenter c' = wc_segmenter c \<and> wc_fed c' = wc_fed c
     \<and> wc_heard c' = wc_heard c \<and> (carried pc' = None \<or> carried pc' = carried pc)"

lemma same_audio_reads:
  "register_read s env c = (pc', c') \<Longrightarrow> same_audio (Register_Read s) c pc' c'"
  "read_call s env c = (pc', c') \<Longrightarrow> same_audio (Read_Call s) c pc' c'"
  "read_failed s e c = (pc', c') \<Longrightarrow> same_audio (Read_Failed s e) c pc' c'"
  "read_returned s p env c = (pc', c') \<Longrightarrow> same_audio (Read_Returned s p) c pc' c'"
  "empty_chunk s c = (pc', c') \<Longrightarrow> same_audio (Empty_Chunk s) c pc' c'"
  "loop_test c = (pc', c') \<Longrightarrow> same_audio Loop_Test c pc' c'"
  "ensure_stream env c = (pc', c') \<Longrightarrow> same_audio Ensure_Stream c pc' c'"
  "after_failed_read sr e c = (pc', c') \<Longrightarrow> same_audio (After_Failed_Read sr e) c pc' c'"
  "after_empty_chunk sr c = (pc', c') \<Longrightarrow> same_audio (After_Empty_Chunk sr) c pc' c'"
  "bound_check m c = (pc', c') \<Longrightarrow> same_audio Bound_Check c pc' c'"
  by (auto simp: stretch_defs same_audio_def split: if_splits option.splits pcm_read.splits)

lemma same_audio_results:
  "hand_off s u env c = (pc', c') \<Longrightarrow> same_audio (Hand_Off s u) c pc' c'"
  "dispatch_check s u r c = (pc', c') \<Longrightarrow> same_audio (Dispatch_Check s u r) c pc' c'"
  "on_result_call s u r env c = (pc', c') \<Longrightarrow> same_audio (On_Result_Call s u r) c pc' c'"
  "on_wake_call env c = (pc', c') \<Longrightarrow> same_audio (On_Wake_Call s u r) c pc' c'"
  by (auto simp: stretch_defs same_audio_def split: if_splits option.splits)

lemma same_audio_record:
  "record_result en s u r env c = (pc', c') \<Longrightarrow> same_audio (Record_Result s u r) c pc' c'"
  by (cases "wr_wake r") (auto simp: record_result_def same_audio_def Let_def)

lemma same_audio_detect:
  "detect_call detect s u t env c w = (pc', c', w') \<Longrightarrow> same_audio (Detect_Call s u t) c pc' c'"
  by (auto simp: detect_call_def same_audio_def split: prod.splits sum.splits)

context recording_segmenter
begin

definition audio_ok :: "capture_pc \<Rightarrow> 's wake_capture \<Rightarrow> bool" where
  "audio_ok pc c \<longleftrightarrow> inv (wc_segmenter c)
     \<and> suffix (buffered (wc_segmenter c)) (concat (map snd (wc_fed c)))
     \<and> (\<forall>s u. carried pc = Some (s, u) \<longrightarrow> good u \<and> from_stream s u (wc_heard c))"

lemma audio_ok_same: "audio_ok pc c \<Longrightarrow> same_audio pc c pc' c' \<Longrightarrow> audio_ok pc' c'"
  by (auto simp: audio_ok_def same_audio_def)

lemma audio_ok_reset:
  assumes "audio_ok pc c" and "wc_segmenter c' = reset (wc_segmenter c)" and "wc_fed c' = []"
    and "wc_heard c' = wc_heard c" and "carried pc' = None \<or> carried pc' = carried pc"
  shows "audio_ok pc' c'"
  using assms reset_inv reset_empty by (auto simp: audio_ok_def)

lemma audio_ok_process:
  assumes "audio_ok (Process_Chunk s p) c" and "mic_ok (Process_Chunk s p) c"
    and "process_chunk process s p env c = (pc', c')"
  shows "audio_ok pc' c'"
proof (cases "retired s c")
  case True
  with assms show ?thesis by (auto simp: process_chunk_def audio_ok_def)
next
  case False
  then have st: "wc_stream c = Some s" by (simp add: retired_def)
  have inv: "inv (wc_segmenter c)" and buf: "suffix (buffered (wc_segmenter c)) (concat (map snd (wc_fed c)))"
    using assms(1) by (simp_all add: audio_ok_def)
  obtain r sg where pr: "process p (wc_segmenter c) = (r, sg)" by fastforce
  have inv': "inv sg" by (rule process_inv_step[OF inv pr])
  show ?thesis
  proof (cases r)
    case (Inl e)
    with raise_buffered[of p "wc_segmenter c" e sg] pr False assms(3) inv' buf show ?thesis
      by (auto simp: process_chunk_def audio_ok_def Let_def)
  next
    case (Inr res)
    let ?fed = "wc_fed c @ [(s, p)]"
    have b: "case sr_utterance res of None \<Rightarrow> suffix (buffered sg) (buffered (wc_segmenter c) @ p)
        | Some u \<Rightarrow> vu_pcm u = buffered (wc_segmenter c) @ p \<and> buffered sg = []"
      using process_buffered[OF inv, of p res sg] pr Inr by simp
    have sf: "suffix (buffered (wc_segmenter c) @ p) (concat (map snd ?fed))"
      using buf by (simp add: suffix_def)
    have c': "wc_segmenter c' = sg" "wc_fed c' = ?fed" "wc_heard c' = wc_heard c @ [(s, p)]"
      and pc': "pc' = (case sr_utterance res of None \<Rightarrow> Loop_Test | Some u \<Rightarrow> Hand_Off s u)"
      using assms(3) False pr Inr
      by (auto simp: process_chunk_def count_chunk_def Let_def split: if_splits)
    have buf': "suffix (buffered sg) (concat (map snd ?fed))"
      using b sf by (cases "sr_utterance res") (auto intro: suffix_order.trans)
    have "good u \<and> from_stream s u (wc_heard c')" if u: "sr_utterance res = Some u" for u
    proof
      show "good u" using process_good[OF inv, of p res sg u] pr Inr u by simp
      have "Suc s = wc_opened c" "list_all (\<lambda>y. Suc (fst y) = wc_opened c) (wc_fed c)"
        "suffix (wc_fed c) (wc_heard c)"
        using assms(2) st by (auto simp: mic_ok_def)
      then have "\<forall>y \<in> set ?fed. fst y = s" and "suffix ?fed (wc_heard c')"
        unfolding c' by (auto simp: list_all_iff suffix_def)
      then have "\<forall>y \<in> set ?fed. fst y = s" and "sublist ?fed (wc_heard c')"
        by (simp_all only: suffix_imp_sublist)
      moreover have "suffix (vu_pcm u) (concat (map snd ?fed))" using b sf u by simp
      ultimately show "from_stream s u (wc_heard c')" unfolding from_stream_def by blast
    qed
    then show ?thesis
      using inv' buf' c' pc' by (cases "sr_utterance res") (simp_all add: audio_ok_def)
  qed
qed

lemma audio_ok_loop_step:
  assumes "audio_ok pc c" and "mic_ok pc c"
    and "loop_step process reset detect en m env pc c w = (pc', c', w')"
  shows "audio_ok pc' c'"
proof (cases "\<exists>s p. pc = Process_Chunk s p")
  case True
  with assms audio_ok_process show ?thesis by (auto simp: loop_step_def split: prod.splits)
next
  case False
  show ?thesis
  proof (cases "\<exists>res. pc = Finish res")
    case True
    with assms(3) audio_ok_reset[OF assms(1), of c' pc'] show ?thesis
      by (auto simp: loop_step_def finish_def reset_segmenter_def close_stream_def)
  next
    case False
    with \<open>\<nexists>s p. pc = Process_Chunk s p\<close> assms(3) have "pc = Idle (the_elem {r. pc = Idle r}) \<and> pc' = pc \<and> c' = c \<or> same_audio pc c pc' c'"
      by (cases pc) (auto simp: loop_step_def split: prod.splits
          dest: same_audio_reads same_audio_results same_audio_record same_audio_detect)
    with assms(1) show ?thesis by (auto intro: audio_ok_same)
  qed
qed

definition capture_ok :: "('s, 'w) capture_system \<Rightarrow> bool" where
  "capture_ok sy \<longleftrightarrow> mic_ok (sy_pc sy) (sy_capture sy) \<and> audio_ok (sy_pc sy) (sy_capture sy)"

lemma capture_ok_init: "inv s0 \<Longrightarrow> buffered s0 = [] \<Longrightarrow> capture_ok (capture_system_init s0 w0)"
  using mic_ok_init[of None s0]
  by (simp add: capture_ok_def capture_system_init_def audio_ok_def) (simp add: wake_capture_init_def)

lemma run_enter_audio:
  "audio_ok (Idle res) c \<Longrightarrow> run_enter m c = (r, c') \<Longrightarrow>
     audio_ok (case r of Inl e \<Rightarrow> Idle (Some e) | Inr pc \<Rightarrow> pc) c'"
  by (auto simp: run_enter_def audio_ok_def split: if_splits)

lemma run_enter_running: "wc_running c \<Longrightarrow> snd (run_enter m c) = c"
  by (simp add: run_enter_def)

lemma capture_step_ok:
  assumes "capture_ok sy"
  shows "capture_ok (capture_step process reset detect en ev sy)"
proof (cases ev)
  case (Run_Call m)
  show ?thesis
  proof (cases "\<exists>res. sy_pc sy = Idle res")
    case True
    then obtain res where res: "sy_pc sy = Idle res" by blast
    obtain r c where e: "run_enter m (sy_capture sy) = (r, c)" by fastforce
    with assms res mic_ok_run_enter[OF _ e, of res] run_enter_audio[OF _ e, of res]
    show ?thesis by (cases r) (auto simp: capture_ok_def Run_Call)
  next
    case False
    then have "wc_running (sy_capture sy)"
      using assms by (cases "sy_pc sy") (auto simp: capture_ok_def mic_ok_def)
    with False assms run_enter_running[of "sy_capture sy" m] show ?thesis
      by (cases "sy_pc sy") (auto simp: capture_ok_def Run_Call)
  qed
next
  case (Loop_Continues env)
  obtain pc c w where l: "loop_step process reset detect en (sy_max sy) env (sy_pc sy)
      (sy_capture sy) (sy_world sy) = (pc, c, w)" by (metis surj_pair)
  with assms mic_ok_loop_step[OF _ l] audio_ok_loop_step[OF _ _ l] show ?thesis
    by (simp add: capture_ok_def Loop_Continues)
next
  case Pause_Call
  have "audio_ok (sy_pc sy) (sy_capture sy)" using assms by (simp add: capture_ok_def)
  from audio_ok_reset[OF this, of "capture_pause reset (sy_capture sy)" "sy_pc sy"] assms
    mic_ok_pause[of "sy_pc sy" "sy_capture sy" reset] show ?thesis
    by (simp add: capture_ok_def Pause_Call)
       (simp add: capture_pause_def reset_segmenter_def close_stream_def)
next
  case Resume_Call
  have "audio_ok (sy_pc sy) (sy_capture sy)" using assms by (simp add: capture_ok_def)
  from audio_ok_reset[OF this, of "capture_resume reset (sy_capture sy)" "sy_pc sy"] assms
    mic_ok_resume[of "sy_pc sy" "sy_capture sy" reset] show ?thesis
    by (simp add: capture_ok_def Resume_Call)
       (simp add: capture_resume_def reset_segmenter_def Let_def)
next
  case Stop_Event_Set
  with assms mic_ok_stop show ?thesis
    by (auto simp: capture_ok_def capture_stop_event_def audio_ok_def)
next
  case Stop_Closes
  with assms mic_ok_stop_close show ?thesis
    by (auto simp: capture_ok_def close_stream_def audio_ok_def)
qed

lemma capture_fold_ok:
  "capture_ok sy \<Longrightarrow> capture_ok (fold (capture_step process reset detect en) evs sy)"
  by (induction evs arbitrary: sy) (simp_all add: capture_step_ok)

lemma capture_run_ok:
  "inv s0 \<Longrightarrow> buffered s0 = [] \<Longrightarrow>
     capture_ok (capture_run process reset detect en evs (capture_system_init s0 w0))"
  unfolding capture_run_def by (rule capture_fold_ok[OF capture_ok_init])

end

section \<open>The health report\<close>

text \<open>What the report reads besides the capture: the clock, the supervisor's switch, the
  \<open>is_started\<close> of its detectors and the \<open>running\<close> of the open stream (\<open>None\<close> where the
  object has no such Boolean), and the device the capture is configured for.\<close>

record health_env =
  he_now :: int
  he_enabled :: bool
  he_detectors :: "bool option list"
  he_stream_running :: "bool option"
  he_device :: "string option"

record capture_health =
  ch_paused :: bool \<comment> \<open>the phase is reported as paused\<close>
  ch_phase :: capture_phase
  ch_running :: bool
  ch_stream_open :: bool
  ch_stream_running :: "bool option"
  ch_input_device :: "string option"
  ch_pcm_chunks_received :: nat
  ch_read_in_progress :: bool
  ch_read_started_ns :: "int option"
  ch_read_started_age_ms :: "real option"
  ch_read_completed_ns :: "int option"
  ch_read_completed_age_ms :: "real option"
  ch_pcm_chunks_processed :: nat
  ch_last_chunk_ns :: "int option"
  ch_last_chunk_age_ms :: "real option"
  ch_last_frame_ns :: "int option"
  ch_last_frame_age_ms :: "real option"
  ch_speech_frames :: nat
  ch_last_activity_ns :: "int option"
  ch_last_activity_age_ms :: "real option"
  ch_detector_enabled :: bool
  ch_readiness_known :: bool
  ch_detectors_armed :: bool
  ch_wake_path_armed :: bool
  ch_detection_in_progress :: bool
  ch_last_handoff_ns :: "int option"
  ch_detection_elapsed_ms :: "real option"
  ch_last_duration_ms :: "real option"
  ch_wake_checks :: nat
  ch_wake_rejections :: nat
  ch_last_decision :: "bool option"
  ch_last_decision_ns :: "int option"
  ch_utterances :: nat
  ch_wakes :: nat

definition age_ms :: "int \<Rightarrow> int option \<Rightarrow> real option" where
  "age_ms now t = map_option (\<lambda>t. max 0 (real_of_int (now - t) / 1000000)) t"

definition capture_health :: "health_env \<Rightarrow> 's wake_capture \<Rightarrow> capture_health" where
  "capture_health env c =
     (let now = he_now env;
          known = (he_detectors env \<noteq> [] \<and> list_all (\<lambda>v. v \<noteq> None) (he_detectors env));
          armed = (he_enabled env \<and> known \<and> list_all (\<lambda>v. v = Some True) (he_detectors env));
          stream_running = (if wc_stream c \<noteq> None then he_stream_running env else Some False);
          detecting = (wc_phase c = Phase_Detecting)
      in \<lparr>ch_paused = (wc_pause c \<and> wc_running c), ch_phase = wc_phase c,
          ch_running = wc_running c, ch_stream_open = (wc_stream c \<noteq> None),
          ch_stream_running = stream_running, ch_input_device = he_device env,
          ch_pcm_chunks_received = wc_pcm_chunks_received c,
          ch_read_in_progress = wc_read_in_progress c,
          ch_read_started_ns = wc_read_started_ns c,
          ch_read_started_age_ms =
            (if wc_read_in_progress c then age_ms now (wc_read_started_ns c) else None),
          ch_read_completed_ns = wc_read_completed_ns c,
          ch_read_completed_age_ms = age_ms now (wc_read_completed_ns c),
          ch_pcm_chunks_processed = wc_pcm_chunk_count c,
          ch_last_chunk_ns = wc_last_chunk_ns c,
          ch_last_chunk_age_ms = age_ms now (wc_last_chunk_ns c),
          ch_last_frame_ns = wc_last_frame_ns c,
          ch_last_frame_age_ms = age_ms now (wc_last_frame_ns c),
          ch_speech_frames = wc_vad_speech_frame_count c,
          ch_last_activity_ns = wc_last_activity_ns c,
          ch_last_activity_age_ms = age_ms now (wc_last_activity_ns c),
          ch_detector_enabled = he_enabled env, ch_readiness_known = known,
          ch_detectors_armed = armed,
          ch_wake_path_armed = (wc_running c \<and> \<not> wc_pause c \<and> wc_phase c = Phase_Listening
             \<and> stream_running = Some True \<and> armed),
          ch_detection_in_progress = detecting, ch_last_handoff_ns = wc_last_handoff_ns c,
          ch_detection_elapsed_ms =
            (if detecting then age_ms now (wc_last_handoff_ns c) else None),
          ch_last_duration_ms = wc_last_duration_ms c, ch_wake_checks = wc_wake_check_count c,
          ch_wake_rejections = wc_wake_rejection_count c, ch_last_decision = wc_last_decision c,
          ch_last_decision_ns = wc_last_decision_ns c, ch_utterances = wc_utterance_count c,
          ch_wakes = wc_wake_count c\<rparr>)"

lemma health_armed:
  "ch_wake_path_armed (capture_health env c) \<Longrightarrow>
     wc_running c \<and> \<not> wc_pause c \<and> wc_phase c = Phase_Listening \<and> wc_stream c \<noteq> None
     \<and> he_enabled env \<and> he_stream_running env = Some True
     \<and> he_detectors env \<noteq> [] \<and> set (he_detectors env) = {Some True}"
  by (cases "he_detectors env")
     (auto simp: capture_health_def Let_def list_all_iff split: if_splits)

lemma health_age: "age_ms now t = Some a \<Longrightarrow> 0 \<le> a"
  by (auto simp: age_ms_def)

section \<open>Stopping\<close>

text \<open>How many stretches are left once \<open>stop\<close> was called.\<close>

fun stretches_left :: "capture_pc \<Rightarrow> nat" where
  "stretches_left (Idle _) = 0"
| "stretches_left (Finish _) = 1"
| "stretches_left Loop_Test = 2"
| "stretches_left (After_Empty_Chunk _) = 2"
| "stretches_left (Read_Failed _ _) = 4"
| "stretches_left (Read_Returned _ _) = 4"
| "stretches_left (Record_Result _ _ _) = 4"
| "stretches_left (On_Wake_Call _ _ _) = 4"
| "stretches_left (Read_Call _) = 5"
| "stretches_left (Detect_Call _ _ _) = 5"
| "stretches_left (On_Result_Call _ _ _) = 5"
| "stretches_left (Hand_Off _ _) = 6"
| "stretches_left _ = 3"

lemma stretches_left_le: "stretches_left pc \<le> 6"
  by (cases pc) simp_all

lemma record_result_stop:
  "record_result en s u r env c = (pc', c') \<Longrightarrow> wc_stop c' = wc_stop c \<and> pc' = Dispatch_Check s u r"
  by (cases "wr_wake r") (auto simp: record_result_def Let_def)

lemma process_chunk_stop:
  "process_chunk process s p env c = (pc', c') \<Longrightarrow> wc_stop c \<Longrightarrow> wc_stop c' \<and> pc' = Loop_Test"
  by (auto simp: process_chunk_def retired_def)

lemma loop_step_stopping:
  assumes "wc_stop c" and "loop_step process reset detect en m env pc c w = (pc', c', w')"
  shows "wc_stop c' \<and> stretches_left pc' \<le> stretches_left pc - 1"
  using assms
  by (cases pc) (auto simp: loop_step_def stretch_defs detect_call_def
      split: prod.splits if_splits option.splits pcm_read.splits sum.splits
      dest: record_result_stop process_chunk_stop)

fun is_stretch :: "capture_event \<Rightarrow> bool" where
  "is_stretch (Loop_Continues _) = True"
| "is_stretch _ = False"

lemma capture_step_stopping:
  assumes "wc_stop (sy_capture sy)"
  shows "wc_stop (sy_capture (capture_step process reset detect en ev sy))
    \<and> stretches_left (sy_pc (capture_step process reset detect en ev sy))
      \<le> stretches_left (sy_pc sy) - (if is_stretch ev then 1 else 0)"
proof (cases ev)
  case (Loop_Continues env)
  obtain pc c w where l: "loop_step process reset detect en (sy_max sy) env (sy_pc sy)
      (sy_capture sy) (sy_world sy) = (pc, c, w)" by (metis surj_pair)
  with assms loop_step_stopping[OF _ l] show ?thesis by (simp add: Loop_Continues)
next
  case (Run_Call m)
  with assms show ?thesis by (cases "sy_pc sy") (auto simp: run_enter_def split: option.splits)
qed (use assms in \<open>auto simp: capture_pause_def capture_resume_def reset_segmenter_def
      close_stream_def capture_stop_event_def Let_def\<close>)

lemma capture_run_stopping:
  "wc_stop (sy_capture sy) \<Longrightarrow>
     stretches_left (sy_pc (capture_run process reset detect en evs sy))
       \<le> stretches_left (sy_pc sy) - length (filter is_stretch evs)"
proof (induction evs arbitrary: sy)
  case (Cons ev evs)
  from capture_step_stopping[OF Cons.prems, of process reset detect en ev]
    Cons.IH[of "capture_step process reset detect en ev sy"]
  show ?case by (auto simp: capture_run_def split: if_splits)
qed (simp add: capture_run_def)

lemma stretches_left_idle: "stretches_left pc = 0 \<longleftrightarrow> is_idle pc"
  by (cases pc) simp_all

lemma loop_step_keeps_pause:
  "loop_step process reset detect en m env pc c w = (pc', c', w') \<Longrightarrow> wc_pause c' = wc_pause c"
  by (cases pc) (auto simp: loop_step_def stretch_defs detect_call_def process_chunk_def
      count_chunk_def split: prod.splits if_splits option.splits pcm_read.splits sum.splits)

lemma capture_step_keeps_pause:
  assumes "e \<noteq> Resume_Call" and "wc_pause (sy_capture sy)"
  shows "wc_pause (sy_capture (capture_step process reset detect en e sy))"
proof (cases e)
  case (Loop_Continues env)
  obtain pc c w where l: "loop_step process reset detect en (sy_max sy) env (sy_pc sy)
      (sy_capture sy) (sy_world sy) = (pc, c, w)" by (metis surj_pair)
  with assms loop_step_keeps_pause[OF l] show ?thesis by (simp add: Loop_Continues)
next
  case (Run_Call m)
  with assms show ?thesis by (cases "sy_pc sy") (auto simp: run_enter_def split: option.splits)
qed (use assms in \<open>auto simp: capture_pause_def reset_segmenter_def close_stream_def
      capture_stop_event_def\<close>)

section \<open>A small run\<close>

text \<open>One stretch at clock 0 in which the microphone delivers \<open>p\<close> and no callback raises.\<close>

definition quiet :: "pcm \<Rightarrow> capture_event" where
  "quiet p = Loop_Continues \<lparr>le_now = 0, le_open = None, le_read = Read_Chunk p, le_callback = None\<rparr>"

definition no_wake :: "voice_utterance \<Rightarrow> (unit, supervisor_result) act" where
  "no_wake u = act_ok \<lparr>wr_enabled = False, wr_wake = False, wr_source = None, wr_remainder = [],
     wr_primary = None, wr_fallback = None\<rparr>"

definition tiny_capture_run :: "capture_event list \<Rightarrow> (unit segmenter, unit) capture_system" where
  "tiny_capture_run evs = capture_run (segmenter_process byte_detector)
     (segmenter_reset byte_detector) no_wake False evs
     (capture_system_init (segmenter_init tiny_audio (tiny_vad 4) ()) ())"

text \<open>Six stretches take one chunk from the microphone through the segmenter.\<close>

definition chunk_events :: "pcm \<Rightarrow> capture_event list" where
  "chunk_events p = replicate 6 (quiet p)"

definition tiny_capture_events :: "capture_event list" where
  "tiny_capture_events = Run_Call None # concat (map chunk_events (take 6 tiny_chunks))"

text \<open>The loop is about to read the stream \<open>s\<close>, already open or still to be opened, with its segmenter in state \<open>sg\<close>.\<close>

definition listening :: "nat \<Rightarrow> ('s, 'w) capture_system \<Rightarrow> 's \<Rightarrow> bool" where
  "listening s sy sg \<longleftrightarrow> sy_pc sy = Loop_Test \<and> \<not> wc_stop (sy_capture sy)
     \<and> \<not> wc_pause (sy_capture sy) \<and> (wc_stream (sy_capture sy) = Some s
         \<or> wc_stream (sy_capture sy) = None \<and> wc_opened (sy_capture sy) = s)
     \<and> wc_segmenter (sy_capture sy) = sg"

lemmas chunk_run_defs = capture_run_def chunk_events_def quiet_def numeral_eq_Suc loop_step_def
  stretch_defs

lemma chunk_run:
  assumes "listening s sy sg" and "p \<noteq> []" and "process p sg = (Inr r, sg')"
  shows "case sr_utterance r of
      None \<Rightarrow> listening s (capture_run process reset detect en (chunk_events p) sy) sg'
    | Some u \<Rightarrow> sy_pc (capture_run process reset detect en (chunk_events p) sy) = Hand_Off s u"
proof -
  have "wc_stream (sy_capture sy) = Some s
    \<or> wc_stream (sy_capture sy) = None \<and> wc_opened (sy_capture sy) = s"
    using assms(1) by (simp add: listening_def)
  then show ?thesis
  proof (elim disjE conjE)
    assume "wc_stream (sy_capture sy) = Some s"
    with assms show ?thesis
      by (cases "sr_utterance r")
         (simp_all add: listening_def chunk_run_defs process_chunk_def count_chunk_def)
  next
    assume o: "wc_stream (sy_capture sy) = None" "wc_opened (sy_capture sy) = s"
    have l: "sy_pc sy = Loop_Test" "\<not> wc_stop (sy_capture sy)" "\<not> wc_pause (sy_capture sy)"
      "wc_segmenter (sy_capture sy) = sg" using assms(1) by (simp_all add: listening_def)
    from o l assms(2,3) show ?thesis
      by (cases "sr_utterance r")
         (simp_all add: listening_def chunk_run_defs process_chunk_def count_chunk_def)
  qed
qed

lemma chunks_run:
  assumes "listening s sy sg" and "[] \<notin> set ps"
    and "segmenter_run det ps sg = (Inr (fl, []), sg')"
  shows "listening s (capture_run (segmenter_process det) (segmenter_reset det) detect en
    (concat (map chunk_events ps)) sy) sg'"
  using assms
proof (induction ps arbitrary: sg sy fl)
  case Nil
  then show ?case by (simp add: capture_run_def)
next
  case (Cons p ps)
  then obtain r sg1 fl1 where p: "segmenter_process det p sg = (Inr r, sg1)"
    and u: "sr_utterance r = None" and rest: "segmenter_run det ps sg1 = (Inr (fl1, []), sg')"
    by (auto simp: emitted_def split: prod.splits sum.splits option.splits)
  from chunk_run[where process = "segmenter_process det" and reset = "segmenter_reset det" and
      detect = detect and en = en and sy = sy and sg = sg and p = p and s = s and r = r] Cons.prems u p
  have "listening s (capture_run (segmenter_process det) (segmenter_reset det) detect en
    (chunk_events p) sy) sg1" by auto
  from Cons.IH[OF this _ rest] Cons.prems(2) show ?case by (simp add: capture_run_def)
qed


lemma tiny_listening:
  "listening 0 (capture_step process reset detect en (Run_Call m) (capture_system_init s0 w0)) s0"
  if "case m of None \<Rightarrow> True | Some k \<Rightarrow> 0 < k"
  using that by (auto simp: listening_def capture_system_init_def wake_capture_init_def run_enter_def
      split: option.splits)

lemma segmenter_init_pending: "pending (segmenter_init ac vc d) = []"
  by (simp add: pending_def segmenter_init_def)

lemma tiny_wf: "segmenter_wf (segmenter_init tiny_audio (tiny_vad 4) ())"
  by (rule segmenter_init_wf[OF tiny_checks(1) tiny_checks(2)]) simp

lemma tiny_run_open:
  "\<exists>fl sg1. segmenter_run byte_detector (take 5 tiny_chunks)
     (segmenter_init tiny_audio (tiny_vad 4) ()) = (Inr (fl, []), sg1)
   \<and> (\<exists>r sg2. segmenter_process byte_detector [0, 9] sg1 = (Inr r, sg2)
        \<and> sr_utterance r = Some tiny_utterance)"
  unfolding tiny_init
  by (simp add: tiny_chunks_def segmenter_process_def tiny_audio_def chunk_bytes_def
      chunk_frames_def byte_detector_def byte_frame_def process_idle_def process_active_def
      segmenter_finish_def clear_active_state_def result_of_def pre_roll_maxlen_def
      deque_append_def emitted_def tiny_utterance_def)

lemma tiny_capture_hand_off:
  "sy_pc (tiny_capture_run tiny_capture_events) = Hand_Off 0 tiny_utterance"
proof -
  obtain fl sg1 r sg2 where a: "segmenter_run byte_detector (take 5 tiny_chunks)
      (segmenter_init tiny_audio (tiny_vad 4) ()) = (Inr (fl, []), sg1)"
    "segmenter_process byte_detector [0, 9] sg1 = (Inr r, sg2)" "sr_utterance r = Some tiny_utterance"
    using tiny_run_open by blast
  have l: "[] \<notin> set (take 5 tiny_chunks)" by (simp add: tiny_chunks_def)
  have e: "concat (map chunk_events (take 6 tiny_chunks)) =
    concat (map chunk_events (take 5 tiny_chunks)) @ chunk_events [0, 9]"
    by (simp add: tiny_chunks_def)
  let ?run = "capture_run (segmenter_process byte_detector) (segmenter_reset byte_detector) no_wake
    False"
  let ?sy = "capture_step (segmenter_process byte_detector) (segmenter_reset byte_detector) no_wake
    False (Run_Call None)
    (capture_system_init (segmenter_init tiny_audio (tiny_vad 4) ()) ())"
  have "listening 0 (?run (concat (map chunk_events (take 5 tiny_chunks))) ?sy) sg1"
    by (rule chunks_run[OF tiny_listening l a(1)]) simp
  from chunk_run[where process = "segmenter_process byte_detector" and
      reset = "segmenter_reset byte_detector" and detect = no_wake and en = False, OF this _ a(2)] a(3)
  show ?thesis
    unfolding tiny_capture_run_def tiny_capture_events_def capture_run_def fold_simps comp_def e
      fold_append by simp
qed

section \<open>Properties\<close>



text \<open>C6: the microphone has one owner: while the wake path is paused its stream is closed and no
  read is in progress; a loop that does not run has released the stream and reports the phase
  stopped; the open stream is always the newest one; and the health report calls the wake path
  armed only while the loop runs, listens on an open stream and is not paused.\<close>

theorem wake_microphone_single_owner:
  assumes "segmenter_wf (segmenter_init ac vc d)"
    and "sy = capture_run (segmenter_process det) (segmenter_reset det) detect en evs
                (capture_system_init (segmenter_init ac vc d) w)"
  shows "(wc_pause (sy_capture sy) \<longrightarrow>
        wc_stream (sy_capture sy) = None \<and> \<not> wc_read_in_progress (sy_capture sy))
    \<and> (\<not> wc_running (sy_capture sy) \<longleftrightarrow> is_idle (sy_pc sy))
    \<and> (is_idle (sy_pc sy) \<longrightarrow> wc_stream (sy_capture sy) = None
        \<and> \<not> wc_read_in_progress (sy_capture sy) \<and> wc_phase (sy_capture sy) = Phase_Stopped)
    \<and> (\<forall>s. wc_stream (sy_capture sy) = Some s \<longrightarrow> Suc s = wc_opened (sy_capture sy))
    \<and> (ch_wake_path_armed (capture_health env (sy_capture sy)) \<longrightarrow>
        \<not> is_idle (sy_pc sy) \<and> \<not> wc_pause (sy_capture sy) \<and> wc_stream (sy_capture sy) \<noteq> None)
    \<and> wc_wake_count (sy_capture sy) + wc_wake_rejection_count (sy_capture sy)
        \<le> wc_utterance_count (sy_capture sy)"
proof -
  have "vad_recorder.capture_ok (segmenter_init ac vc d) sy"
    unfolding assms(2) by (rule vad_recorder.capture_run_ok)
      (simp_all add: segmenter_init_inv[OF assms(1)] segmenter_init_pending)
  then have "mic_ok (sy_pc sy) (sy_capture sy)" by (simp add: vad_recorder.capture_ok_def)
  with health_armed[of env "sy_capture sy"] show ?thesis by (auto simp: mic_ok_def)
qed

theorem wake_microphone_single_owner_witness:
  "wc_stream (sy_capture (tiny_capture_run [Run_Call None, quiet [], quiet [], Pause_Call])) = None
   \<and> wc_pause (sy_capture (tiny_capture_run [Run_Call None, quiet [], quiet [], Pause_Call]))"
proof -
  let ?sy = "tiny_capture_run [Run_Call None, quiet [], quiet [], Pause_Call]"
  have "wc_pause (sy_capture ?sy)"
    by (simp add: tiny_capture_run_def capture_run_def capture_pause_def reset_segmenter_def
        close_stream_def)
  with wake_microphone_single_owner[OF tiny_wf tiny_capture_run_def, of
      "[Run_Call None, quiet [], quiet [], Pause_Call]"] show ?thesis by blast
qed

text \<open>what the loop takes to detection and on to its callbacks is one owner's speech: the
  utterance meets the segmenter's guarantees, and its audio is a contiguous piece of what a
  single stream delivered, with no pause and no other stream in between.\<close>

theorem detected_utterance_from_one_stream:
  assumes "segmenter_wf (segmenter_init ac vc d)"
    and "sy = capture_run (segmenter_process det) (segmenter_reset det) detect en evs
                (capture_system_init (segmenter_init ac vc d) w)"
    and "carried (sy_pc sy) = Some (s, u)"
  shows "utterance_ok (segmenter_init ac vc d) u \<and> from_stream s u (wc_heard (sy_capture sy))"
proof -
  have "vad_recorder.capture_ok (segmenter_init ac vc d) sy"
    unfolding assms(2) by (rule vad_recorder.capture_run_ok)
      (simp_all add: segmenter_init_inv[OF assms(1)] segmenter_init_pending)
  with assms(3) show ?thesis by (simp add: vad_recorder.capture_ok_def vad_recorder.audio_ok_def)
qed

theorem detected_utterance_from_one_stream_witness:
  "utterance_ok (segmenter_init tiny_audio (tiny_vad 4) ()) tiny_utterance
   \<and> from_stream 0 tiny_utterance (wc_heard (sy_capture (tiny_capture_run tiny_capture_events)))"
  by (rule detected_utterance_from_one_stream[OF tiny_wf tiny_capture_run_def])
     (simp add: tiny_capture_hand_off)

text \<open>C8: stopping is prompt and final: once the stop event is set the loop ends within six of its
  stretches, whatever the microphone, the callbacks and other callers do, and a later run
  does not start it again.\<close>

theorem stop_ends_wake_loop:
  assumes "wc_stop (sy_capture sy)" and "6 \<le> length (filter is_stretch evs)"
  shows "is_idle (sy_pc (capture_run process reset detect en evs sy))"
  using capture_run_stopping[OF assms(1), of process reset detect en evs] assms(2)
    stretches_left_le[of "sy_pc sy"] stretches_left_idle by fastforce

theorem stop_ends_wake_loop_witness:
  "is_idle (sy_pc (capture_run (segmenter_process byte_detector) (segmenter_reset byte_detector)
     no_wake False (replicate 6 (quiet []))
     (tiny_capture_run [Run_Call None, quiet [], Stop_Event_Set])))"
  by (rule stop_ends_wake_loop)
     (simp_all add: tiny_capture_run_def capture_run_def capture_system_init_def
       wake_capture_init_def run_enter_def loop_step_def stretch_defs quiet_def
       capture_stop_event_def numeral_eq_Suc)

section \<open>A result can be dispatched after the pause\<close>

text \<open>
  The loop checks its stream, the pause and the stop under the lock and calls back after it
  has dropped the lock. A pause between the two is not seen: the wake callback is still
  entered, with the microphone already given away, although the code's comment says that a
  result of a retired generation is never dispatched.
\<close>

lemma wake_dispatched_after_pause:
  assumes "sy_pc sy = On_Result_Call s u r" and "wr_wake r" and "le_callback env = None"
    and "sy' = capture_run process reset detect en [Pause_Call, Loop_Continues env] sy"
  shows "sy_pc sy' = On_Wake_Call s u r \<and> wc_pause (sy_capture sy') \<and> retired s (sy_capture sy')"
  using assms
  by (simp add: capture_run_def loop_step_def on_result_call_def capture_pause_def
      reset_segmenter_def close_stream_def retired_def)

end
