(* ===== verification/Wake_Orchestrator.thy ===== *)
theory Wake_Orchestrator
  imports Wake_Capture
begin

text \<open>
  The handoff of the microphone between the wake loop and a voice conversation:
  \<open>voice/wake_orchestrator.py\<close>. The conversation, the follow-up captures and the wake capture
  are reached through their boundaries, which act on a world; a history records every call
  with the world it was made in. The session loop has fuel: the result \<open>None\<close> means that the
  session is still going on after that many rounds.
\<close>

section \<open>Boundaries and calls\<close>

record turn_options =
  to_system_prompt :: pystr
  to_temperature :: real
  to_max_tokens :: int

text \<open>Optional methods of the voice are the ones the code looks up with \<open>getattr\<close>.\<close>

record 'w voice_boundary =
  vb_begin_session :: "('w, unit) act option"
  vb_start_listening :: "('w, unit) act"
  vb_stop_listening :: "string \<Rightarrow> ('w, unit) act"
  vb_mark_speech_ended :: "(real \<Rightarrow> ('w, unit) act) option"
  vb_acknowledge :: "('w, unit) act option"
  vb_stream_text :: "pystr \<Rightarrow> turn_options \<Rightarrow> ('w, pystr list) act"
  vb_stream_utterance :: "voice_utterance \<Rightarrow> turn_options \<Rightarrow> ('w, pystr list) act"
  vb_close_session :: "('w, unit) act option"
  vb_session_closed :: "'w \<Rightarrow> bool"

type_synonym 'w follow_up_boundary = "('w, voice_utterance option) act"

record 'w wake_orchestrator =
  wo_pause :: "'w \<Rightarrow> 'w"
  wo_resume :: "'w \<Rightarrow> 'w"
  wo_voice :: "'w voice_boundary"
  wo_follow_up :: "'w follow_up_boundary option"
  wo_session_follow_up :: "'w follow_up_boundary option"

record wake_capture_event =
  we_utterance :: voice_utterance
  we_result :: supervisor_result
  we_speech_ended :: "real option"

record wake_turn_result =
  wt_source :: "pystr option"
  wt_remainder :: pystr
  wt_response :: pystr

datatype turn_call =
    Pause_Wake
  | Resume_Wake
  | Begin_Session
  | Start_Listening
  | Stop_Listening string
  | Mark_Speech_Ended real
  | Acknowledge
  | Capture_Follow_Up
  | Captured "voice_utterance option"
  | Stream_Text pystr
  | Stream_Utterance voice_utterance
  | Close_Session

record 'w turn_state =
  ts_world :: 'w
  ts_calls :: "(turn_call \<times> 'w) list" \<comment> \<open>history\<close>

definition voice_call :: "turn_call \<Rightarrow> ('w, 'a) act \<Rightarrow> ('w turn_state, 'a) act" where
  "voice_call k m s =
     (case m (ts_world s) of
        (r, w) \<Rightarrow> (r, \<lparr>ts_world = w, ts_calls = ts_calls s @ [(k, ts_world s)]\<rparr>))"

definition optional_call :: "turn_call \<Rightarrow> ('w, unit) act option \<Rightarrow> ('w turn_state, unit) act" where
  "optional_call k m = (case m of None \<Rightarrow> act_ok () | Some m \<Rightarrow> voice_call k m)"

definition capture_call :: "'w follow_up_boundary \<Rightarrow> ('w turn_state, voice_utterance option) act" where
  "capture_call cap =
     act_bind (voice_call Capture_Follow_Up cap)
       (\<lambda>u. act_bind (voice_call (Captured u) (act_ok ())) (\<lambda>_. act_ok u))"

section \<open>The turn\<close>

text \<open>\<open>handle_wake_utterance\<close>: what the turn speaks first, or \<open>None\<close> after a silent bare wake.\<close>

definition inline_chunks ::
    "'w wake_orchestrator \<Rightarrow> turn_options \<Rightarrow> wake_capture_event
     \<Rightarrow> ('w turn_state, pystr list) act" where
  "inline_chunks o' opts ev =
     act_seq
       (case (we_speech_ended ev, vb_mark_speech_ended (wo_voice o')) of
          (Some t, Some mark) \<Rightarrow> voice_call (Mark_Speech_Ended t) (mark t)
        | _ \<Rightarrow> act_ok ())
       (voice_call (Stream_Text (wr_remainder (we_result ev)))
         (vb_stream_text (wo_voice o') (wr_remainder (we_result ev)) opts))"

definition stop_call :: "'w wake_orchestrator \<Rightarrow> string \<Rightarrow> ('w turn_state, unit) act" where
  "stop_call o' reason = voice_call (Stop_Listening reason) (vb_stop_listening (wo_voice o') reason)"

definition stream_call ::
    "'w wake_orchestrator \<Rightarrow> turn_options \<Rightarrow> voice_utterance \<Rightarrow> ('w turn_state, pystr list) act" where
  "stream_call o' opts u = voice_call (Stream_Utterance u) (vb_stream_utterance (wo_voice o') u opts)"

definition bare_chunks ::
    "'w wake_orchestrator \<Rightarrow> turn_options \<Rightarrow> ('w turn_state, pystr list option) act" where
  "bare_chunks o' opts =
     act_seq (optional_call Acknowledge (vb_acknowledge (wo_voice o')))
       (case wo_follow_up o' of
          None \<Rightarrow>
            act_seq (stop_call o' ''bare_wake_follow_up_unavailable'')
              (act_raise (Exn WakeVoiceOrchestrationErrorC
                 ''bare wake requires a fresh follow-up capture boundary''))
        | Some cap \<Rightarrow>
            act_bind
              (act_catch (capture_call cap)
                (\<lambda>e. act_seq (stop_call o' ''bare_wake_follow_up_error'') (act_raise e)))
              (\<lambda>follow_up. case follow_up of
                 None \<Rightarrow> act_seq (stop_call o' ''bare_wake_follow_up_timeout'') (act_ok None)
               | Some u \<Rightarrow> act_bind (stream_call o' opts u) (\<lambda>cs. act_ok (Some cs))))"

text \<open>The loop of an active session, with the parts of the response so far.\<close>

fun session_loop ::
    "nat \<Rightarrow> 'w wake_orchestrator \<Rightarrow> turn_options \<Rightarrow> pystr list
     \<Rightarrow> ('w turn_state, pystr list option) act" where
  "session_loop 0 o' opts parts s = act_ok None s"
| "session_loop (Suc n) o' opts parts s =
     (case wo_session_follow_up o' of
        None \<Rightarrow> act_ok (Some parts) s
      | Some cap \<Rightarrow>
          if vb_session_closed (wo_voice o') (ts_world s) then act_ok (Some parts) s
          else
            act_seq (voice_call Start_Listening (vb_start_listening (wo_voice o')))
              (act_bind (capture_call cap)
                (\<lambda>follow_up. case follow_up of
                   None \<Rightarrow>
                     act_seq (stop_call o' ''voice_session_idle_timeout'')
                       (act_seq (optional_call Close_Session (vb_close_session (wo_voice o')))
                         (act_ok (Some parts)))
                 | Some u \<Rightarrow>
                     act_bind (stream_call o' opts u)
                       (\<lambda>cs. session_loop n o' opts (parts @ cs)))) s)"

definition close_ended_session :: "'w wake_orchestrator \<Rightarrow> ('w turn_state, unit) act" where
  "close_ended_session o' s =
     (if vb_session_closed (wo_voice o') (ts_world s)
      then optional_call Close_Session (vb_close_session (wo_voice o')) s
      else act_ok () s)"

definition session_turn ::
    "nat \<Rightarrow> 'w wake_orchestrator \<Rightarrow> turn_options \<Rightarrow> wake_capture_event \<Rightarrow> pystr list
     \<Rightarrow> ('w turn_state, wake_turn_result option) act" where
  "session_turn fuel o' opts ev chunks =
     act_bind (session_loop fuel o' opts chunks)
       (\<lambda>parts. case parts of
          None \<Rightarrow> act_ok None
        | Some ps \<Rightarrow>
            act_seq (close_ended_session o')
              (act_ok (Some \<lparr>wt_source = wr_source (we_result ev),
                 wt_remainder = wr_remainder (we_result ev), wt_response = concat ps\<rparr>)))"

definition turn_body ::
    "nat \<Rightarrow> 'w wake_orchestrator \<Rightarrow> turn_options \<Rightarrow> wake_capture_event
     \<Rightarrow> ('w turn_state, wake_turn_result option) act" where
  "turn_body fuel o' opts ev =
     act_seq (optional_call Begin_Session (vb_begin_session (wo_voice o')))
       (act_seq (voice_call Start_Listening (vb_start_listening (wo_voice o')))
         (if wr_remainder (we_result ev) \<noteq> []
          then act_bind (inline_chunks o' opts ev) (session_turn fuel o' opts ev)
          else
            act_bind (bare_chunks o' opts)
              (\<lambda>chunks. case chunks of
                 None \<Rightarrow> act_ok (Some \<lparr>wt_source = wr_source (we_result ev),
                           wt_remainder = [], wt_response = []\<rparr>)
               | Some cs \<Rightarrow> session_turn fuel o' opts ev cs)))"

text \<open>The wake microphone is resumed when the body is left, normally or by an exception.\<close>

definition handle_wake_utterance ::
    "nat \<Rightarrow> 'w wake_orchestrator \<Rightarrow> turn_options \<Rightarrow> wake_capture_event
     \<Rightarrow> ('w turn_state, wake_turn_result option) act" where
  "handle_wake_utterance fuel o' opts ev s =
     (if \<not> wr_wake (we_result ev) then
        (Inl (Exn WakeVoiceOrchestrationErrorC ''cannot start a voice turn from a non-wake event''), s)
      else
        let s1 = snd (voice_call Pause_Wake (act_lift (wo_pause o')) s)
        in case turn_body fuel o' opts ev s1 of
             (Inr None, s2) \<Rightarrow> (Inr None, s2)
           | (r, s2) \<Rightarrow> (r, snd (voice_call Resume_Wake (act_lift (wo_resume o')) s2)))"

section \<open>The protocol of a turn\<close>

datatype turn_phase =
    Asleep | Opening | Hearing | Reading | Silent | Heard voice_utterance
  | Answering | Ending | Violation

text \<open>
  The abstract turn: which call may follow which. A streamed utterance must be the one just
  captured, a capture needs \<open>start_listening\<close> first, and only a sleeping Friday is woken.
\<close>

definition turn_monitor :: "turn_phase \<Rightarrow> turn_call \<Rightarrow> turn_phase" where
  "turn_monitor ph k =
     (case ph of
        Asleep \<Rightarrow>
          (case k of Pause_Wake \<Rightarrow> Opening
           | _ \<Rightarrow> Violation)
      | Opening \<Rightarrow>
          (case k of Begin_Session \<Rightarrow> Opening
           | Start_Listening \<Rightarrow> Hearing
           | Resume_Wake \<Rightarrow> Asleep
           | _ \<Rightarrow> Violation)
      | Hearing \<Rightarrow>
          (case k of Mark_Speech_Ended _ \<Rightarrow> Hearing
           | Acknowledge \<Rightarrow> Hearing
           | Stream_Text _ \<Rightarrow> Answering
           | Capture_Follow_Up \<Rightarrow> Reading
           | Stop_Listening _ \<Rightarrow> Ending
           | Resume_Wake \<Rightarrow> Asleep
           | _ \<Rightarrow> Violation)
      | Reading \<Rightarrow>
          (case k of Captured None \<Rightarrow> Silent
           | Captured (Some u) \<Rightarrow> Heard u
           | Stop_Listening _ \<Rightarrow> Ending
           | Resume_Wake \<Rightarrow> Asleep
           | _ \<Rightarrow> Violation)
      | Silent \<Rightarrow>
          (case k of Stop_Listening _ \<Rightarrow> Ending
           | _ \<Rightarrow> Violation)
      | Heard u \<Rightarrow>
          (case k of Stream_Utterance v \<Rightarrow> (if u = v then Answering else Violation)
           | _ \<Rightarrow> Violation)
      | Answering \<Rightarrow>
          (case k of Start_Listening \<Rightarrow> Hearing
           | Close_Session \<Rightarrow> Ending
           | Resume_Wake \<Rightarrow> Asleep
           | _ \<Rightarrow> Violation)
      | Ending \<Rightarrow>
          (case k of Close_Session \<Rightarrow> Ending
           | Resume_Wake \<Rightarrow> Asleep
           | _ \<Rightarrow> Violation)
      | Violation \<Rightarrow> Violation)"

lemma turn_monitor_moves [simp]:
  "turn_monitor Asleep Pause_Wake = Opening" "turn_monitor Opening Begin_Session = Opening"
  "turn_monitor Opening Start_Listening = Hearing"
  "turn_monitor Hearing (Mark_Speech_Ended t) = Hearing" "turn_monitor Hearing Acknowledge = Hearing"
  "turn_monitor Hearing (Stream_Text p) = Answering" "turn_monitor Hearing Capture_Follow_Up = Reading"
  "turn_monitor Hearing (Stop_Listening r) = Ending" "turn_monitor Reading (Stop_Listening r) = Ending"
  "turn_monitor Silent (Stop_Listening r) = Ending"
  "turn_monitor (Heard u) (Stream_Utterance v) = (if u = v then Answering else Violation)"
  "turn_monitor Answering Start_Listening = Hearing" "turn_monitor Answering Close_Session = Ending"
  "turn_monitor Ending Close_Session = Ending"
  by (simp_all add: turn_monitor_def)

definition turn_phase_of :: "(turn_call \<times> 'w) list \<Rightarrow> turn_phase" where
  "turn_phase_of calls = foldl turn_monitor Asleep (map fst calls)"

text \<open>The turn is in one of the phases \<open>A\<close> and every call after a pause found \<open>R\<close> in the world.\<close>

definition turn_at :: "('w \<Rightarrow> bool) \<Rightarrow> turn_phase set \<Rightarrow> 'w turn_state \<Rightarrow> bool" where
  "turn_at R A s \<longleftrightarrow> turn_phase_of (ts_calls s) \<in> A \<and> R (ts_world s)
     \<and> list_all (\<lambda>y. fst y = Pause_Wake \<or> R (snd y)) (ts_calls s)"

definition leaving :: "turn_phase set" where
  "leaving = {Opening, Hearing, Reading, Answering, Ending}"

definition optional_keeps :: "('w \<Rightarrow> bool) \<Rightarrow> ('w, 'a) act option \<Rightarrow> bool" where
  "optional_keeps R m \<longleftrightarrow> (\<forall>a \<in> set_option m. keeps R a)"

definition boundaries_keep :: "('w \<Rightarrow> bool) \<Rightarrow> 'w wake_orchestrator \<Rightarrow> bool" where
  "boundaries_keep R o' \<longleftrightarrow>
     (let v = wo_voice o' in
        optional_keeps R (vb_begin_session v) \<and> keeps R (vb_start_listening v)
        \<and> (\<forall>r. keeps R (vb_stop_listening v r))
        \<and> (\<forall>t. optional_keeps R (map_option (\<lambda>f. f t) (vb_mark_speech_ended v)))
        \<and> optional_keeps R (vb_acknowledge v) \<and> (\<forall>p opts. keeps R (vb_stream_text v p opts))
        \<and> (\<forall>u opts. keeps R (vb_stream_utterance v u opts)) \<and> optional_keeps R (vb_close_session v)
        \<and> optional_keeps R (wo_follow_up o') \<and> optional_keeps R (wo_session_follow_up o'))"

lemma turn_at_call:
  assumes "turn_at R A s" and "voice_call k m s = (r, s')" and "keeps R m"
    and "\<And>ph. ph \<in> A \<Longrightarrow> turn_monitor ph k \<in> B"
  shows "turn_at R B s'"
  using assms(1,2) assms(4)[of "turn_phase_of (ts_calls s)"] keepsD[OF assms(3), of "ts_world s"]
  by (auto simp: turn_at_def voice_call_def turn_phase_of_def split: prod.splits)

lemma call_triple:
  assumes "keeps R m" and "\<And>ph. ph \<in> A \<Longrightarrow> turn_monitor ph k \<in> B"
    and "B \<subseteq> C" and "B \<subseteq> E"
  shows "triple (turn_at R A) (voice_call k m) (\<lambda>_. turn_at R C) (turn_at R E)"
proof -
  have "turn_at R B s \<Longrightarrow> turn_at R C s \<and> turn_at R E s" for s
    using assms(3,4) by (auto simp: turn_at_def)
  with turn_at_call[OF _ _ assms(1,2)] show ?thesis by (intro tripleI) blast+
qed

lemma optional_triple:
  assumes "optional_keeps R m" and "\<And>ph. ph \<in> A \<Longrightarrow> turn_monitor ph k \<in> B"
    and "A \<subseteq> C" and "B \<subseteq> C" and "B \<subseteq> E"
  shows "triple (turn_at R A) (optional_call k m) (\<lambda>_. turn_at R C) (turn_at R E)"
proof (cases m)
  case None
  with assms(3) show ?thesis by (auto simp: optional_call_def turn_at_def intro!: triple_ok)
next
  case (Some a)
  with call_triple[OF _ assms(2,4,5), of R a] assms(1) show ?thesis
    by (simp add: optional_call_def optional_keeps_def)
qed

lemma capture_triple:
  assumes "keeps R cap"
  shows "triple (turn_at R {Hearing}) (capture_call cap)
    (\<lambda>u. turn_at R {case u of None \<Rightarrow> Silent | Some u \<Rightarrow> Heard u}) (turn_at R {Reading})"
  unfolding capture_call_def
proof (rule triple_bind)
  show "triple (turn_at R {Hearing}) (voice_call Capture_Follow_Up cap)
    (\<lambda>_. turn_at R {Reading}) (turn_at R {Reading})"
    by (rule call_triple[OF assms, where B = "{Reading}"]) simp_all
next
  fix u :: "voice_utterance option"
  show "triple (turn_at R {Reading})
    (act_bind (voice_call (Captured u) (act_ok ())) (\<lambda>_. act_ok u))
    (\<lambda>u. turn_at R {case u of None \<Rightarrow> Silent | Some u \<Rightarrow> Heard u}) (turn_at R {Reading})"
    by (intro tripleI)
      (auto simp: act_simps voice_call_def turn_at_def turn_phase_of_def turn_monitor_def split: option.splits)
qed

section \<open>The turn keeps the protocol\<close>

lemma turn_at_mono: "turn_at R A s \<Longrightarrow> A \<subseteq> B \<Longrightarrow> turn_at R B s"
  by (auto simp: turn_at_def)

lemma turn_triple_weaken:
  "triple (turn_at R A) m Q (turn_at R B) \<Longrightarrow> B \<subseteq> C \<Longrightarrow> triple (turn_at R A) m Q (turn_at R C)"
  by (erule triple_post) (auto intro: turn_at_mono)

lemma boundaries_keepD:
  assumes "boundaries_keep R o'"
  shows "optional_keeps R (vb_begin_session (wo_voice o'))"
    and "keeps R (vb_start_listening (wo_voice o'))"
    and "keeps R (vb_stop_listening (wo_voice o') r)"
    and "optional_keeps R (vb_acknowledge (wo_voice o'))"
    and "keeps R (vb_stream_text (wo_voice o') p opts)"
    and "keeps R (vb_stream_utterance (wo_voice o') u opts)"
    and "optional_keeps R (vb_close_session (wo_voice o'))"
    and "wo_follow_up o' = Some cap \<Longrightarrow> keeps R cap"
    and "wo_session_follow_up o' = Some cap \<Longrightarrow> keeps R cap"
    and "vb_mark_speech_ended (wo_voice o') = Some mark \<Longrightarrow> keeps R (mark t)"
  using assms by (auto simp: boundaries_keep_def optional_keeps_def Let_def)

lemma stop_triple:
  assumes "boundaries_keep R o'" and "A \<subseteq> {Hearing, Reading, Silent}"
  shows "triple (turn_at R A) (stop_call o' reason) (\<lambda>_. turn_at R {Ending}) (turn_at R {Ending})"
  unfolding stop_call_def
  by (rule call_triple[OF boundaries_keepD(3)[OF assms(1)], where B = "{Ending}"])
     (use assms(2) in auto)

lemma stream_triple:
  assumes "boundaries_keep R o'"
  shows "triple (turn_at R {Heard u}) (stream_call o' opts u) (\<lambda>_. turn_at R {Answering})
    (turn_at R {Answering})"
  unfolding stream_call_def
  by (rule call_triple[OF boundaries_keepD(6)[OF assms], where B = "{Answering}"]) simp_all

lemma raise_triple: "A \<subseteq> B \<Longrightarrow> triple (turn_at R A) (act_raise e) Q (turn_at R B)"
  by (rule triple_raise) (rule turn_at_mono)

lemma ok_triple: "A \<subseteq> B \<Longrightarrow> triple (turn_at R A) (act_ok x) (\<lambda>_. turn_at R B) E"
  by (rule triple_ok) (rule turn_at_mono)

lemma inline_triple:
  assumes "boundaries_keep R o'"
  shows "triple (turn_at R {Hearing}) (inline_chunks o' opts ev) (\<lambda>_. turn_at R {Answering})
    (turn_at R leaving)"
  unfolding inline_chunks_def
proof (rule triple_bind)
  show "triple (turn_at R {Hearing}) (case (we_speech_ended ev, vb_mark_speech_ended (wo_voice o')) of
      (Some t, Some mark) \<Rightarrow> voice_call (Mark_Speech_Ended t) (mark t) | _ \<Rightarrow> act_ok ())
    (\<lambda>_. turn_at R {Hearing}) (turn_at R leaving)"
    using boundaries_keepD(10)[OF assms]
    by (auto split: option.splits intro!: ok_triple call_triple[where B = "{Hearing}"]
        simp: leaving_def)
next
  show "triple (turn_at R {Hearing}) (voice_call (Stream_Text (wr_remainder (we_result ev)))
      (vb_stream_text (wo_voice o') (wr_remainder (we_result ev)) opts))
    (\<lambda>_. turn_at R {Answering}) (turn_at R leaving)"
    by (rule call_triple[OF boundaries_keepD(5)[OF assms], where B = "{Answering}"])
       (simp_all add: leaving_def)
qed

lemma bare_triple:
  assumes "boundaries_keep R o'"
  shows "triple (turn_at R {Hearing}) (bare_chunks o' opts)
    (\<lambda>cs. turn_at R {if cs = None then Ending else Answering}) (turn_at R leaving)"
  unfolding bare_chunks_def
proof (rule triple_bind)
  show "triple (turn_at R {Hearing}) (optional_call Acknowledge (vb_acknowledge (wo_voice o')))
    (\<lambda>_. turn_at R {Hearing}) (turn_at R leaving)"
    by (rule optional_triple[OF boundaries_keepD(4)[OF assms], where B = "{Hearing}"])
       (simp_all add: leaving_def)
next
  let ?Q = "\<lambda>cs :: pystr list option. turn_at R {if cs = None then Ending else Answering}"
  have e: "{Ending} \<subseteq> leaving" "{Answering} \<subseteq> leaving" by (simp_all add: leaving_def)
  show "triple (turn_at R {Hearing}) (case wo_follow_up o' of
      None \<Rightarrow> act_seq (stop_call o' ''bare_wake_follow_up_unavailable'')
        (act_raise (Exn WakeVoiceOrchestrationErrorC
           ''bare wake requires a fresh follow-up capture boundary''))
    | Some cap \<Rightarrow> act_bind (act_catch (capture_call cap)
          (\<lambda>e. act_seq (stop_call o' ''bare_wake_follow_up_error'') (act_raise e)))
        (\<lambda>follow_up. case follow_up of
           None \<Rightarrow> act_seq (stop_call o' ''bare_wake_follow_up_timeout'') (act_ok None)
         | Some u \<Rightarrow> act_bind (stream_call o' opts u) (\<lambda>cs. act_ok (Some cs))))
    ?Q (turn_at R leaving)"
  proof (cases "wo_follow_up o'")
    case None
    then show ?thesis
      by (simp add: triple_bind[OF turn_triple_weaken[OF stop_triple[OF assms] e(1)]
            raise_triple[OF e(1)]])
  next
    case (Some cap)
    let ?cap = "act_catch (capture_call cap)
      (\<lambda>e. act_seq (stop_call o' ''bare_wake_follow_up_error'') (act_raise e))"
    have "triple (turn_at R {Hearing}) ?cap
      (\<lambda>u. turn_at R {case u of None \<Rightarrow> Silent | Some u \<Rightarrow> Heard u}) (turn_at R leaving)"
      by (rule triple_catch[OF capture_triple[OF boundaries_keepD(8)[OF assms Some]]
            triple_bind[OF turn_triple_weaken[OF stop_triple[OF assms] e(1)] raise_triple[OF e(1)]]])
         simp
    moreover have "triple (turn_at R {case u of None \<Rightarrow> Silent | Some u \<Rightarrow> Heard u})
        (case u of None \<Rightarrow> act_seq (stop_call o' ''bare_wake_follow_up_timeout'') (act_ok None)
         | Some u \<Rightarrow> act_bind (stream_call o' opts u) (\<lambda>cs. act_ok (Some cs))) ?Q
        (turn_at R leaving)" for u
    proof (cases u)
      case None
      then show ?thesis
        by (simp add: triple_bind[OF turn_triple_weaken[OF stop_triple[OF assms] e(1)] triple_ok])
    next
      case (Some v)
      then show ?thesis
        by (simp add: triple_bind[OF turn_triple_weaken[OF stream_triple[OF assms] e(2)] triple_ok])
    qed
    ultimately show ?thesis by (simp add: Some triple_bind)
  qed
qed

lemma close_triple:
  assumes "boundaries_keep R o'" and "A \<subseteq> {Answering, Ending}"
  shows "triple (turn_at R A) (optional_call Close_Session (vb_close_session (wo_voice o')))
    (\<lambda>_. turn_at R {Answering, Ending}) (turn_at R leaving)"
  by (rule optional_triple[OF boundaries_keepD(7)[OF assms(1)], where B = "{Ending}"])
     (use assms(2) in \<open>auto simp: leaving_def\<close>)

lemma session_round_triple:
  fixes parts :: "pystr list"
  assumes "boundaries_keep R o'" and "wo_session_follow_up o' = Some cap"
    and more_rounds: "\<And>cs. triple (turn_at R {Answering}) (f cs)
      (\<lambda>_. turn_at R {Answering, Ending}) (turn_at R leaving)"
  shows "triple (turn_at R {Answering})
    (act_seq (voice_call Start_Listening (vb_start_listening (wo_voice o')))
      (act_bind (capture_call cap)
        (\<lambda>follow_up. case follow_up of
           None \<Rightarrow>
             act_seq (stop_call o' ''voice_session_idle_timeout'')
               (act_seq (optional_call Close_Session (vb_close_session (wo_voice o')))
                 (act_ok (Some parts)))
         | Some u \<Rightarrow> act_bind (stream_call o' opts u) f)))
    (\<lambda>_. turn_at R {Answering, Ending}) (turn_at R leaving)"
proof (rule triple_bind)
  show "triple (turn_at R {Answering})
    (voice_call Start_Listening (vb_start_listening (wo_voice o')))
    (\<lambda>_. turn_at R {Hearing}) (turn_at R leaving)"
    by (rule call_triple[OF boundaries_keepD(2)[OF assms(1)], where B = "{Hearing}"])
       (simp_all add: leaving_def)
next
  have e: "{Ending} \<subseteq> leaving" "{Answering} \<subseteq> leaving" "{Reading} \<subseteq> leaving"
    by (simp_all add: leaving_def)
  let ?Q = "\<lambda>_ :: pystr list option. turn_at R {Answering, Ending}"
  show "triple (turn_at R {Hearing}) (act_bind (capture_call cap)
        (\<lambda>follow_up. case follow_up of
           None \<Rightarrow>
             act_seq (stop_call o' ''voice_session_idle_timeout'')
               (act_seq (optional_call Close_Session (vb_close_session (wo_voice o')))
                 (act_ok (Some parts)))
         | Some u \<Rightarrow> act_bind (stream_call o' opts u) f)) ?Q (turn_at R leaving)"
  proof (rule triple_bind[OF turn_triple_weaken[OF capture_triple[OF boundaries_keepD(9)[OF assms(1,2)]] e(3)]])
    fix u :: "voice_utterance option"
    show "triple (turn_at R {case u of None \<Rightarrow> Silent | Some u \<Rightarrow> Heard u})
      (case u of
         None \<Rightarrow>
           act_seq (stop_call o' ''voice_session_idle_timeout'')
             (act_seq (optional_call Close_Session (vb_close_session (wo_voice o')))
               (act_ok (Some parts)))
       | Some u \<Rightarrow> act_bind (stream_call o' opts u) f) ?Q (turn_at R leaving)"
    proof (cases u)
      case None
      then show ?thesis
        by (simp add: triple_bind[OF turn_triple_weaken[OF stop_triple[OF assms(1)] e(1)]
              triple_bind[OF close_triple[OF assms(1)] ok_triple]])
    next
      case (Some v)
      then show ?thesis
        by (simp add: triple_bind[OF turn_triple_weaken[OF stream_triple[OF assms(1)] e(2)]
              more_rounds])
    qed
  qed
qed

lemma session_loop_triple:
  assumes "boundaries_keep R o'"
  shows "triple (turn_at R {Answering}) (session_loop n o' opts parts)
    (\<lambda>_. turn_at R {Answering, Ending}) (turn_at R leaving)"
proof (induction n arbitrary: parts)
  case 0
  then show ?case by (auto simp: triple_def act_ok_def turn_at_def)
next
  case (Suc n)
  show ?case
  proof (cases "wo_session_follow_up o'")
    case None
    then show ?thesis by (auto simp: triple_def act_ok_def turn_at_def)
  next
    case (Some cap)
    have e: "session_loop (Suc n) o' opts parts =
      (\<lambda>s. if vb_session_closed (wo_voice o') (ts_world s) then act_ok (Some parts) s
           else act_seq (voice_call Start_Listening (vb_start_listening (wo_voice o')))
            (act_bind (capture_call cap)
              (\<lambda>follow_up. case follow_up of
                 None \<Rightarrow>
                   act_seq (stop_call o' ''voice_session_idle_timeout'')
                     (act_seq (optional_call Close_Session (vb_close_session (wo_voice o')))
                       (act_ok (Some parts)))
               | Some u \<Rightarrow>
                   act_bind (stream_call o' opts u) (\<lambda>cs. session_loop n o' opts (parts @ cs)))) s)"
      by (rule ext) (simp add: Some)
    show ?thesis
      unfolding e
      by (rule triple_unless[OF session_round_triple[OF assms Some Suc.IH]])
         (auto intro: turn_at_mono)
  qed
qed

lemma close_ended_triple:
  assumes "boundaries_keep R o'"
  shows "triple (turn_at R {Answering, Ending}) (close_ended_session o')
    (\<lambda>_. turn_at R {Answering, Ending}) (turn_at R leaving)"
  using close_triple[OF assms, of "{Answering, Ending}"]
  by (auto simp: triple_def close_ended_session_def act_ok_def)

lemma session_turn_triple:
  assumes "boundaries_keep R o'"
  shows "triple (turn_at R {Answering}) (session_turn n o' opts ev cs)
    (\<lambda>_. turn_at R {Answering, Ending}) (turn_at R leaving)"
  unfolding session_turn_def
proof (rule triple_bind[OF session_loop_triple[OF assms]])
  fix parts
  show "triple (turn_at R {Answering, Ending}) (case parts of None \<Rightarrow> act_ok None
      | Some ps \<Rightarrow> act_seq (close_ended_session o')
          (act_ok (Some \<lparr>wt_source = wr_source (we_result ev),
             wt_remainder = wr_remainder (we_result ev), wt_response = concat ps\<rparr>)))
    (\<lambda>_. turn_at R {Answering, Ending}) (turn_at R leaving)"
    by (cases parts) (auto intro!: ok_triple triple_bind[OF close_ended_triple[OF assms]])
qed

lemma turn_body_triple:
  assumes "boundaries_keep R o'"
  shows "triple (turn_at R {Opening}) (turn_body n o' opts ev)
    (\<lambda>_. turn_at R {Answering, Ending}) (turn_at R leaving)"
  unfolding turn_body_def
proof (intro triple_bind)
  show "triple (turn_at R {Opening}) (optional_call Begin_Session (vb_begin_session (wo_voice o')))
    (\<lambda>_. turn_at R {Opening}) (turn_at R leaving)"
    by (rule optional_triple[OF boundaries_keepD(1)[OF assms], where B = "{Opening}"])
       (simp_all add: leaving_def)
  show "triple (turn_at R {Opening}) (voice_call Start_Listening (vb_start_listening (wo_voice o')))
    (\<lambda>_. turn_at R {Hearing}) (turn_at R leaving)"
    by (rule call_triple[OF boundaries_keepD(2)[OF assms], where B = "{Hearing}"])
       (simp_all add: leaving_def)
  show "triple (turn_at R {Hearing}) (if wr_remainder (we_result ev) \<noteq> []
      then act_bind (inline_chunks o' opts ev) (session_turn n o' opts ev)
      else act_bind (bare_chunks o' opts)
        (\<lambda>chunks. case chunks of
           None \<Rightarrow> act_ok (Some \<lparr>wt_source = wr_source (we_result ev),
                     wt_remainder = [], wt_response = []\<rparr>)
         | Some cs \<Rightarrow> session_turn n o' opts ev cs))
    (\<lambda>_. turn_at R {Answering, Ending}) (turn_at R leaving)"
    by (auto intro!: triple_bind[OF inline_triple[OF assms]] triple_bind[OF bare_triple[OF assms]]
        session_turn_triple[OF assms] ok_triple split: option.splits)
qed

lemma turn_phase_snoc [simp]:
  "turn_phase_of (calls @ [(k, w)]) = turn_monitor (turn_phase_of calls) k"
  by (simp add: turn_phase_of_def)

lemma resume_from_leaving: "ph \<in> leaving \<Longrightarrow> turn_monitor ph Resume_Wake = Asleep"
  by (auto simp: leaving_def turn_monitor_def)

text \<open>The whole turn, seen from a world that the pause turns into one with \<open>R\<close>.\<close>

lemma handle_turn:
  assumes "handle_wake_utterance n o' opts ev s = (r, s')" and "wr_wake (we_result ev)"
    and "boundaries_keep R o'" and "R (wo_pause o' (ts_world s))"
    and "ts_calls s = []"
  obtains "r = Inr None" and "turn_at R {Answering, Ending} s'"
  | s2 where "r \<noteq> Inr None" and "turn_at R leaving s2"
      and "s' = \<lparr>ts_world = wo_resume o' (ts_world s2),
                ts_calls = ts_calls s2 @ [(Resume_Wake, ts_world s2)]\<rparr>"
proof -
  let ?s1 = "snd (voice_call Pause_Wake (act_lift (wo_pause o')) s)"
  have s1: "turn_at R {Opening} ?s1"
    using assms(4,5) by (simp add: voice_call_def act_lift_def turn_at_def turn_phase_of_def)
  obtain b s2 where b: "turn_body n o' opts ev ?s1 = (b, s2)" by fastforce
  have h: "(r, s') = (if b = Inr None then (b, s2)
      else (b, snd (voice_call Resume_Wake (act_lift (wo_resume o')) s2)))"
    using assms(1,2) b by (auto simp: handle_wake_utterance_def Let_def split: sum.splits option.splits)
  show thesis
  proof (cases b)
    case (Inl e)
    with tripleD(2)[OF turn_body_triple[OF assms(3)] s1, of n opts ev e s2] b h that(2)[of s2]
    show thesis by (simp add: voice_call_def act_lift_def)
  next
    case (Inr x)
    with tripleD(1)[OF turn_body_triple[OF assms(3)] s1, of n opts ev x s2] b
    have "turn_at R {Answering, Ending} s2" by simp
    moreover from this have "turn_at R leaving s2"
      by (rule turn_at_mono) (simp add: leaving_def)
    ultimately show thesis
      using h Inr that by (cases x) (auto simp: voice_call_def act_lift_def)
  qed
qed

section \<open>Handing the microphone over\<close>

locale microphone_handover =
  fixes pause :: "'w \<Rightarrow> 'w"
    and resume :: "'w \<Rightarrow> 'w"
    and valid :: "'w \<Rightarrow> bool"
    and released :: "'w \<Rightarrow> bool"
  assumes pause_releases: "valid w \<Longrightarrow> released (pause w)"
    and resume_returns: "released w \<Longrightarrow> valid (resume w) \<and> \<not> released (resume w)"
begin

lemma turn_holds_microphone:
  assumes "handle_wake_utterance n o' opts ev \<lparr>ts_world = w, ts_calls = []\<rparr> = (r, s')"
    and "wr_wake (we_result ev)" and "boundaries_keep released o'"
    and "wo_pause o' = pause" and "wo_resume o' = resume" and "valid w"
  shows "(r = Inr None \<longrightarrow> released (ts_world s'))
    \<and> (r \<noteq> Inr None \<longrightarrow> valid (ts_world s') \<and> \<not> released (ts_world s'))
    \<and> (\<forall>(k, v) \<in> set (ts_calls s'). k \<noteq> Pause_Wake \<longrightarrow> released v)"
proof -
  have "released (wo_pause o' (ts_world \<lparr>ts_world = w, ts_calls = []\<rparr>))"
    using assms(4,6) pause_releases by simp
  then show ?thesis
  proof (rule handle_turn[OF assms(1-3)])
    assume "r = Inr None" and "turn_at released {Answering, Ending} s'"
    then show ?thesis by (auto simp: turn_at_def list_all_iff)
  next
    fix s2
    assume "r \<noteq> Inr None" and "turn_at released leaving s2"
      and "s' = \<lparr>ts_world = wo_resume o' (ts_world s2),
        ts_calls = ts_calls s2 @ [(Resume_Wake, ts_world s2)]\<rparr>"
    then show ?thesis
      using resume_returns[of "ts_world s2"] assms(5) by (auto simp: turn_at_def list_all_iff)
  qed simp
qed

end

section \<open>The turn beside the wake loop\<close>

text \<open>
  The world of a turn is the wake capture of a running loop and the world \<open>'v\<close> of the voice.
  While a voice call runs, the loop and the other callers of the capture go on with any events
  but \<open>resume\<close>, which only the orchestrator calls.
\<close>

definition beside_wake ::
    "(pcm \<Rightarrow> ('s, segmentation_result) act) \<Rightarrow> ('s \<Rightarrow> 's)
     \<Rightarrow> (voice_utterance \<Rightarrow> ('w, supervisor_result) act) \<Rightarrow> bool
     \<Rightarrow> ('v \<Rightarrow> capture_event list) \<Rightarrow> ('v, 'a) act
     \<Rightarrow> (('s, 'w) capture_system \<times> 'v, 'a) act" where
  "beside_wake process reset detect en evs m st =
     (case st of (sy, v) \<Rightarrow> case m v of (r, v') \<Rightarrow>
        (r, (capture_run process reset detect en (filter (\<lambda>e. e \<noteq> Resume_Call) (evs v)) sy, v')))"

definition voice_beside_wake ::
    "(pcm \<Rightarrow> ('s, segmentation_result) act) \<Rightarrow> ('s \<Rightarrow> 's)
     \<Rightarrow> (voice_utterance \<Rightarrow> ('w, supervisor_result) act) \<Rightarrow> bool
     \<Rightarrow> ('v \<Rightarrow> capture_event list) \<Rightarrow> 'v wake_orchestrator
     \<Rightarrow> (('s, 'w) capture_system \<times> 'v) wake_orchestrator" where
  "voice_beside_wake process reset detect en evs o' =
     (let v = wo_voice o'
      in \<lparr>wo_pause = map_prod (capture_step process reset detect en Pause_Call) id,
          wo_resume = map_prod (capture_step process reset detect en Resume_Call) id,
          wo_voice = \<lparr>
            vb_begin_session = map_option (beside_wake process reset detect en evs) (vb_begin_session v),
            vb_start_listening = beside_wake process reset detect en evs (vb_start_listening v),
            vb_stop_listening = (\<lambda>r. beside_wake process reset detect en evs (vb_stop_listening v r)),
            vb_mark_speech_ended = map_option
              (\<lambda>f t. beside_wake process reset detect en evs (f t)) (vb_mark_speech_ended v),
            vb_acknowledge = map_option (beside_wake process reset detect en evs) (vb_acknowledge v),
            vb_stream_text = (\<lambda>p opts. beside_wake process reset detect en evs (vb_stream_text v p opts)),
            vb_stream_utterance = (\<lambda>u opts.
              beside_wake process reset detect en evs (vb_stream_utterance v u opts)),
            vb_close_session = map_option (beside_wake process reset detect en evs) (vb_close_session v),
            vb_session_closed = (\<lambda>st. vb_session_closed v (snd st))\<rparr>,
          wo_follow_up = map_option (beside_wake process reset detect en evs) (wo_follow_up o'),
          wo_session_follow_up =
            map_option (beside_wake process reset detect en evs) (wo_session_follow_up o')\<rparr>)"

lemma capture_run_keeps_pause:
  assumes "Resume_Call \<notin> set evs" and "wc_pause (sy_capture sy)"
  shows "wc_pause (sy_capture (capture_run process reset detect en evs sy))"
  using assms
proof (induction evs arbitrary: sy)
  case (Cons e evs)
  then have "wc_pause (sy_capture (capture_step process reset detect en e sy))"
    by (intro capture_step_keeps_pause) auto
  with Cons show ?case by (simp add: capture_run_def)
qed (simp add: capture_run_def)

definition capture_valid ::
    "'d vad_detector \<Rightarrow> 'd segmenter \<Rightarrow> ('d segmenter, 'w) capture_system \<times> 'v \<Rightarrow> bool" where
  "capture_valid det sg0 st \<longleftrightarrow> vad_recorder.capture_ok sg0 (fst st)"

definition capture_released ::
    "'d vad_detector \<Rightarrow> 'd segmenter \<Rightarrow> ('d segmenter, 'w) capture_system \<times> 'v \<Rightarrow> bool" where
  "capture_released det sg0 st \<longleftrightarrow> capture_valid det sg0 st \<and> wc_pause (sy_capture (fst st))"

interpretation wake_capture_handover: microphone_handover
  "map_prod (capture_step (segmenter_process det) (segmenter_reset det) detect en Pause_Call) id"
  "map_prod (capture_step (segmenter_process det) (segmenter_reset det) detect en Resume_Call) id"
  "capture_valid det sg0" "capture_released det sg0"
  for det :: "'d vad_detector" and sg0 and en
    and detect :: "voice_utterance \<Rightarrow> ('w, supervisor_result) act"
proof unfold_locales
  fix st :: "('d segmenter, 'w) capture_system \<times> 'v"
  show "capture_valid det sg0 st \<Longrightarrow> capture_released det sg0 (map_prod
    (capture_step (segmenter_process det) (segmenter_reset det) detect en Pause_Call) id st)"
    using vad_recorder.capture_step_ok[of sg0 "fst st" det detect en Pause_Call]
    by (cases st) (simp add: capture_released_def capture_valid_def capture_pause_def
        reset_segmenter_def close_stream_def)
  show "capture_released det sg0 st \<Longrightarrow>
    capture_valid det sg0 (map_prod (capture_step (segmenter_process det) (segmenter_reset det)
      detect en Resume_Call) id st) \<and>
    \<not> capture_released det sg0 (map_prod (capture_step (segmenter_process det)
      (segmenter_reset det) detect en Resume_Call) id st)"
    using vad_recorder.capture_step_ok[of sg0 "fst st" det detect en Resume_Call]
    by (cases st) (simp add: capture_released_def capture_valid_def capture_resume_def
        reset_segmenter_def Let_def)
qed

lemma beside_wake_keeps:
  fixes det :: "'d vad_detector" and m :: "('v, 'a) act" and detect :: "voice_utterance \<Rightarrow> ('w, supervisor_result) act"
  shows "keeps (capture_released det sg0)
    (beside_wake (segmenter_process det) (segmenter_reset det) detect en evs m)"
proof (rule keepsI)
  fix st :: "('d segmenter, 'w) capture_system \<times> 'v"
  assume r: "capture_released det sg0 st"
  obtain sy v where st: "st = (sy, v)" by fastforce
  let ?es = "filter (\<lambda>e. e \<noteq> Resume_Call) (evs v)"
  let ?run = "capture_run (segmenter_process det) (segmenter_reset det) detect en ?es sy"
  have "wc_pause (sy_capture ?run)"
    using r st by (intro capture_run_keeps_pause) (simp_all add: capture_released_def)
  moreover have "vad_recorder.capture_ok sg0 ?run"
    unfolding capture_run_def
    using r st by (intro vad_recorder.capture_fold_ok) (simp add: capture_released_def capture_valid_def)
  ultimately show "capture_released det sg0 (snd (beside_wake (segmenter_process det)
      (segmenter_reset det) detect en evs m st))"
    by (simp add: beside_wake_def st capture_released_def capture_valid_def split: prod.splits)
qed

lemma voice_beside_wake_keeps:
  "boundaries_keep (capture_released det sg0)
    (voice_beside_wake (segmenter_process det) (segmenter_reset det) detect en evs o')"
  by (auto simp: boundaries_keep_def voice_beside_wake_def Let_def optional_keeps_def
      beside_wake_keeps split: option.splits)

lemma voice_beside_wake_pause:
  "wo_pause (voice_beside_wake process reset detect en evs o') =
     map_prod (capture_step process reset detect en Pause_Call) id"
  "wo_resume (voice_beside_wake process reset detect en evs o') =
     map_prod (capture_step process reset detect en Resume_Call) id"
  by (simp_all add: voice_beside_wake_def Let_def)

section \<open>What the turn says to the conversation\<close>

fun is_text :: "turn_call \<Rightarrow> bool" where
  "is_text (Stream_Text _) = True"
| "is_text _ = False"

definition textless :: "'w turn_state \<Rightarrow> bool" where
  "textless s \<longleftrightarrow> list_all (\<lambda>y. \<not> is_text (fst y)) (ts_calls s)"

lemma textless_call [keeps_intros]: "\<not> is_text k \<Longrightarrow> keeps textless (voice_call k m)"
  by (rule keepsI) (auto simp: textless_def voice_call_def split: prod.splits)

lemma textless_optional [keeps_intros]: "\<not> is_text k \<Longrightarrow> keeps textless (optional_call k m)"
  by (auto simp: optional_call_def intro!: keeps_intros split: option.splits)

lemma textless_capture [keeps_intros]: "keeps textless (capture_call cap)"
  by (auto simp: capture_call_def intro!: keeps_intros)

lemma textless_stop [keeps_intros]: "keeps textless (stop_call o' r)"
  by (auto simp: stop_call_def intro!: keeps_intros)

lemma textless_stream [keeps_intros]: "keeps textless (stream_call o' opts u)"
  by (auto simp: stream_call_def intro!: keeps_intros)

lemma keeps_option_case [keeps_intros]:
  "keeps P f \<Longrightarrow> (\<And>x. keeps P (g x)) \<Longrightarrow> keeps P (case y of None \<Rightarrow> f | Some x \<Rightarrow> g x)"
  by (cases y) simp_all

lemma textless_session [keeps_intros]: "keeps textless (session_loop n o' opts parts)"
proof (induction n arbitrary: parts)
  case 0
  then show ?case by (rule keepsI) (simp add: act_ok_def)
next
  case (Suc n)
  show ?case
  proof (cases "wo_session_follow_up o'")
    case None
    then show ?thesis by (auto intro!: keepsI simp: act_ok_def)
  next
    case (Some cap)
    have "keeps textless (act_seq (voice_call Start_Listening (vb_start_listening (wo_voice o')))
        (act_bind (capture_call cap)
          (\<lambda>follow_up. case follow_up of
             None \<Rightarrow>
               act_seq (stop_call o' ''voice_session_idle_timeout'')
                 (act_seq (optional_call Close_Session (vb_close_session (wo_voice o')))
                   (act_ok (Some parts)))
           | Some u \<Rightarrow>
               act_bind (stream_call o' opts u) (\<lambda>cs. session_loop n o' opts (parts @ cs)))))"
      by (intro keeps_intros Suc.IH) simp_all
    with Some show ?thesis by (auto simp: keeps_def act_ok_def)
  qed
qed

lemma textless_close_ended [keeps_intros]: "keeps textless (close_ended_session o')"
  using textless_optional[of Close_Session] by (auto simp: keeps_def close_ended_session_def act_ok_def)

lemma textless_session_turn [keeps_intros]: "keeps textless (session_turn n o' opts ev cs)"
  unfolding session_turn_def by (intro keeps_intros)

lemma textless_bare [keeps_intros]: "keeps textless (bare_chunks o' opts)"
  unfolding bare_chunks_def by (intro keeps_intros) simp_all

lemma textless_bare_turn:
  "wr_remainder (we_result ev) = [] \<Longrightarrow> keeps textless (turn_body n o' opts ev)"
  unfolding turn_body_def by (simp, intro keeps_intros) simp_all

lemma bare_without_capture:
  assumes "wo_follow_up o' = None" and "bare_chunks o' opts s = (r, s')"
  shows "\<exists>e. r = Inl e"
  using assms by (auto simp: bare_chunks_def act_simps split: prod.splits sum.splits)

lemma bare_turn_without_capture:
  assumes "wo_follow_up o' = None" and "wr_remainder (we_result ev) = []"
    and "turn_body n o' opts ev s = (r, s')"
  shows "\<exists>e. r = Inl e"
  using assms(2,3) bare_without_capture[OF assms(1), of opts]
  by (fastforce simp: turn_body_def act_bind_def split: prod.splits sum.splits)

section \<open>The session ends\<close>

text \<open>One answered round of the session, on the world.\<close>

definition answered_round ::
    "'w wake_orchestrator \<Rightarrow> turn_options \<Rightarrow> 'w follow_up_boundary \<Rightarrow> 'w \<Rightarrow> 'w \<Rightarrow> bool" where
  "answered_round o' opts cap w w' \<longleftrightarrow>
     (\<exists>w1 w2 u cs. vb_start_listening (wo_voice o') w = (Inr (), w1) \<and> cap w1 = (Inr (Some u), w2)
        \<and> vb_stream_utterance (wo_voice o') u opts w2 = (Inr cs, w'))"

lemma session_round_left:
  assumes "act_seq (voice_call Start_Listening (vb_start_listening (wo_voice o')))
      (act_bind (capture_call cap)
        (\<lambda>follow_up. case follow_up of
           None \<Rightarrow> act_seq (stop_call o' r1) (act_seq (optional_call Close_Session c) (act_ok (Some parts)))
         | Some u \<Rightarrow> act_bind (stream_call o' opts u) f)) s = (Inr None, s')"
  shows "\<exists>cs s1. f cs s1 = (Inr None, s') \<and> answered_round o' opts cap (ts_world s) (ts_world s1)"
  using assms
  by (fastforce simp: act_bind_def act_ok_def voice_call_def capture_call_def stream_call_def
      answered_round_def split: prod.splits sum.splits option.splits)

lemma session_loop_ends:
  assumes "\<And>w w' cap. wo_session_follow_up o' = Some cap \<Longrightarrow> answered_round o' opts cap w w' \<Longrightarrow>
      rounds w' < (rounds w :: nat)"
    and "rounds (ts_world s) < n"
  shows "fst (session_loop n o' opts parts s) \<noteq> Inr None"
  using assms(2)
proof (induction n arbitrary: parts s)
  case (Suc n)
  show ?case
  proof
    assume l: "fst (session_loop (Suc n) o' opts parts s) = Inr None"
    then obtain cap where cap: "wo_session_follow_up o' = Some cap"
      by (auto simp: act_ok_def split: option.splits)
    obtain s' where "session_loop (Suc n) o' opts parts s = (Inr None, s')"
      using l by (metis prod.collapse)
    with cap have "act_seq (voice_call Start_Listening (vb_start_listening (wo_voice o')))
        (act_bind (capture_call cap)
          (\<lambda>follow_up. case follow_up of
             None \<Rightarrow>
               act_seq (stop_call o' ''voice_session_idle_timeout'')
                 (act_seq (optional_call Close_Session (vb_close_session (wo_voice o')))
                   (act_ok (Some parts)))
           | Some u \<Rightarrow>
               act_bind (stream_call o' opts u) (\<lambda>cs. session_loop n o' opts (parts @ cs)))) s
        = (Inr None, s')"
      by (simp add: act_ok_def split: if_splits)
    from session_round_left[OF this] obtain cs s1
      where "fst (session_loop n o' opts (parts @ cs) s1) = Inr None"
        and "answered_round o' opts cap (ts_world s) (ts_world s1)" by (metis fst_conv)
    with Suc.IH[of s1 "parts @ cs"] assms(1)[OF cap] Suc.prems show False by fastforce
  qed
qed simp

lemma bind_returns:
  "(\<And>x s. fst (f x s) \<noteq> Inr None) \<Longrightarrow> fst (act_bind m f s) \<noteq> Inr None"
  by (simp add: act_bind_def split: prod.splits sum.splits)

lemma session_turn_returns_some:
  assumes "\<And>parts s. fst (session_loop n o' opts parts s) \<noteq> Inr None"
  shows "fst (session_turn n o' opts ev cs s) \<noteq> Inr None"
proof (cases "session_loop n o' opts cs s")
  case (Pair b s1)
  show ?thesis
  proof (cases b)
    case (Inr p)
    with assms[of cs s] Pair obtain ps where "p = Some ps" by (cases p) auto
    with Pair Inr show ?thesis
      by (auto simp: session_turn_def act_bind_def act_ok_def split: prod.splits sum.splits)
  qed (simp add: session_turn_def act_bind_def Pair)
qed

lemma turn_body_returns:
  assumes "\<And>parts s. fst (session_loop n o' opts parts s) \<noteq> Inr None"
  shows "fst (turn_body n o' opts ev s) \<noteq> Inr None"
  unfolding turn_body_def
proof (intro bind_returns)
  fix s
  have "fst ((case chunks of
         None \<Rightarrow> act_ok (Some \<lparr>wt_source = wr_source (we_result ev), wt_remainder = [], wt_response = []\<rparr>)
       | Some cs \<Rightarrow> session_turn n o' opts ev cs) s) \<noteq> Inr None" for chunks s
    using session_turn_returns_some[OF assms] by (cases chunks) (simp_all add: act_ok_def)
  then show "fst ((if wr_remainder (we_result ev) \<noteq> []
      then act_bind (inline_chunks o' opts ev) (session_turn n o' opts ev)
      else act_bind (bare_chunks o' opts)
        (\<lambda>chunks. case chunks of
           None \<Rightarrow> act_ok (Some \<lparr>wt_source = wr_source (we_result ev),
                     wt_remainder = [], wt_response = []\<rparr>)
         | Some cs \<Rightarrow> session_turn n o' opts ev cs)) s) \<noteq> Inr None"
    using session_turn_returns_some[OF assms] by (simp add: bind_returns)
qed

section \<open>Properties\<close>

text \<open>a wake turn owns the microphone: from the pause until the turn returns the wake loop's
  stream is closed and not being read at every call the turn makes, whatever the loop and its
  other callers do meanwhile; while the session lasts the wake path stays paused, and when the
  turn returns, normally or with an exception, it is no longer paused.\<close>

theorem wake_turn_owns_microphone:
  assumes "segmenter_wf (segmenter_init ac vc d)"
    and "sy = capture_run (segmenter_process det) (segmenter_reset det) detect en events
                (capture_system_init (segmenter_init ac vc d) w)"
    and "handle_wake_utterance n
           (voice_beside_wake (segmenter_process det) (segmenter_reset det) detect en evs o')
           opts ev \<lparr>ts_world = (sy, v), ts_calls = []\<rparr> = (r, s')"
    and "wr_wake (we_result ev)"
  shows "(\<forall>(k, sy', v') \<in> set (ts_calls s'). k \<noteq> Pause_Wake \<longrightarrow>
        wc_pause (sy_capture sy') \<and> wc_stream (sy_capture sy') = None
        \<and> \<not> wc_read_in_progress (sy_capture sy'))
    \<and> (wc_pause (sy_capture (fst (ts_world s'))) \<longleftrightarrow> r = Inr None)"
proof -
  let ?sg0 = "segmenter_init ac vc d"
  have closed: "wc_pause (sy_capture sy') \<and> wc_stream (sy_capture sy') = None
      \<and> \<not> wc_read_in_progress (sy_capture sy')"
    if "capture_released det ?sg0 (sy', v')" for sy' :: "('a segmenter, 'b) capture_system" and v' :: 'c
    using that by (auto simp: capture_released_def capture_valid_def vad_recorder.capture_ok_def mic_ok_def)
  have "vad_recorder.capture_ok ?sg0 sy"
    unfolding assms(2) by (rule vad_recorder.capture_run_ok)
      (simp_all add: segmenter_init_inv[OF assms(1)] segmenter_init_pending)
  then have "capture_valid det ?sg0 (sy, v)" by (simp add: capture_valid_def)
  then have "(r = Inr None \<longrightarrow> capture_released det ?sg0 (ts_world s'))
    \<and> (r \<noteq> Inr None \<longrightarrow> capture_valid det ?sg0 (ts_world s') \<and> \<not> capture_released det ?sg0 (ts_world s'))
    \<and> (\<forall>(k, v) \<in> set (ts_calls s'). k \<noteq> Pause_Wake \<longrightarrow> capture_released det ?sg0 v)"
    by (rule wake_capture_handover.turn_holds_microphone[OF assms(3,4) voice_beside_wake_keeps
          voice_beside_wake_pause])
  with closed show ?thesis by (fastforce simp: capture_released_def)
qed

definition silent_voice :: "unit voice_boundary" where
  "silent_voice = \<lparr>vb_begin_session = None, vb_start_listening = act_ok (),
     vb_stop_listening = (\<lambda>_. act_ok ()), vb_mark_speech_ended = None, vb_acknowledge = None,
     vb_stream_text = (\<lambda>_ _. act_ok [lit ''done'']), vb_stream_utterance = (\<lambda>_ _. act_ok [lit ''done'']),
     vb_close_session = None, vb_session_closed = (\<lambda>_. False)\<rparr>"

definition tiny_orchestrator :: "unit wake_orchestrator" where
  "tiny_orchestrator = \<lparr>wo_pause = id, wo_resume = id, wo_voice = silent_voice,
     wo_follow_up = Some (act_ok (Some tiny_utterance)), wo_session_follow_up = None\<rparr>"

definition bare_wake :: wake_capture_event where
  "bare_wake = \<lparr>we_utterance = any_utterance, we_result = \<lparr>wr_enabled = True, wr_wake = True,
     wr_source = None, wr_remainder = [], wr_primary = None, wr_fallback = None\<rparr>,
     we_speech_ended = None\<rparr>"

definition default_options :: turn_options where
  "default_options = \<lparr>to_system_prompt = [], to_temperature = 1 / 5, to_max_tokens = 1024\<rparr>"

abbreviation tiny_turn :: "(capture_event list) \<Rightarrow> ((unit segmenter, unit) capture_system \<times> unit) turn_state" where
  "tiny_turn evs \<equiv> snd (handle_wake_utterance 1
     (voice_beside_wake (segmenter_process byte_detector) (segmenter_reset byte_detector) no_wake
        False (\<lambda>_. [quiet []]) tiny_orchestrator) default_options bare_wake
     \<lparr>ts_world = (tiny_capture_run evs, ()), ts_calls = []\<rparr>)"

lemmas turn_eval = handle_wake_utterance_def turn_body_def bare_chunks_def session_turn_def
  stop_call_def stream_call_def capture_call_def optional_call_def voice_call_def
  close_ended_session_def act_simps

theorem wake_turn_owns_microphone_witness:
  "\<not> wc_pause (sy_capture (fst (ts_world (tiny_turn tiny_capture_events))))
   \<and> (\<exists>w. (Stream_Utterance tiny_utterance, w) \<in> set (ts_calls (tiny_turn tiny_capture_events))
        \<and> wc_stream (sy_capture (fst w)) = None)"
proof -
  let ?o = "voice_beside_wake (segmenter_process byte_detector) (segmenter_reset byte_detector)
    no_wake False (\<lambda>_. [quiet []]) tiny_orchestrator"
  let ?s = "\<lparr>ts_world = (tiny_capture_run tiny_capture_events, ()), ts_calls = []\<rparr>"
  obtain r s' where h: "handle_wake_utterance 1 ?o default_options bare_wake ?s = (r, s')"
    by fastforce
  have "r \<noteq> Inr None \<and> (\<exists>w. (Stream_Utterance tiny_utterance, w) \<in> set (ts_calls s'))"
    using h by (auto simp: turn_eval voice_beside_wake_def tiny_orchestrator_def silent_voice_def
        beside_wake_def bare_wake_def)
  with wake_turn_owns_microphone[OF tiny_wf tiny_capture_run_def h] h show ?thesis
    by (force simp: bare_wake_def)
qed

text \<open>C9: every turn follows the protocol of the handoff: it pauses the wake path first, listens
  before it captures, streams to the conversation only the utterance it has just captured,
  stops listening when nothing was heard, and resumes the wake path last, on every path and
  exactly once; a turn whose session still goes on has not resumed it.\<close>

theorem wake_turn_protocol:
  assumes "handle_wake_utterance n o' opts ev \<lparr>ts_world = w, ts_calls = []\<rparr> = (r, s')"
    and "wr_wake (we_result ev)"
  shows "turn_phase_of (ts_calls s') \<in> (if r = Inr None then {Answering, Ending} else {Asleep})
    \<and> (r \<noteq> Inr None \<longrightarrow> fst (last (ts_calls s')) = Resume_Wake)"
proof -
  have k: "boundaries_keep (\<lambda>_. True) o'"
    by (simp add: boundaries_keep_def optional_keeps_def keeps_def Let_def)
  show ?thesis
    by (rule handle_turn[OF assms k]) (auto simp: turn_at_def resume_from_leaving)
qed

theorem wake_turn_protocol_witness:
  "turn_phase_of (ts_calls (snd (handle_wake_utterance 1 tiny_orchestrator default_options bare_wake
     \<lparr>ts_world = (), ts_calls = []\<rparr>))) = Asleep"
proof -
  obtain r s' where h: "handle_wake_utterance 1 tiny_orchestrator default_options bare_wake
      \<lparr>ts_world = (), ts_calls = []\<rparr> = (r, s')" by fastforce
  have "r \<noteq> Inr None"
    using h by (auto simp: turn_eval tiny_orchestrator_def silent_voice_def bare_wake_def)
  with wake_turn_protocol[OF h] h show ?thesis by (simp add: bare_wake_def)
qed

text \<open>an event that is not a wake is refused before anything happens; after a bare wake the
  conversation never gets a text of its own, only freshly captured speech, and without a
  follow-up capture the turn fails; a turn in which the voice hears nothing after a bare wake
  answers with an empty response.\<close>

theorem bare_wake_needs_fresh_speech:
  assumes "handle_wake_utterance n o' opts ev \<lparr>ts_world = w, ts_calls = []\<rparr> = (r, s')"
  shows "(\<not> wr_wake (we_result ev) \<longrightarrow>
        r = Inl (Exn WakeVoiceOrchestrationErrorC ''cannot start a voice turn from a non-wake event'')
        \<and> s' = \<lparr>ts_world = w, ts_calls = []\<rparr>)
    \<and> (wr_remainder (we_result ev) = [] \<longrightarrow> list_all (\<lambda>y. \<not> is_text (fst y)) (ts_calls s'))
    \<and> (wr_wake (we_result ev) \<and> wr_remainder (we_result ev) = [] \<and> wo_follow_up o' = None \<longrightarrow>
        (\<exists>e. r = Inl e))"
proof (cases "wr_wake (we_result ev)")
  case False
  with assms show ?thesis by (auto simp: handle_wake_utterance_def)
next
  case True
  let ?s1 = "\<lparr>ts_world = wo_pause o' w, ts_calls = [(Pause_Wake, w)]\<rparr>"
  obtain b s2 where b: "turn_body n o' opts ev ?s1 = (b, s2)" by fastforce
  have s': "s' = (if b = Inr None then s2
      else \<lparr>ts_world = wo_resume o' (ts_world s2), ts_calls = ts_calls s2 @ [(Resume_Wake, ts_world s2)]\<rparr>)"
    and r: "r = b"
    using assms True b
    by (auto simp: handle_wake_utterance_def voice_call_def act_lift_def split: sum.splits option.splits)
  have "textless s2" if "wr_remainder (we_result ev) = []"
    using keepsD[OF textless_bare_turn[OF that], of ?s1 n o' opts] b by (simp add: textless_def)
  with s' r True bare_turn_without_capture[OF _ _ b] show ?thesis by (auto simp: textless_def)
qed

theorem bare_wake_needs_fresh_speech_witness:
  "\<exists>e. fst (handle_wake_utterance 1 (tiny_orchestrator\<lparr>wo_follow_up := None\<rparr>) default_options
     bare_wake \<lparr>ts_world = (), ts_calls = []\<rparr>) = Inl e"
proof -
  obtain r s' where h: "handle_wake_utterance 1 (tiny_orchestrator\<lparr>wo_follow_up := None\<rparr>)
      default_options bare_wake \<lparr>ts_world = (), ts_calls = []\<rparr> = (r, s')" by fastforce
  with bare_wake_needs_fresh_speech[OF h] show ?thesis by (simp add: bare_wake_def)
qed

text \<open>a session returns: when every answered round of the session uses up some of a measure of
  the world, such as the time left of the session, a turn with more rounds of fuel than the
  measure allows from any point returns, and has resumed the wake microphone.\<close>

theorem session_turn_returns:
  assumes "handle_wake_utterance n o' opts ev \<lparr>ts_world = w, ts_calls = []\<rparr> = (r, s')"
    and "wr_wake (we_result ev)"
    and "\<And>v v' cap. wo_session_follow_up o' = Some cap \<Longrightarrow> answered_round o' opts cap v v' \<Longrightarrow>
      rounds v' < (rounds v :: nat)"
    and "\<And>v. rounds v < n"
  shows "r \<noteq> Inr None \<and> fst (last (ts_calls s')) = Resume_Wake"
proof -
  have loop: "fst (session_loop n o' opts parts s) \<noteq> Inr None" for parts s
    by (rule session_loop_ends[where rounds = rounds]) (fact assms(3), fact assms(4))
  have body: "fst (turn_body n o' opts ev s) \<noteq> Inr None" for s
    by (rule turn_body_returns) (rule loop)
  let ?s1 = "snd (voice_call Pause_Wake (act_lift (wo_pause o')) \<lparr>ts_world = w, ts_calls = []\<rparr>)"
  obtain q s2 where q: "turn_body n o' opts ev ?s1 = (q, s2)" by fastforce
  with body[of ?s1] have "q \<noteq> Inr None" by simp
  with assms(1,2) q have "r \<noteq> Inr None"
    by (cases q) (auto simp: handle_wake_utterance_def split: option.splits)
  have k: "boundaries_keep (\<lambda>_. True) o'"
    by (simp add: boundaries_keep_def optional_keeps_def keeps_def Let_def)
  have "fst (last (ts_calls s')) = Resume_Wake"
    by (rule handle_turn[OF assms(1,2) k]) (use \<open>r \<noteq> Inr None\<close> in simp_all)
  with \<open>r \<noteq> Inr None\<close> show ?thesis by simp
qed

theorem session_turn_returns_witness:
  "fst (handle_wake_utterance 1 tiny_orchestrator default_options bare_wake
     \<lparr>ts_world = (), ts_calls = []\<rparr>) \<noteq> Inr None"
proof -
  obtain r s' where h: "handle_wake_utterance 1 tiny_orchestrator default_options bare_wake
      \<lparr>ts_world = (), ts_calls = []\<rparr> = (r, s')" by fastforce
  have "r \<noteq> Inr None \<and> fst (last (ts_calls s')) = Resume_Wake"
    by (rule session_turn_returns[OF h, where rounds = "\<lambda>_. 0"])
       (simp_all add: bare_wake_def tiny_orchestrator_def)
  with h show ?thesis by simp
qed

end
