(* ===== verification/Task_Store.thy ===== *)
theory Task_Store
  imports Friday_Prelude Complex_Main "HOL-Library.List_Lexorder" "HOL-Library.Char_ord"
begin

text \<open>
  The durable task history: the lifecycle table of \<open>history/models.py\<close> and the transactions of
  \<open>history/store.py\<close> that admit, recover, retry and finish executions. A table is a map where
  its key is the task and a list of rows in insertion order otherwise. A transaction that
  raises leaves the database as it was. Times are inputs: \<open>now\<close> in seconds for the leases and
  a time stamp, ordered as its ISO text is, for the rows. Summaries, redacted texts and other
  columns no decision reads are left out of the rows.
\<close>

section \<open>The lifecycle\<close>

datatype task_status =
    Created | Planning | Awaiting_Approval | Approved | Executing | Recovery_Required
  | Retry_Requested | Validating | Reviewing | Reapproval_Required
  | Succeeded | Failed | Blocked | Rolled_Back | Cancelled

definition terminal_statuses :: "task_status list" where
  "terminal_statuses = [Succeeded, Failed, Blocked, Rolled_Back, Cancelled]"

fun task_transitions :: "task_status \<Rightarrow> task_status list" where
  "task_transitions Created = [Planning, Cancelled, Failed]"
| "task_transitions Planning = [Awaiting_Approval, Approved, Blocked, Failed, Cancelled]"
| "task_transitions Awaiting_Approval = [Approved, Blocked, Cancelled]"
| "task_transitions Approved = [Executing, Reapproval_Required, Cancelled]"
| "task_transitions Executing =
     [Validating, Recovery_Required, Reapproval_Required, Failed, Rolled_Back, Cancelled]"
| "task_transitions Recovery_Required = [Executing, Failed, Blocked, Rolled_Back, Cancelled]"
| "task_transitions Retry_Requested = [Executing, Failed, Rolled_Back]"
| "task_transitions Validating =
     [Reviewing, Executing, Recovery_Required, Reapproval_Required, Failed, Rolled_Back, Cancelled]"
| "task_transitions Reviewing =
     [Succeeded, Executing, Recovery_Required, Reapproval_Required, Blocked, Failed, Rolled_Back]"
| "task_transitions Reapproval_Required = [Approved, Blocked, Cancelled]"
| "task_transitions _ = []"

section \<open>Rows\<close>

record task_row =
  tr_repository :: string
  tr_starting_commit :: string
  tr_status :: task_status
  tr_plan_hash :: "string option"
  tr_approval_state :: string
  tr_final_commit :: "string option"
  tr_decision :: "string option"
  tr_duration :: "real option"
  tr_updated_at :: nat

record claim_row =
  cl_id :: string
  cl_claimed_at :: int
  cl_expires_at :: int

datatype attempt_kind = Initial | Recovery | Interrupted_Legacy | Retry

datatype attempt_state = Running | Completed | Attempt_Failed | Interrupted

record attempt_row =
  at_id :: string
  at_task :: string
  at_plan :: string
  at_parent :: "string option"
  at_kind :: attempt_kind
  at_state :: attempt_state
  at_key :: string
  at_created :: nat
  at_updated :: nat
  at_failure :: "string option"
  at_artifact :: "string option"

record approval_row =
  ap_id :: string
  ap_task :: string
  ap_plan :: string
  ap_state :: string
  ap_timestamp :: nat

record execution_row =
  ex_artifact :: string
  ex_task :: string
  ex_run :: string
  ex_status :: "string option"

record validation_row =
  va_task :: string
  va_stem :: string
  va_decision :: "string option"

record tool_row =
  to_task :: string
  to_run :: "string option"

record rollback_row =
  ro_id :: string
  ro_task :: string
  ro_checkpoint :: string
  ro_plan :: string
  ro_state :: string
  ro_fingerprint :: string

text \<open>The keys of an event's metadata that the code reads back.\<close>

record event_metadata =
  em_attempt :: "string option"
  em_plan :: "string option"
  em_checkpoint :: "string option"
  em_operation :: "string option"
  em_worker :: "string option"
  em_fingerprint :: "string option"
  em_old :: "task_status option"
  em_new :: "task_status option"

definition no_metadata :: event_metadata where
  "no_metadata = \<lparr>em_attempt = None, em_plan = None, em_checkpoint = None, em_operation = None,
     em_worker = None, em_fingerprint = None, em_old = None, em_new = None\<rparr>"

text \<open>\<open>None\<close> as metadata stands for a text that \<open>json.loads\<close> refuses.\<close>

record event_row =
  er_task :: string
  er_timestamp :: nat
  er_subsystem :: string
  er_type :: string
  er_artifact :: "string option"
  er_status :: "string option"
  er_metadata :: "event_metadata option"
  er_sequence :: nat

record history_db =
  db_tasks :: "string \<Rightarrow> task_row option"
  db_planning :: "string \<Rightarrow> claim_row option"
  db_execution :: "string \<Rightarrow> claim_row option"
  db_attempts :: "attempt_row list"
  db_approvals :: "approval_row list"
  db_executions :: "execution_row list"
  db_validations :: "validation_row list"
  db_tools :: "tool_row list"
  db_rollbacks :: "rollback_row list"
  db_events :: "event_row list"
  db_reapproval_count :: "string \<Rightarrow> nat"
  db_rollback_count :: "string \<Rightarrow> nat"

definition empty_db :: history_db where
  "empty_db = \<lparr>db_tasks = (\<lambda>_. None), db_planning = (\<lambda>_. None), db_execution = (\<lambda>_. None),
     db_attempts = [], db_approvals = [], db_executions = [], db_validations = [], db_tools = [],
     db_rollbacks = [], db_events = [], db_reapproval_count = (\<lambda>_. 0), db_rollback_count = (\<lambda>_. 0)\<rparr>"

type_synonym 'a db_act = "(history_db, 'a) act"

abbreviation db_error :: "string \<Rightarrow> exn" where
  "db_error \<equiv> Exn HistoryDatabaseErrorC"

section \<open>Statements\<close>

definition transaction :: "'a db_act \<Rightarrow> 'a db_act" where
  "transaction m s = (case m s of (Inl e, _) \<Rightarrow> (Inl e, s) | (Inr x, s') \<Rightarrow> (Inr x, s'))"

definition check :: "bool \<Rightarrow> string \<Rightarrow> unit db_act" where
  "check b msg s = (if b then (Inr (), s) else (Inl (db_error msg), s))"

text \<open>\<open>DELETE ... WHERE task_id=? AND expires_at <= ?\<close>\<close>

definition drop_expired :: "string \<Rightarrow> int \<Rightarrow> (string \<Rightarrow> claim_row option) \<Rightarrow> string \<Rightarrow> claim_row option" where
  "drop_expired t now cs =
     (case cs t of None \<Rightarrow> cs
      | Some c \<Rightarrow> if cl_expires_at c \<le> now then cs(t := None) else cs)"

text \<open>\<open>DELETE ... WHERE task_id=? AND claim_id=?\<close>\<close>

definition drop_claim :: "string \<Rightarrow> string \<Rightarrow> (string \<Rightarrow> claim_row option) \<Rightarrow> string \<Rightarrow> claim_row option" where
  "drop_claim t k cs =
     (case cs t of None \<Rightarrow> cs | Some c \<Rightarrow> if cl_id c = k then cs(t := None) else cs)"

definition claim_until :: "string \<Rightarrow> int \<Rightarrow> int \<Rightarrow> claim_row" where
  "claim_until k now lease = \<lparr>cl_id = k, cl_claimed_at = now, cl_expires_at = now + lease\<rparr>"

text \<open>The keys of the attempts table: its identity and the task's idempotency key.\<close>

definition insert_attempt :: "attempt_row \<Rightarrow> unit db_act" where
  "insert_attempt a s =
     (if list_ex (\<lambda>b. at_id b = at_id a \<or> at_task b = at_task a \<and> at_key b = at_key a) (db_attempts s)
      then (Inl (db_error ''History transaction failed''), s)
      else (Inr (), s\<lparr>db_attempts := db_attempts s @ [a]\<rparr>))"

definition set_status :: "string \<Rightarrow> task_status \<Rightarrow> nat \<Rightarrow> unit db_act" where
  "set_status t st stamp s =
     (Inr (), s\<lparr>db_tasks := (db_tasks s)(t :=
        map_option (\<lambda>r. r\<lparr>tr_status := st, tr_updated_at := stamp\<rparr>) (db_tasks s t))\<rparr>)"

definition insert_event ::
    "string \<Rightarrow> nat \<Rightarrow> string \<Rightarrow> string \<Rightarrow> string option \<Rightarrow> string option \<Rightarrow> event_metadata
     \<Rightarrow> unit db_act" where
  "insert_event t stamp subsystem kind artifact status md s =
     (Inr (), s\<lparr>db_events := db_events s @ [\<lparr>er_task = t, er_timestamp = stamp,
        er_subsystem = subsystem, er_type = kind, er_artifact = artifact, er_status = status,
        er_metadata = Some md,
        er_sequence = Suc (fold max (map er_sequence (filter (\<lambda>e. er_task e = t) (db_events s))) 0)\<rparr>]\<rparr>)"

text \<open>The last row in the order of a time stamp and then an identity.\<close>

definition latest :: "('a \<Rightarrow> nat) \<Rightarrow> ('a \<Rightarrow> string) \<Rightarrow> 'a list \<Rightarrow> 'a option" where
  "latest stamp ident rows =
     fold (\<lambda>r best. case best of None \<Rightarrow> Some r
       | Some b \<Rightarrow> if stamp b < stamp r \<or> stamp b = stamp r \<and> ident b \<le> ident r
                   then Some r else Some b) rows None"

definition attempts_of :: "string \<Rightarrow> history_db \<Rightarrow> attempt_row list" where
  "attempts_of t s = filter (\<lambda>a. at_task a = t) (db_attempts s)"

definition latest_attempt :: "string \<Rightarrow> history_db \<Rightarrow> attempt_row option" where
  "latest_attempt t s = latest at_created at_id (attempts_of t s)"

definition latest_approval :: "string \<Rightarrow> string \<Rightarrow> history_db \<Rightarrow> approval_row option" where
  "latest_approval t plan s =
     latest ap_timestamp ap_id (filter (\<lambda>a. ap_task a = t \<and> ap_plan a = plan) (db_approvals s))"

definition explicitly_approved :: "string \<Rightarrow> string \<Rightarrow> history_db \<Rightarrow> bool" where
  "explicitly_approved t plan s \<longleftrightarrow>
     (case latest_approval t plan s of None \<Rightarrow> False | Some a \<Rightarrow> ap_state a = ''explicitly_approved'')"

definition attempt_by_key :: "string \<Rightarrow> string \<Rightarrow> history_db \<Rightarrow> attempt_row option" where
  "attempt_by_key t key s = find (\<lambda>a. at_task a = t \<and> at_key a = key) (db_attempts s)"

section \<open>Claims\<close>

definition lease_ok :: "int \<Rightarrow> bool" where
  "lease_ok lease \<longleftrightarrow> 1 \<le> lease \<and> lease \<le> 86400"

definition claim_planning :: "string \<Rightarrow> string \<Rightarrow> int \<Rightarrow> int \<Rightarrow> bool db_act" where
  "claim_planning t k lease now =
     act_seq (check (t \<noteq> [] \<and> k \<noteq> [] \<and> lease_ok lease) ''Invalid planning claim'')
       (transaction (\<lambda>s.
          if db_tasks s t = None then (Inl (db_error ''Task not found''), s)
          else
            let cs = drop_expired t now (db_planning s)
            in case cs t of
                 Some _ \<Rightarrow> (Inr False, s\<lparr>db_planning := cs\<rparr>)
               | None \<Rightarrow> (Inr True, s\<lparr>db_planning := cs(t \<mapsto> claim_until k now lease)\<rparr>)))"

definition release_planning_claim :: "string \<Rightarrow> string \<Rightarrow> unit db_act" where
  "release_planning_claim t k =
     transaction (\<lambda>s. (Inr (), s\<lparr>db_planning := drop_claim t k (db_planning s)\<rparr>))"

definition claim_execution :: "string \<Rightarrow> string \<Rightarrow> int \<Rightarrow> int \<Rightarrow> bool db_act" where
  "claim_execution t k lease now =
     act_seq (check (t \<noteq> [] \<and> k \<noteq> [] \<and> lease_ok lease) ''Invalid execution claim'')
       (transaction (\<lambda>s.
          if db_tasks s t = None then (Inl (db_error ''Task not found''), s)
          else
            let cs = drop_expired t now (db_execution s)
            in case cs t of
                 Some _ \<Rightarrow> (Inr False, s\<lparr>db_execution := cs\<rparr>)
               | None \<Rightarrow> (Inr True, s\<lparr>db_execution := cs(t \<mapsto> claim_until k now lease)\<rparr>)))"

definition release_execution_claim :: "string \<Rightarrow> string \<Rightarrow> unit db_act" where
  "release_execution_claim t k =
     transaction (\<lambda>s. (Inr (), s\<lparr>db_execution := drop_claim t k (db_execution s)\<rparr>))"

section \<open>Attempts\<close>

definition new_attempt ::
    "string \<Rightarrow> string \<Rightarrow> string \<Rightarrow> string option \<Rightarrow> attempt_kind \<Rightarrow> string \<Rightarrow> nat \<Rightarrow> attempt_row" where
  "new_attempt k t plan parent kind key stamp =
     \<lparr>at_id = k, at_task = t, at_plan = plan, at_parent = parent, at_kind = kind,
      at_state = Running, at_key = key, at_created = stamp, at_updated = stamp,
      at_failure = None, at_artifact = None\<rparr>"

definition attempt_metadata :: "string \<Rightarrow> string \<Rightarrow> event_metadata" where
  "attempt_metadata k plan = no_metadata\<lparr>em_attempt := Some k, em_plan := Some plan\<rparr>"

definition create_execution_attempt :: "string \<Rightarrow> string \<Rightarrow> string \<Rightarrow> nat \<Rightarrow> unit db_act" where
  "create_execution_attempt t plan k stamp =
     transaction (\<lambda>s.
       case db_tasks s t of
         None \<Rightarrow> (Inl (db_error ''Exact approved execution claim is required''), s)
       | Some r \<Rightarrow>
           if tr_status r \<noteq> Approved \<or> tr_plan_hash r \<noteq> Some plan
              \<or> map_option cl_id (db_execution s t) \<noteq> Some k
           then (Inl (db_error ''Exact approved execution claim is required''), s)
           else act_seq (insert_attempt (new_attempt k t plan None Initial k stamp))
                  (insert_event t stamp ''execution'' ''execution_attempt_started'' (Some k)
                     (Some ''running'') (attempt_metadata k plan)) s)"

text \<open>\<open>begin_recovery_attempt\<close>: the attempt and whether it is new.\<close>

definition begin_recovery_attempt ::
    "string \<Rightarrow> string \<Rightarrow> string \<Rightarrow> string \<Rightarrow> int \<Rightarrow> int \<Rightarrow> nat \<Rightarrow> (attempt_row \<times> bool) db_act" where
  "begin_recovery_attempt t plan k key lease now stamp =
     act_seq (check (t \<noteq> [] \<and> plan \<noteq> [] \<and> k \<noteq> [] \<and> key \<noteq> [] \<and> lease_ok lease)
                ''Invalid recovery attempt identity'')
       (transaction (\<lambda>s.
          case attempt_by_key t key s of
            Some a \<Rightarrow> (Inr (a, False), s)
          | None \<Rightarrow>
              (case db_tasks s t of
                 None \<Rightarrow> (Inl (db_error ''Exact interrupted task is not recoverable''), s)
               | Some r \<Rightarrow>
                   if tr_status r \<noteq> Recovery_Required \<or> tr_plan_hash r \<noteq> Some plan then
                     (Inl (db_error ''Exact interrupted task is not recoverable''), s)
                   else if tr_approval_state r \<noteq> ''explicitly_approved''
                           \<or> \<not> explicitly_approved t plan s then
                     (Inl (db_error ''Current exact-plan approval is unavailable''), s)
                   else
                     let s1 = s\<lparr>db_execution := drop_expired t now (db_execution s)\<rparr>;
                         a = new_attempt k t plan (map_option at_id (latest_attempt t s)) Recovery key stamp
                     in if db_execution s1 t \<noteq> None then
                          (Inl (db_error ''Task execution is already claimed''), s)
                        else
                          act_seq (insert_attempt a)
                            (act_seq (set_status t Executing stamp)
                              (act_seq (insert_event t stamp ''recovery'' ''execution_recovery_started''
                                          (Some k) (Some ''executing'') (attempt_metadata k plan))
                                (act_ok (a, True))))
                            (s1\<lparr>db_execution := (db_execution s1)(t \<mapsto> claim_until k now lease)\<rparr>))))"

definition attach_execution_artifact ::
    "string \<Rightarrow> string \<Rightarrow> string \<Rightarrow> string \<Rightarrow> nat \<Rightarrow> unit db_act" where
  "attach_execution_artifact t k plan artifact stamp =
     transaction (\<lambda>s. (Inr (), s\<lparr>db_attempts := map (\<lambda>a.
       if at_id a = k \<and> at_task a = t \<and> at_plan a = plan \<and> at_state a = Running
       then a\<lparr>at_artifact := Some artifact, at_updated := stamp\<rparr> else a) (db_attempts s)\<rparr>))"

text \<open>\<open>if failure_type\<close> holds of a non-empty text only.\<close>

definition given :: "string option \<Rightarrow> bool" where
  "given v \<longleftrightarrow> v \<noteq> None \<and> v \<noteq> Some []"

definition finish_execution_attempt :: "string \<Rightarrow> string option \<Rightarrow> nat \<Rightarrow> unit db_act" where
  "finish_execution_attempt k failure stamp =
     transaction (\<lambda>s.
       case find (\<lambda>a. at_id a = k) (db_attempts s) of
         None \<Rightarrow> (Inr (), s)
       | Some row \<Rightarrow>
           if at_state row \<notin> {Running, Interrupted} then (Inr (), s)
           else
             let state = (if given failure then Attempt_Failed else Completed);
                 s1 = s\<lparr>db_attempts := map (\<lambda>a. if at_id a = k
                          then a\<lparr>at_state := state, at_updated := stamp, at_failure := failure\<rparr>
                          else a) (db_attempts s),
                        db_execution := drop_claim (at_task row) k (db_execution s)\<rparr>
             in insert_event (at_task row) stamp
                  (if at_kind row \<in> {Recovery, Retry} then ''recovery'' else ''execution'')
                  (if given failure then ''execution_attempt_failed'' else ''execution_attempt_completed'')
                  (Some k) (Some (if given failure then ''failed'' else ''completed''))
                  (attempt_metadata k (at_plan row)) s1)"

definition execution_attempt_is_claimed :: "string \<Rightarrow> string \<Rightarrow> string \<Rightarrow> int \<Rightarrow> history_db \<Rightarrow> bool" where
  "execution_attempt_is_claimed t k plan now s \<longleftrightarrow>
     list_ex (\<lambda>a. at_task a = t \<and> at_id a = k \<and> at_plan a = plan \<and> at_kind a \<in> {Recovery, Retry}
       \<and> at_state a = Running) (db_attempts s)
     \<and> (case db_execution s t of None \<Rightarrow> False | Some c \<Rightarrow> cl_id c = k \<and> now < cl_expires_at c)"

section \<open>Interruption and recovery\<close>

definition executions_of :: "string \<Rightarrow> history_db \<Rightarrow> execution_row list" where
  "executions_of t s = filter (\<lambda>x. ex_task x = t) (db_executions s)"

text \<open>
  \<open>_only_terminal_prior_attempt_history\<close>. The schema admits only four attempt states, so the
  code's other two names never occur in a row.
\<close>

definition only_terminal_prior :: "string \<Rightarrow> history_db \<Rightarrow> attempt_row option \<Rightarrow> bool" where
  "only_terminal_prior t s last_attempt =
     (case last_attempt of None \<Rightarrow> False
      | Some l \<Rightarrow>
          at_state l = Attempt_Failed \<and> at_artifact l = None
          \<and> (let prior = filter (\<lambda>a. at_id a \<noteq> at_id l) (attempts_of t s);
                 ids = map at_id prior;
                 artifacts = map ex_artifact (executions_of t s)
             in list_all (\<lambda>a. at_state a \<in> {Attempt_Failed, Interrupted}) prior
                \<and> list_all (\<lambda>x. ex_run x \<in> set ids
                     \<and> ex_status x \<in> {Some ''failed'', Some ''rolled_back''}) (executions_of t s)
                \<and> list_all (\<lambda>v. va_task v = t \<longrightarrow> va_stem v \<in> set ids \<and> va_decision v = Some ''failed'')
                     (db_validations s)
                \<and> list_all (\<lambda>x. to_task x = t \<longrightarrow>
                     (case to_run x of None \<Rightarrow> False | Some r \<Rightarrow> r \<in> set artifacts)) (db_tools s)))"

definition has_side_effects :: "string \<Rightarrow> history_db \<Rightarrow> bool" where
  "has_side_effects t s \<longleftrightarrow> executions_of t s \<noteq> []
     \<or> list_ex (\<lambda>v. va_task v = t) (db_validations s) \<or> list_ex (\<lambda>x. to_task x = t) (db_tools s)"

definition legacy_attempt :: "(string \<Rightarrow> string) \<Rightarrow> string \<Rightarrow> string \<Rightarrow> string option \<Rightarrow> nat \<Rightarrow> attempt_row" where
  "legacy_attempt digest t plan failure stamp =
     (new_attempt (''attempt_legacy_'' @ take 20 (digest t)) t plan None Interrupted_Legacy
        ''legacy-interruption'' stamp)
       \<lparr>at_state := Interrupted, at_failure := (if given failure then failure else Some ''WorkerLost'')\<rparr>"

text \<open>The steps of \<open>mark_recovery_required\<close> after every check has passed.\<close>

definition record_interruption ::
    "(string \<Rightarrow> string) \<Rightarrow> string \<Rightarrow> string \<Rightarrow> string \<Rightarrow> string \<Rightarrow> string option \<Rightarrow> nat \<Rightarrow> task_status
     \<Rightarrow> attempt_row option \<Rightarrow> attempt_row db_act" where
  "record_interruption digest t plan worker fingerprint failure stamp status last_attempt =
     (let a = (case last_attempt of Some l \<Rightarrow> l | None \<Rightarrow> legacy_attempt digest t plan failure stamp)
      in act_seq (if last_attempt = None then insert_attempt a else act_ok ())
          (act_seq
            (if status \<in> {Executing, Validating} then
               act_seq (set_status t Recovery_Required stamp)
                 (insert_event t stamp ''recovery'' ''execution_interruption_detected''
                    (Some (at_id a)) (Some ''recovery_required'')
                    ((attempt_metadata (at_id a) plan)
                       \<lparr>em_worker := Some worker, em_fingerprint := Some fingerprint\<rparr>))
             else act_ok ())
            (act_ok a)))"

definition mark_recovery_required ::
    "(string \<Rightarrow> string) \<Rightarrow> string \<Rightarrow> string \<Rightarrow> string \<Rightarrow> string \<Rightarrow> string option \<Rightarrow> string option \<Rightarrow> int
     \<Rightarrow> nat \<Rightarrow> attempt_row db_act" where
  "mark_recovery_required digest t plan worker fingerprint failure key now stamp =
     act_seq (check (worker \<in> {''failed'', ''process_replaced''} \<and> fingerprint \<noteq> [])
                ''Worker failure and verified workspace are required'')
       (transaction (\<lambda>s0.
          case db_tasks s0 t of
            None \<Rightarrow> (Inl (db_error ''Task is not the exact interrupted execution''), s0)
          | Some r \<Rightarrow>
              if tr_status r \<notin> {Executing, Validating, Recovery_Required}
                 \<or> tr_plan_hash r \<noteq> Some plan then
                (Inl (db_error ''Task is not the exact interrupted execution''), s0)
              else if tr_approval_state r \<noteq> ''explicitly_approved'' then
                (Inl (db_error ''Exact-plan approval is not valid''), s0)
              else
                let s = s0\<lparr>db_execution := drop_expired t now (db_execution s0)\<rparr>
                in if db_execution s t \<noteq> None then
                     (case (if given key then attempt_by_key t (the key) s else None) of
                        Some a \<Rightarrow> if at_plan a = plan then (Inr a, s)
                                  else (Inl (db_error ''Task execution still has an active claim''), s)
                      | None \<Rightarrow> (Inl (db_error ''Task execution still has an active claim''), s))
                   else if has_side_effects t s \<and> \<not> only_terminal_prior t s (latest_attempt t s) then
                     (Inl (db_error ''Execution has side effects or terminal evidence requiring inspection''), s)
                   else if list_ex (\<lambda>x. ro_task x = t) (db_rollbacks s) then
                     (Inl (db_error ''Rollback evidence requires inspection''), s)
                   else if \<not> explicitly_approved t plan s then
                     (Inl (db_error ''Exact-plan approval is unavailable''), s)
                   else record_interruption digest t plan worker fingerprint failure stamp
                          (tr_status r) (latest_attempt t s) s))"

section \<open>Retry after a rollback\<close>

text \<open>\<open>ORDER BY timestamp DESC\<close>; among equal time stamps the row inserted last comes first.\<close>

definition newest_first :: "event_row list \<Rightarrow> event_row list" where
  "newest_first es = rev (sort_key er_timestamp es)"

text \<open>The metadata that shows a restored baseline for the attempt \<open>k\<close>.\<close>

definition exact_restore :: "string \<Rightarrow> string \<Rightarrow> event_row \<Rightarrow> bool" where
  "exact_restore k plan e \<longleftrightarrow>
     (case er_metadata e of None \<Rightarrow> False
      | Some m \<Rightarrow>
          (er_type e = ''validation_failure_checkpoint_rollback_completed'' \<and> em_attempt m = Some k
           \<or> er_type e = ''failed_retry_setup_reconciled'' \<and> em_attempt m = Some k
             \<and> em_worker m \<in> {Some ''failed'', Some ''process_replaced''} \<and> given (em_fingerprint m))
          \<and> em_plan m = Some plan)"

definition restore_operation ::
    "string \<Rightarrow> string \<Rightarrow> string \<Rightarrow> string option \<Rightarrow> history_db \<Rightarrow> bool" where
  "restore_operation t plan checkpoint operation s \<longleftrightarrow>
     (case operation of None \<Rightarrow> False
      | Some oid \<Rightarrow>
          (case find (\<lambda>x. ro_id x = oid) (db_rollbacks s) of None \<Rightarrow> False
           | Some x \<Rightarrow> ro_task x = t \<and> ro_checkpoint x = checkpoint \<and> ro_plan x = plan
               \<and> ro_state x = ''succeeded'' \<and> ro_fingerprint x \<noteq> []))"

definition rolled_back_artifacts :: "string \<Rightarrow> history_db \<Rightarrow> string list" where
  "rolled_back_artifacts t s =
     map ex_artifact (filter (\<lambda>x. ex_status x = Some ''rolled_back'') (executions_of t s))"

text \<open>\<open>run_id NOT IN (...)\<close> is true of a missing run only when there is nothing to compare with.\<close>

definition orphan_tools :: "string \<Rightarrow> history_db \<Rightarrow> bool" where
  "orphan_tools t s \<longleftrightarrow>
     list_ex (\<lambda>x. to_task x = t \<and>
       (case to_run x of None \<Rightarrow> rolled_back_artifacts t s = []
        | Some r \<Rightarrow> r \<notin> set (rolled_back_artifacts t s))) (db_tools s)"

definition prior_attempt_ids :: "string \<Rightarrow> string \<Rightarrow> history_db \<Rightarrow> string list" where
  "prior_attempt_ids t k s = map at_id (filter (\<lambda>a. at_id a \<noteq> k) (attempts_of t s))"

definition only_rolled_back :: "string \<Rightarrow> string \<Rightarrow> history_db \<Rightarrow> bool" where
  "only_rolled_back t k s \<longleftrightarrow>
     list_all (\<lambda>x. ex_run x \<in> set (prior_attempt_ids t k s) \<and> ex_status x = Some ''rolled_back'')
       (executions_of t s)"

text \<open>The evidence of a setup failure: no artifact of the attempt, and its baseline restored.\<close>

definition setup_failure_evidence :: "string \<Rightarrow> string \<Rightarrow> string \<Rightarrow> history_db \<Rightarrow> bool" where
  "setup_failure_evidence t plan k s \<longleftrightarrow>
     (case find (exact_restore k plan) (newest_first (filter (\<lambda>e. er_task e = t
             \<and> er_type e \<in> {''validation_failure_checkpoint_rollback_completed'',
                             ''failed_retry_setup_reconciled''}) (db_events s))) of
        None \<Rightarrow> False
      | Some e \<Rightarrow>
          (case er_metadata e of None \<Rightarrow> False
           | Some m \<Rightarrow> given (em_checkpoint m)
               \<and> restore_operation t plan (the (em_checkpoint m)) (em_operation m) s
               \<and> only_rolled_back t k s \<and> \<not> orphan_tools t s))"

definition rolled_back_evidence :: "string \<Rightarrow> string \<Rightarrow> attempt_row \<Rightarrow> history_db \<Rightarrow> bool" where
  "rolled_back_evidence t plan previous s \<longleftrightarrow>
     (let own = filter (\<lambda>x. ex_run x = at_id previous) (executions_of t s)
      in if own = [] \<and> at_state previous = Attempt_Failed \<and> at_artifact previous = None
         then setup_failure_evidence t plan (at_id previous) s
         else own \<noteq> [] \<and> ex_status (last own) = Some ''rolled_back'')"

definition successful_execution :: "string \<Rightarrow> history_db \<Rightarrow> bool" where
  "successful_execution t s \<longleftrightarrow>
     list_ex (\<lambda>x. ex_status x \<in> {Some ''complete'', Some ''committed'', Some ''merged'',
                               Some ''no_changes''}) (executions_of t s)"

text \<open>The writes of a retry once every check has passed.\<close>

definition admit_retry ::
    "string \<Rightarrow> string \<Rightarrow> string \<Rightarrow> string \<Rightarrow> string \<Rightarrow> string \<Rightarrow> attempt_row \<Rightarrow> int \<Rightarrow> int \<Rightarrow> nat
     \<Rightarrow> (attempt_row \<times> bool) db_act" where
  "admit_retry t plan k key worker fingerprint previous lease now stamp s =
     (let a = new_attempt k t plan (Some (at_id previous)) Retry key stamp;
          reconciled = (attempt_metadata (at_id previous) plan)
            \<lparr>em_worker := Some worker, em_fingerprint := Some fingerprint\<rparr>;
          requested = (attempt_metadata k plan)\<lparr>em_fingerprint := Some fingerprint,
            em_old := Some Rolled_Back, em_new := Some Retry_Requested\<rparr>;
          started = (attempt_metadata k plan)
            \<lparr>em_old := Some Retry_Requested, em_new := Some Executing\<rparr>
      in act_seq
          (if db_execution s t \<noteq> None then
             insert_event t stamp ''recovery'' ''terminal_execution_claim_reconciled''
               (Some (at_id previous)) (Some ''reconciled'') reconciled
           else act_ok ())
          (act_seq (act_lift (\<lambda>s. s\<lparr>db_execution := (db_execution s)(t \<mapsto> claim_until k now lease)\<rparr>))
            (act_seq (insert_attempt a)
              (act_seq (set_status t Retry_Requested stamp)
                (act_seq (insert_event t stamp ''recovery'' ''task_retry_requested'' (Some k)
                            (Some ''retry_requested'') requested)
                  (act_seq (set_status t Executing stamp)
                    (act_seq (insert_event t stamp ''recovery'' ''task_retry_execution_started''
                                (Some k) (Some ''executing'') started)
                      (act_ok (a, True)))))))) s)"

definition begin_rolled_back_retry ::
    "string \<Rightarrow> string \<Rightarrow> string \<Rightarrow> string \<Rightarrow> string \<Rightarrow> string \<Rightarrow> string \<Rightarrow> string \<Rightarrow> int \<Rightarrow> int \<Rightarrow> nat
     \<Rightarrow> (attempt_row \<times> bool) db_act" where
  "begin_rolled_back_retry t plan k key owner fingerprint worker reason lease now stamp =
     act_seq (check (t \<noteq> [] \<and> plan \<noteq> [] \<and> k \<noteq> [] \<and> key \<noteq> [] \<and> owner \<noteq> []
                \<and> fingerprint \<noteq> [] \<and> reason \<noteq> []
                \<and> worker \<in> {''completed'', ''failed'', ''cancelled'', ''process_replaced''}
                \<and> lease_ok lease) ''Verified terminal worker and workspace are required'')
       (transaction (\<lambda>s.
          case attempt_by_key t key s of
            Some a \<Rightarrow>
              if at_kind a \<noteq> Retry \<or> at_plan a \<noteq> plan then
                (Inl (db_error ''Idempotency key is bound to another attempt''), s)
              else (Inr (a, False), s)
          | None \<Rightarrow>
              (case db_tasks s t of
                 None \<Rightarrow> (Inl (db_error ''Exact explicitly approved rolled-back task is required''), s)
               | Some r \<Rightarrow>
                   if tr_status r \<noteq> Rolled_Back \<or> tr_plan_hash r \<noteq> Some plan
                      \<or> tr_approval_state r \<noteq> ''explicitly_approved'' then
                     (Inl (db_error ''Exact explicitly approved rolled-back task is required''), s)
                   else if \<not> explicitly_approved t plan s then
                     (Inl (db_error ''Current exact-plan approval is unavailable''), s)
                   else
                     (case latest_attempt t s of
                        None \<Rightarrow> (Inl (db_error ''Latest execution attempt is not terminal''), s)
                      | Some previous \<Rightarrow>
                          if at_state previous \<notin> {Completed, Attempt_Failed} then
                            (Inl (db_error ''Latest execution attempt is not terminal''), s)
                          else if \<not> rolled_back_evidence t plan previous s then
                            (Inl (db_error ''Canonical rolled-back execution evidence is required''), s)
                          else if successful_execution t s then
                            (Inl (db_error ''A successful terminal execution already exists''), s)
                          else if (case db_execution s t of None \<Rightarrow> False
                                   | Some c \<Rightarrow> cl_id c \<noteq> at_id previous) then
                            (Inl (db_error ''A competing execution claim prevents retry''), s)
                          else admit_retry t plan k key worker fingerprint previous lease now stamp s))))"

definition baseline_restore ::
    "string \<Rightarrow> string \<Rightarrow> string \<Rightarrow> history_db \<Rightarrow> event_metadata option" where
  "baseline_restore t plan checkpoint s =
     (case find (\<lambda>e. case er_metadata e of None \<Rightarrow> False
              | Some m \<Rightarrow> em_plan m = Some plan \<and> em_checkpoint m = Some checkpoint)
            (newest_first (filter (\<lambda>e. er_task e = t
               \<and> er_type e = ''validation_failure_checkpoint_rollback_completed'') (db_events s))) of
        None \<Rightarrow> None | Some e \<Rightarrow> er_metadata e)"

definition reconcile_failed_retry_setup ::
    "string \<Rightarrow> string \<Rightarrow> string \<Rightarrow> string \<Rightarrow> string \<Rightarrow> string \<Rightarrow> string \<Rightarrow> int \<Rightarrow> nat \<Rightarrow> unit db_act" where
  "reconcile_failed_retry_setup t plan k checkpoint operation fingerprint worker now stamp =
     act_seq (check (worker \<in> {''failed'', ''process_replaced''} \<and> fingerprint \<noteq> [])
                ''Terminated worker and verified workspace are required'')
       (transaction (\<lambda>s0.
          case (db_tasks s0 t, latest_attempt t s0) of
            (Some r, Some l) \<Rightarrow>
              if tr_status r \<noteq> Executing \<or> tr_plan_hash r \<noteq> Some plan
                 \<or> tr_approval_state r \<noteq> ''explicitly_approved'' \<or> at_id l \<noteq> k \<or> at_plan l \<noteq> plan
                 \<or> at_state l \<noteq> Attempt_Failed \<or> at_artifact l \<noteq> None \<or> \<not> given (at_failure l) then
                (Inl (db_error ''Latest exact-plan retry is not an artifactless failed setup''), s0)
              else
                let s = s0\<lparr>db_execution := drop_expired t now (db_execution s0)\<rparr>
                in if db_execution s t \<noteq> None then
                     (Inl (db_error ''Task still has an active execution claim''), s)
                   else if \<not> list_all (\<lambda>a. at_id a = k \<or> at_state a \<in> {Attempt_Failed, Interrupted})
                             (attempts_of t s) then
                     (Inl (db_error ''A prior execution attempt is not terminal''), s)
                   else if \<not> only_rolled_back t k s then
                     (Inl (db_error ''Prior execution evidence is not exclusively rolled back''), s)
                   else if list_ex (\<lambda>x. to_task x = t \<and>
                             (case to_run x of None \<Rightarrow> True
                              | Some q \<Rightarrow> q \<notin> set (rolled_back_artifacts t s))) (db_tools s) then
                     (Inl (db_error ''Unbound tool evidence prevents rollback reconciliation''), s)
                   else if (case baseline_restore t plan checkpoint s of None \<Rightarrow> True
                            | Some m \<Rightarrow> (case em_attempt m of None \<Rightarrow> True
                                | Some q \<Rightarrow> q \<notin> set (prior_attempt_ids t k s))
                              \<or> em_operation m \<noteq> Some operation)
                           \<or> \<not> restore_operation t plan checkpoint (Some operation) s then
                     (Inl (db_error ''Verified baseline rollback evidence is unavailable''), s)
                   else
                     act_seq (set_status t Rolled_Back stamp)
                       (insert_event t stamp ''recovery'' ''failed_retry_setup_reconciled'' (Some k)
                          (Some ''rolled_back'')
                          ((attempt_metadata k plan)\<lparr>em_checkpoint := Some checkpoint,
                             em_operation := Some operation, em_fingerprint := Some fingerprint,
                             em_worker := Some worker\<rparr>)) s
          | _ \<Rightarrow> (Inl (db_error ''Latest exact-plan retry is not an artifactless failed setup''), s0)))"

section \<open>Creating, approving and ending tasks\<close>

definition status_metadata :: "task_status \<Rightarrow> task_status \<Rightarrow> event_metadata" where
  "status_metadata old new = no_metadata\<lparr>em_old := Some old, em_new := Some new\<rparr>"

text \<open>\<open>TaskStatus.value\<close>\<close>

fun status_value :: "task_status \<Rightarrow> string" where
  "status_value Created = ''created''"
| "status_value Planning = ''planning''"
| "status_value Awaiting_Approval = ''awaiting_approval''"
| "status_value Approved = ''approved''"
| "status_value Executing = ''executing''"
| "status_value Recovery_Required = ''recovery_required''"
| "status_value Retry_Requested = ''retry_requested''"
| "status_value Validating = ''validating''"
| "status_value Reviewing = ''reviewing''"
| "status_value Reapproval_Required = ''reapproval_required''"
| "status_value Succeeded = ''succeeded''"
| "status_value Failed = ''failed''"
| "status_value Blocked = ''blocked''"
| "status_value Rolled_Back = ''rolled_back''"
| "status_value Cancelled = ''cancelled''"

definition create_task :: "string \<Rightarrow> task_row \<Rightarrow> nat \<Rightarrow> unit db_act" where
  "create_task t row stamp =
     transaction (\<lambda>s.
       if db_tasks s t \<noteq> None then (Inl (db_error ''History transaction failed''), s)
       else insert_event t stamp ''history'' ''task_created'' None
              (Some (status_value (tr_status row))) no_metadata
              (s\<lparr>db_tasks := (db_tasks s)(t \<mapsto> row)\<rparr>))"

definition count_status :: "string \<Rightarrow> task_status \<Rightarrow> history_db \<Rightarrow> history_db" where
  "count_status t st s =
     (if st = Reapproval_Required then
        s\<lparr>db_reapproval_count := (db_reapproval_count s)(t := Suc (db_reapproval_count s t))\<rparr>
      else if st = Rolled_Back then
        s\<lparr>db_rollback_count := (db_rollback_count s)(t := Suc (db_rollback_count s t))\<rparr>
      else s)"

definition approval_evidence :: "string \<Rightarrow> string option \<Rightarrow> history_db \<Rightarrow> bool" where
  "approval_evidence t plan s \<longleftrightarrow>
     list_ex (\<lambda>a. ap_task a = t \<and> Some (ap_plan a) = plan
       \<and> ap_state a \<in> {''explicitly_approved'', ''historical_execution_evidence''}) (db_approvals s)"

definition store_transition :: "string \<Rightarrow> task_status \<Rightarrow> string \<Rightarrow> nat \<Rightarrow> unit db_act" where
  "store_transition t status subsystem stamp =
     transaction (\<lambda>s.
       case db_tasks s t of
         None \<Rightarrow> (Inl (db_error ''Task not found''), s)
       | Some r \<Rightarrow>
           if status \<notin> set (task_transitions (tr_status r)) then
             (Inl (Exn InvalidStatusTransitionC ''Invalid task transition''), s)
           else if tr_status r \<in> {Awaiting_Approval, Reapproval_Required} \<and> status = Approved
                   \<and> \<not> approval_evidence t (tr_plan_hash r) s then
             (Inl (Exn InvalidStatusTransitionC
                ''Exact-plan approval evidence is required before execution''), s)
           else
             act_seq (set_status t status stamp)
               (act_seq (act_lift (count_status t status))
                 (insert_event t stamp subsystem ''status_changed'' None (Some (status_value status))
                    (status_metadata (tr_status r) status))) s)"

text \<open>\<open>finalize_task\<close>; only a rollback is counted here. \<open>canonical\<close> resolves a path.\<close>

definition finalize_task ::
    "(string \<Rightarrow> string) \<Rightarrow> string \<Rightarrow> string \<Rightarrow> task_status \<Rightarrow> string option \<Rightarrow> string option
     \<Rightarrow> real option \<Rightarrow> nat \<Rightarrow> unit db_act" where
  "finalize_task canonical t repository status commit decision duration stamp =
     transaction (\<lambda>s.
       case db_tasks s t of
         None \<Rightarrow> (Inl (db_error ''Task/repository identity mismatch''), s)
       | Some r \<Rightarrow>
           if canonical (tr_repository r) \<noteq> canonical repository then
             (Inl (db_error ''Task/repository identity mismatch''), s)
           else if status \<notin> set (task_transitions (tr_status r)) then
             (Inl (Exn InvalidStatusTransitionC ''Invalid task transition''), s)
           else
             let s1 = s\<lparr>db_tasks := (db_tasks s)(t \<mapsto> r\<lparr>tr_status := status, tr_updated_at := stamp,
                   tr_final_commit := commit, tr_decision := decision, tr_duration := duration\<rparr>)\<rparr>;
                 s2 = (if status = Rolled_Back then count_status t status s1 else s1)
             in insert_event t stamp ''history'' ''status_changed'' None (Some (status_value status))
                  (status_metadata (tr_status r) status) s2)"

text \<open>\<open>TaskHistoryService.finalize\<close> admits terminal statuses only.\<close>

definition service_finalize ::
    "(string \<Rightarrow> string) \<Rightarrow> string \<Rightarrow> string \<Rightarrow> task_status \<Rightarrow> string option \<Rightarrow> string option
     \<Rightarrow> real option \<Rightarrow> nat \<Rightarrow> unit db_act" where
  "service_finalize canonical t repository status commit decision duration stamp s =
     (case db_tasks s t of
        None \<Rightarrow> (Inl (db_error ''Task/repository/starting-commit identity mismatch''), s)
      | Some r \<Rightarrow>
          if canonical (tr_repository r) \<noteq> canonical repository then
            (Inl (db_error ''Task/repository/starting-commit identity mismatch''), s)
          else if status \<notin> set terminal_statuses then
            (Inl (db_error ''Final status must be terminal''), s)
          else finalize_task canonical t (tr_repository r) status commit decision duration stamp s)"

text \<open>The columns \<open>update_task\<close> may set; the descriptive ones are one constructor.\<close>

datatype task_change =
    Set_Plan_Hash "string option"
  | Set_Approval_State string
  | Set_Final_Commit "string option"
  | Set_Decision "string option"
  | Set_Duration "real option"
  | Set_Description
  | Set_Other_Column

fun apply_change :: "task_change \<Rightarrow> task_row \<Rightarrow> task_row" where
  "apply_change (Set_Plan_Hash v) r = r\<lparr>tr_plan_hash := v\<rparr>"
| "apply_change (Set_Approval_State v) r = r\<lparr>tr_approval_state := v\<rparr>"
| "apply_change (Set_Final_Commit v) r = r\<lparr>tr_final_commit := v\<rparr>"
| "apply_change (Set_Decision v) r = r\<lparr>tr_decision := v\<rparr>"
| "apply_change (Set_Duration v) r = r\<lparr>tr_duration := v\<rparr>"
| "apply_change Set_Description r = r"
| "apply_change Set_Other_Column r = r"

definition update_task ::
    "(string \<Rightarrow> string) \<Rightarrow> string \<Rightarrow> string \<Rightarrow> task_change list \<Rightarrow> nat \<Rightarrow> unit db_act" where
  "update_task canonical t repository changes stamp s =
     (if changes = [] \<or> Set_Other_Column \<in> set changes then
        (Inl (db_error ''Invalid task update fields''), s)
      else case db_tasks s t of
        None \<Rightarrow> (Inl (db_error ''Task/repository identity mismatch''), s)
      | Some r \<Rightarrow>
          if canonical (tr_repository r) \<noteq> canonical repository then
            (Inl (db_error ''Task/repository identity mismatch''), s)
          else (Inr (), s\<lparr>db_tasks := (db_tasks s)(t \<mapsto>
                 (fold apply_change changes r)\<lparr>tr_updated_at := stamp\<rparr>)\<rparr>))"

definition is_commit_sha :: "string \<Rightarrow> bool" where
  "is_commit_sha v \<longleftrightarrow> length v = 40 \<and> list_all (\<lambda>c. c \<in> set ''0123456789abcdef'') v"

definition record_reviewed_commit ::
    "(string \<Rightarrow> string) \<Rightarrow> string \<Rightarrow> string \<Rightarrow> string \<Rightarrow> string \<Rightarrow> string \<Rightarrow> nat \<Rightarrow> unit db_act" where
  "record_reviewed_commit canonical t repository plan k commit stamp =
     act_seq (check (is_commit_sha commit) ''Promoted commit must be a full Git SHA'')
       (transaction (\<lambda>s.
          case db_tasks s t of
            None \<Rightarrow> (Inl (db_error ''Reviewed task identity or lifecycle changed''), s)
          | Some r \<Rightarrow>
              if canonical (tr_repository r) \<noteq> canonical repository \<or> tr_status r \<noteq> Succeeded
                 \<or> tr_plan_hash r \<noteq> Some plan then
                (Inl (db_error ''Reviewed task identity or lifecycle changed''), s)
              else if given (tr_final_commit r) then
                (if tr_final_commit r \<noteq> Some commit then
                   (Inl (db_error ''Task is bound to a different commit''), s)
                 else (Inr (), s))
              else
                (case find (\<lambda>a. at_task a = t \<and> at_id a = k \<and> at_plan a = plan) (db_attempts s) of
                   None \<Rightarrow> (Inl (db_error ''Completed execution attempt is unavailable''), s)
                 | Some a \<Rightarrow>
                     if at_state a \<noteq> Completed \<or> \<not> given (at_artifact a) then
                       (Inl (db_error ''Completed execution attempt is unavailable''), s)
                     else insert_event t stamp ''promotion'' ''reviewed_commit_recorded'' (at_artifact a)
                       (Some ''succeeded'') (no_metadata\<lparr>em_attempt := Some k\<rparr>)
                       (if tr_final_commit r = None
                        then s\<lparr>db_tasks := (db_tasks s)(t \<mapsto>
                               r\<lparr>tr_final_commit := Some commit, tr_updated_at := stamp\<rparr>)\<rparr>
                        else s))))"

definition attach_approval :: "string \<Rightarrow> string \<Rightarrow> string \<Rightarrow> string \<Rightarrow> nat \<Rightarrow> unit db_act" where
  "attach_approval aid t plan state stamp =
     act_seq (check (state \<in> {''explicitly_approved'', ''historical_execution_evidence''})
                ''Unsupported approval evidence state'')
       (transaction (\<lambda>s.
          case db_tasks s t of
            None \<Rightarrow> (Inl (db_error ''Approval does not match the task's exact current plan hash''), s)
          | Some r \<Rightarrow>
              if tr_plan_hash r \<noteq> Some plan then
                (Inl (db_error ''Approval does not match the task's exact current plan hash''), s)
              else if tr_status r \<notin> {Awaiting_Approval, Reapproval_Required} then
                (Inl (db_error ''Task is not awaiting exact-plan approval''), s)
              else if list_ex (\<lambda>a. ap_id a = aid) (db_approvals s) then
                (Inl (db_error ''History transaction failed''), s)
              else insert_event t stamp ''approval'' ''approval_recorded'' (Some aid) (Some state) no_metadata
                (s\<lparr>db_approvals := db_approvals s @ [\<lparr>ap_id = aid, ap_task = t, ap_plan = plan,
                                     ap_state = state, ap_timestamp = stamp\<rparr>],
                   db_tasks := (db_tasks s)(t \<mapsto> r\<lparr>tr_approval_state := state, tr_updated_at := stamp\<rparr>)\<rparr>)))"

definition add_event ::
    "string \<Rightarrow> nat \<Rightarrow> string \<Rightarrow> string \<Rightarrow> string option \<Rightarrow> event_metadata \<Rightarrow> unit db_act" where
  "add_event t stamp subsystem kind status md =
     transaction (\<lambda>s. if db_tasks s t = None then (Inl (db_error ''Task not found''), s)
       else insert_event t stamp subsystem kind None status md s)"

end
