(* ===== verification/Task_Lifecycle.thy ===== *)
theory Task_Lifecycle
  imports Task_Store
begin

text \<open>
  What the task store guarantees over any sequence of its calls: failed calls change nothing,
  and the status of a task moves along the lifecycle table only. \<open>store_act\<close> runs one call of
  the store, \<open>store_run\<close> a sequence of them; a call that raises has returned its error.
\<close>

section \<open>The store as a sequence of calls\<close>

datatype store_call =
    Create string task_row nat
  | Claim_Planning string string int int
  | Release_Planning string string
  | Claim_Execution string string int int
  | Release_Execution string string
  | Begin_Attempt string string string nat
  | Begin_Recovery string string string string int int nat
  | Attach_Artifact string string string string nat
  | Mark_Recovery string string string string "string option" "string option" int nat
  | Finish_Attempt string "string option" nat
  | Begin_Retry string string string string string string string string int int nat
  | Reconcile string string string string string string string int nat
  | Transition string task_status string nat
  | Finalize string string task_status "string option" "string option" "real option" nat
  | Update string string "task_change list" nat
  | Record_Commit string string string string string nat
  | Approve string string string string nat
  | Log string nat string string "string option" event_metadata
  | Record_Evidence "execution_row list" "validation_row list" "tool_row list" "rollback_row list"

text \<open>The rows other components record as evidence of what they ran.\<close>

definition record_evidence ::
    "execution_row list \<Rightarrow> validation_row list \<Rightarrow> tool_row list \<Rightarrow> rollback_row list \<Rightarrow> unit db_act" where
  "record_evidence xs vs ts rs =
     act_lift (\<lambda>s. s\<lparr>db_executions := db_executions s @ xs, db_validations := db_validations s @ vs,
       db_tools := db_tools s @ ts, db_rollbacks := db_rollbacks s @ rs\<rparr>)"

abbreviation no_result :: "'a db_act \<Rightarrow> unit db_act" where
  "no_result m \<equiv> act_bind m (\<lambda>_. act_ok ())"

fun store_act :: "(string \<Rightarrow> string) \<Rightarrow> (string \<Rightarrow> string) \<Rightarrow> store_call \<Rightarrow> unit db_act" where
  "store_act canon digest (Create t row stamp) = create_task t row stamp"
| "store_act canon digest (Claim_Planning t k lease now) = no_result (claim_planning t k lease now)"
| "store_act canon digest (Release_Planning t k) = release_planning_claim t k"
| "store_act canon digest (Claim_Execution t k lease now) = no_result (claim_execution t k lease now)"
| "store_act canon digest (Release_Execution t k) = release_execution_claim t k"
| "store_act canon digest (Begin_Attempt t plan k stamp) = create_execution_attempt t plan k stamp"
| "store_act canon digest (Begin_Recovery t plan k key lease now stamp) =
     no_result (begin_recovery_attempt t plan k key lease now stamp)"
| "store_act canon digest (Attach_Artifact t k plan artifact stamp) =
     attach_execution_artifact t k plan artifact stamp"
| "store_act canon digest (Mark_Recovery t plan worker fp failure key now stamp) =
     no_result (mark_recovery_required digest t plan worker fp failure key now stamp)"
| "store_act canon digest (Finish_Attempt k failure stamp) = finish_execution_attempt k failure stamp"
| "store_act canon digest (Begin_Retry t plan k key own fp worker reason lease now stamp) =
     no_result (begin_rolled_back_retry t plan k key own fp worker reason lease now stamp)"
| "store_act canon digest (Reconcile t plan k checkpoint operation fp worker now stamp) =
     reconcile_failed_retry_setup t plan k checkpoint operation fp worker now stamp"
| "store_act canon digest (Transition t status subsystem stamp) = store_transition t status subsystem stamp"
| "store_act canon digest (Finalize t repository status commit decision duration stamp) =
     service_finalize canon t repository status commit decision duration stamp"
| "store_act canon digest (Update t repository changes stamp) = update_task canon t repository changes stamp"
| "store_act canon digest (Record_Commit t repository plan k commit stamp) =
     record_reviewed_commit canon t repository plan k commit stamp"
| "store_act canon digest (Approve aid t plan state stamp) = attach_approval aid t plan state stamp"
| "store_act canon digest (Log t stamp subsystem kind status md) = add_event t stamp subsystem kind status md"
| "store_act canon digest (Record_Evidence xs vs ts rs) = record_evidence xs vs ts rs"

definition store_run ::
    "(string \<Rightarrow> string) \<Rightarrow> (string \<Rightarrow> string) \<Rightarrow> store_call list \<Rightarrow> history_db \<Rightarrow> history_db" where
  "store_run canon digest cs s = fold (\<lambda>c s. snd (store_act canon digest c s)) cs s"

section \<open>Failed calls\<close>

definition atomic :: "'a db_act \<Rightarrow> bool" where
  "atomic m \<longleftrightarrow> (\<forall>s e s'. m s = (Inl e, s') \<longrightarrow> s' = s)"

named_theorems atomic_intros \<open>calls that change nothing when they raise\<close>

lemma atomic_transaction [atomic_intros]: "atomic (transaction m)"
  by (auto simp: atomic_def transaction_def split: prod.splits sum.splits)

lemma atomic_checked [atomic_intros]: "atomic m \<Longrightarrow> atomic (act_seq (check b msg) m)"
  by (auto simp: atomic_def act_bind_def check_def split: prod.splits sum.splits if_splits)

lemma atomic_no_result [atomic_intros]: "atomic m \<Longrightarrow> atomic (no_result m)"
  by (auto simp: atomic_def act_bind_def act_ok_def split: prod.splits sum.splits)

lemma atomic_update [atomic_intros]: "atomic (update_task canon t repository changes stamp)"
  by (auto simp: atomic_def update_task_def split: if_splits option.splits)

lemma atomic_finalize [atomic_intros]: "atomic (service_finalize canon t repository st commit d dur stamp)"
  by (auto simp: atomic_def service_finalize_def finalize_task_def transaction_def
      split: if_splits option.splits prod.splits sum.splits)

lemma atomic_evidence [atomic_intros]: "atomic (record_evidence xs vs ts rs)"
  by (simp add: atomic_def record_evidence_def act_lift_def)

lemma atomic_store_act: "atomic (store_act canon digest c)"
  by (cases c) (simp_all add: atomic_intros claim_planning_def release_planning_claim_def claim_execution_def
      release_execution_claim_def create_execution_attempt_def begin_recovery_attempt_def
      attach_execution_artifact_def mark_recovery_required_def finish_execution_attempt_def
      begin_rolled_back_retry_def reconcile_failed_retry_setup_def create_task_def
      store_transition_def record_reviewed_commit_def attach_approval_def add_event_def)

section \<open>The lifecycle of a task\<close>

text \<open>The call logged the new status of the task as its last event.\<close>

definition status_logged :: "string \<Rightarrow> task_status \<Rightarrow> history_db \<Rightarrow> history_db \<Rightarrow> bool" where
  "status_logged u st s s' \<longleftrightarrow>
     (\<exists>es e. db_events s' = db_events s @ es @ [e] \<and> er_task e = u
        \<and> er_status e = Some (status_value st))"

text \<open>One call keeps the task's identity and moves its status by at most one permitted step.\<close>

definition lawful_task :: "bool \<Rightarrow> string \<Rightarrow> history_db \<Rightarrow> history_db \<Rightarrow> bool" where
  "lawful_task retry u s s' \<longleftrightarrow>
     (\<forall>r. db_tasks s u = Some r \<longrightarrow>
        (\<exists>r'. db_tasks s' u = Some r' \<and> tr_repository r' = tr_repository r
           \<and> tr_starting_commit r' = tr_starting_commit r
           \<and> (tr_status r' = tr_status r
              \<or> (tr_status r' \<in> set (task_transitions (tr_status r))
                 \<or> retry \<and> tr_status r = Rolled_Back \<and> tr_status r' = Executing)
                \<and> status_logged u (tr_status r') s s')))"

lemma lawful_same_tasks: "db_tasks s' = db_tasks s \<Longrightarrow> lawful_task b u s s'"
  by (simp add: lawful_task_def)

lemma status_loggedI:
  "db_events s' = db_events s @ [e] \<Longrightarrow> er_task e = u \<Longrightarrow> er_status e = Some (status_value st) \<Longrightarrow>
     status_logged u st s s'"
  by (auto simp: status_logged_def intro: exI[of _ "[]"])

lemmas statement_defs = transaction_def check_def insert_attempt_def set_status_def
  insert_event_def act_bind_def act_ok_def act_lift_def

lemma claim_tasks:
  "claim_planning t k lease now s = (Inr b, s') \<Longrightarrow> db_tasks s' = db_tasks s"
  "claim_execution t k lease now s = (Inr b, s') \<Longrightarrow> db_tasks s' = db_tasks s"
  "release_planning_claim t k s = (Inr x, s') \<Longrightarrow> db_tasks s' = db_tasks s"
  "release_execution_claim t k s = (Inr x, s') \<Longrightarrow> db_tasks s' = db_tasks s"
  by (auto simp: claim_planning_def claim_execution_def release_planning_claim_def
      release_execution_claim_def statement_defs Let_def split: if_splits option.splits)

lemma attempt_tasks:
  "create_execution_attempt t plan k stamp s = (Inr x, s') \<Longrightarrow> db_tasks s' = db_tasks s"
  "attach_execution_artifact t k plan artifact stamp s = (Inr x, s') \<Longrightarrow> db_tasks s' = db_tasks s"
  "finish_execution_attempt k failure stamp s = (Inr x, s') \<Longrightarrow> db_tasks s' = db_tasks s"
  "add_event t stamp subsystem kind status md s = (Inr x, s') \<Longrightarrow> db_tasks s' = db_tasks s"
  "record_evidence xs vs ts rs s = (Inr x, s') \<Longrightarrow> db_tasks s' = db_tasks s"
  by (auto simp: create_execution_attempt_def attach_execution_artifact_def
      finish_execution_attempt_def add_event_def record_evidence_def statement_defs Let_def
      split: if_splits option.splits prod.splits sum.splits)

lemma lawful_create: "create_task t row stamp s = (Inr x, s') \<Longrightarrow> lawful_task b u s s'"
  by (auto simp: create_task_def statement_defs lawful_task_def split: if_splits)

lemma lawful_approve: "attach_approval aid t plan state stamp s = (Inr x, s') \<Longrightarrow> lawful_task b u s s'"
  by (auto simp: attach_approval_def statement_defs lawful_task_def split: if_splits option.splits)

lemma fold_changes:
  "tr_status (fold apply_change cs r) = tr_status r"
  "tr_repository (fold apply_change cs r) = tr_repository r"
  "tr_starting_commit (fold apply_change cs r) = tr_starting_commit r"
proof -
  have one: "tr_status (apply_change c r) = tr_status r" "tr_repository (apply_change c r) = tr_repository r"
    "tr_starting_commit (apply_change c r) = tr_starting_commit r" for c r
    by (cases c; simp)+
  show "tr_status (fold apply_change cs r) = tr_status r"
    "tr_repository (fold apply_change cs r) = tr_repository r"
    "tr_starting_commit (fold apply_change cs r) = tr_starting_commit r"
    by (induction cs arbitrary: r) (simp_all add: one)
qed

lemma lawful_update: "update_task canon t repository changes stamp s = (Inr x, s') \<Longrightarrow> lawful_task b u s s'"
  by (auto simp: update_task_def lawful_task_def fold_changes split: if_splits option.splits)

lemma count_status_frame [simp]:
  "db_tasks (count_status t st s) = db_tasks s" "db_events (count_status t st s) = db_events s"
  by (simp_all add: count_status_def)

lemma lawful_transition:
  "store_transition t status subsystem stamp s = (Inr x, s') \<Longrightarrow> lawful_task b u s s'"
  by (auto simp: store_transition_def statement_defs lawful_task_def intro!: status_loggedI
      split: if_splits option.splits)

lemma lawful_finalize:
  "service_finalize canon t repository status commit decision duration stamp s = (Inr x, s') \<Longrightarrow>
     lawful_task b u s s'"
  by (auto simp: service_finalize_def finalize_task_def statement_defs lawful_task_def Let_def
      intro!: status_loggedI split: if_splits option.splits)

lemma lawful_commit:
  "record_reviewed_commit canon t repository plan k commit stamp s = (Inr x, s') \<Longrightarrow> lawful_task b u s s'"
  by (auto simp: record_reviewed_commit_def statement_defs lawful_task_def split: if_splits option.splits)

lemma lawful_recovery:
  "begin_recovery_attempt t plan k key lease now stamp s = (Inr x, s') \<Longrightarrow> lawful_task b u s s'"
  by (auto simp: begin_recovery_attempt_def statement_defs lawful_task_def Let_def
      intro!: status_loggedI split: if_splits option.splits)

lemma lawful_reconcile:
  "reconcile_failed_retry_setup t plan k checkpoint operation fp worker now stamp s = (Inr x, s') \<Longrightarrow>
     lawful_task b u s s'"
  by (auto simp: reconcile_failed_retry_setup_def statement_defs lawful_task_def Let_def
      intro!: status_loggedI split: if_splits option.splits)

lemma lawful_interruption:
  assumes "record_interruption digest t plan worker fp failure stamp st l s = (Inr x, s')"
    and "db_tasks s t = Some r" and "tr_status r = st" and "st \<in> {Executing, Validating, Recovery_Required}"
  shows "lawful_task b u s s'"
  using assms
  by (auto simp: record_interruption_def statement_defs lawful_task_def Let_def
      intro!: status_loggedI split: if_splits option.splits)

lemma lawful_same_start:
  "lawful_task b u s1 s' \<Longrightarrow> db_tasks s1 = db_tasks s \<Longrightarrow> db_events s1 = db_events s \<Longrightarrow> lawful_task b u s s'"
  by (simp add: lawful_task_def status_logged_def)

lemma mark_recovery_InrE:
  assumes "mark_recovery_required digest t plan worker fp failure key now stamp s = (Inr x, s')"
  obtains "s' = s\<lparr>db_execution := drop_expired t now (db_execution s)\<rparr>"
    and "db_execution s' t \<noteq> None"
  | r where "db_tasks s t = Some r" and "tr_status r \<in> {Executing, Validating, Recovery_Required}"
      and "tr_plan_hash r = Some plan" and "explicitly_approved t plan s"
      and "drop_expired t now (db_execution s) t = None"
      and "record_interruption digest t plan worker fp failure stamp (tr_status r)
             (latest_attempt t s) (s\<lparr>db_execution := drop_expired t now (db_execution s)\<rparr>) = (Inr x, s')"
  using assms
  by (auto simp: mark_recovery_required_def transaction_def check_def act_bind_def Let_def
      latest_attempt_def attempts_of_def explicitly_approved_def latest_approval_def
      split: if_splits option.splits prod.splits sum.splits)

lemma lawful_mark:
  assumes "mark_recovery_required digest t plan worker fp failure key now stamp s = (Inr x, s')"
  shows "lawful_task b u s s'"
  using assms
proof (rule mark_recovery_InrE)
  assume "s' = s\<lparr>db_execution := drop_expired t now (db_execution s)\<rparr>"
  then show ?thesis by (simp add: lawful_same_tasks)
next
  fix r
  let ?s1 = "s\<lparr>db_execution := drop_expired t now (db_execution s)\<rparr>"
  assume r: "db_tasks s t = Some r" "tr_status r \<in> {Executing, Validating, Recovery_Required}"
    and i: "record_interruption digest t plan worker fp failure stamp (tr_status r)
      (latest_attempt t s) ?s1 = (Inr x, s')"
  have "lawful_task b u ?s1 s'"
    by (rule lawful_interruption[OF i]) (use r in auto)
  then show ?thesis by (rule lawful_same_start) simp_all
qed

lemma admit_retry_Inr:
  assumes "admit_retry t plan k key worker fp previous lease now stamp s = (Inr x, s')"
  shows "db_tasks s' = (db_tasks s)(t := map_option (\<lambda>r. r\<lparr>tr_status := Executing, tr_updated_at := stamp\<rparr>)
           (db_tasks s t))"
    and "\<exists>es e. db_events s' = db_events s @ es @ [e] \<and> er_task e = t \<and> er_status e = Some ''executing''"
    and "db_execution s' = (db_execution s)(t \<mapsto> claim_until k now lease)"
    and "db_attempts s' = db_attempts s @ [new_attempt k t plan (Some (at_id previous)) Retry key stamp]"
    and "db_approvals s' = db_approvals s"
  using assms
  by (auto simp: admit_retry_def statement_defs Let_def option.map_comp comp_def split: if_splits)

lemma begin_retry_InrE:
  assumes "begin_rolled_back_retry t plan k key own fp worker reason lease now stamp s = (Inr x, s')"
  obtains a where "s' = s" and "x = (a, False)" and "attempt_by_key t key s = Some a"
      and "at_kind a = Retry" and "at_plan a = plan"
  | r previous where "db_tasks s t = Some r" and "tr_status r = Rolled_Back"
      and "tr_plan_hash r = Some plan" and "tr_approval_state r = ''explicitly_approved''"
      and "explicitly_approved t plan s" and "attempt_by_key t key s = None"
      and "latest_attempt t s = Some previous" and "at_state previous \<in> {Completed, Attempt_Failed}"
      and "rolled_back_evidence t plan previous s" and "\<not> successful_execution t s"
      and "case db_execution s t of None \<Rightarrow> True | Some c \<Rightarrow> cl_id c = at_id previous"
      and "admit_retry t plan k key worker fp previous lease now stamp s = (Inr x, s')"
      and "lease_ok lease"
  using assms
  by (auto simp: begin_rolled_back_retry_def transaction_def check_def act_bind_def
      split: if_splits option.splits prod.splits sum.splits)

lemma lawful_retry:
  assumes "begin_rolled_back_retry t plan k key own fp worker reason lease now stamp s = (Inr x, s')"
  shows "lawful_task True u s s'"
  using assms
proof (rule begin_retry_InrE)
  fix a assume "s' = s"
  then show ?thesis by (simp add: lawful_same_tasks)
next
  fix r previous
  assume r: "db_tasks s t = Some r" "tr_status r = Rolled_Back"
    and m: "admit_retry t plan k key worker fp previous lease now stamp s = (Inr x, s')"
  from admit_retry_Inr(1,2)[OF m] r show ?thesis
    by (auto simp: lawful_task_def status_logged_def)
qed

fun is_retry :: "store_call \<Rightarrow> bool" where
  "is_retry (Begin_Retry _ _ _ _ _ _ _ _ _ _ _) = True"
| "is_retry _ = False"

lemma no_result_Inr: "no_result m s = (Inr y, s') \<Longrightarrow> \<exists>x. m s = (Inr x, s')"
  by (auto simp: act_bind_def act_ok_def split: prod.splits sum.splits)

lemma lawful_store_act:
  "lawful_task (is_retry c) u s (snd (store_act canon digest c s))"
proof (cases "fst (store_act canon digest c s)")
  case (Inl e)
  then have "store_act canon digest c s = (Inl e, snd (store_act canon digest c s))"
    by (metis prod.collapse)
  with atomic_store_act[of canon digest c] have "snd (store_act canon digest c s) = s"
    by (auto simp: atomic_def)
  then show ?thesis by (simp add: lawful_same_tasks)
next
  case (Inr y)
  then obtain s' where r: "store_act canon digest c s = (Inr y, s')" by (metis prod.collapse)
  have "lawful_task (is_retry c) u s s'"
    by (cases c) (use r in \<open>auto dest!: no_result_Inr claim_tasks attempt_tasks
        intro: lawful_same_tasks lawful_create lawful_approve lawful_update lawful_transition
        lawful_finalize lawful_commit lawful_recovery lawful_reconcile lawful_mark lawful_retry\<close>)
  with r show ?thesis by simp
qed

text \<open>A status no call leaves: terminal, except that a rolled-back task can be retried.\<close>

definition final_status :: "task_status \<Rightarrow> bool" where
  "final_status st \<longleftrightarrow> st \<in> {Succeeded, Failed, Blocked, Cancelled}"

lemma final_store_act:
  assumes "db_tasks s u = Some r" and "final_status (tr_status r)"
  shows "\<exists>r'. db_tasks (snd (store_act canon digest c s)) u = Some r' \<and> tr_status r' = tr_status r
    \<and> tr_repository r' = tr_repository r"
  using lawful_store_act[of c u s canon digest] assms
  by (auto simp: lawful_task_def final_status_def)

section \<open>Failed calls change nothing\<close>



section \<open>The lifecycle over runs\<close>

text \<open>The permitted steps, and the one step of a retry that leaves a terminal status.\<close>

definition lifecycle :: "bool \<Rightarrow> (task_status \<times> task_status) set" where
  "lifecycle retry = {(a, b). b \<in> set (task_transitions a) \<or> retry \<and> a = Rolled_Back \<and> b = Executing}"

lemma lifecycle_mono: "(a, b) \<in> lifecycle False \<Longrightarrow> (a, b) \<in> lifecycle x"
  by (auto simp: lifecycle_def)

lemma store_act_task:
  assumes "db_tasks s u = Some r"
  obtains r' where "db_tasks (snd (store_act canon digest c s)) u = Some r'"
    and "tr_repository r' = tr_repository r" and "tr_starting_commit r' = tr_starting_commit r"
    and "tr_status r' = tr_status r \<or> (tr_status r, tr_status r') \<in> lifecycle (is_retry c)
           \<and> status_logged u (tr_status r') s (snd (store_act canon digest c s))"
  using lawful_store_act[of c u s canon digest] assms that
  by (force simp: lawful_task_def lifecycle_def)

lemma store_run_Cons [simp]:
  "store_run canon digest [] s = s"
  "store_run canon digest (c # cs) s = store_run canon digest cs (snd (store_act canon digest c s))"
  by (simp_all add: store_run_def)

lemma store_run_task:
  assumes "db_tasks s u = Some r"
  shows "\<exists>r'. db_tasks (store_run canon digest cs s) u = Some r'
    \<and> tr_repository r' = tr_repository r \<and> tr_starting_commit r' = tr_starting_commit r
    \<and> (tr_status r, tr_status r') \<in> (lifecycle (list_ex is_retry cs))\<^sup>*"
  using assms
proof (induction cs arbitrary: s r)
  case (Cons c cs)
  obtain r1 where r1: "db_tasks (snd (store_act canon digest c s)) u = Some r1"
      "tr_repository r1 = tr_repository r" "tr_starting_commit r1 = tr_starting_commit r"
    and st: "tr_status r1 = tr_status r \<or> (tr_status r, tr_status r1) \<in> lifecycle (is_retry c)"
    using store_act_task[OF Cons.prems, of canon digest c thesis] by blast
  obtain r' where r': "db_tasks (store_run canon digest (c # cs) s) u = Some r'"
      "tr_repository r' = tr_repository r1" "tr_starting_commit r' = tr_starting_commit r1"
    and run: "(tr_status r1, tr_status r') \<in> (lifecycle (list_ex is_retry cs))\<^sup>*"
    using Cons.IH[OF r1(1)] by auto
  let ?L = "lifecycle (list_ex is_retry (c # cs))"
  have "lifecycle (list_ex is_retry cs) \<subseteq> ?L" "lifecycle (is_retry c) \<subseteq> ?L"
    by (auto simp: lifecycle_def)
  with st run have "(tr_status r, tr_status r1) \<in> ?L\<^sup>*" "(tr_status r1, tr_status r') \<in> ?L\<^sup>*"
    by (auto intro: r_into_rtrancl dest: rtrancl_mono[THEN subsetD])
  with r' r1 show ?case by (auto intro: rtrancl_trans)
qed simp

lemma final_status_stays:
  assumes "(a, b) \<in> (lifecycle x)\<^sup>*" and "final_status a"
  shows "b = a"
  using assms by (induction rule: rtrancl_induct) (auto simp: lifecycle_def final_status_def)

lemma rolled_back_stays:
  assumes "(a, b) \<in> (lifecycle False)\<^sup>*" and "a \<in> set terminal_statuses"
  shows "b = a"
  using assms by (induction rule: rtrancl_induct) (auto simp: lifecycle_def terminal_statuses_def)


definition sample_task :: "task_status \<Rightarrow> task_row" where
  "sample_task st = \<lparr>tr_repository = ''/r'', tr_starting_commit = ''c0'', tr_status = st,
     tr_plan_hash = Some ''h'', tr_approval_state = ''explicitly_approved'', tr_final_commit = None,
     tr_decision = None, tr_duration = None, tr_updated_at = 0\<rparr>"


text \<open>Whenever a call changes the status of a task, the last event it appends to the log belongs to that task and records the new status; no earlier event is removed or altered.\<close>
theorem status_change_is_logged:
  assumes "db_tasks s u = Some r" and "db_tasks (snd (store_act canon digest c s)) u = Some r'"
    and "tr_status r' \<noteq> tr_status r"
  shows "\<exists>es e. db_events (snd (store_act canon digest c s)) = db_events s @ es @ [e]
    \<and> er_task e = u \<and> er_status e = Some (status_value (tr_status r'))"
  by (rule store_act_task[OF assms(1), of canon digest c]) (use assms(2,3) in \<open>auto simp: status_logged_def\<close>)

theorem status_change_is_logged_witness:
  "\<exists>es e. db_events (snd (store_act id id (Transition ''t'' Executing ''cli'' 3)
        (empty_db\<lparr>db_tasks := [''t'' \<mapsto> sample_task Approved]\<rparr>))) = [] @ es @ [e]
    \<and> er_task e = ''t'' \<and> er_status e = Some ''executing''"
  using status_change_is_logged[of "empty_db\<lparr>db_tasks := [''t'' \<mapsto> sample_task Approved]\<rparr>" "''t''"
      "sample_task Approved" id id "Transition ''t'' Executing ''cli'' 3"
      "(sample_task Approved)\<lparr>tr_status := Executing, tr_updated_at := 3\<rparr>"]
  by (simp add: store_transition_def statement_defs count_status_def sample_task_def empty_db_def)

end
