(* ===== verification/Task_Audit.thy ===== *)
theory Task_Audit
  imports Task_Lifecycle "HOL-Library.Sublist"
begin

text \<open>
  The audit trail of a task: every statement that writes to the event table appends, and numbers
  the event one above the highest number of its task.
\<close>

section \<open>The audit trail\<close>

definition trail :: "string \<Rightarrow> event_row list \<Rightarrow> event_row list" where
  "trail t es = filter (\<lambda>e. er_task e = t) es"

definition gapless :: "event_row list \<Rightarrow> bool" where
  "gapless es \<longleftrightarrow> (\<forall>t. map er_sequence (trail t es) = [1..<Suc (length (trail t es))])"

text \<open>What a call adds keeps a gapless trail gapless and removes no event.\<close>

definition extends :: "event_row list \<Rightarrow> event_row list \<Rightarrow> bool" where
  "extends es es' \<longleftrightarrow> prefix es es' \<and> (gapless es \<longrightarrow> gapless es')"

lemma extends_refl [simp]: "extends es es"
  by (simp add: extends_def)

lemma extends_trans: "extends a b \<Longrightarrow> extends b c \<Longrightarrow> extends a c"
  by (auto simp: extends_def)

definition entry ::
    "string \<Rightarrow> nat \<Rightarrow> string \<Rightarrow> string \<Rightarrow> string option \<Rightarrow> string option \<Rightarrow> event_metadata
     \<Rightarrow> event_row list \<Rightarrow> event_row list" where
  "entry t stamp sub kind art st md es = es @ [\<lparr>er_task = t, er_timestamp = stamp,
     er_subsystem = sub, er_type = kind, er_artifact = art, er_status = st, er_metadata = Some md,
     er_sequence = Suc (fold max (map er_sequence (trail t es)) 0)\<rparr>]"

lemma insert_event_entry:
  "insert_event t stamp sub kind art st md s =
     (Inr (), s\<lparr>db_events := entry t stamp sub kind art st md (db_events s)\<rparr>)"
  by (simp add: insert_event_def entry_def trail_def)

lemma fold_max_upt: "fold max [1..<Suc n] (0::nat) = n"
  by (induction n) auto

lemma gapless_entry:
  assumes "gapless es"
  shows "gapless (entry t stamp sub kind art st md es)"
  unfolding gapless_def
proof
  fix u
  let ?n = "length (trail t es)"
  have t: "map er_sequence (trail t es) = [1..<Suc ?n]" using assms unfolding gapless_def by blast
  have u: "map er_sequence (trail u es) = [1..<Suc (length (trail u es))]"
    using assms unfolding gapless_def by blast
  show "map er_sequence (trail u (entry t stamp sub kind art st md es))
    = [1..<Suc (length (trail u (entry t stamp sub kind art st md es)))]"
  proof (cases "u = t")
    case True
    then show ?thesis by (simp only: entry_def t fold_max_upt) (use t in \<open>simp add: trail_def\<close>)
  next
    case False
    then show ?thesis using u by (simp add: entry_def trail_def)
  qed
qed

lemma extends_entry: "extends es es' \<Longrightarrow> extends es (entry t stamp sub kind art st md es')"
  by (auto simp: extends_def gapless_entry) (simp_all add: entry_def)

lemma extends_entry1 [simp]: "extends es (entry t stamp sub kind art st md es)"
  by (simp add: extends_entry)

lemmas trail_defs = transaction_def check_def insert_attempt_def set_status_def insert_event_entry
  act_bind_def act_ok_def act_lift_def Let_def

lemma extends_claims:
  "claim_planning t k lease now s = (Inr b, s') \<Longrightarrow> extends (db_events s) (db_events s')"
  "claim_execution t k lease now s = (Inr b, s') \<Longrightarrow> extends (db_events s) (db_events s')"
  "release_planning_claim t k s = (Inr x, s') \<Longrightarrow> extends (db_events s) (db_events s')"
  "release_execution_claim t k s = (Inr x, s') \<Longrightarrow> extends (db_events s) (db_events s')"
  by (auto simp: claim_planning_def claim_execution_def release_planning_claim_def
      release_execution_claim_def trail_defs split: if_splits option.splits)

lemma extends_attempts:
  "create_execution_attempt t plan k stamp s = (Inr x, s') \<Longrightarrow> extends (db_events s) (db_events s')"
  "attach_execution_artifact t k plan artifact stamp s = (Inr x, s') \<Longrightarrow> extends (db_events s) (db_events s')"
  "finish_execution_attempt k failure stamp s = (Inr x, s') \<Longrightarrow> extends (db_events s) (db_events s')"
  "begin_recovery_attempt t plan k key lease now stamp s = (Inr y, s') \<Longrightarrow> extends (db_events s) (db_events s')"
  by (auto simp: create_execution_attempt_def attach_execution_artifact_def
      finish_execution_attempt_def begin_recovery_attempt_def trail_defs
      split: if_splits option.splits prod.splits sum.splits)

lemma extends_tasks:
  "create_task t row stamp s = (Inr x, s') \<Longrightarrow> extends (db_events s) (db_events s')"
  "store_transition t status sub stamp s = (Inr x, s') \<Longrightarrow> extends (db_events s) (db_events s')"
  "service_finalize canon t repository status commit decision duration stamp s = (Inr x, s') \<Longrightarrow>
     extends (db_events s) (db_events s')"
  "update_task canon t repository changes stamp s = (Inr x, s') \<Longrightarrow> extends (db_events s) (db_events s')"
  "record_reviewed_commit canon t repository plan k sha stamp s = (Inr x, s') \<Longrightarrow>
     extends (db_events s) (db_events s')"
  "attach_approval aid t plan state stamp s = (Inr x, s') \<Longrightarrow> extends (db_events s) (db_events s')"
  "add_event t stamp sub kind st md s = (Inr x, s') \<Longrightarrow> extends (db_events s) (db_events s')"
  "record_evidence xs vs ts rs s = (Inr x, s') \<Longrightarrow> extends (db_events s) (db_events s')"
  by (auto simp: create_task_def store_transition_def service_finalize_def finalize_task_def
      update_task_def record_reviewed_commit_def attach_approval_def add_event_def
      record_evidence_def trail_defs split: if_splits option.splits)

lemma extends_mark:
  assumes "mark_recovery_required digest t plan worker fp failure key now stamp s = (Inr x, s')"
  shows "extends (db_events s) (db_events s')"
  using assms
  by (rule mark_recovery_InrE)
    (auto simp: record_interruption_def trail_defs intro: extends_entry split: if_splits option.splits)

lemma extends_retry:
  assumes "begin_rolled_back_retry t plan k key own fp worker reason lease now stamp s = (Inr x, s')"
  shows "extends (db_events s) (db_events s')"
  using assms
  by (rule begin_retry_InrE)
    (auto simp: admit_retry_def trail_defs intro!: extends_entry split: if_splits)

lemma extends_reconcile:
  "reconcile_failed_retry_setup t plan k checkpoint operation fp worker now stamp s = (Inr x, s') \<Longrightarrow>
     extends (db_events s) (db_events s')"
  by (auto simp: reconcile_failed_retry_setup_def trail_defs split: if_splits option.splits)

lemma store_act_InlD: "store_act canon digest c s = (Inl e, s') \<Longrightarrow> s' = s"
  using atomic_store_act[of canon digest c] by (auto simp: atomic_def)

lemma extends_store_act: "extends (db_events s) (db_events (snd (store_act canon digest c s)))"
proof (cases "store_act canon digest c s")
  case (Pair y s')
  show ?thesis
  proof (cases y)
    case (Inl e)
    with Pair show ?thesis using store_act_InlD by fastforce
  next
    case (Inr z)
    with Pair have r: "store_act canon digest c s = (Inr z, s')" by simp
    have "extends (db_events s) (db_events s')"
      by (cases c) (use r in \<open>auto dest!: no_result_Inr dest: extends_claims extends_attempts
          extends_tasks extends_mark extends_retry extends_reconcile\<close>)
    with r show ?thesis by simp
  qed
qed

lemma extends_store_run: "extends (db_events s) (db_events (store_run canon digest cs s))"
  by (induction cs arbitrary: s) (auto intro: extends_trans extends_store_act)

text \<open>C13: The audit trail of every task is complete: over any sequence of store calls no event is removed or altered, and starting from an empty database the events of each task carry the sequence numbers 1, 2, 3 and so on, without gap or repetition, in the order in which they were written.\<close>
theorem audit_trail_gapless:
  "prefix (db_events s) (db_events (store_run canon digest cs s))
   \<and> (let es = db_events (store_run canon digest cs empty_db)
      in map er_sequence (filter (\<lambda>e. er_task e = t) es) = [1..<Suc (length (filter (\<lambda>e. er_task e = t) es))])"
  using extends_store_run[of s canon digest cs] extends_store_run[of empty_db canon digest cs]
  by (auto simp: extends_def gapless_def trail_def empty_db_def Let_def simp del: upt_Suc)

end
