(* ===== verification/Task_Admission.thy ===== *)
theory Task_Admission
  imports Task_Audit
begin

text \<open>
  Who may execute: how an attempt enters the store, the keys that make a repeated request
  return the same attempt, and the exclusive execution claim.
\<close>

section \<open>Admission of attempts\<close>

text \<open>What must hold of the database before a call that adds a running attempt to it.\<close>

definition admitted :: "history_db \<Rightarrow> history_db \<Rightarrow> attempt_row \<Rightarrow> bool" where
  "admitted s s' a \<longleftrightarrow>
     at_state a = Running
     \<and> map_option cl_id (db_execution s' (at_task a)) = Some (at_id a)
     \<and> (\<exists>r. db_tasks s (at_task a) = Some r \<and> tr_plan_hash r = Some (at_plan a)
        \<and> (case at_kind a of
             Initial \<Rightarrow> tr_status r = Approved
           | Recovery \<Rightarrow> tr_status r = Recovery_Required
               \<and> explicitly_approved (at_task a) (at_plan a) s
           | Retry \<Rightarrow> tr_status r = Rolled_Back \<and> explicitly_approved (at_task a) (at_plan a) s
               \<and> \<not> successful_execution (at_task a) s
           | Interrupted_Legacy \<Rightarrow> False))"

definition attempt_ident :: "attempt_row \<Rightarrow> string \<times> string \<times> string" where
  "attempt_ident a = (at_id a, at_task a, at_key a)"

text \<open>A call adds no attempt, an interrupted legacy one, or an admitted one.\<close>

definition lawful_attempts :: "history_db \<Rightarrow> history_db \<Rightarrow> bool" where
  "lawful_attempts s s' \<longleftrightarrow>
     map attempt_ident (db_attempts s') = map attempt_ident (db_attempts s)
     \<or> (\<exists>a. db_attempts s' = db_attempts s @ [a]
          \<and> (\<forall>b \<in> set (db_attempts s). at_id b \<noteq> at_id a \<and> (at_task b = at_task a \<longrightarrow> at_key b \<noteq> at_key a))
          \<and> (at_kind a = Interrupted_Legacy \<and> at_state a = Interrupted \<or> admitted s s' a))"

lemma lawful_attempts_same: "db_attempts s' = db_attempts s \<Longrightarrow> lawful_attempts s s'"
  by (simp add: lawful_attempts_def)

lemma no_attempts_claims:
  "claim_planning t k lease now s = (Inr b, s') \<Longrightarrow> db_attempts s' = db_attempts s"
  "claim_execution t k lease now s = (Inr b, s') \<Longrightarrow> db_attempts s' = db_attempts s"
  "release_planning_claim t k s = (Inr x, s') \<Longrightarrow> db_attempts s' = db_attempts s"
  "release_execution_claim t k s = (Inr x, s') \<Longrightarrow> db_attempts s' = db_attempts s"
  by (auto simp: claim_planning_def claim_execution_def release_planning_claim_def
      release_execution_claim_def statement_defs Let_def split: if_splits option.splits)

lemma count_status_attempts [simp]:
  "db_attempts (count_status t st s) = db_attempts s" "db_execution (count_status t st s) = db_execution s"
  by (simp_all add: count_status_def)

lemma no_attempts_tasks:
  "create_task t row stamp s = (Inr x, s') \<Longrightarrow> db_attempts s' = db_attempts s"
  "store_transition t status sub stamp s = (Inr x, s') \<Longrightarrow> db_attempts s' = db_attempts s"
  "service_finalize canon t repository status commit decision duration stamp s = (Inr x, s') \<Longrightarrow>
     db_attempts s' = db_attempts s"
  "update_task canon t repository changes stamp s = (Inr x, s') \<Longrightarrow> db_attempts s' = db_attempts s"
  "record_reviewed_commit canon t repository plan k sha stamp s = (Inr x, s') \<Longrightarrow>
     db_attempts s' = db_attempts s"
  "attach_approval aid t plan state stamp s = (Inr x, s') \<Longrightarrow> db_attempts s' = db_attempts s"
  "add_event t stamp sub kind st md s = (Inr x, s') \<Longrightarrow> db_attempts s' = db_attempts s"
  "record_evidence xs vs ts rs s = (Inr x, s') \<Longrightarrow> db_attempts s' = db_attempts s"
  "reconcile_failed_retry_setup t plan k checkpoint operation fp worker now stamp s = (Inr x, s') \<Longrightarrow>
     db_attempts s' = db_attempts s"
  by (auto simp: create_task_def store_transition_def service_finalize_def finalize_task_def
      update_task_def record_reviewed_commit_def attach_approval_def add_event_def
      record_evidence_def reconcile_failed_retry_setup_def statement_defs Let_def
      split: if_splits option.splits)

lemma lawful_attempts_begin:
  "create_execution_attempt t plan k stamp s = (Inr x, s') \<Longrightarrow> lawful_attempts s s'"
  by (auto simp: create_execution_attempt_def statement_defs lawful_attempts_def admitted_def
      new_attempt_def list_ex_iff split: if_splits option.splits)

lemma same_ids_same_attempts:
  "attach_execution_artifact t k plan artifact stamp s = (Inr x, s') \<Longrightarrow> lawful_attempts s s'"
  "finish_execution_attempt k failure stamp s = (Inr x, s') \<Longrightarrow> lawful_attempts s s'"
  by (auto simp: attach_execution_artifact_def finish_execution_attempt_def statement_defs Let_def
      lawful_attempts_def attempt_ident_def comp_def split: if_splits option.splits)

lemma begin_recovery_InrE:
  assumes "begin_recovery_attempt t plan k key lease now stamp s = (Inr x, s')"
  obtains a where "s' = s" and "x = (a, False)" and "attempt_by_key t key s = Some a"
  | r where "db_tasks s t = Some r" and "tr_status r = Recovery_Required"
      and "tr_plan_hash r = Some plan" and "explicitly_approved t plan s"
      and "attempt_by_key t key s = None" and "drop_expired t now (db_execution s) t = None"
      and "db_attempts s' = db_attempts s
             @ [new_attempt k t plan (map_option at_id (latest_attempt t s)) Recovery key stamp]"
      and "\<forall>b \<in> set (db_attempts s). at_id b \<noteq> k \<and> (at_task b = t \<longrightarrow> at_key b \<noteq> key)"
      and "db_execution s' = (drop_expired t now (db_execution s))(t \<mapsto> claim_until k now lease)"
  using assms
  by (auto simp: begin_recovery_attempt_def statement_defs Let_def new_attempt_def list_ex_iff
      split: if_splits option.splits)

lemma lawful_attempts_recovery:
  assumes "begin_recovery_attempt t plan k key lease now stamp s = (Inr x, s')"
  shows "lawful_attempts s s'"
  using assms
  by (rule begin_recovery_InrE)
    (auto simp: lawful_attempts_def admitted_def new_attempt_def claim_until_def)

lemma lawful_attempts_mark:
  assumes "mark_recovery_required digest t plan worker fp failure key now stamp s = (Inr x, s')"
  shows "lawful_attempts s s'"
  using assms
  by (rule mark_recovery_InrE)
    (auto simp: record_interruption_def statement_defs lawful_attempts_def legacy_attempt_def
      new_attempt_def list_ex_iff Let_def split: if_splits option.splits)

lemma admit_retry_fresh:
  assumes "admit_retry t plan k key worker fp previous lease now stamp s = (Inr x, s')"
  shows "\<forall>b \<in> set (db_attempts s). at_id b \<noteq> k \<and> (at_task b = t \<longrightarrow> at_key b \<noteq> key)"
  using assms
  by (auto simp: admit_retry_def statement_defs Let_def list_ex_iff new_attempt_def split: if_splits)

lemma lawful_attempts_retry:
  assumes "begin_rolled_back_retry t plan k key own fp worker reason lease now stamp s = (Inr x, s')"
  shows "lawful_attempts s s'"
  using assms
proof (rule begin_retry_InrE)
  assume "s' = s" then show ?thesis by (simp add: lawful_attempts_same)
next
  fix r previous
  assume r: "db_tasks s t = Some r" "tr_status r = Rolled_Back" "tr_plan_hash r = Some plan"
      "explicitly_approved t plan s" "\<not> successful_execution t s"
    and m: "admit_retry t plan k key worker fp previous lease now stamp s = (Inr x, s')"
  show ?thesis
    using r admit_retry_Inr(3,4)[OF m] admit_retry_fresh[OF m]
    by (auto simp: lawful_attempts_def admitted_def new_attempt_def claim_until_def)
qed

lemma lawful_attempts_store_act: "lawful_attempts s (snd (store_act canon digest c s))"
proof (cases "store_act canon digest c s")
  case (Pair y s')
  show ?thesis
  proof (cases y)
    case (Inl e)
    with Pair show ?thesis using store_act_InlD by (fastforce intro: lawful_attempts_same)
  next
    case (Inr z)
    with Pair have r: "store_act canon digest c s = (Inr z, s')" by simp
    have "lawful_attempts s s'"
      by (cases c) (use r in \<open>auto dest!: no_result_Inr dest: no_attempts_claims no_attempts_tasks
          intro: lawful_attempts_same lawful_attempts_begin same_ids_same_attempts
            lawful_attempts_recovery lawful_attempts_mark lawful_attempts_retry\<close>)
    with r show ?thesis by simp
  qed
qed

text \<open>C11: An attempt can enter the store only as an interrupted legacy record or as a running attempt that holds the execution claim of its task, whose plan is the exact current plan of the task: an initial attempt when the task is approved, a recovery when it requires recovery and the latest approval of that plan is explicit, a retry when it was rolled back, is explicitly approved and no execution of it succeeded.\<close>
theorem attempts_are_admitted:
  assumes "a \<in> set (db_attempts (snd (store_act canon digest c s)))"
    and "at_id a \<notin> at_id ` set (db_attempts s)"
  shows "(at_kind a = Interrupted_Legacy \<and> at_state a = Interrupted)
    \<or> at_state a = Running
      \<and> map_option cl_id (db_execution (snd (store_act canon digest c s)) (at_task a)) = Some (at_id a)
      \<and> (\<exists>r. db_tasks s (at_task a) = Some r \<and> tr_plan_hash r = Some (at_plan a)
          \<and> (case at_kind a of
               Initial \<Rightarrow> tr_status r = Approved
             | Recovery \<Rightarrow> tr_status r = Recovery_Required
                 \<and> explicitly_approved (at_task a) (at_plan a) s
             | Retry \<Rightarrow> tr_status r = Rolled_Back \<and> explicitly_approved (at_task a) (at_plan a) s
                 \<and> \<not> successful_execution (at_task a) s
             | Interrupted_Legacy \<Rightarrow> False))"
proof -
  let ?s' = "snd (store_act canon digest c s)"
  have "map attempt_ident (db_attempts ?s') \<noteq> map attempt_ident (db_attempts s)"
  proof
    assume eq: "map attempt_ident (db_attempts ?s') = map attempt_ident (db_attempts s)"
    have "at_id ` set (db_attempts ?s') = fst ` set (map attempt_ident (db_attempts ?s'))"
      by (force simp: attempt_ident_def image_iff)
    also have "\<dots> = at_id ` set (db_attempts s)" unfolding eq by (force simp: attempt_ident_def image_iff)
    finally show False using assms by blast
  qed
  then show ?thesis
    using lawful_attempts_store_act[of s canon digest c] assms unfolding lawful_attempts_def admitted_def
    by auto
qed

definition approved_db :: history_db where
  "approved_db = empty_db\<lparr>db_tasks := [''t'' \<mapsto> sample_task Approved],
     db_execution := [''t'' \<mapsto> claim_until ''k'' 0 60]\<rparr>"

theorem attempts_are_admitted_witness:
  "new_attempt ''k'' ''t'' ''h'' None Initial ''k'' 5
     \<in> set (db_attempts (snd (store_act id id (Begin_Attempt ''t'' ''h'' ''k'' 5) approved_db)))
   \<and> (\<exists>r. db_tasks approved_db ''t'' = Some r \<and> tr_plan_hash r = Some ''h'' \<and> tr_status r = Approved)"
proof -
  have i: "new_attempt ''k'' ''t'' ''h'' None Initial ''k'' 5
     \<in> set (db_attempts (snd (store_act id id (Begin_Attempt ''t'' ''h'' ''k'' 5) approved_db)))"
    by (simp add: create_execution_attempt_def approved_db_def statement_defs sample_task_def
        claim_until_def empty_db_def)
  show ?thesis
    using attempts_are_admitted[OF i] i by (simp add: new_attempt_def approved_db_def empty_db_def)
qed

definition keys_unique :: "history_db \<Rightarrow> bool" where
  "keys_unique s \<longleftrightarrow> distinct (map fst (map attempt_ident (db_attempts s)))
     \<and> distinct (map snd (map attempt_ident (db_attempts s)))"

lemma keys_unique_step:
  assumes "lawful_attempts s s'" and "keys_unique s"
  shows "keys_unique s'"
  using assms(1) unfolding lawful_attempts_def
proof
  assume "map attempt_ident (db_attempts s') = map attempt_ident (db_attempts s)"
  with assms(2) show ?thesis unfolding keys_unique_def by (simp only:)
next
  assume "\<exists>a. db_attempts s' = db_attempts s @ [a]
    \<and> (\<forall>b \<in> set (db_attempts s). at_id b \<noteq> at_id a \<and> (at_task b = at_task a \<longrightarrow> at_key b \<noteq> at_key a))
    \<and> (at_kind a = Interrupted_Legacy \<and> at_state a = Interrupted \<or> admitted s s' a)"
  then obtain a where a: "db_attempts s' = db_attempts s @ [a]"
    and "\<forall>b \<in> set (db_attempts s). at_id b \<noteq> at_id a \<and> (at_task b = at_task a \<longrightarrow> at_key b \<noteq> at_key a)"
    by blast
  then have "at_id a \<notin> at_id ` set (db_attempts s)"
    "(at_task a, at_key a) \<notin> (\<lambda>b. (at_task b, at_key b)) ` set (db_attempts s)"
    by (metis imageE, metis (mono_tags, lifting) imageE prod.inject)
  with a assms(2) show ?thesis by (simp add: keys_unique_def attempt_ident_def comp_def)
qed

lemma keys_unique_store_run: "keys_unique s \<Longrightarrow> keys_unique (store_run canon digest cs s)"
  by (induction cs arbitrary: s) (auto intro: keys_unique_step lawful_attempts_store_act)

text \<open>Over any sequence of store calls from an empty database no two attempts share an identity, and no two attempts of a task share an idempotency key.\<close>
theorem attempt_keys_unique:
  "distinct (map at_id (db_attempts (store_run canon digest cs empty_db)))
   \<and> distinct (map (\<lambda>a. (at_task a, at_key a)) (db_attempts (store_run canon digest cs empty_db)))"
  using keys_unique_store_run[of empty_db canon digest cs]
  by (simp add: keys_unique_def attempt_ident_def empty_db_def comp_def)

section \<open>Execution claims\<close>

text \<open>The calls that may end the claim \<open>c\<close> of the task \<open>t\<close> in the database \<open>s\<close>.\<close>

fun ends_claim :: "string \<Rightarrow> claim_row \<Rightarrow> history_db \<Rightarrow> store_call \<Rightarrow> bool" where
  "ends_claim t c s (Claim_Execution u k lease now) \<longleftrightarrow> u = t \<and> cl_expires_at c \<le> now"
| "ends_claim t c s (Begin_Recovery u plan k key lease now stamp) \<longleftrightarrow> u = t \<and> cl_expires_at c \<le> now"
| "ends_claim t c s (Mark_Recovery u plan worker fp failure key now stamp) \<longleftrightarrow>
     u = t \<and> cl_expires_at c \<le> now"
| "ends_claim t c s (Reconcile u plan k checkpoint operation fp worker now stamp) \<longleftrightarrow>
     u = t \<and> cl_expires_at c \<le> now"
| "ends_claim t c s (Release_Execution u k) \<longleftrightarrow> u = t \<and> k = cl_id c"
| "ends_claim t c s (Finish_Attempt k failure stamp) \<longleftrightarrow>
     k = cl_id c \<and> (\<exists>a. find (\<lambda>a. at_id a = k) (db_attempts s) = Some a \<and> at_task a = t)"
| "ends_claim t c s (Begin_Retry u plan k key own fp worker reason lease now stamp) \<longleftrightarrow>
     u = t \<and> (\<exists>a. latest_attempt t s = Some a \<and> at_id a = cl_id c
       \<and> at_state a \<in> {Completed, Attempt_Failed})"
| "ends_claim t c s _ \<longleftrightarrow> False"

lemma drop_expired_keeps: "drop_expired u now cs t = cs t \<or> u = t \<and> (\<exists>c. cs t = Some c \<and> cl_expires_at c \<le> now)"
  by (auto simp: drop_expired_def split: option.splits)

lemma drop_expired_other: "u \<noteq> t \<Longrightarrow> drop_expired u now cs t = cs t"
  by (auto simp: drop_expired_def split: option.splits)

lemma drop_expired_live: "cs t = Some c \<Longrightarrow> \<not> cl_expires_at c \<le> now \<Longrightarrow> drop_expired u now cs t = Some c"
  by (auto simp: drop_expired_def split: option.splits)

lemma drop_claim_keeps:
  "cs t = Some c \<Longrightarrow> \<not> (u = t \<and> k = cl_id c) \<Longrightarrow> drop_claim u k cs t = Some c"
  by (auto simp: drop_claim_def split: option.splits)

lemma execution_claims_tasks:
  "create_task t row stamp s = (Inr x, s') \<Longrightarrow> db_execution s' = db_execution s"
  "claim_planning t k lease now s = (Inr b, s') \<Longrightarrow> db_execution s' = db_execution s"
  "release_planning_claim t k s = (Inr x, s') \<Longrightarrow> db_execution s' = db_execution s"
  "create_execution_attempt t plan k stamp s = (Inr x, s') \<Longrightarrow> db_execution s' = db_execution s"
  "attach_execution_artifact t k plan artifact stamp s = (Inr x, s') \<Longrightarrow> db_execution s' = db_execution s"
  "store_transition t status sub stamp s = (Inr x, s') \<Longrightarrow> db_execution s' = db_execution s"
  "service_finalize canon t repository status commit decision duration stamp s = (Inr x, s') \<Longrightarrow>
     db_execution s' = db_execution s"
  "update_task canon t repository changes stamp s = (Inr x, s') \<Longrightarrow> db_execution s' = db_execution s"
  "record_reviewed_commit canon t repository plan k sha stamp s = (Inr x, s') \<Longrightarrow>
     db_execution s' = db_execution s"
  "attach_approval aid t plan state stamp s = (Inr x, s') \<Longrightarrow> db_execution s' = db_execution s"
  "add_event t stamp sub kind st md s = (Inr x, s') \<Longrightarrow> db_execution s' = db_execution s"
  "record_evidence xs vs ts rs s = (Inr x, s') \<Longrightarrow> db_execution s' = db_execution s"
  by (auto simp: create_task_def claim_planning_def release_planning_claim_def
      create_execution_attempt_def attach_execution_artifact_def store_transition_def
      service_finalize_def finalize_task_def update_task_def record_reviewed_commit_def
      attach_approval_def add_event_def record_evidence_def statement_defs Let_def
      split: if_splits option.splits)

lemma claim_execution_live:
  assumes "claim_execution u k lease now s = (Inr b, s')" and "db_execution s t = Some c"
    and "\<not> (u = t \<and> cl_expires_at c \<le> now)"
  shows "db_execution s' t = Some c"
  using assms drop_expired_keeps[of u now "db_execution s" t]
  by (auto simp: claim_execution_def statement_defs Let_def split: if_splits option.splits)

lemma release_execution_live:
  assumes "release_execution_claim u k s = (Inr x, s')" and "db_execution s t = Some c"
    and "\<not> (u = t \<and> k = cl_id c)"
  shows "db_execution s' t = Some c"
  using assms by (auto simp: release_execution_claim_def statement_defs drop_claim_keeps)

lemma finish_live:
  assumes "finish_execution_attempt k failure stamp s = (Inr x, s')" and "db_execution s t = Some c"
    and "\<not> (k = cl_id c \<and> (\<exists>a. find (\<lambda>a. at_id a = k) (db_attempts s) = Some a \<and> at_task a = t))"
  shows "db_execution s' t = Some c"
  using assms
  by (auto simp: finish_execution_attempt_def statement_defs Let_def intro!: drop_claim_keeps
      split: if_splits option.splits)

lemma recovery_live:
  assumes "begin_recovery_attempt u plan k key lease now stamp s = (Inr x, s')"
    and "db_execution s t = Some c" and "\<not> (u = t \<and> cl_expires_at c \<le> now)"
  shows "db_execution s' t = Some c"
  using assms(1)
  by (rule begin_recovery_InrE)
    (use assms(2,3) drop_expired_keeps[of u now "db_execution s" t] in \<open>auto split: if_splits\<close>)

lemma record_interruption_execution:
  "record_interruption digest u plan worker fp failure stamp st l s = (Inr x, s') \<Longrightarrow>
     db_execution s' = db_execution s"
  by (auto simp: record_interruption_def statement_defs Let_def split: if_splits option.splits)

lemma mark_live:
  assumes "mark_recovery_required digest u plan worker fp failure key now stamp s = (Inr x, s')"
    and "db_execution s t = Some c" and "\<not> (u = t \<and> cl_expires_at c \<le> now)"
  shows "db_execution s' t = Some c"
  using assms(1)
  by (rule mark_recovery_InrE)
    (use assms(2,3) drop_expired_keeps[of u now "db_execution s" t] in
      \<open>auto dest!: record_interruption_execution\<close>)

lemma reconcile_live:
  assumes "reconcile_failed_retry_setup u plan k checkpoint operation fp worker now stamp s = (Inr x, s')"
    and "db_execution s t = Some c" and "\<not> (u = t \<and> cl_expires_at c \<le> now)"
  shows "db_execution s' t = Some c"
proof -
  have "db_execution s' = drop_expired u now (db_execution s)"
    using assms(1)
    by (auto simp: reconcile_failed_retry_setup_def statement_defs Let_def split: if_splits option.splits)
  then show ?thesis using assms(2,3) drop_expired_keeps[of u now "db_execution s" t] by auto
qed

lemma retry_live:
  assumes "begin_rolled_back_retry u plan k key own fp worker reason lease now stamp s = (Inr x, s')"
    and "db_execution s t = Some c"
    and "\<not> (u = t \<and> (\<exists>a. latest_attempt t s = Some a \<and> at_id a = cl_id c
           \<and> at_state a \<in> {Completed, Attempt_Failed}))"
  shows "db_execution s' t = Some c"
  using assms(1)
proof (rule begin_retry_InrE)
  assume "s' = s" then show ?thesis using assms(2) by simp
next
  fix r previous
  assume "latest_attempt u s = Some previous" "at_state previous \<in> {Completed, Attempt_Failed}"
    "case db_execution s u of None \<Rightarrow> True | Some c \<Rightarrow> cl_id c = at_id previous"
    and m: "admit_retry u plan k key worker fp previous lease now stamp s = (Inr x, s')"
  then have "u \<noteq> t" using assms(2,3) by (auto split: option.splits)
  then show ?thesis using admit_retry_Inr(3)[OF m] assms(2) by simp
qed

text \<open>C12: The execution claim of a task is exclusive: any call of the store leaves it in place unchanged, except a claim, recovery, interruption or reconciliation of that task at or after its expiry, a release or the end of the attempt by its own identity, and a retry whose latest terminal attempt is its holder.\<close>
theorem execution_claim_is_exclusive:
  assumes "db_execution s t = Some c" and "\<not> ends_claim t c s call"
  shows "db_execution (snd (store_act canon digest call s)) t = Some c"
proof (cases "store_act canon digest call s")
  case (Pair y s')
  show ?thesis
  proof (cases y)
    case (Inl e)
    with Pair assms(1) show ?thesis using store_act_InlD by fastforce
  next
    case (Inr z)
    with Pair have r: "store_act canon digest call s = (Inr z, s')" by simp
    have "db_execution s' t = Some c"
      by (cases call) (use r assms in \<open>auto dest!: no_result_Inr simp: execution_claims_tasks
          dest: claim_execution_live release_execution_live finish_live recovery_live mark_live
            reconcile_live retry_live\<close>)
    with r show ?thesis by simp
  qed
qed

theorem execution_claim_is_exclusive_witness:
  "db_execution (snd (store_act id id (Claim_Execution ''t'' ''other'' 60 30) approved_db)) ''t''
     = Some (claim_until ''k'' 0 60)"
  by (rule execution_claim_is_exclusive)
    (simp_all add: approved_db_def claim_until_def empty_db_def)

section \<open>Repeated keys\<close>

text \<open>A key the task already used changes nothing and returns the attempt it names.\<close>

lemma repeated_key_returns_attempt:
  assumes "attempt_by_key t key s = Some a" and "at_kind a = Retry" and "at_plan a = plan"
    and "t \<noteq> []" and "plan \<noteq> []" and "k \<noteq> []" and "key \<noteq> []" and "lease_ok lease"
  shows "begin_recovery_attempt t plan k key lease now stamp s = (Inr (a, False), s)"
    and "own \<noteq> [] \<and> fp \<noteq> [] \<and> reason \<noteq> []
      \<and> worker \<in> {''completed'', ''failed'', ''cancelled'', ''process_replaced''} \<Longrightarrow>
      begin_rolled_back_retry t plan k key own fp worker reason lease now stamp s = (Inr (a, False), s)"
  using assms
  by (auto simp: begin_recovery_attempt_def begin_rolled_back_retry_def statement_defs)

section \<open>Behaviour the documentation does not suggest\<close>

text \<open>\<open>ROLLED_BACK\<close> is listed as terminal and has no transition, but a retry leaves it.\<close>

lemma retry_leaves_terminal_status:
  assumes "begin_rolled_back_retry t plan k key own fp worker reason lease now stamp s = (Inr (a, True), s')"
  shows "\<exists>r r'. db_tasks s t = Some r \<and> tr_status r \<in> set terminal_statuses
    \<and> task_transitions (tr_status r) = [] \<and> db_tasks s' t = Some r' \<and> tr_status r' = Executing"
  using assms
  by (rule begin_retry_InrE) (auto dest!: admit_retry_Inr(1) simp: terminal_statuses_def)

text \<open>A tool event without a run never stops a retry once an artifact was rolled back.\<close>

lemma unbound_tool_does_not_stop_retry:
  assumes "rolled_back_artifacts t s \<noteq> []"
  shows "orphan_tools t (s\<lparr>db_tools := [\<lparr>to_task = t, to_run = None\<rparr>]\<rparr>) \<longleftrightarrow> False"
  using assms by (simp add: orphan_tools_def rolled_back_artifacts_def executions_of_def)

end
