(* ===== verification/Command_Policy.thy ===== *)
theory Command_Policy
  imports Py_Text "HOL-Library.Code_Target_Nat"
begin

text \<open>
  \<open>execution/commands.py\<close>: the allowlist that a command has to pass before it is run without
  a shell, the checks on its executable and its arguments against the repository, and the
  bounded run itself. The file system, the interpreter's location and the behaviour of the
  started process are inputs.
\<close>

section \<open>Tables\<close>

definition shell_tokens :: "pystr list" where
  "shell_tokens = map lit [''|'', ''||'', ''&&'', '';'', ''>'', ''>>'', ''<'', ''<<'', ''$('', ''`'']"

definition allowed_prefixes :: "pystr list list" where
  "allowed_prefixes = map (map lit)
    [[''python'', ''-m'', ''pytest''], [''python3'', ''-m'', ''pytest''],
     [''python'', ''-m'', ''unittest'', ''discover''], [''python3'', ''-m'', ''unittest'', ''discover''],
     [''python'', ''-m'', ''compileall''], [''python3'', ''-m'', ''compileall''],
     [''pytest''], [''ruff'', ''check''], [''mypy''], [''pyright''], [''cargo'', ''check''],
     [''cargo'', ''test''], [''cargo'', ''clippy''], [''forge'', ''build''], [''forge'', ''test''],
     [''npm'', ''test''], [''pnpm'', ''test''], [''yarn'', ''test''], [''tsc'', ''--noEmit''],
     [''eslint''], [''shellcheck''], [''gitleaks'', ''detect''], [''git'', ''status''],
     [''git'', ''diff''], [''git'', ''show''], [''git'', ''log''],
     [''git'', ''branch'', ''--show-current''], [''cat''], [''rg''], [''grep''], [''find'']]"

definition blocked_executables :: "pystr list" where
  "blocked_executables = map lit
    [''sudo'', ''rm'', ''chmod'', ''chown'', ''curl'', ''wget'', ''apt'', ''apt-get'', ''dnf'',
     ''yum'', ''pip'', ''systemctl'']"

definition blocked_options :: "pystr list" where
  "blocked_options = map lit
    [''--config'', ''--exec'', ''--ext-diff'', ''--ffi'', ''--fork-url'', ''--fix'', ''--fix-only'',
     ''--follow'', ''--install-types'', ''--junitxml'', ''--output'', ''--output-file'', ''--pyargs'',
     ''--python-executable'', ''--script-shell'', ''--basetemp'', ''--createstub'', ''--textconv'',
     ''--use-program-main'', ''--write'', ''-L'', ''-o'', ''-p'']"

definition node_test_arguments :: "pystr list" where
  "node_test_arguments = map lit [''--runInBand'', ''--watch=false'', ''--watchAll=false'', ''--coverage'']"

section \<open>Parsing\<close>

datatype command = Command_Text pystr | Command_Words "pystr list"

abbreviation policy_error :: "string \<Rightarrow> exn" where
  "policy_error \<equiv> Exn CommandPolicyErrorC"

definition command_words :: "command \<Rightarrow> exn + pystr list" where
  "command_words c =
     (case c of
        Command_Words ws \<Rightarrow> Inr ws
      | Command_Text s \<Rightarrow>
          if list_ex (\<lambda>t. has_part t s) (map lit [''$('', ''`'', ''${''] @ [[10], [13]]) then
            Inl (policy_error ''Command substitution/environment injection is blocked'')
          else (case shlex_split s of
                  Inl e \<Rightarrow> Inl (policy_error ''Invalid command syntax'')
                | Inr ws \<Rightarrow> Inr ws))"

definition is_option :: "pystr \<Rightarrow> bool" where
  "is_option w \<longleftrightarrow> starts_with (lit ''-'') w"

text \<open>The checks of \<open>parse_allowed_command\<close>, in order, each with the words it refuses.\<close>

definition composes_shell :: "pystr list \<Rightarrow> bool" where
  "composes_shell ws \<longleftrightarrow>
     list_ex (\<lambda>w. w \<in> set shell_tokens
       \<or> list_ex (\<lambda>t. has_part t w) (map lit [''$('', ''`'', ''${'', ''>'', ''<''])) ws"

definition mutates_git :: "pystr list \<Rightarrow> bool" where
  "mutates_git ws \<longleftrightarrow>
     take 2 ws = map lit [''git'', ''push''] \<or> lit ''--force'' \<in> set ws
     \<or> lit ''-f'' \<in> set ws \<and> hd ws = lit ''git''"

definition allowlisted :: "pystr list \<Rightarrow> bool" where
  "allowlisted ws \<longleftrightarrow> list_ex (\<lambda>p. take (length p) ws = p) allowed_prefixes"

definition has_blocked_option :: "pystr list \<Rightarrow> bool" where
  "has_blocked_option ws \<longleftrightarrow>
     list_ex (\<lambda>w. w \<in> set blocked_options
       \<or> list_ex (\<lambda>opt. starts_with (lit ''--'') opt \<and> starts_with (opt @ lit ''='') w) blocked_options)
       (tl ws)"

definition dangerous_git :: "pystr list \<Rightarrow> bool" where
  "dangerous_git ws \<longleftrightarrow> hd ws = lit ''git'' \<and>
     list_ex (\<lambda>w. w \<in> set (map lit [''--no-index'', ''--src-prefix'', ''--dst-prefix''])
       \<or> list_ex (\<lambda>p. starts_with p w) (map lit [''--output='', ''--src-prefix='', ''--dst-prefix='']))
       (drop 2 ws)"

definition bad_node_arguments :: "pystr list \<Rightarrow> bool" where
  "bad_node_arguments ws \<longleftrightarrow> hd ws \<in> set (map lit [''npm'', ''pnpm'', ''yarn'']) \<and>
     (let extra = drop 2 ws;
          extra = (if take 1 extra = [lit ''--''] then drop 1 extra else extra)
      in list_ex (\<lambda>w. w \<notin> set node_test_arguments) extra)"

definition parent_ref :: pystr where
  "parent_ref = lit ''..''"

definition escapes :: "pystr \<Rightarrow> bool" where
  "escapes w \<longleftrightarrow> is_absolute w \<or> parent_ref \<in> set (path_parts w)"

definition outside_argument :: "pystr list \<Rightarrow> bool" where
  "outside_argument ws \<longleftrightarrow> list_ex (\<lambda>w. \<not> is_option w \<and> escapes w) (tl ws)"

definition mutating_find :: "pystr list \<Rightarrow> bool" where
  "mutating_find ws \<longleftrightarrow> hd ws = lit ''find'' \<and>
     list_ex (\<lambda>w. w \<in> set (map lit [''-exec'', ''-execdir'', ''-delete'', ''-ok'', ''-okdir'',
       ''-follow'', ''-H'', ''-L''])) ws"

definition rg_preprocessor :: "pystr list \<Rightarrow> bool" where
  "rg_preprocessor ws \<longleftrightarrow> hd ws = lit ''rg'' \<and> list_ex (starts_with (lit ''--pre'')) ws"

definition pattern_file :: "pystr list \<Rightarrow> bool" where
  "pattern_file ws \<longleftrightarrow> hd ws \<in> set (map lit [''rg'', ''grep'']) \<and>
     list_ex (\<lambda>w. w = lit ''-f'' \<or> starts_with (lit ''-f'') w \<and> 2 < length w) (tl ws)"

definition follows_symlinks :: "pystr list \<Rightarrow> bool" where
  "follows_symlinks ws \<longleftrightarrow> hd ws = lit ''grep'' \<and>
     list_ex (\<lambda>w. w = lit ''-R'' \<or> w = lit ''--dereference-recursive''
       \<or> is_option w \<and> has_part (lit ''R'') (tl w)) (tl ws)"

definition tsc_output :: "pystr list \<Rightarrow> bool" where
  "tsc_output ws \<longleftrightarrow> hd ws = lit ''tsc'' \<and>
     list_ex (\<lambda>w. w \<in> set (map lit [''--emitDeclarationOnly'', ''--out'', ''--outDir''])
       \<or> list_ex (\<lambda>p. starts_with p w) (map lit [''--out='', ''--outDir=''])) (drop 2 ws)"

definition parse_allowed_command :: "command \<Rightarrow> exn + pystr list" where
  "parse_allowed_command c =
     (case command_words c of
        Inl e \<Rightarrow> Inl e
      | Inr ws \<Rightarrow>
          if ws = [] then Inl (policy_error ''Empty command'')
          else if hd ws \<in> set blocked_executables \<or> slash \<in> set (hd ws) then
            Inl (policy_error ''Executable is blocked'')
          else if composes_shell ws then
            Inl (policy_error ''Shell composition, redirection, and substitution are blocked'')
          else if mutates_git ws then Inl (policy_error ''Git mutation/force operation is blocked'')
          else if \<not> allowlisted ws then Inl (policy_error ''Command family is not allowlisted'')
          else if has_blocked_option ws then
            Inl (policy_error ''Command option can execute code, access external state, or write output'')
          else if dangerous_git ws then
            Inl (policy_error ''Dangerous Git inspection arguments are blocked'')
          else if bad_node_arguments ws then Inl (policy_error ''Node test arguments are restricted'')
          else if outside_argument ws then
            Inl (policy_error ''Command arguments must remain repository-relative'')
          else if mutating_find ws then
            Inl (policy_error ''Mutating/executing find actions are blocked'')
          else if rg_preprocessor ws then Inl (policy_error ''rg preprocessors are blocked'')
          else if pattern_file ws then Inl (policy_error ''External pattern files are blocked'')
          else if follows_symlinks ws then
            Inl (policy_error ''Recursive symlink following is blocked'')
          else if tsc_output ws then Inl (policy_error ''TypeScript output options are blocked'')
          else Inr ws)"
section \<open>Running\<close>

text \<open>A concrete path: its root and the parts below it.\<close>

type_synonym fs_path = "pystr \<times> pystr list"

definition path_of :: "pystr \<Rightarrow> fs_path" where
  "path_of s = (path_root s, path_tail s)"

definition path_join :: "fs_path \<Rightarrow> pystr \<Rightarrow> fs_path" where
  "path_join p s = (if is_absolute s then path_of s else (fst p, snd p @ path_tail s))"

definition parent :: "fs_path \<Rightarrow> fs_path" where
  "parent p = (fst p, butlast (snd p))"

text \<open>\<open>p == base or base in p.parents\<close>\<close>

definition within :: "fs_path \<Rightarrow> fs_path \<Rightarrow> bool" where
  "within base p \<longleftrightarrow> fst p = fst base \<and> take (length (snd base)) (snd p) = snd base"

record exec_env =
  ee_python :: fs_path
  ee_runnable :: "fs_path \<Rightarrow> bool"
  ee_which :: "pystr \<Rightarrow> fs_path option"
  ee_resolve :: "fs_path \<Rightarrow> fs_path"
  ee_present :: "fs_path \<Rightarrow> bool"
  ee_tempdir :: fs_path
  ee_uid :: pystr
  ee_variables :: "pystr \<Rightarrow> pystr option"

definition resolve_executable :: "exec_env \<Rightarrow> pystr \<Rightarrow> fs_path option" where
  "resolve_executable env name =
     (if name \<in> set (map lit [''python'', ''python3'']) \<and> ee_runnable env (ee_python env)
      then Some (ee_python env)
      else (case ee_which env name of
              Some p \<Rightarrow> Some p
            | None \<Rightarrow>
                let candidate = path_join (parent (ee_python env)) name
                in if ee_runnable env candidate then Some candidate else None))"

text \<open>\<open>argument.split('=', 1)[1] if '=' in argument else argument\<close>\<close>

definition argument_value :: "pystr \<Rightarrow> pystr" where
  "argument_value w = (if 61 \<in> set w then tl (dropWhile (\<lambda>c. c \<noteq> 61) w) else w)"

definition argument_outside :: "exec_env \<Rightarrow> fs_path \<Rightarrow> pystr \<Rightarrow> bool" where
  "argument_outside env repo w \<longleftrightarrow>
     (let v = argument_value w; candidate = path_join repo v
      in \<not> is_option v \<and> ee_present env candidate \<and> \<not> within repo (ee_resolve env candidate))"

text \<open>The variables \<open>_side_effect_free_python_cache\<close> adds; a path value is kept as a path.\<close>

datatype env_value = Text_Value pystr | Path_Value fs_path

definition python_module :: "pystr list \<Rightarrow> pystr option" where
  "python_module ws =
     (if 3 \<le> length ws \<and> ws ! 0 \<in> set (map lit [''python'', ''python3'']) \<and> ws ! 1 = lit ''-m''
      then Some (ws ! 2) else None)"

definition python_cache :: "exec_env \<Rightarrow> pystr list \<Rightarrow> fs_path option \<Rightarrow> (pystr \<times> env_value) list" where
  "python_cache env ws task_root =
     (let pytest = hd ws = lit ''pytest'' \<or> python_module ws = Some (lit ''pytest'');
          cache = (case task_root of
              Some r \<Rightarrow> path_join r (lit ''python-cache'')
            | None \<Rightarrow> path_join (path_join (ee_tempdir env) (lit ''friday-validation-python-cache''))
                        (ee_uid env))
      in if \<not> pytest \<and> python_module ws \<notin> set (map (Some \<circ> lit) [''compileall'', ''unittest'']) then []
         else (lit ''PYTHONPYCACHEPREFIX'', Path_Value cache)
           # (if pytest then [(lit ''PYTEST_ADDOPTS'', Text_Value (lit ''-p no:cacheprovider''))] else []))"

text \<open>\<open>_read_bounded\<close> over the chunks a stream delivers.\<close>

definition read_bounded :: "nat \<Rightarrow> nat list list \<Rightarrow> nat list" where
  "read_bounded limit chunks =
     fold (\<lambda>chunk out. let out = out @ chunk
        in if limit < length out then drop (length out - limit) out else out) chunks []"

record child =
  ch_exits :: bool
  ch_exits_on_term :: bool
  ch_code :: "int option"
  ch_stdout :: "nat list list"
  ch_stderr :: "nat list list"

datatype signal = Sigterm | Sigkill

record command_result =
  cr_command :: "pystr list"
  cr_code :: int
  cr_stdout :: "nat list"
  cr_stderr :: "nat list"
  cr_timed_out :: bool

text \<open>Waiting for the child: the signals its group is sent, and the result.\<close>

definition await_child :: "pystr list \<Rightarrow> nat \<Rightarrow> child \<Rightarrow> signal list \<times> command_result" where
  "await_child ws limit ch =
     (if ch_exits ch then [] else if ch_exits_on_term ch then [Sigterm] else [Sigterm, Sigkill],
      \<lparr>cr_command = ws, cr_code = (case ch_code ch of Some c \<Rightarrow> c | None \<Rightarrow> - 1),
       cr_stdout = read_bounded limit (ch_stdout ch), cr_stderr = read_bounded limit (ch_stderr ch),
       cr_timed_out = (\<not> ch_exits ch)\<rparr>)"

text \<open>What is started: the executable, its arguments, the directory and the added variables.\<close>

record launch =
  la_executable :: fs_path
  la_arguments :: "pystr list"
  la_directory :: fs_path
  la_variables :: "(pystr \<times> env_value) list"

record sandbox_args =
  sb_resources :: bool
  sb_network :: bool

text \<open>
  \<open>run_allowed_command\<close> up to the start: what is launched, and whether in a sandbox. The
  repository is resolved first.
\<close>

definition prepare_command ::
    "exec_env \<Rightarrow> command \<Rightarrow> fs_path \<Rightarrow> sandbox_args option \<Rightarrow> fs_path option
     \<Rightarrow> exn + (pystr list \<times> launch)" where
  "prepare_command env c repository sandbox task_root =
     (case parse_allowed_command c of
        Inl e \<Rightarrow> Inl e
      | Inr ws \<Rightarrow>
          let repo = ee_resolve env repository
          in case resolve_executable env (hd ws) of
               None \<Rightarrow> Inl (policy_error ''Allowlisted executable was not found'')
             | Some x \<Rightarrow>
                 if within repo (ee_resolve env x) then
                   Inl (policy_error ''Repository-local executable wrappers are blocked'')
                 else if list_ex (argument_outside env repo) (tl ws) then
                   Inl (policy_error ''Command argument resolves outside repository'')
                 else if (case sandbox of None \<Rightarrow> False
                          | Some b \<Rightarrow> task_root = None \<or> \<not> sb_resources b \<or> \<not> sb_network b) then
                   Inl (policy_error ''Sandbox execution requires task root and explicit policy'')
                 else
                   Inr (ws, \<lparr>la_executable = x, la_arguments = tl ws, la_directory = repo,
                     la_variables =
                       (if sandbox = None then
                          map (\<lambda>v. (lit v, Text_Value (case ee_variables env (lit v) of
                              None \<Rightarrow> [] | Some u \<Rightarrow> u))) [''PATH'', ''PYTHONPATH'']
                        else []) @ python_cache env ws task_root\<rparr>))"

text \<open>\<open>start\<close> is the operating system, \<open>isolate\<close> the sandbox: both may raise.\<close>

definition run_allowed_command ::
    "exec_env \<Rightarrow> (launch \<Rightarrow> exn + child) \<Rightarrow> (launch \<Rightarrow> exn + command_result) \<Rightarrow> command \<Rightarrow> fs_path
     \<Rightarrow> nat \<Rightarrow> sandbox_args option \<Rightarrow> fs_path option \<Rightarrow> exn + (signal list \<times> command_result)" where
  "run_allowed_command env start isolate c repository limit sandbox task_root =
     (case prepare_command env c repository sandbox task_root of
        Inl e \<Rightarrow> Inl e
      | Inr (ws, l) \<Rightarrow>
          (case sandbox of
             Some _ \<Rightarrow> map_sum id (\<lambda>r. ([], r\<lparr>cr_command := ws\<rparr>)) (isolate l)
           | None \<Rightarrow> map_sum id (await_child ws limit) (start l)))"

text \<open>A successful mapped result comes from a successful one.\<close>

section \<open>What an accepted command is\<close>

lemmas command_checks = composes_shell_def mutates_git_def allowlisted_def has_blocked_option_def
  outside_argument_def escapes_def

lemma parse_Inr:
  assumes "parse_allowed_command c = Inr ws"
  shows "command_words c = Inr ws" and "ws \<noteq> []"
    and "hd ws \<notin> set blocked_executables" and "slash \<notin> set (hd ws)"
    and "\<not> composes_shell ws" and "\<not> mutates_git ws" and "allowlisted ws"
    and "\<not> has_blocked_option ws" and "\<not> outside_argument ws" and "\<not> mutating_find ws"
    and "\<not> dangerous_git ws"
  using assms by (auto simp: parse_allowed_command_def split: sum.splits if_splits)

lemma prepare_Inr:
  assumes "prepare_command env c repository sandbox task_root = Inr (ws, l)"
  shows "parse_allowed_command c = Inr ws" and "la_arguments l = tl ws"
    and "la_directory l = ee_resolve env repository"
    and "resolve_executable env (hd ws) = Some (la_executable l)"
    and "\<not> within (ee_resolve env repository) (ee_resolve env (la_executable l))"
    and "\<not> list_ex (argument_outside env (ee_resolve env repository)) (tl ws)"
  using assms
  by (auto simp: prepare_command_def Let_def split: sum.splits option.splits if_splits)

text \<open>The verdict on a text depends on its words only, once it substitutes nothing.\<close>

lemma parse_text_is_parse_words:
  assumes "\<not> list_ex (\<lambda>t. has_part t s) (map lit [''$('', ''`'', ''${''] @ [[10], [13]])"
    and "shlex_split s = Inr ws"
  shows "parse_allowed_command (Command_Text s) = parse_allowed_command (Command_Words ws)"
  using assms by (simp add: parse_allowed_command_def command_words_def)

text \<open>C15: Every command that is started, in a sandbox or not, runs an allowlisted command family by a bare, not blocked executable name that resolves outside the repository, in the resolved repository; none of its arguments is a blocked option or a shell token or contains a redirection or substitution; an argument that is no option is relative without a parent reference; and an argument, or the value it assigns, that names something present does not lead out of the repository.\<close>
theorem started_command_confined:
  assumes "prepare_command env c repository sandbox task_root = Inr (ws, l)"
  shows "(\<exists>p \<in> set allowed_prefixes. prefix p ws)
    \<and> hd ws \<notin> set blocked_executables \<and> slash \<notin> set (hd ws)
    \<and> la_directory l = ee_resolve env repository
    \<and> \<not> within (la_directory l) (ee_resolve env (la_executable l))
    \<and> la_arguments l = tl ws
    \<and> (\<forall>w \<in> set (la_arguments l).
         w \<notin> set blocked_options \<and> w \<notin> set shell_tokens
         \<and> \<not> sublist (lit ''$('') w \<and> \<not> sublist (lit ''`'') w \<and> 60 \<notin> set w \<and> 62 \<notin> set w
         \<and> (\<not> is_option w \<longrightarrow> \<not> is_absolute w \<and> parent_ref \<notin> set (path_parts w))
         \<and> (let v = argument_value w; file = path_join (la_directory l) v
            in is_option v \<or> \<not> ee_present env file \<or> within (la_directory l) (ee_resolve env file)))"
proof -
  note p = prepare_Inr[OF assms] and w = parse_Inr[OF prepare_Inr(1)[OF assms]]
  have family: "\<exists>p \<in> set allowed_prefixes. prefix p ws"
    using w(7) by (auto simp: allowlisted_def list_ex_iff) (metis take_is_prefix)
  have tl: "x \<in> set ws" if "x \<in> set (tl ws)" for x using that w(2) list.set_sel(2) by metis
  have "x \<notin> set blocked_options \<and> x \<notin> set shell_tokens
         \<and> \<not> sublist (lit ''$('') x \<and> \<not> sublist (lit ''`'') x \<and> 60 \<notin> set x \<and> 62 \<notin> set x
         \<and> (\<not> is_option x \<longrightarrow> \<not> is_absolute x \<and> parent_ref \<notin> set (path_parts x))"
    if "x \<in> set (tl ws)" for x
  proof -
    have "has_part [d] v \<longleftrightarrow> d \<in> set v" for d v
      by (induction v) (auto simp: starts_with_def)
    moreover have "lit ''<'' = [60]" "lit ''>'' = [62]" by (simp_all add: lit_def)
    ultimately show ?thesis
      using w(5,8,9) that tl[OF that]
      by (auto simp: composes_shell_def has_blocked_option_def outside_argument_def escapes_def
          list_ex_iff has_part_sublist[symmetric])
  qed
  moreover have "let v = argument_value x; file = path_join (la_directory l) v
      in is_option v \<or> \<not> ee_present env file \<or> within (la_directory l) (ee_resolve env file)"
    if "x \<in> set (tl ws)" for x
    using p(3,6) that by (auto simp: list_ex_iff argument_outside_def Let_def)
  ultimately show ?thesis using family w(3,4) p(2,3,5) by simp
qed

definition sample_env :: exec_env where
  "sample_env = \<lparr>ee_python = path_of (lit ''/usr/bin/python3''), ee_runnable = (\<lambda>_. True),
     ee_which = (\<lambda>n. Some (path_of (lit ''/usr/bin/'' @ n))), ee_resolve = id, ee_present = (\<lambda>_. True),
     ee_tempdir = path_of (lit ''/tmp''), ee_uid = lit ''1000'', ee_variables = (\<lambda>_. None)\<rparr>"

theorem started_command_confined_witness:
  "\<exists>ws l. prepare_command sample_env (Command_Text (lit ''git diff HEAD src'')) (path_of (lit ''/repo'')) None None
      = Inr (ws, l) \<and> (\<exists>p \<in> set allowed_prefixes. prefix p ws) \<and> la_arguments l = tl ws"
proof -
  obtain ws l where r: "prepare_command sample_env (Command_Text (lit ''git diff HEAD src''))
      (path_of (lit ''/repo'')) None None = Inr (ws, l)"
  proof -
    have "case prepare_command sample_env (Command_Text (lit ''git diff HEAD src''))
      (path_of (lit ''/repo'')) None None of Inl _ \<Rightarrow> False | Inr _ \<Rightarrow> True"
      by code_simp
    then show ?thesis using that by (auto split: sum.splits)
  qed
  then show ?thesis using started_command_confined[OF r] by blast
qed

section \<open>The bounded run\<close>

lemma read_bounded_snoc:
  "read_bounded n (cs @ [c]) = drop (length (read_bounded n cs @ c) - n) (read_bounded n cs @ c)"
  by (simp add: read_bounded_def Let_def)

text \<open>The bounded reader of a child's output equals its reference: whatever the chunks, it holds exactly the last bytes of the whole output, at most the limit; a run that returns was ended by its own exit or by a termination signal, followed by a kill exactly when the child ignored it, and says that it timed out exactly when a signal was sent.\<close>
theorem run_output_is_last_bytes:
  assumes "run_allowed_command env start isolate c repository limit None task_root = Inr (signals, r)"
  shows "\<exists>ws l ch. prepare_command env c repository None task_root = Inr (ws, l) \<and> start l = Inr ch
    \<and> cr_stdout r = drop (length (concat (ch_stdout ch)) - limit) (concat (ch_stdout ch))
    \<and> cr_stderr r = drop (length (concat (ch_stderr ch)) - limit) (concat (ch_stderr ch))
    \<and> length (cr_stdout r) \<le> limit \<and> length (cr_stderr r) \<le> limit
    \<and> (cr_timed_out r \<longleftrightarrow> signals \<noteq> []) \<and> (signals = [] \<longleftrightarrow> ch_exits ch)
    \<and> (Sigkill \<in> set signals \<longleftrightarrow> \<not> ch_exits ch \<and> \<not> ch_exits_on_term ch)
    \<and> (signals \<noteq> [] \<longrightarrow> hd signals = Sigterm)"
proof -
  have rb: "read_bounded limit cs = drop (length (concat cs) - limit) (concat cs)" for cs
  proof (induction cs rule: rev_induct)
    case (snoc c cs)
    then show ?case by (cases "length (concat cs) \<le> limit") (simp_all add: read_bounded_snoc add.commute)
  qed (simp add: read_bounded_def)
  obtain ws l ch where "prepare_command env c repository None task_root = Inr (ws, l)"
    "start l = Inr ch" "(signals, r) = await_child ws limit ch"
    using assms by (auto simp: run_allowed_command_def map_sum_Inr split: sum.splits prod.splits)
  then show ?thesis by (auto simp: await_child_def rb split: if_splits)
qed

definition sample_child :: child where
  "sample_child = \<lparr>ch_exits = False, ch_exits_on_term = True, ch_code = Some (- 15),
     ch_stdout = [[1, 2, 3], [4, 5]], ch_stderr = []\<rparr>"

theorem run_output_is_last_bytes_witness:
  "\<exists>r. run_allowed_command sample_env (\<lambda>_. Inr sample_child) (\<lambda>_. Inl (ValueError [])) (Command_Text (lit ''mypy src''))
      (path_of (lit ''/repo'')) 3 None None = Inr ([Sigterm], r) \<and> length (cr_stdout r) \<le> 3"
proof -
  let ?run = "run_allowed_command sample_env (\<lambda>_. Inr sample_child) (\<lambda>_. Inl (ValueError [])) (Command_Text (lit ''mypy src''))
      (path_of (lit ''/repo'')) 3 None None"
  have "case ?run of Inl _ \<Rightarrow> False | Inr (sigs, _) \<Rightarrow> sigs = [Sigterm]" by code_simp
  then obtain r where r: "?run = Inr ([Sigterm], r)" by (auto split: sum.splits)
  show ?thesis using run_output_is_last_bytes[OF r] r by blast
qed

section \<open>Commands the table lets through\<close>

text \<open>
  The short options are matched as whole words, so an option with its value attached passes;
  \<open>find\<close> may write its output to a file; and the long name of a pattern file is not blocked.
\<close>

lemma attached_short_options_pass:
  "parse_allowed_command (Command_Text (lit ''pytest -pevil'')) = Inr (map lit [''pytest'', ''-pevil''])"
  "parse_allowed_command (Command_Text (lit ''pytest -p evil'')) = Inl (policy_error
     ''Command option can execute code, access external state, or write output'')"
  by code_simp+

lemma find_may_write:
  "parse_allowed_command (Command_Text (lit ''find . -fprint out.txt''))
     = Inr (map lit [''find'', ''.'', ''-fprint'', ''out.txt''])"
  by code_simp

lemma grep_pattern_file_passes:
  "parse_allowed_command (Command_Text (lit ''grep --file=patterns src''))
     = Inr (map lit [''grep'', ''--file=patterns'', ''src''])"
  by code_simp

end
