(* ===== verification/Patch_Scope.thy ===== *)
theory Patch_Scope
  imports Py_Text "HOL-Library.List_Lexorder" "HOL-Library.AList"
begin

text \<open>
  \<open>planning/patch_scope.py\<close> with the path predicates of \<open>planning/analysis.py\<close>: what a unified
  diff changes, and whether that stays in the approved plan. The tables of Unicode that the
  regular expressions and \<open>lower\<close> consult are inputs.
\<close>

record text_db =
  td_word :: "nat \<Rightarrow> bool"
  td_digit :: "nat \<Rightarrow> nat option"
  td_lower :: "pystr \<Rightarrow> pystr"

abbreviation patch_error :: "string \<Rightarrow> exn" where
  "patch_error \<equiv> Exn PatchValidationErrorC"

text \<open>\<open>dict.fromkeys\<close>: the first occurrence of each value.\<close>

definition dedup :: "'a list \<Rightarrow> 'a list" where
  "dedup xs = rev (remdups (rev xs))"

lemma set_dedup [simp]: "set (dedup xs) = set xs"
  by (simp add: dedup_def)

section \<open>Regular expressions\<close>

text \<open>
  The patterns the module compiles. \<open>rests r s\<close> are the texts left after a match of \<open>r\<close> at the
  start of \<open>s\<close>, in the order in which a backtracking matcher tries them: repetitions and
  options are greedy.
\<close>

datatype rx = Ch "nat \<Rightarrow> bool" | Str pystr | Cat rx rx | Alt rx rx | Opt rx | Star rx

primrec star_rests :: "nat \<Rightarrow> (pystr \<Rightarrow> pystr list) \<Rightarrow> pystr \<Rightarrow> pystr list" where
  "star_rests 0 f s = [s]"
| "star_rests (Suc n) f s =
     concat (map (star_rests n f) (filter (\<lambda>t. length t < length s) (f s))) @ [s]"

primrec rests :: "rx \<Rightarrow> pystr \<Rightarrow> pystr list" where
  "rests (Ch P) s = (case s of [] \<Rightarrow> [] | c # t \<Rightarrow> if P c then [t] else [])"
| "rests (Str w) s = (if starts_with w s then [drop (length w) s] else [])"
| "rests (Cat a b) s = concat (map (rests b) (rests a s))"
| "rests (Alt a b) s = rests a s @ rests b s"
| "rests (Opt a) s = rests a s @ [s]"
| "rests (Star a) s = star_rests (length s) (rests a) s"

abbreviation plus1 :: "rx \<Rightarrow> rx" where "plus1 r \<equiv> Cat r (Star r)"

fun seq_of :: "rx list \<Rightarrow> rx" where
  "seq_of [] = Str []"
| "seq_of [r] = r"
| "seq_of (r # rs) = Cat r (seq_of rs)"

fun alt_of :: "string list \<Rightarrow> rx" where
  "alt_of [] = Ch (\<lambda>_. False)"
| "alt_of [w] = Str (lit w)"
| "alt_of (w # ws) = Alt (Str (lit w)) (alt_of ws)"

abbreviation spaces :: rx where "spaces \<equiv> Star (Ch py_isspace)"
abbreviation spaces1 :: rx where "spaces1 \<equiv> plus1 (Ch py_isspace)"

definition name_start :: "nat \<Rightarrow> bool" where
  "name_start c \<longleftrightarrow> 65 \<le> c \<and> c \<le> 90 \<or> c = 95 \<or> 97 \<le> c \<and> c \<le> 122"

definition ident_rx :: "text_db \<Rightarrow> rx" where
  "ident_rx db = Cat (Ch name_start) (Star (Ch (td_word db)))"

text \<open>A pattern with one group: what precedes the group, the group, what follows it.\<close>

type_synonym pattern = "rx \<times> rx \<times> rx"

fun first :: "'a list \<Rightarrow> 'a option" where
  "first [] = None"
| "first (x # _) = Some x"

definition group_one :: "pattern \<Rightarrow> pystr \<Rightarrow> pystr option" where
  "group_one p s =
     (case p of (pre, grp, post) \<Rightarrow>
        first (concat (map (\<lambda>r. concat (map (\<lambda>r'. map (\<lambda>_. take (length r - length r') r) (rests post r'))
          (rests grp r))) (rests pre s))))"

definition sign :: rx where
  "sign = Cat (Ch (\<lambda>c. c = 43 \<or> c = 45)) spaces"

definition definition_patterns :: "text_db \<Rightarrow> pattern list" where
  "definition_patterns db =
    [(seq_of [sign, Alt (seq_of [Str (lit ''async''), spaces1, Str (lit ''def'')])
                      (alt_of [''def'', ''class'']), spaces1], ident_rx db, Str []),
     (seq_of [sign,
        Opt (seq_of [Str (lit ''pub''),
          Opt (seq_of [Str (lit ''(''), Star (Ch (\<lambda>c. c \<noteq> 41)), Str (lit '')'')]), spaces1]),
        Opt (seq_of [Str (lit ''async''), spaces1]),
        alt_of [''fn'', ''struct'', ''trait'', ''enum'', ''type'', ''const'', ''static'', ''mod''],
        spaces1], ident_rx db, Str []),
     (seq_of [sign, Opt (seq_of [Str (lit ''abstract''), spaces1]),
        alt_of [''contract'', ''interface'', ''library'', ''function'', ''modifier'', ''event'',
          ''error'', ''struct'', ''enum''], spaces1], ident_rx db, Str []),
     (seq_of [sign, Opt (seq_of [Str (lit ''export''), spaces1]), Opt (seq_of [Str (lit ''async''), spaces1]),
        alt_of [''function'', ''class'', ''interface'', ''type'', ''enum'', ''namespace''], spaces1],
      Cat (Ch (\<lambda>c. name_start c \<or> c = 36)) (Star (Ch (\<lambda>c. td_word db c \<or> c = 36))), Str []),
     (seq_of [sign,
        Star (Alt (alt_of [''public'', ''private'', ''protected'', ''static'', ''final'', ''abstract'',
          ''async'', ''extern'', ''inline'', ''virtual'', ''constexpr'']) (Ch py_isspace)), spaces,
        alt_of [''class'', ''struct'', ''enum'', ''interface'', ''record'', ''namespace''], spaces1],
      ident_rx db, Str []),
     (seq_of [sign, Opt (seq_of [Str (lit ''function''), spaces1])], ident_rx db,
      seq_of [spaces, Str (lit ''()''), spaces, Str (lit ''{'')])]"

text \<open>The group of the first pattern that matches the line.\<close>

definition defined_name :: "text_db \<Rightarrow> pystr \<Rightarrow> pystr option" where
  "defined_name db line = first (List.map_filter (\<lambda>p. group_one p line) (definition_patterns db))"

text \<open>The hunk header: \<open>@@ -a,b +c,d @@\<close>, giving \<open>a\<close>, \<open>b\<close> (if present) and \<open>c\<close>.\<close>

definition digits :: "text_db \<Rightarrow> pystr \<Rightarrow> nat list \<times> pystr" where
  "digits db s = (let ds = takeWhile (\<lambda>c. td_digit db c \<noteq> None) s
     in (map (the \<circ> td_digit db) ds, drop (length ds) s))"

definition opt_count :: "text_db \<Rightarrow> pystr \<Rightarrow> nat list option \<times> pystr" where
  "opt_count db s =
     (case s of [] \<Rightarrow> (None, s)
      | c # t \<Rightarrow> if c = 44 \<and> fst (digits db t) \<noteq> [] then (Some (fst (digits db t)), snd (digits db t))
                 else (None, s))"

definition hunk_header :: "text_db \<Rightarrow> pystr \<Rightarrow> (nat list \<times> nat list option \<times> nat list) option" where
  "hunk_header db s =
     (if \<not> starts_with (lit ''@@ -'') s then None
      else
        let (a, s1) = digits db (drop 4 s); (b, s2) = opt_count db s1
        in if a = [] \<or> \<not> starts_with (lit '' +'') s2 then None
           else
             let (c, s3) = digits db (drop 2 s2); (d, s4) = opt_count db s3
             in if c = [] \<or> \<not> starts_with (lit '' @@'') s4 then None else Some (a, b, c))"

text \<open>\<open>int(text)\<close>, which refuses more than 4300 digits.\<close>

definition to_int :: "nat list \<Rightarrow> exn + int" where
  "to_int ds = (if 4300 < length ds then Inl (ValueError ''Exceeds the limit for integer string conversion'')
     else Inr (int (fold (\<lambda>d n. 10 * n + d) ds 0)))"

section \<open>Paths of a patch\<close>

definition parent_part :: pystr where
  "parent_part = lit ''..''"

definition validate_relative_path :: "pystr \<Rightarrow> exn + pystr" where
  "validate_relative_path v =
     (if v = [] \<or> is_absolute v \<or> parent_part \<in> set (path_parts v) \<or> v = lit ''.'' \<or> v = lit ''/dev/null''
      then Inl (patch_error ''Unsafe patch path'') else Inr (as_posix v))"

definition patch_path :: "pystr \<Rightarrow> pystr \<Rightarrow> exn + pystr" where
  "patch_path p v =
     (if \<not> starts_with p v then Inl (patch_error ''Patch path is missing its prefix'')
      else validate_relative_path (drop (length p) v))"

definition metadata_path :: "pystr \<Rightarrow> exn + pystr" where
  "metadata_path v =
     (case shlex_split v of
        Inl _ \<Rightarrow> Inl (patch_error ''Malformed patch path'')
      | Inr parts \<Rightarrow>
          (case parts of
             [p] \<Rightarrow> validate_relative_path p
           | _ \<Rightarrow> Inl (patch_error ''Malformed patch path'')))"

section \<open>Extraction\<close>

record symbol_record =
  sy_identifier :: pystr
  sy_path :: pystr
  sy_module :: bool
  sy_name :: pystr
  sy_qualified :: pystr
  sy_start :: int
  sy_end :: int

datatype effect_kind = Existing_Modified | Symbol_Added | Symbol_Deleted

record symbol_effect =
  se_effect :: effect_kind
  se_path :: "pystr option"
  se_symbol :: pystr
  se_confirmed :: bool
  se_qualified :: "pystr option"

record patch_scope =
  ps_modified :: "pystr list"
  ps_created :: "pystr list"
  ps_deleted :: "pystr list"
  ps_renamed :: "(pystr option \<times> pystr) list"
  ps_symbols :: "pystr list"
  ps_effects :: "symbol_effect list"
  ps_unknown :: "pystr option list"

text \<open>\<open>PatchScope.changed_files\<close>\<close>

definition changed_files :: "patch_scope \<Rightarrow> pystr list" where
  "changed_files p = dedup (ps_modified p @ ps_created p @ ps_deleted p @ map snd (ps_renamed p))"

text \<open>The variables of the scan; \<open>None\<close> is the unset \<open>new_line\<close> or path.\<close>

record scan =
  sc_old :: "pystr option"
  sc_new :: "pystr option"
  sc_created :: "pystr list"
  sc_deleted :: "pystr list"
  sc_renamed :: "(pystr option \<times> pystr) list"
  sc_lines :: "(pystr \<times> int) list"
  sc_nonblank :: "(pystr \<times> int) list"
  sc_definitions :: "(effect_kind \<times> pystr option \<times> pystr) list"
  sc_sections :: nat
  sc_changed :: bool
  sc_line :: "int option"

definition scan_start :: scan where
  "scan_start = \<lparr>sc_old = None, sc_new = None, sc_created = [], sc_deleted = [], sc_renamed = [],
     sc_lines = [], sc_nonblank = [], sc_definitions = [], sc_sections = 0, sc_changed = False,
     sc_line = None\<rparr>"

definition diff_header :: pystr where "diff_header = lit ''diff --git ''"
definition rename_from :: pystr where "rename_from = lit ''rename from ''"
definition rename_to :: pystr where "rename_to = lit ''rename to ''"
definition new_file :: pystr where "new_file = lit ''new file mode ''"
definition deleted_file :: pystr where "deleted_file = lit ''deleted file mode ''"

text \<open>\<open>diff --git a/old b/new\<close>: the two validated paths.\<close>

definition header_paths :: "pystr \<Rightarrow> exn + (pystr \<times> pystr)" where
  "header_paths line =
     (case shlex_split line of
        Inl _ \<Rightarrow> Inl (patch_error ''Malformed patch header'')
      | Inr parts \<Rightarrow>
          if length parts \<noteq> 4 then Inl (patch_error ''Malformed diff --git header'')
          else (case patch_path (lit ''a/'') (parts ! 2) of
                  Inl e \<Rightarrow> Inl e
                | Inr old \<Rightarrow> map_sum id (\<lambda>new. (old, new)) (patch_path (lit ''b/'') (parts ! 3))))"

definition scan_header :: "pystr \<Rightarrow> scan \<Rightarrow> exn + scan" where
  "scan_header line s =
     (if 0 < sc_sections s \<and> \<not> sc_changed s then
        Inl (patch_error ''Malformed patch section has no change metadata'')
      else map_sum id (\<lambda>(old, new). s\<lparr>sc_line := None, sc_old := Some old, sc_new := Some new,
             sc_sections := Suc (sc_sections s), sc_changed := False\<rparr>) (header_paths line))"

text \<open>A line of a hunk: its new line number and what it changes.\<close>

definition touch :: "pystr \<Rightarrow> int \<Rightarrow> pystr \<Rightarrow> scan \<Rightarrow> scan" where
  "touch path n line s =
     s\<lparr>sc_lines := sc_lines s @ [(path, n)],
       sc_nonblank := (if strip (drop 1 line) \<noteq> [] then sc_nonblank s @ [(path, n)] else sc_nonblank s)\<rparr>"

definition scan_hunk_line :: "pystr \<Rightarrow> scan \<Rightarrow> scan" where
  "scan_hunk_line line s =
     (case (sc_line s, sc_new s) of
        (Some n, Some path) \<Rightarrow>
          if starts_with (lit ''+'') line \<and> \<not> starts_with (lit ''+++'') line then
            (touch path n line s)\<lparr>sc_line := Some (n + 1)\<rparr>
          else if starts_with (lit ''-'') line \<and> \<not> starts_with (lit ''---'') line then touch path n line s
          else if starts_with (lit '' '') line then s\<lparr>sc_line := Some (n + 1)\<rparr>
          else s
      | _ \<Rightarrow> s)"

definition scan_definition :: "text_db \<Rightarrow> pystr \<Rightarrow> scan \<Rightarrow> scan" where
  "scan_definition db line s =
     (case defined_name db line of
        None \<Rightarrow> s
      | Some name \<Rightarrow>
          if sc_new s = None \<and> sc_old s = None then s
          else s\<lparr>sc_definitions := sc_definitions s @
            [if starts_with (lit ''+'') line then (Symbol_Added, sc_new s, name)
             else (Symbol_Deleted, sc_old s, name)]\<rparr>)"

definition scan_content :: "text_db \<Rightarrow> pystr \<Rightarrow> scan \<Rightarrow> exn + scan" where
  "scan_content db line s =
     map_sum id (scan_definition db line)
       (case (hunk_header db line, sc_old s) of
          (Some (a, b, c), Some _) \<Rightarrow>
            (case to_int a of Inl e \<Rightarrow> Inl e
             | Inr _ \<Rightarrow> (case (case b of None \<Rightarrow> Inr 1 | Some ds \<Rightarrow> to_int ds) of Inl e \<Rightarrow> Inl e
                | Inr _ \<Rightarrow> map_sum id (\<lambda>n. s\<lparr>sc_line := Some n, sc_changed := True\<rparr>) (to_int c)))
        | _ \<Rightarrow> Inr (scan_hunk_line line s))"

definition scan_line :: "text_db \<Rightarrow> pystr \<Rightarrow> scan \<Rightarrow> exn + scan" where
  "scan_line db line s =
     (if starts_with diff_header line then scan_header line s
      else if starts_with rename_from line then
        map_sum id (\<lambda>p. s\<lparr>sc_old := Some p\<rparr>) (metadata_path (drop (length rename_from) line))
      else if starts_with rename_to line then
        map_sum id (\<lambda>p. s\<lparr>sc_new := Some p, sc_renamed := sc_renamed s @ [(sc_old s, p)],
          sc_changed := True\<rparr>) (metadata_path (drop (length rename_to) line))
      else case (sc_new s, sc_old s) of
        (new, old) \<Rightarrow>
          if starts_with new_file line \<and> new \<noteq> None then
            Inr (s\<lparr>sc_created := sc_created s @ [the new], sc_changed := True\<rparr>)
          else if starts_with deleted_file line \<and> old \<noteq> None then
            Inr (s\<lparr>sc_deleted := sc_deleted s @ [the old], sc_changed := True\<rparr>)
          else scan_content db line s)"

primrec scan_lines :: "text_db \<Rightarrow> pystr list \<Rightarrow> scan \<Rightarrow> exn + scan" where
  "scan_lines db [] s = Inr s"
| "scan_lines db (l # ls) s =
     (case scan_line db l s of Inl e \<Rightarrow> Inl e | Inr s' \<Rightarrow> scan_lines db ls s')"

section \<open>From the scan to the scope\<close>

text \<open>\<open>re.search(r'^Binary files .* differ$', diff, re.MULTILINE)\<close>, or a binary patch.\<close>

definition is_binary :: "pystr \<Rightarrow> bool" where
  "is_binary diff \<longleftrightarrow> has_part (lit ''GIT binary patch'') diff
     \<or> list_ex (\<lambda>l. starts_with (lit ''Binary files '') l
          \<and> ends_with (lit '' differ'') (drop (length (lit ''Binary files '')) l)) (split_char 10 diff)"

text \<open>The second pass: the new path of every section that is not created, deleted or renamed.\<close>

definition header_target :: "pystr \<Rightarrow> pystr option" where
  "header_target l =
     (if starts_with diff_header l
      then (case header_paths l of Inr (_, new) \<Rightarrow> Some new | Inl _ \<Rightarrow> None) else None)"

definition special_paths :: "scan \<Rightarrow> pystr list" where
  "special_paths s = sc_created s @ sc_deleted s @ map snd (sc_renamed s)
     @ List.map_filter fst (sc_renamed s)"

definition modified_paths :: "pystr list \<Rightarrow> scan \<Rightarrow> pystr list" where
  "modified_paths ls s = filter (\<lambda>p. p \<notin> set (special_paths s)) (List.map_filter header_target ls)"

text \<open>The path of a symbol below the prefix of the repository in the index.\<close>

definition local_path :: "pystr \<Rightarrow> symbol_record \<Rightarrow> pystr" where
  "local_path pre y = (if pre = [] then sy_path y else drop (length pre) (sy_path y))"

definition covers :: "pystr \<Rightarrow> pystr \<times> int \<Rightarrow> symbol_record \<Rightarrow> bool" where
  "covers pre pl y \<longleftrightarrow> \<not> sy_module y \<and> local_path pre y = fst pl
     \<and> sy_start y \<le> snd pl \<and> snd pl \<le> sy_end y"

text \<open>Each changed line of an existing file selects the innermost symbol around it.\<close>

definition select_symbol ::
    "symbol_record list \<Rightarrow> pystr \<Rightarrow> pystr list \<Rightarrow> pystr \<times> int
     \<Rightarrow> (pystr \<times> symbol_record) list \<Rightarrow> (pystr \<times> symbol_record) list" where
  "select_symbol symbols pre created pl selected =
     (if fst pl \<in> set created then selected
      else
        let hits = filter (\<lambda>y. covers pre pl y \<and> (pre = [] \<or> starts_with pre (sy_path y))) symbols
        in if hits = [] then selected
           else let y = arg_min_list (\<lambda>y. sy_end y - sy_start y) hits
                in AList.update (sy_identifier y) y selected)"

definition name_pairs :: "effect_kind \<Rightarrow> scan \<Rightarrow> (pystr option \<times> pystr) list" where
  "name_pairs k s = map snd (filter (\<lambda>d. fst d = k) (sc_definitions s))"

text \<open>A name both added and deleted in a file is a changed definition, not a new one.\<close>

definition paired :: "scan \<Rightarrow> pystr option \<times> pystr \<Rightarrow> bool" where
  "paired s n \<longleftrightarrow> n \<in> set (name_pairs Symbol_Added s) \<and> n \<in> set (name_pairs Symbol_Deleted s)"

definition selected_symbols ::
    "symbol_record list \<Rightarrow> pystr \<Rightarrow> scan \<Rightarrow> (pystr \<times> symbol_record) list" where
  "selected_symbols symbols pre s =
     filter (\<lambda>(_, y). \<not> ((Some (local_path pre y), sy_name y) \<in> set (name_pairs Symbol_Added s)
         \<and> \<not> paired s (Some (local_path pre y), sy_name y)))
       (fold (select_symbol symbols pre (sc_created s)) (sc_lines s) [])"

definition existing_effects :: "pystr \<Rightarrow> (pystr \<times> symbol_record) list \<Rightarrow> symbol_effect list" where
  "existing_effects pre sel = map (\<lambda>(_, y). \<lparr>se_effect = Existing_Modified,
     se_path = Some (local_path pre y), se_symbol = sy_identifier y, se_confirmed = True,
     se_qualified = Some (sy_qualified y)\<rparr>) sel"

definition definition_effects :: "scan \<Rightarrow> symbol_effect list" where
  "definition_effects s = map (\<lambda>(k, path, name). \<lparr>se_effect = k, se_path = path, se_symbol = name,
     se_confirmed = False, se_qualified = None\<rparr>)
     (filter (\<lambda>(_, n). \<not> paired s n) (sc_definitions s))"

text \<open>
  Files of the patch whose effect on symbols is not known: an existing file without any effect,
  or with a changed line, not blank, outside every symbol.
\<close>

definition unknown_paths ::
    "symbol_record list \<Rightarrow> pystr \<Rightarrow> scan \<Rightarrow> pystr list \<Rightarrow> symbol_effect list \<Rightarrow> pystr option list" where
  "unknown_paths symbols pre s modified effects =
     (let analyzable = map Some modified @ map fst (sc_renamed s)
      in dedup (filter (\<lambda>p. \<not> list_ex (\<lambda>e. se_path e = p) effects) analyzable
          @ map (Some \<circ> fst) (filter (\<lambda>pl. Some (fst pl) \<in> set analyzable
              \<and> \<not> list_ex (covers pre pl) symbols \<and> pl \<in> set (sc_nonblank s)) (sc_lines s))))"

definition scope_of :: "symbol_record list \<Rightarrow> pystr \<Rightarrow> pystr list \<Rightarrow> scan \<Rightarrow> patch_scope" where
  "scope_of symbols pre ls s =
     (let modified = modified_paths ls s;
          sel = selected_symbols symbols pre s;
          effects = existing_effects pre sel @ definition_effects s
      in \<lparr>ps_modified = dedup modified, ps_created = dedup (sc_created s),
          ps_deleted = dedup (sc_deleted s), ps_renamed = dedup (sc_renamed s),
          ps_symbols = sort (remdups (map fst sel)), ps_effects = effects,
          ps_unknown = unknown_paths symbols pre s modified effects\<rparr>)"

definition extract_patch_scope ::
    "text_db \<Rightarrow> pystr \<Rightarrow> symbol_record list \<Rightarrow> pystr \<Rightarrow> exn + patch_scope" where
  "extract_patch_scope db diff symbols pre =
     (if strip diff = [] then Inl (patch_error ''Patch is empty'')
      else if is_binary diff then
        Inl (patch_error ''Binary patches are not supported by deterministic scope analysis'')
      else (case scan_lines db (splitlines diff) scan_start of
              Inl e \<Rightarrow> Inl e
            | Inr s \<Rightarrow>
                if sc_sections s = 0 \<or> \<not> sc_changed s then
                  Inl (patch_error ''Malformed patch contains no deterministic file changes'')
                else Inr (scope_of symbols pre (splitlines diff) s)))"

section \<open>The policy\<close>

record scope_policy =
  sp_files :: "pystr list"
  sp_symbols :: "pystr list"
  sp_new_symbols :: "pystr list"
  sp_new_files :: "pystr list"
  sp_deletes_or_renames :: "pystr list"
  sp_max_files :: nat
  sp_max_symbols :: nat
  sp_dependency_approval :: bool
  sp_scoped_files :: "pystr list"
  sp_test_additions :: bool

definition protected_parts :: "pystr list" where
  "protected_parts = map lit [''.git'', ''.venv'', ''venv'', ''__pycache__'', ''node_modules'', ''var'']"

definition is_protected_path :: "pystr \<Rightarrow> bool" where
  "is_protected_path p \<longleftrightarrow> list_ex (\<lambda>x. x \<in> set protected_parts) (path_parts p)
     \<or> ends_with (lit ''.min.js'') p \<or> ends_with (lit ''.generated.py'') p"

definition dependency_names :: "pystr list" where
  "dependency_names = map lit [''pyproject.toml'', ''package.json'', ''package-lock.json'', ''yarn.lock'',
     ''pnpm-lock.yaml'', ''cargo.toml'', ''cargo.lock'', ''foundry.toml'']"

definition is_dependency_file :: "text_db \<Rightarrow> pystr \<Rightarrow> bool" where
  "is_dependency_file db p \<longleftrightarrow>
     (let name = td_lower db (path_name p)
      in name \<in> set dependency_names
         \<or> starts_with (lit ''requirements'') name \<and> ends_with (lit ''.txt'') name
         \<or> lit ''requirements'' \<in> set (path_parts p) \<and> ends_with (lit ''.txt'') name
         \<or> has_part (lit ''systemd'') (td_lower db p)
         \<or> starts_with (lit ''scripts/bootstrap/'') p \<or> starts_with (lit ''scripts/install/'') p)"

definition new_symbol_allowed :: "pystr \<Rightarrow> pystr \<Rightarrow> pystr list \<Rightarrow> exn + bool" where
  "new_symbol_allowed path name allowed =
     map_sum id (\<lambda>base.
       let m = map (\<lambda>c. if c = slash then dot else c) base;
           m = (if ends_with (lit ''.__init__'') m then take (length m - length (lit ''.__init__'')) m else m)
       in list_ex (\<lambda>v. v = name \<or> ends_with (dot # name) v \<or> ends_with (lit ''::'' @ name) v
            \<or> v = m @ dot # name) allowed) (without_suffix path)"

text \<open>\<open>name.rsplit('.', 1)[-1]\<close>\<close>

definition last_segment :: "pystr \<Rightarrow> pystr" where
  "last_segment n = last (split_char dot n)"

text \<open>Whether an added symbol is planned; a path that is not set raises.\<close>

definition added_symbol_planned :: "text_db \<Rightarrow> scope_policy \<Rightarrow> pystr option \<times> pystr \<Rightarrow> exn + bool" where
  "added_symbol_planned db p n =
     (case fst n of
        None \<Rightarrow> Inl (Exn TypeErrorC ''expected str, not NoneType'')
      | Some path \<Rightarrow>
          map_sum id (\<lambda>ok. ok \<or> sp_test_additions p \<and> path \<in> set (sp_files p)
              \<and> starts_with (lit ''test_'') (td_lower db (path_name path))
              \<and> starts_with (lit ''test_'') (last_segment (snd n)))
            (new_symbol_allowed path (snd n) (sp_new_symbols p)))"

datatype scope_issue =
    Unplanned string "pystr list"
  | Unplanned_Renames "(pystr option \<times> pystr) list"
  | Unplanned_New_Symbols "(pystr option \<times> pystr) list"
  | Protected_Files "pystr list"
  | Unapproved_Dependencies "pystr list"
  | Too_Many_Files
  | Too_Many_Symbols
  | Unknown_Effects "pystr list"

definition existing_of :: "patch_scope \<Rightarrow> symbol_effect list" where
  "existing_of x = filter (\<lambda>e. se_effect e = Existing_Modified) (ps_effects x)"

definition path_among :: "symbol_effect \<Rightarrow> pystr list \<Rightarrow> bool" where
  "path_among e ps \<longleftrightarrow> (case se_path e of None \<Rightarrow> False | Some p \<Rightarrow> p \<in> set ps)"

text \<open>A modified symbol is planned by its identity, by its name in a scoped file, or by its file.\<close>

definition symbol_planned :: "scope_policy \<Rightarrow> patch_scope \<Rightarrow> pystr \<Rightarrow> bool" where
  "symbol_planned p x i \<longleftrightarrow> i \<in> set (sp_symbols p)
     \<or> list_ex (\<lambda>e. se_symbol e = i \<and> i \<noteq> [] \<and> path_among e (sp_scoped_files p)
          \<and> (case se_qualified e of None \<Rightarrow> False
             | Some q \<Rightarrow> q \<noteq> [] \<and> list_ex (\<lambda>a. q = a \<or> ends_with (dot # a) q \<or> ends_with (dot # q) a)
                 (sp_symbols p))) (existing_of x)
     \<or> list_ex (\<lambda>e. se_symbol e = i \<and> i \<noteq> [] \<and> path_among e (sp_files p)
          \<and> \<not> path_among e (sp_scoped_files p)) (existing_of x)"

definition added_symbols :: "patch_scope \<Rightarrow> (pystr option \<times> pystr) list" where
  "added_symbols x = remdups (map (\<lambda>e. (se_path e, se_symbol e))
     (filter (\<lambda>e. se_effect e = Symbol_Added \<and> se_symbol e \<noteq> []) (ps_effects x)))"

definition all_paths :: "patch_scope \<Rightarrow> pystr list" where
  "all_paths x = changed_files x @ List.map_filter fst (ps_renamed x)"

text \<open>\<open>item.qualified_name or item.symbol\<close>\<close>

definition effect_name :: "symbol_effect \<Rightarrow> pystr" where
  "effect_name e = (case se_qualified e of Some q \<Rightarrow> if q = [] then se_symbol e else q | None \<Rightarrow> se_symbol e)"

definition affected_symbol_count :: "patch_scope \<Rightarrow> nat" where
  "affected_symbol_count x =
     length (remdups (map (\<lambda>e. (se_path e, effect_name e)) (filter (\<lambda>e. se_symbol e \<noteq> []) (ps_effects x))))
     + length (filter (\<lambda>i. i \<notin> set (map se_symbol (filter (\<lambda>e. se_symbol e \<noteq> []
           \<and> se_qualified e \<noteq> None \<and> se_qualified e \<noteq> Some []) (existing_of x)))) (remdups (ps_symbols x)))"

text \<open>The sum of results: the first error, or the elements whose answer is negative.\<close>

primrec unplanned_added ::
    "text_db \<Rightarrow> scope_policy \<Rightarrow> (pystr option \<times> pystr) list \<Rightarrow> exn + (pystr option \<times> pystr) list" where
  "unplanned_added db p [] = Inr []"
| "unplanned_added db p (n # ns) =
     (case added_symbol_planned db p n of
        Inl e \<Rightarrow> Inl e
      | Inr ok \<Rightarrow> map_sum id (\<lambda>us. if ok then us else n # us) (unplanned_added db p ns))"

definition issue_if :: "'a list \<Rightarrow> ('a list \<Rightarrow> scope_issue) \<Rightarrow> scope_issue list" where
  "issue_if vs f = (if vs = [] then [] else [f vs])"

definition minus_set :: "pystr list \<Rightarrow> pystr list \<Rightarrow> pystr list" where
  "minus_set xs ys = sort (remdups (filter (\<lambda>v. v \<notin> set ys) xs))"

definition validate_patch_scope ::
    "text_db \<Rightarrow> scope_policy \<Rightarrow> patch_scope \<Rightarrow> exn + scope_issue list" where
  "validate_patch_scope db p x =
     (if list_ex (\<lambda>(old, _). old = None) (ps_renamed x) then
        Inl (Exn TypeErrorC ''expected str, not NoneType'')
      else
     map_sum id (\<lambda>added.
       issue_if (minus_set (ps_modified x) (sp_files p)) (Unplanned ''modified'')
       @ issue_if (minus_set (ps_created x) (sp_new_files p)) (Unplanned ''created'')
       @ issue_if (minus_set (ps_deleted x) (sp_deletes_or_renames p)) (Unplanned ''deleted'')
       @ issue_if (filter (\<lambda>(old, new). \<not> (case old of None \<Rightarrow> False
             | Some o1 \<Rightarrow> o1 \<in> set (sp_deletes_or_renames p)) \<or> new \<notin> set (sp_deletes_or_renames p))
           (ps_renamed x)) Unplanned_Renames
       @ issue_if (sort (remdups (filter (\<lambda>i. \<not> symbol_planned p x i) (ps_symbols x)))) (Unplanned ''symbols'')
       @ issue_if added Unplanned_New_Symbols
       @ issue_if (sort (remdups (filter is_protected_path (all_paths x)))) Protected_Files
       @ (if sp_dependency_approval p then []
          else issue_if (sort (remdups (filter (is_dependency_file db) (all_paths x)))) Unapproved_Dependencies)
       @ (if sp_max_files p < length (changed_files x) then [Too_Many_Files] else [])
       @ (if sp_max_symbols p < affected_symbol_count x then [Too_Many_Symbols] else [])
       @ issue_if (sort (remdups (filter (\<lambda>f. Some f \<in> set (ps_unknown x)) (sp_scoped_files p)))) Unknown_Effects)
     (unplanned_added db p (added_symbols x)))"

section \<open>Safe paths\<close>

definition safe_path :: "pystr \<Rightarrow> bool" where
  "safe_path p \<longleftrightarrow> p \<noteq> [] \<and> \<not> is_absolute p \<and> parent_part \<notin> set (path_parts p)"

lemma validate_relative_path_Inr: "validate_relative_path v = Inr p \<Longrightarrow> safe_path p"
proof -
  assume v: "validate_relative_path v = Inr p"
  then have rel: "\<not> is_absolute v" and nodots: "parent_part \<notin> set (path_parts v)" and p: "p = as_posix v"
    by (auto simp: validate_relative_path_def split: if_splits)
  have r: "path_root v = []" "path_root p = []"
    using rel relative_as_posix(1)[OF rel] p by (auto simp: is_absolute_def)
  have "path_parts p = path_parts v"
    using r relative_as_posix(2)[OF rel] p by (simp add: path_parts_def)
  moreover have "p \<noteq> []"
  proof (cases "path_tail v = []")
    case True
    then show ?thesis using p r by (simp add: as_posix_def)
  next
    case False
    then show ?thesis using p r path_tail_props by (auto simp: as_posix_def join_char_Nil)
  qed
  ultimately show ?thesis using nodots r by (simp add: safe_path_def is_absolute_def)
qed

lemma patch_path_Inr: "patch_path q v = Inr p \<Longrightarrow> safe_path p"
  by (auto simp: patch_path_def split: if_splits dest: validate_relative_path_Inr)

lemma metadata_path_Inr: "metadata_path v = Inr p \<Longrightarrow> safe_path p"
  by (auto simp: metadata_path_def split: sum.splits list.splits dest: validate_relative_path_Inr)

lemma header_paths_Inr: "header_paths l = Inr (old, new) \<Longrightarrow> safe_path old \<and> safe_path new"
  by (auto simp: header_paths_def map_sum_Inr split: sum.splits if_splits dest: patch_path_Inr)

section \<open>The scan\<close>

text \<open>The header lines read so far, and what holds of the scan after them.\<close>

definition scan_ok :: "pystr list \<Rightarrow> scan \<Rightarrow> bool" where
  "scan_ok ls s \<longleftrightarrow>
     (\<forall>l \<in> set ls. starts_with diff_header l \<longrightarrow> (\<exists>old new. header_paths l = Inr (old, new)))
     \<and> (\<forall>p. sc_old s = Some p \<or> sc_new s = Some p \<longrightarrow> safe_path p)
     \<and> (\<forall>p \<in> set (sc_created s) \<union> set (sc_deleted s) \<union> snd ` set (sc_renamed s). safe_path p)
     \<and> (\<forall>p. Some p \<in> fst ` set (sc_renamed s) \<longrightarrow> safe_path p)
     \<and> (\<forall>(p, n) \<in> set (sc_lines s). safe_path p) \<and> set (sc_nonblank s) \<subseteq> set (sc_lines s)"

lemma scan_ok_frame:
  assumes "scan_ok ls s" and "sc_old s' = sc_old s" and "sc_new s' = sc_new s"
    and "sc_created s' = sc_created s" and "sc_deleted s' = sc_deleted s"
    and "sc_renamed s' = sc_renamed s" and "sc_lines s' = sc_lines s" and "sc_nonblank s' = sc_nonblank s"
  shows "scan_ok ls s'"
  using assms by (simp add: scan_ok_def)

lemma scan_definition_ok: "scan_ok ls s \<Longrightarrow> scan_ok ls (scan_definition db l s)"
  by (erule scan_ok_frame) (simp_all add: scan_definition_def split: option.splits)

lemma scan_hunk_line_ok: "scan_ok ls s \<Longrightarrow> scan_ok ls (scan_hunk_line l s)"
  by (auto simp: scan_ok_def scan_hunk_line_def touch_def split: option.splits)

lemma scan_content_InrE:
  assumes "scan_content db l s = Inr s'"
  obtains t where "s' = scan_definition db l t"
    and "t = scan_hunk_line l s \<or> (\<exists>n. t = s\<lparr>sc_line := Some n, sc_changed := True\<rparr>)"
    and "sc_definitions t = sc_definitions s"
proof -
  obtain t where t: "s' = scan_definition db l t"
    and c: "(case (hunk_header db l, sc_old s) of
          (Some (a, b, c), Some _) \<Rightarrow>
            (case to_int a of Inl e \<Rightarrow> Inl e
             | Inr _ \<Rightarrow> (case (case b of None \<Rightarrow> Inr 1 | Some ds \<Rightarrow> to_int ds) of Inl e \<Rightarrow> Inl e
                | Inr _ \<Rightarrow> map_sum id (\<lambda>n. s\<lparr>sc_line := Some n, sc_changed := True\<rparr>) (to_int c)))
        | _ \<Rightarrow> Inr (scan_hunk_line l s)) = Inr t"
    using assms unfolding scan_content_def map_sum_Inr by blast
  have "t = scan_hunk_line l s \<or> (\<exists>n. t = s\<lparr>sc_line := Some n, sc_changed := True\<rparr>)"
    using c by (auto simp: map_sum_Inr split: sum.splits option.splits prod.splits)
  moreover from this have "sc_definitions t = sc_definitions s"
    by (auto simp: scan_hunk_line_def touch_def split: option.splits)
  ultimately show ?thesis using t that by blast
qed

lemma scan_content_ok:
  assumes "scan_content db l s = Inr s'" and "scan_ok ls s"
  shows "scan_ok ls s'"
  using assms(1)
proof (rule scan_content_InrE)
  fix t
  assume t: "s' = scan_definition db l t"
    and "t = scan_hunk_line l s \<or> (\<exists>n. t = s\<lparr>sc_line := Some n, sc_changed := True\<rparr>)"
  then have "scan_ok ls t" using assms(2) scan_hunk_line_ok by (auto intro: scan_ok_frame)
  with t show ?thesis by (simp add: scan_definition_ok)
qed

text \<open>The outcomes of a line that is no header.\<close>

lemma scan_line_cases:
  assumes "scan_line db l s = Inr s'" and "\<not> starts_with diff_header l"
  obtains (source) p where "safe_path p" and "s' = s\<lparr>sc_old := Some p\<rparr>"
  | (target) p where "safe_path p"
      and "s' = s\<lparr>sc_new := Some p, sc_renamed := sc_renamed s @ [(sc_old s, p)], sc_changed := True\<rparr>"
  | (created) p where "sc_new s = Some p" and "s' = s\<lparr>sc_created := sc_created s @ [p], sc_changed := True\<rparr>"
  | (deleted) p where "sc_old s = Some p" and "s' = s\<lparr>sc_deleted := sc_deleted s @ [p], sc_changed := True\<rparr>"
  | (content) "scan_content db l s = Inr s'"
proof (cases "starts_with rename_from l \<or> starts_with rename_to l")
  case True
  then show ?thesis
    using assms that(1,2) by (auto simp: scan_line_def map_sum_Inr split: if_splits dest: metadata_path_Inr)
next
  case False
  then show ?thesis using assms that(3-5) by (auto simp: scan_line_def split: if_splits)
qed

lemma scan_ok_line:
  "scan_ok ls s \<Longrightarrow> (starts_with diff_header l \<Longrightarrow> \<exists>old new. header_paths l = Inr (old, new)) \<Longrightarrow>
     scan_ok (ls @ [l]) s"
  by (auto simp: scan_ok_def)

lemma scan_line_ok:
  assumes "scan_line db l s = Inr s'" and "scan_ok ls s"
  shows "scan_ok (ls @ [l]) s'"
proof (cases "starts_with diff_header l")
  case True
  then obtain old new where h: "header_paths l = Inr (old, new)"
    and s': "s' = s\<lparr>sc_line := None, sc_old := Some old, sc_new := Some new,
             sc_sections := Suc (sc_sections s), sc_changed := False\<rparr>"
    using assms(1) by (auto simp: scan_line_def scan_header_def map_sum_Inr split: if_splits)
  have "scan_ok ls s'" using assms(2) header_paths_Inr[OF h] s' by (auto simp: scan_ok_def)
  then show ?thesis using h by (auto intro: scan_ok_line)
next
  case False
  from assms(1) False have "scan_ok ls s'"
  proof (cases rule: scan_line_cases)
    case content
    then show ?thesis using assms(2) by (rule scan_content_ok)
  next
    case (target p)
    then show ?thesis using assms(2) by (fastforce simp: scan_ok_def)
  qed (use assms(2) in \<open>auto simp: scan_ok_def\<close>)
  with False show ?thesis by (auto intro: scan_ok_line)
qed

lemma scan_lines_ok: "scan_lines db ls s = Inr s' \<Longrightarrow> scan_ok ks s \<Longrightarrow> scan_ok (ks @ ls) s'"
proof (induction ls arbitrary: s ks)
  case (Cons l ls)
  then show ?case using scan_line_ok[of db l s _ ks] by (auto split: sum.splits) fastforce
qed simp

lemma scan_start_ok: "scan_ok [] scan_start"
  by (simp add: scan_ok_def scan_start_def)

lemma extract_Inr:
  assumes "extract_patch_scope db diff symbols pre = Inr x"
  obtains s where "scan_lines db (splitlines diff) scan_start = Inr s" and "scan_ok (splitlines diff) s"
    and "x = scope_of symbols pre (splitlines diff) s"
  using assms scan_lines_ok[OF _ scan_start_ok, of db "splitlines diff"]
  by (auto simp: extract_patch_scope_def split: if_splits sum.splits)

lemma set_changed_files:
  "set (changed_files x) = set (ps_modified x) \<union> set (ps_created x) \<union> set (ps_deleted x) \<union> snd ` set (ps_renamed x)"
  by (auto simp: changed_files_def)

text \<open>Every header of the diff is accounted for in the scope.\<close>

lemma scope_of_fields:
  "ps_modified (scope_of symbols pre ls s) = dedup (modified_paths ls s)"
  "ps_created (scope_of symbols pre ls s) = dedup (sc_created s)"
  "ps_deleted (scope_of symbols pre ls s) = dedup (sc_deleted s)"
  "ps_renamed (scope_of symbols pre ls s) = dedup (sc_renamed s)"
  by (simp_all add: scope_of_def Let_def)

lemma set_map_filter: "set (List.map_filter f xs) = {y. \<exists>x \<in> set xs. f x = Some y}"
  by (force simp: List.map_filter_def)

lemma in_special_paths:
  "p \<in> set (special_paths s) \<longleftrightarrow> p \<in> set (sc_created s) \<or> p \<in> set (sc_deleted s)
     \<or> p \<in> snd ` set (sc_renamed s) \<or> Some p \<in> fst ` set (sc_renamed s)"
  by (force simp: special_paths_def set_map_filter)

lemma header_target_Some:
  "header_target l = Some p \<longleftrightarrow> starts_with diff_header l \<and> (\<exists>old. header_paths l = Inr (old, p))"
  by (auto simp: header_target_def split: sum.splits)

lemma in_modified_paths:
  "p \<in> set (modified_paths ls s) \<longleftrightarrow>
     p \<notin> set (special_paths s) \<and> (\<exists>l \<in> set ls. starts_with diff_header l \<and> (\<exists>old. header_paths l = Inr (old, p)))"
  by (auto simp: modified_paths_def set_map_filter header_target_Some)

lemma header_in_scope:
  assumes "scan_ok ls s" and "l \<in> set ls" and "starts_with diff_header l" and "x = scope_of symbols pre ls s"
  shows "\<exists>old new. header_paths l = Inr (old, new)
    \<and> (new \<in> set (changed_files x) \<or> Some new \<in> fst ` set (ps_renamed x))"
proof -
  obtain old new where h: "header_paths l = Inr (old, new)" using assms by (auto simp: scan_ok_def)
  have "new \<in> set (special_paths s) \<or> new \<in> set (modified_paths ls s)"
    using h assms(2,3) by (auto simp: in_modified_paths)
  then have "new \<in> set (changed_files x) \<or> Some new \<in> fst ` set (ps_renamed x)"
    unfolding in_special_paths set_changed_files assms(4) scope_of_fields by auto
  with h show ?thesis by blast
qed

end
