(* ===== verification/Patch_Guard.thy ===== *)
theory Patch_Guard
  imports Patch_Scope "HOL-Library.Code_Target_Nat"
begin

text \<open>
  What the scope guard guarantees of a patch it accepts, for files and for symbols, and two
  patches it should not accept.
\<close>

section \<open>Patches the policy accepts\<close>

lemma issue_if_Nil: "issue_if vs f = [] \<longleftrightarrow> vs = []"
  by (simp add: issue_if_def)

lemma sort_remdups_Nil: "sort (remdups xs) = [] \<longleftrightarrow> xs = []"
  by (metis set_empty set_remdups set_sort)

lemma minus_set_Nil: "minus_set xs ys = [] \<longleftrightarrow> set xs \<subseteq> set ys"
  by (auto simp: minus_set_def sort_remdups_Nil filter_empty_conv)

lemma unplanned_added_Nil:
  "unplanned_added db p ns = Inr [] \<longleftrightarrow> (\<forall>n \<in> set ns. added_symbol_planned db p n = Inr True)"
  by (induction ns) (auto simp: map_sum_Inr split: sum.splits)

lemma accepts_iff:
  "validate_patch_scope db p x = Inr [] \<longleftrightarrow>
     set (ps_modified x) \<subseteq> set (sp_files p) \<and> set (ps_created x) \<subseteq> set (sp_new_files p)
     \<and> set (ps_deleted x) \<subseteq> set (sp_deletes_or_renames p)
     \<and> (\<forall>(old, new) \<in> set (ps_renamed x). new \<in> set (sp_deletes_or_renames p)
          \<and> (\<exists>o1. old = Some o1 \<and> o1 \<in> set (sp_deletes_or_renames p)))
     \<and> (\<forall>i \<in> set (ps_symbols x). symbol_planned p x i)
     \<and> (\<forall>n \<in> set (added_symbols x). added_symbol_planned db p n = Inr True)
     \<and> (\<forall>f \<in> set (all_paths x). \<not> is_protected_path f)
     \<and> (sp_dependency_approval p \<or> (\<forall>f \<in> set (all_paths x). \<not> is_dependency_file db f))
     \<and> length (changed_files x) \<le> sp_max_files p \<and> affected_symbol_count x \<le> sp_max_symbols p
     \<and> (\<forall>f \<in> set (sp_scoped_files p). Some f \<notin> set (ps_unknown x))"
proof -
  have ren: "filter (\<lambda>(old, new). \<not> (case old of None \<Rightarrow> False
             | Some o1 \<Rightarrow> o1 \<in> set (sp_deletes_or_renames p)) \<or> new \<notin> set (sp_deletes_or_renames p))
           (ps_renamed x) = [] \<longleftrightarrow>
      (\<forall>(old, new) \<in> set (ps_renamed x). new \<in> set (sp_deletes_or_renames p)
          \<and> (\<exists>o1. old = Some o1 \<and> o1 \<in> set (sp_deletes_or_renames p)))"
    by (fastforce simp: filter_empty_conv split: option.splits)
  show ?thesis
  proof (cases "list_ex (\<lambda>(old, _). old = None) (ps_renamed x)")
    case True
    then show ?thesis by (fastforce simp: validate_patch_scope_def list_ex_iff)
  next
    case False
    then show ?thesis
      unfolding validate_patch_scope_def unplanned_added_Nil[symmetric] ren[symmetric]
      by (simp add: map_sum_Inr issue_if_Nil minus_set_Nil sort_remdups_Nil) (auto simp: filter_empty_conv not_less)
  qed
qed

lemma accepted_header:
  assumes "extract_patch_scope db diff symbols pre = Inr x" and "validate_patch_scope db p x = Inr []"
    and "l \<in> set (splitlines diff)" and "starts_with (lit ''diff --git '') l"
  shows "\<exists>old new. header_paths l = Inr (old, new) \<and> safe_path old \<and> safe_path new
    \<and> new \<in> set (sp_files p) \<union> set (sp_new_files p) \<union> set (sp_deletes_or_renames p)
    \<and> \<not> is_protected_path new \<and> length (changed_files x) \<le> sp_max_files p"
proof -
  obtain s where ok: "scan_ok (splitlines diff) s" and x: "x = scope_of symbols pre (splitlines diff) s"
    using assms(1) by (rule extract_Inr)
  obtain old new where h: "header_paths l = Inr (old, new)"
    and new: "new \<in> set (changed_files x) \<or> Some new \<in> fst ` set (ps_renamed x)"
    using header_in_scope[OF ok assms(3) _ x] assms(4) by (auto simp: diff_header_def)
  note acc = assms(2)[unfolded accepts_iff]
  have "new \<in> set (all_paths x)"
    using new by (force simp: all_paths_def set_map_filter)
  moreover have "new \<in> set (sp_files p) \<union> set (sp_new_files p) \<union> set (sp_deletes_or_renames p)"
    using new acc unfolding set_changed_files by fastforce
  ultimately show ?thesis using h header_paths_Inr[OF h] acc by blast
qed


section \<open>Symbol-scoped files\<close>

lemma star_rests_length:
  assumes "\<And>s t. t \<in> set (f s) \<Longrightarrow> length t \<le> length s"
  shows "t \<in> set (star_rests n f s) \<Longrightarrow> length t \<le> length s"
proof (induction n arbitrary: s)
  case (Suc n)
  then show ?case by (auto dest!: Suc.IH)
qed simp

lemma rests_length: "t \<in> set (rests r s) \<Longrightarrow> length t \<le> length s"
proof (induction r arbitrary: s t)
  case (Cat a b)
  then show ?case by (fastforce intro: le_trans)
next
  case (Star r)
  then show ?case using star_rests_length[of "rests r"] by auto
qed (auto split: list.splits if_splits)

lemma first_in_set: "first xs = Some x \<Longrightarrow> x \<in> set xs"
  by (cases xs) auto

text \<open>A defined name has at least one character, as its group starts with one.\<close>

lemma group_one_nonempty:
  assumes "group_one (pre, Cat (Ch P) r, post) s = Some w"
  shows "w \<noteq> []"
proof -
  obtain q r' where "r' \<in> set (rests (Cat (Ch P) r) q)" and w: "w = take (length q - length r') q"
    using first_in_set[OF assms[unfolded group_one_def prod.case]] by (auto simp del: rests.simps)
  then obtain c t where q: "q = c # t" and "r' \<in> set (rests r t)" by (cases q) (auto split: if_splits)
  then have "length r' \<le> length t" by (auto dest: rests_length)
  with w q show ?thesis by (simp add: Suc_diff_le)
qed

lemma defined_name_nonempty: "defined_name db l = Some w \<Longrightarrow> w \<noteq> []"
proof -
  assume "defined_name db l = Some w"
  then obtain p where p: "p \<in> set (definition_patterns db)" "group_one p l = Some w"
    unfolding defined_name_def by (auto dest!: first_in_set simp: set_map_filter)
  from p(1) obtain a P r c where "p = (a, Cat (Ch P) r, c)"
    unfolding definition_patterns_def ident_rx_def by (auto simp only: set_simps insert_iff empty_iff)
  with p(2) show ?thesis using group_one_nonempty by blast
qed

definition names_given :: "scan \<Rightarrow> bool" where
  "names_given s \<longleftrightarrow> (\<forall>(k, path, name) \<in> set (sc_definitions s). name \<noteq> [])"

lemma names_given_step:
  assumes "scan_line db l s = Inr s'" and "names_given s"
  shows "names_given s'"
proof (cases "starts_with diff_header l")
  case True
  then show ?thesis
    using assms by (auto simp: scan_line_def scan_header_def map_sum_Inr names_given_def split: if_splits)
next
  case False
  from assms(1) False show ?thesis
  proof (cases rule: scan_line_cases)
    case content
    then obtain t where "s' = scan_definition db l t" and "sc_definitions t = sc_definitions s"
      using scan_content_InrE by metis
    then show ?thesis using assms(2) defined_name_nonempty
      by (auto simp: scan_definition_def names_given_def split: option.splits)
  qed (use assms(2) in \<open>auto simp: names_given_def\<close>)
qed

lemma names_given_scan: "scan_lines db ls s = Inr s' \<Longrightarrow> names_given s \<Longrightarrow> names_given s'"
  by (induction ls arbitrary: s) (auto split: sum.splits intro: names_given_step)

section \<open>The selected symbols\<close>

lemma AList_update_mem: "(i, y) \<in> set (AList.update k v al) \<Longrightarrow> (i, y) = (k, v) \<or> (i, y) \<in> set al"
  by (induction al) (auto split: if_splits)

lemma AList_update_keys: "fst ` set (AList.update k v al) = insert k (fst ` set al)"
  by (induction al) auto

definition hits :: "symbol_record list \<Rightarrow> pystr \<Rightarrow> pystr \<times> int \<Rightarrow> symbol_record list" where
  "hits symbols pre pl =
     filter (\<lambda>y. covers pre pl y \<and> (pre = [] \<or> starts_with pre (sy_path y))) symbols"

definition innermost :: "symbol_record list \<Rightarrow> symbol_record" where
  "innermost ys = arg_min_list (\<lambda>y. sy_end y - sy_start y) ys"

lemma select_symbol_alt:
  "select_symbol symbols pre created pl sel =
     (if fst pl \<in> set created \<or> hits symbols pre pl = [] then sel
      else AList.update (sy_identifier (innermost (hits symbols pre pl))) (innermost (hits symbols pre pl)) sel)"
  by (simp add: select_symbol_def hits_def innermost_def Let_def)

lemma innermost_hit:
  assumes "hits symbols pre pl \<noteq> []"
  shows "innermost (hits symbols pre pl) \<in> set symbols" and "covers pre pl (innermost (hits symbols pre pl))"
  using arg_min_list_in[OF assms] by (auto simp: innermost_def hits_def)

lemma innermost_least:
  "z \<in> set ys \<Longrightarrow> sy_end (innermost ys) - sy_start (innermost ys) \<le> sy_end z - sy_start z"
  unfolding innermost_def by (subst f_arg_min_list_f) auto

lemma selected_entries:
  "(\<And>i y. (i, y) \<in> set sel \<Longrightarrow> y \<in> set symbols \<and> i = sy_identifier y) \<Longrightarrow>
     (i, y) \<in> set (fold (select_symbol symbols pre created) pls sel) \<Longrightarrow>
     y \<in> set symbols \<and> i = sy_identifier y"
proof (induction pls arbitrary: sel)
  case (Cons pl pls)
  show ?case
  proof (rule Cons.IH)
    show "(i, y) \<in> set (fold (select_symbol symbols pre created) pls (select_symbol symbols pre created pl sel))"
      using Cons.prems(2) by simp
  next
    fix j z assume "(j, z) \<in> set (select_symbol symbols pre created pl sel)"
    then show "z \<in> set symbols \<and> j = sy_identifier z"
      using Cons.prems(1) innermost_hit(1)[of symbols pre pl]
      by (auto simp: select_symbol_alt split: if_splits dest!: AList_update_mem)
  qed
qed auto

lemma selected_keys_mono: "fst ` set sel \<subseteq> fst ` set (fold (select_symbol symbols pre created) pls sel)"
proof (induction pls arbitrary: sel)
  case (Cons pl pls)
  have "fst ` set sel \<subseteq> fst ` set (select_symbol symbols pre created pl sel)"
    by (simp add: select_symbol_alt AList_update_keys subset_insertI)
  with Cons.IH[of "select_symbol symbols pre created pl sel"] show ?case by simp
qed simp

lemma selected_key:
  assumes "pl \<in> set pls" and "fst pl \<notin> set created" and "hits symbols pre pl \<noteq> []"
  shows "sy_identifier (innermost (hits symbols pre pl))
    \<in> fst ` set (fold (select_symbol symbols pre created) pls sel)"
  using assms(1)
proof (induction pls arbitrary: sel)
  case (Cons q pls)
  then show ?case
  proof (cases "pl = q")
    case True
    have "sy_identifier (innermost (hits symbols pre pl)) \<in> fst ` set (select_symbol symbols pre created q sel)"
      using assms(2,3) True by (simp add: select_symbol_alt AList_update_keys)
    then show ?thesis
      using selected_keys_mono[of "select_symbol symbols pre created q sel" symbols pre created pls]
      by auto
  qed auto
qed simp

lemma names_given_start: "names_given scan_start"
  by (simp add: names_given_def scan_start_def)

text \<open>A symbol that a changed line selects is in the scope, or its name is declared anew.\<close>

lemma selected_or_added:
  assumes "pl \<in> set (sc_lines s)" and "fst pl \<notin> set (sc_created s)" and "hits symbols pre pl \<noteq> []"
    and "inj_on sy_identifier (set symbols)" and "names_given s" and "x = scope_of symbols pre ls s"
    and y: "y = innermost (hits symbols pre pl)"
  shows "sy_identifier y \<in> set (ps_symbols x) \<or> (Some (fst pl), sy_name y) \<in> set (added_symbols x)"
proof -
  let ?sel = "fold (select_symbol symbols pre (sc_created s)) (sc_lines s) []"
  obtain z where z: "(sy_identifier y, z) \<in> set ?sel"
    using selected_key[OF assms(1-3), of "[]"] y by auto
  then have "z \<in> set symbols" "sy_identifier z = sy_identifier y"
    using selected_entries[of "[]" symbols "sy_identifier y" z] by auto
  then have "z = y" using assms(4) innermost_hit(1)[OF assms(3)] y by (auto dest: inj_onD)
  have path: "local_path pre y = fst pl" using innermost_hit(2)[OF assms(3)] y by (simp add: covers_def)
  let ?n = "(Some (fst pl), sy_name y)"
  show ?thesis
  proof (cases "?n \<in> set (name_pairs Symbol_Added s) \<and> \<not> paired s ?n")
    case False
    then have "(sy_identifier y, y) \<in> set (selected_symbols symbols pre s)"
      using z \<open>z = y\<close> path by (auto simp: selected_symbols_def)
    then have "sy_identifier y \<in> set (ps_symbols x)" using assms(6) by (force simp: scope_of_def Let_def)
    then show ?thesis by simp
  next
    case True
    then have "(Symbol_Added, ?n) \<in> set (sc_definitions s)" by (auto simp: name_pairs_def)
    then have d: "(Symbol_Added, ?n) \<in> set (filter (\<lambda>(_, n). \<not> paired s n) (sc_definitions s))"
      and ne: "sy_name y \<noteq> []"
      using True assms(5) by (auto simp: names_given_def)
    let ?e = "\<lparr>se_effect = Symbol_Added, se_path = Some (fst pl), se_symbol = sy_name y,
      se_confirmed = False, se_qualified = None\<rparr>"
    have "?e \<in> set (definition_effects s)"
      using imageI[OF d, of "\<lambda>(k, path, name). \<lparr>se_effect = k, se_path = path, se_symbol = name,
        se_confirmed = False, se_qualified = None\<rparr>"] by (simp add: definition_effects_def)
    then have e: "?e \<in> set (filter (\<lambda>e. se_effect e = Symbol_Added \<and> se_symbol e \<noteq> []) (ps_effects x))"
      using ne assms(6) by (simp add: scope_of_def Let_def)
    have "?n \<in> set (added_symbols x)"
      using imageI[OF e, of "\<lambda>e. (se_path e, se_symbol e)"] by (simp add: added_symbols_def)
    then show ?thesis by simp
  qed
qed

lemma outside_is_unknown:
  assumes "pl \<in> set (sc_lines s)" and "pl \<in> set (sc_nonblank s)" and "fst pl \<in> set modified"
    and "\<not> list_ex (covers pre pl) symbols"
  shows "Some (fst pl) \<in> set (unknown_paths symbols pre s modified effects)"
proof -
  have "pl \<in> set (filter (\<lambda>pl. Some (fst pl) \<in> set (map Some modified @ map fst (sc_renamed s))
      \<and> \<not> list_ex (covers pre pl) symbols \<and> pl \<in> set (sc_nonblank s)) (sc_lines s))"
    using assms by simp
  from imageI[OF this, of "Some \<circ> fst"] show ?thesis by (simp add: unknown_paths_def Let_def)
qed


section \<open>Examples\<close>

definition ascii_text :: text_db where
  "ascii_text = \<lparr>td_word = (\<lambda>c. name_start c \<or> 48 \<le> c \<and> c \<le> 57),
     td_digit = (\<lambda>c. if 48 \<le> c \<and> c \<le> 57 then Some (c - 48) else None),
     td_lower = map (\<lambda>c. if 65 \<le> c \<and> c \<le> 90 then c + 32 else c)\<rparr>"

definition text_of :: "string list \<Rightarrow> pystr" where
  "text_of ls = join_char 10 (map lit ls)"

definition sample_symbol :: "string \<Rightarrow> string \<Rightarrow> int \<Rightarrow> int \<Rightarrow> symbol_record" where
  "sample_symbol path name a b = \<lparr>sy_identifier = lit (path @ name), sy_path = lit path, sy_module = False,
     sy_name = lit name, sy_qualified = lit name, sy_start = a, sy_end = b\<rparr>"

definition sample_policy :: scope_policy where
  "sample_policy = \<lparr>sp_files = [lit ''a.py'', lit ''b.py''], sp_symbols = [lit ''f''], sp_new_symbols = [],
     sp_new_files = [], sp_deletes_or_renames = [], sp_max_files = 3, sp_max_symbols = 3,
     sp_dependency_approval = False, sp_scoped_files = [lit ''a.py''], sp_test_additions = False\<rparr>"

definition sample_diff :: pystr where
  "sample_diff = text_of [''diff --git a/a.py b/a.py'', ''--- a/a.py'', ''+++ b/a.py'', ''@@ -1 +1 @@'',
     ''-x'', ''+y'']"

definition sample_symbols :: "symbol_record list" where
  "sample_symbols = [sample_symbol ''a.py'' ''f'' 1 2, sample_symbol ''a.py'' ''g'' 3 9]"

definition accepted :: "pystr \<Rightarrow> symbol_record list \<Rightarrow> pystr \<Rightarrow> bool" where
  "accepted diff symbols pre =
     (case extract_patch_scope ascii_text diff symbols pre of Inl _ \<Rightarrow> False
      | Inr x \<Rightarrow> (case validate_patch_scope ascii_text sample_policy x of Inl _ \<Rightarrow> False | Inr is \<Rightarrow> is = []))"

lemma acceptedE:
  assumes "accepted diff symbols pre"
  obtains x where "extract_patch_scope ascii_text diff symbols pre = Inr x"
    and "validate_patch_scope ascii_text sample_policy x = Inr []"
  using assms by (auto simp: accepted_def split: sum.splits)

lemma sample_accepted: "accepted sample_diff sample_symbols []"
  by code_simp

text \<open>The scope guard is equivalent to its declarative reading: it finds nothing exactly when every modified, created, deleted and renamed path is on its list, every changed and every added symbol is planned, no path is protected, a dependency file needs the policy's approval, the counts stay in bounds, and no symbol-scoped file has an unknown effect.\<close>
theorem policy_accepts_iff:
  "validate_patch_scope db p x = Inr [] \<longleftrightarrow>
     set (ps_modified x) \<subseteq> set (sp_files p) \<and> set (ps_created x) \<subseteq> set (sp_new_files p)
     \<and> set (ps_deleted x) \<subseteq> set (sp_deletes_or_renames p)
     \<and> (\<forall>(old, new) \<in> set (ps_renamed x). new \<in> set (sp_deletes_or_renames p)
          \<and> (\<exists>o1. old = Some o1 \<and> o1 \<in> set (sp_deletes_or_renames p)))
     \<and> (\<forall>i \<in> set (ps_symbols x). symbol_planned p x i)
     \<and> (\<forall>n \<in> set (added_symbols x). added_symbol_planned db p n = Inr True)
     \<and> (\<forall>f \<in> set (all_paths x). \<not> is_protected_path f)
     \<and> (sp_dependency_approval p \<or> (\<forall>f \<in> set (all_paths x). \<not> is_dependency_file db f))
     \<and> length (changed_files x) \<le> sp_max_files p \<and> affected_symbol_count x \<le> sp_max_symbols p
     \<and> (\<forall>f \<in> set (sp_scoped_files p). Some f \<notin> set (ps_unknown x))"
  by (rule accepts_iff)

theorem policy_accepts_iff_witness:
  "\<exists>x. extract_patch_scope ascii_text sample_diff sample_symbols [] = Inr x
    \<and> set (ps_modified x) \<subseteq> set (sp_files sample_policy) \<and> (\<forall>f \<in> set (all_paths x). \<not> is_protected_path f)"
proof -
  obtain x where x: "extract_patch_scope ascii_text sample_diff sample_symbols [] = Inr x"
    "validate_patch_scope ascii_text sample_policy x = Inr []"
    using sample_accepted by (rule acceptedE)
  show ?thesis using x(1) policy_accepts_iff[THEN iffD1, OF x(2)] by blast
qed



section \<open>Patches the guard does not see through\<close>

text \<open>
  \<open>splitlines\<close> also splits at form feeds and other separators that a patch program does not
  take for the end of a line. An added line can therefore carry a false file header, and the
  rest of its hunk is counted for another file: here the second changed line is a change of
  the unplanned \<open>g\<close> in the symbol-scoped \<open>a.py\<close>.
\<close>

definition honest_diff :: pystr where
  "honest_diff = text_of [''diff --git a/a.py b/a.py'', ''--- a/a.py'', ''+++ b/a.py'', ''@@ -2,2 +2,2 @@'',
     ''-x'', ''+y'', ''-z'', ''+t'',
     ''diff --git a/b.py b/b.py'', ''--- a/b.py'', ''+++ b/b.py'', ''@@ -1 +1 @@'', ''-v'', ''+w'']"

definition disguised_diff :: pystr where
  "disguised_diff = join_char 10 [lit ''diff --git a/a.py b/a.py'', lit ''--- a/a.py'', lit ''+++ b/a.py'',
     lit ''@@ -2,2 +2,2 @@'', lit ''-x'',
     lit ''+y'' @ [12] @ lit ''diff --git a/b.py b/b.py'' @ [12] @ lit ''@@ -1 +1 @@'',
     lit ''-z'', lit ''+t'']"

lemma disguised_change_is_accepted:
  "\<not> accepted honest_diff sample_symbols []" "accepted disguised_diff sample_symbols []"
  by code_simp+

text \<open>
  A changed line counts as known when a symbol of any repository of the index covers it, as long
  as that symbol's path has as many characters before the same file name.
\<close>

lemma foreign_symbol_makes_line_known:
  "accepted (text_of [''diff --git a/a.py b/a.py'', ''--- a/a.py'', ''+++ b/a.py'', ''@@ -1 +1 @@'',
       ''-x'', ''+y'', ''@@ -40 +40 @@'', ''-s'', ''+t''])
     [sample_symbol ''app1/a.py'' ''f'' 1 2, sample_symbol ''app2/a.py'' ''h'' 30 50] (lit ''app1/'')"
  "\<not> accepted (text_of [''diff --git a/a.py b/a.py'', ''--- a/a.py'', ''+++ b/a.py'', ''@@ -1 +1 @@'',
       ''-x'', ''+y'', ''@@ -40 +40 @@'', ''-s'', ''+t''])
     [sample_symbol ''app1/a.py'' ''f'' 1 2] (lit ''app1/'')"
  by code_simp+

end
