(* ===== verification/Objectives.thy ===== *)
theory Objectives
  imports Friday_Prelude "HOL-Library.List_Lexorder" "HOL-Library.Char_ord"
begin

text \<open>
  The durable objectives of \<open>autonomy/service.py\<close>. Every call reads its objective, consults the
  canonical task history through configured functions, and writes with a statement that
  compares the columns it read. Other callers may write between any two accesses of a call:
  the world carries the writes they still make before each access. Time stamps are inputs.
\<close>

section \<open>The table and its statements\<close>

datatype objective_state = Obj_Created | Obj_Planning | Obj_Planned | Obj_Cancelled | Obj_Completed

record objective_row =
  oj_text :: pystr
  oj_state :: objective_state
  oj_created :: nat
  oj_updated :: nat
  oj_plan :: "string option"
  oj_task :: "string option"
  oj_repository :: "string option"

type_synonym objective_table = "string \<Rightarrow> objective_row option"

text \<open>
  The five writing statements: insert, \<open>_transition\<close>, the two bindings of a plan and the
  reservation of a task. The rows they carry are what their caller read.
\<close>

datatype objective_write =
    Insert_Objective string objective_row
  | Move_Objective string objective_row objective_state nat
  | Bind_Plan string objective_row string string nat
  | Rebind_Plan string string string string nat
  | Reserve_Task string string string nat

definition same_version :: "objective_row \<Rightarrow> objective_row \<Rightarrow> bool" where
  "same_version item r \<longleftrightarrow> oj_state r = oj_state item \<and> oj_task r = oj_task item \<and> oj_plan r = oj_plan item"

text \<open>\<open>UPDATE ... WHERE objective_id=? AND ...\<close>: the row count and the table.\<close>

definition update_if ::
    "string \<Rightarrow> (objective_row \<Rightarrow> bool) \<Rightarrow> (objective_row \<Rightarrow> objective_row) \<Rightarrow> objective_table
     \<Rightarrow> nat \<times> objective_table" where
  "update_if oid P f tab =
     (case tab oid of None \<Rightarrow> (0, tab)
      | Some r \<Rightarrow> if P r then (1, tab(oid \<mapsto> f r)) else (0, tab))"

fun apply_write :: "objective_write \<Rightarrow> objective_table \<Rightarrow> nat \<times> objective_table" where
  "apply_write (Insert_Objective oid row) tab =
     (if tab oid = None then (1, tab(oid \<mapsto> row)) else (0, tab))"
| "apply_write (Move_Objective oid item st now) tab =
     update_if oid (same_version item) (\<lambda>r. r\<lparr>oj_state := st, oj_updated := now\<rparr>) tab"
| "apply_write (Bind_Plan oid item plan task now) tab =
     update_if oid (same_version item)
       (\<lambda>r. r\<lparr>oj_state := Obj_Planned, oj_plan := Some plan, oj_task := Some task, oj_updated := now\<rparr>) tab"
| "apply_write (Rebind_Plan oid task old new now) tab =
     update_if oid (\<lambda>r. oj_state r = Obj_Planned \<and> oj_task r = Some task \<and> oj_plan r = Some old)
       (\<lambda>r. r\<lparr>oj_plan := Some new, oj_updated := now\<rparr>) tab"
| "apply_write (Reserve_Task oid task repository now) tab =
     update_if oid (\<lambda>r. oj_state r = Obj_Planning \<and> oj_task r = None)
       (\<lambda>r. r\<lparr>oj_task := Some task, oj_repository := Some repository, oj_updated := now\<rparr>) tab"

section \<open>The world of a call\<close>

record 'w objective_world =
  ow_table :: objective_table
  ow_others :: "objective_write list list"
  ow_written :: "objective_write list"
  ow_tasks :: 'w

type_synonym ('w, 'a) objective_act = "('w objective_world, 'a) act"

text \<open>What the other callers write before the next access.\<close>

definition interfere :: "'w objective_world \<Rightarrow> 'w objective_world" where
  "interfere w =
     (case ow_others w of [] \<Rightarrow> w
      | ws # rest \<Rightarrow> w\<lparr>ow_table := fold (\<lambda>u tab. snd (apply_write u tab)) ws (ow_table w), ow_others := rest\<rparr>)"

definition fetch :: "string \<Rightarrow> ('w, objective_row option) objective_act" where
  "fetch oid w = (let w = interfere w in (Inr (ow_table w oid), w))"

text \<open>A write of this call, and its row count.\<close>

definition execute :: "objective_write \<Rightarrow> ('w, nat) objective_act" where
  "execute u w =
     (let w = interfere w; (n, tab) = apply_write u (ow_table w)
      in (Inr n, w\<lparr>ow_table := tab, ow_written := ow_written w @ [u]\<rparr>))"

definition tasks :: "('w, 'a) act \<Rightarrow> ('w, 'a) objective_act" where
  "tasks m w = (case m (ow_tasks w) of (r, t) \<Rightarrow> (r, w\<lparr>ow_tasks := t\<rparr>))"

text \<open>The functions the service is configured with.\<close>

record 'w objective_config =
  oc_plan_hash :: "(string \<Rightarrow> ('w, string option) act) option"
  oc_plan_review :: "(string \<Rightarrow> string \<Rightarrow> ('w, string option) act) option"
  oc_create_task :: "(pystr \<Rightarrow> string \<Rightarrow> string \<Rightarrow> ('w, string) act) option"
  oc_request_plan :: "(string \<Rightarrow> ('w, unit) act) option"
  oc_cancel_task :: "(string \<Rightarrow> ('w, unit) act) option"
  oc_validate_repository :: "(string \<Rightarrow> ('w, unit) act) option"
  oc_task_state :: "(string \<Rightarrow> ('w, string option) act) option"
  oc_task_outcome :: "(string \<Rightarrow> ('w, string option) act) option"
  oc_execute_task :: "(string \<Rightarrow> string \<Rightarrow> ('w, string) act) option"
  oc_recover_task :: "(string \<Rightarrow> string \<Rightarrow> string \<Rightarrow> string \<Rightarrow> string \<Rightarrow> ('w, string) act) option"
  oc_retry_task :: "(string \<Rightarrow> string \<Rightarrow> string \<Rightarrow> string \<Rightarrow> string \<Rightarrow> string \<Rightarrow> ('w, string) act) option"

text \<open>\<open>Objective\<close>: the row with the projected state and outcome of its task.\<close>

record objective =
  ob_row :: objective_row
  ob_task_state :: "string option"
  ob_task_outcome :: "string option"

abbreviation objective_error :: "string \<Rightarrow> ('w, 'a) objective_act" where
  "objective_error msg \<equiv> act_raise (ValueError msg)"

definition concurrent_change :: string where
  "concurrent_change = ''objective changed concurrently or was cancelled''"

definition ask :: "(string \<Rightarrow> ('w, 'a option) act) option \<Rightarrow> string option \<Rightarrow> ('w, 'a option) objective_act" where
  "ask f task =
     (case (f, task) of (Some g, Some t) \<Rightarrow> tasks (g t) | _ \<Rightarrow> act_ok None)"

definition ended_task_states :: "string list" where
  "ended_task_states = [''succeeded'', ''failed'', ''blocked'', ''rolled_back'', ''cancelled'']"

definition project :: "'w objective_config \<Rightarrow> objective_row \<Rightarrow> ('w, objective) objective_act" where
  "project cfg r =
     act_bind (ask (oc_task_state cfg) (oj_task r)) (\<lambda>st.
       act_bind (if st \<in> set (map Some ended_task_states)
                 then ask (oc_task_outcome cfg) (oj_task r) else act_ok None) (\<lambda>out.
         act_ok \<lparr>ob_row = r, ob_task_state = st, ob_task_outcome = out\<rparr>))"

definition get_objective :: "'w objective_config \<Rightarrow> string \<Rightarrow> ('w, objective) objective_act" where
  "get_objective cfg oid =
     act_bind (fetch oid) (\<lambda>r. case r of
       None \<Rightarrow> objective_error ''objective is unavailable'' | Some row \<Rightarrow> project cfg row)"

section \<open>Identities\<close>

definition lower_hex :: "char \<Rightarrow> bool" where
  "lower_hex c \<longleftrightarrow> c \<in> set ''0123456789abcdef''"

definition hex_text :: "nat \<Rightarrow> string \<Rightarrow> bool" where
  "hex_text n v \<longleftrightarrow> length v = n \<and> list_all lower_hex v"

definition canonical_task :: "string \<Rightarrow> bool" where
  "canonical_task v \<longleftrightarrow> take 5 v = ''task_'' \<and> hex_text 20 (drop 5 v)"

section \<open>Operations\<close>

text \<open>\<open>create\<close>; \<open>fresh\<close> is the new identity, \<open>wanted\<close> the one the caller passed.\<close>

definition create_objective ::
    "'w objective_config \<Rightarrow> pystr \<Rightarrow> string option \<Rightarrow> string \<Rightarrow> nat \<Rightarrow> ('w, objective) objective_act" where
  "create_objective cfg body wanted fresh now =
     (let body = strip body; oid = (case wanted of Some i \<Rightarrow> if i = [] then fresh else i | None \<Rightarrow> fresh);
          row = \<lparr>oj_text = body, oj_state = Obj_Created, oj_created = now, oj_updated = now,
                 oj_plan = None, oj_task = None, oj_repository = None\<rparr>
      in if body = [] \<or> 4000 < length body then
           objective_error ''objective text must be between 1 and 4000 characters''
         else if \<not> hex_text 32 oid then
           objective_error ''canonical objective ID must be 32 lowercase hexadecimal characters''
         else
           act_bind (act_catch (act_bind (get_objective cfg oid) (\<lambda>x. act_ok (Some x)))
               (\<lambda>e. if is_instance e ValueErrorC then act_ok None else act_raise e)) (\<lambda>existing.
             case existing of
               Some x \<Rightarrow> if oj_text (ob_row x) \<noteq> body
                         then objective_error ''objective identity is already bound to different work''
                         else act_ok x
             | None \<Rightarrow> act_bind (execute (Insert_Objective oid row)) (\<lambda>n.
                 if n = 1 then act_ok \<lparr>ob_row = row, ob_task_state = None, ob_task_outcome = None\<rparr>
                 else act_raise (Exn IntegrityErrorC ''UNIQUE constraint failed''))))"

text \<open>\<open>_transition\<close>\<close>

definition move_objective ::
    "'w objective_config \<Rightarrow> string \<Rightarrow> objective \<Rightarrow> objective_state \<Rightarrow> nat \<Rightarrow> ('w, objective) objective_act" where
  "move_objective cfg oid item st now =
     act_bind (execute (Move_Objective oid (ob_row item) st now)) (\<lambda>n.
       if n \<noteq> 1 then objective_error concurrent_change else get_objective cfg oid)"

definition resume_objective :: "'w objective_config \<Rightarrow> string \<Rightarrow> nat \<Rightarrow> ('w, objective) objective_act" where
  "resume_objective cfg oid now =
     act_bind (get_objective cfg oid) (\<lambda>item.
       if oj_state (ob_row item) = Obj_Cancelled then objective_error ''cancelled objective cannot resume''
       else move_objective cfg oid item Obj_Planning now)"

text \<open>The reserved task is created, so that there is one to cancel.\<close>

definition recover_reservation :: "'w objective_config \<Rightarrow> objective \<Rightarrow> string \<Rightarrow> ('w, unit) objective_act" where
  "recover_reservation cfg item t =
     (case oj_repository (ob_row item) of
        Some repository \<Rightarrow>
          if ob_task_state item \<noteq> None then act_ok ()
          else (case oc_create_task cfg of
                  None \<Rightarrow> objective_error ''canonical task reservation recovery is unavailable''
                | Some f \<Rightarrow> act_bind (tasks (f (oj_text (ob_row item)) repository t)) (\<lambda>t'.
                    if t' \<noteq> t then objective_error ''canonical planner changed the reserved task ID''
                    else act_ok ()))
      | None \<Rightarrow> act_ok ())"

definition cancel_objective :: "'w objective_config \<Rightarrow> string \<Rightarrow> nat \<Rightarrow> ('w, objective) objective_act" where
  "cancel_objective cfg oid now =
     act_bind (get_objective cfg oid) (\<lambda>item.
       if oj_state (ob_row item) = Obj_Completed then objective_error ''completed objective cannot cancel''
       else
         act_seq (case oj_task (ob_row item) of
             None \<Rightarrow> act_ok ()
           | Some t \<Rightarrow>
               (case oc_cancel_task cfg of
                  None \<Rightarrow> objective_error ''canonical task cancellation is unavailable''
                | Some f \<Rightarrow> act_seq (recover_reservation cfg item t) (tasks (f t))))
           (move_objective cfg oid item Obj_Cancelled now))"

definition bind_plan :: "'w objective_config \<Rightarrow> string \<Rightarrow> string \<Rightarrow> nat \<Rightarrow> ('w, objective) objective_act" where
  "bind_plan cfg oid t now =
     (if \<not> canonical_task t then objective_error ''canonical planned task ID is required''
      else (case oc_plan_hash cfg of
              None \<Rightarrow> objective_error ''canonical task history is unavailable''
            | Some f \<Rightarrow>
                act_bind (tasks (f t)) (\<lambda>plan. case plan of
                  None \<Rightarrow> objective_error ''task has no canonical plan ready for binding''
                | Some h \<Rightarrow>
                    if \<not> hex_text 64 h then objective_error ''task has no canonical plan ready for binding''
                    else act_bind (get_objective cfg oid) (\<lambda>item.
                      if oj_state (ob_row item) = Obj_Cancelled then
                        objective_error ''cancelled objective cannot bind a plan''
                      else if oj_task (ob_row item) \<notin> {None, Some t} then
                        objective_error ''objective is already bound to a different canonical plan''
                      else if oj_plan (ob_row item) \<notin> {None, Some h} then
                        objective_error ''objective is already bound to a different canonical plan''
                      else act_bind (execute (Bind_Plan oid (ob_row item) h t now)) (\<lambda>n.
                        if n \<noteq> 1 then objective_error concurrent_change else get_objective cfg oid)))))"

definition rebind_unapproved_plan ::
    "'w objective_config \<Rightarrow> string \<Rightarrow> string \<Rightarrow> string \<Rightarrow> string \<Rightarrow> nat \<Rightarrow> ('w, objective) objective_act" where
  "rebind_unapproved_plan cfg oid t old new now =
     act_bind (get_objective cfg oid) (\<lambda>item.
       let refuse = objective_error ''objective is not bound to an unapproved revised task plan''
       in if oj_state (ob_row item) \<noteq> Obj_Planned \<or> oj_task (ob_row item) \<noteq> Some t
             \<or> oj_plan (ob_row item) \<noteq> Some old \<or> old = new then refuse
          else (case oc_task_state cfg of
                  None \<Rightarrow> refuse
                | Some f \<Rightarrow> act_bind (tasks (f t)) (\<lambda>st.
                    if st \<noteq> Some ''awaiting_approval'' then refuse
                    else (case oc_plan_hash cfg of
                            None \<Rightarrow> refuse
                          | Some g \<Rightarrow> act_bind (tasks (g t)) (\<lambda>h.
                              if h \<noteq> Some new then refuse
                              else act_bind (execute (Rebind_Plan oid t old new now)) (\<lambda>n.
                                if n \<noteq> 1 then objective_error ''objective plan binding changed concurrently''
                                else get_objective cfg oid))))))"

text \<open>\<open>request_plan\<close>; \<open>fresh\<close> is the new task identity.\<close>

definition reserve_task ::
    "'w objective_config \<Rightarrow> string \<Rightarrow> objective \<Rightarrow> string option \<Rightarrow> string \<Rightarrow> nat \<Rightarrow> ('w, objective) objective_act" where
  "reserve_task cfg oid item repository fresh now =
     (case oj_task (ob_row item) of
        Some _ \<Rightarrow> act_ok item
      | None \<Rightarrow>
          (case repository of
             None \<Rightarrow> objective_error ''configured repository ID is required''
           | Some r \<Rightarrow>
               if strip (map of_char r) = [] then objective_error ''configured repository ID is required''
               else
                 act_seq (case oc_validate_repository cfg of None \<Rightarrow> act_ok () | Some f \<Rightarrow> tasks (f r))
                   (act_bind (execute (Reserve_Task oid fresh r now)) (\<lambda>_. get_objective cfg oid))))"

definition plan_for_task ::
    "'w objective_config \<Rightarrow> string \<Rightarrow> string \<Rightarrow> (pystr \<Rightarrow> string \<Rightarrow> string \<Rightarrow> ('w, string) act)
     \<Rightarrow> (string \<Rightarrow> ('w, unit) act) \<Rightarrow> objective \<Rightarrow> nat \<Rightarrow> ('w, objective) objective_act" where
  "plan_for_task cfg oid t create request item now =
     act_seq (case oj_repository (ob_row item) of
         None \<Rightarrow> act_ok ()
       | Some r \<Rightarrow> act_bind (tasks (create (oj_text (ob_row item)) r t)) (\<lambda>t'.
           if t' \<noteq> t then objective_error ''canonical planner changed the reserved task ID'' else act_ok ()))
       (act_bind (get_objective cfg oid) (\<lambda>item.
          if oj_state (ob_row item) \<noteq> Obj_Planning \<or> oj_task (ob_row item) \<noteq> Some t
          then objective_error concurrent_change
          else act_bind (ask (oc_plan_hash cfg) (Some t)) (\<lambda>h.
            if h \<noteq> None then bind_plan cfg oid t now
            else act_seq (tasks (request t)) (bind_plan cfg oid t now))))"

definition request_plan ::
    "'w objective_config \<Rightarrow> string \<Rightarrow> string option \<Rightarrow> string \<Rightarrow> nat \<Rightarrow> ('w, objective) objective_act" where
  "request_plan cfg oid repository fresh now =
     act_bind (get_objective cfg oid) (\<lambda>item.
       if oj_state (ob_row item) \<noteq> Obj_Planning then
         objective_error ''objective must be planning before it can request a plan''
       else (case (oc_create_task cfg, oc_request_plan cfg) of
               (Some create, Some request) \<Rightarrow>
                 act_bind (reserve_task cfg oid item repository fresh now) (\<lambda>item.
                   case oj_task (ob_row item) of
                     None \<Rightarrow> objective_error concurrent_change
                   | Some t \<Rightarrow>
                       if oj_state (ob_row item) \<noteq> Obj_Planning then objective_error concurrent_change
                       else plan_for_task cfg oid t create request item now)
             | _ \<Rightarrow> act_raise (RuntimeError ''canonical planner is unavailable'')))"

definition request_execution :: "'w objective_config \<Rightarrow> string \<Rightarrow> ('w, string) objective_act" where
  "request_execution cfg oid =
     act_bind (get_objective cfg oid) (\<lambda>item.
       let refuse = objective_error ''objective requires its exact approved canonical plan''
       in case (oj_task (ob_row item), oj_plan (ob_row item), oc_plan_hash cfg) of
            (Some t, Some h, Some f) \<Rightarrow>
              if oj_state (ob_row item) \<noteq> Obj_Planned \<or> ob_task_state item \<noteq> Some ''approved'' then refuse
              else act_bind (tasks (f t)) (\<lambda>current.
                if current \<noteq> Some h then refuse
                else (case oc_execute_task cfg of
                        None \<Rightarrow> act_raise (RuntimeError ''canonical execution is unavailable'')
                      | Some g \<Rightarrow> tasks (g t h)))
          | _ \<Rightarrow> refuse)"

definition recover_execution ::
    "'w objective_config \<Rightarrow> string \<Rightarrow> string \<Rightarrow> string \<Rightarrow> string \<Rightarrow> string \<Rightarrow> ('w, string) objective_act" where
  "recover_execution cfg oid t h key owner =
     act_bind (get_objective cfg oid) (\<lambda>item.
       case oc_recover_task cfg of
         Some g \<Rightarrow>
           if oj_state (ob_row item) \<noteq> Obj_Planned \<or> oj_task (ob_row item) \<noteq> Some t
              \<or> oj_plan (ob_row item) \<noteq> Some h
           then objective_error ''recovery requires the exact current Objective task and plan''
           else tasks (g oid t h key owner)
       | None \<Rightarrow> objective_error ''recovery requires the exact current Objective task and plan'')"

definition retry_execution ::
    "'w objective_config \<Rightarrow> string \<Rightarrow> string \<Rightarrow> string \<Rightarrow> string \<Rightarrow> string \<Rightarrow> string \<Rightarrow> ('w, string) objective_act" where
  "retry_execution cfg oid t h key owner reason =
     act_bind (get_objective cfg oid) (\<lambda>item.
       case oc_retry_task cfg of
         Some g \<Rightarrow>
           if oj_task (ob_row item) \<noteq> Some t \<or> oj_plan (ob_row item) \<noteq> Some h
           then objective_error ''retry requires the exact current Objective task and plan''
           else tasks (g oid t h key owner reason)
       | None \<Rightarrow> objective_error ''retry requires the exact current Objective task and plan'')"

definition plan_review :: "'w objective_config \<Rightarrow> string \<Rightarrow> ('w, string) objective_act" where
  "plan_review cfg oid =
     act_bind (get_objective cfg oid) (\<lambda>item.
       case (oj_task (ob_row item), oj_plan (ob_row item)) of
         (Some t, Some h) \<Rightarrow>
           (case oc_plan_review cfg of
              None \<Rightarrow> objective_error ''canonical plan review is unavailable''
            | Some f \<Rightarrow> act_bind (tasks (f t h)) (\<lambda>review. case review of
                None \<Rightarrow> objective_error ''canonical plan review is unavailable''
              | Some v \<Rightarrow> act_ok v))
       | _ \<Rightarrow> objective_error ''objective has no canonical plan ready for review'')"

section \<open>The calls of the service\<close>

datatype objective_call =
    Call_Create pystr "string option" string nat
  | Call_Resume string nat
  | Call_Cancel string nat
  | Call_Bind string string nat
  | Call_Rebind string string string string nat
  | Call_Request_Plan string "string option" string nat
  | Call_Execute string
  | Call_Recover string string string string string
  | Call_Retry string string string string string string
  | Call_Review string

abbreviation ignore_result :: "('w, 'a) objective_act \<Rightarrow> ('w, unit) objective_act" where
  "ignore_result m \<equiv> act_bind m (\<lambda>_. act_ok ())"

fun perform :: "'w objective_config \<Rightarrow> objective_call \<Rightarrow> ('w, unit) objective_act" where
  "perform cfg (Call_Create body wanted fresh now) = ignore_result (create_objective cfg body wanted fresh now)"
| "perform cfg (Call_Resume oid now) = ignore_result (resume_objective cfg oid now)"
| "perform cfg (Call_Cancel oid now) = ignore_result (cancel_objective cfg oid now)"
| "perform cfg (Call_Bind oid t now) = ignore_result (bind_plan cfg oid t now)"
| "perform cfg (Call_Rebind oid t old new now) = ignore_result (rebind_unapproved_plan cfg oid t old new now)"
| "perform cfg (Call_Request_Plan oid repository fresh now) =
     ignore_result (request_plan cfg oid repository fresh now)"
| "perform cfg (Call_Execute oid) = ignore_result (request_execution cfg oid)"
| "perform cfg (Call_Recover oid t h key owner) = ignore_result (recover_execution cfg oid t h key owner)"
| "perform cfg (Call_Retry oid t h key owner reason) =
     ignore_result (retry_execution cfg oid t h key owner reason)"
| "perform cfg (Call_Review oid) = ignore_result (plan_review cfg oid)"

section \<open>Writes and how a row may change\<close>

text \<open>What a call has checked on the row it read before it issues the write.\<close>

fun guarded :: "objective_write \<Rightarrow> bool" where
  "guarded (Insert_Objective oid row) \<longleftrightarrow> hex_text 32 oid \<and> oj_state row = Obj_Created
     \<and> oj_text row \<noteq> [] \<and> length (oj_text row) \<le> 4000
     \<and> oj_plan row = None \<and> oj_task row = None \<and> oj_repository row = None"
| "guarded (Move_Objective oid item st now) \<longleftrightarrow>
     st = Obj_Planning \<and> oj_state item \<noteq> Obj_Cancelled \<or> st = Obj_Cancelled \<and> oj_state item \<noteq> Obj_Completed"
| "guarded (Bind_Plan oid item h t now) \<longleftrightarrow> oj_state item \<noteq> Obj_Cancelled \<and> canonical_task t \<and> hex_text 64 h
     \<and> oj_task item \<in> {None, Some t} \<and> oj_plan item \<in> {None, Some h}"
| "guarded (Rebind_Plan oid t old new now) \<longleftrightarrow> old \<noteq> new"
| "guarded (Reserve_Task oid t repository now) \<longleftrightarrow> True"

definition row_follows :: "objective_row \<Rightarrow> objective_row \<Rightarrow> bool" where
  "row_follows r r' \<longleftrightarrow> oj_text r' = oj_text r \<and> oj_created r' = oj_created r
     \<and> (oj_task r \<noteq> None \<longrightarrow> oj_task r' = oj_task r)
     \<and> (oj_task r \<noteq> None \<longrightarrow> oj_repository r' = oj_repository r)
     \<and> (oj_plan r \<noteq> None \<longrightarrow> oj_plan r' \<noteq> None)
     \<and> (oj_state r = Obj_Cancelled \<longrightarrow> oj_state r' = Obj_Cancelled \<and> oj_plan r' = oj_plan r \<and> oj_task r' = oj_task r)"

definition follows :: "objective_table \<Rightarrow> objective_table \<Rightarrow> bool" where
  "follows tab tab' \<longleftrightarrow> (\<forall>oid r. tab oid = Some r \<longrightarrow> (\<exists>r'. tab' oid = Some r' \<and> row_follows r r'))"

lemma row_follows_refl [simp]: "row_follows r r"
  by (simp add: row_follows_def)

lemma row_follows_trans: "row_follows a b \<Longrightarrow> row_follows b c \<Longrightarrow> row_follows a c"
  by (simp add: row_follows_def)

lemma follows_refl [simp]: "follows tab tab"
  by (auto simp: follows_def)

lemma follows_trans: "follows a b \<Longrightarrow> follows b c \<Longrightarrow> follows a c"
  unfolding follows_def by (meson row_follows_trans)

lemma follows_update_if:
  "(\<And>r. P r \<Longrightarrow> row_follows r (f r)) \<Longrightarrow> follows tab (snd (update_if oid P f tab))"
  by (auto simp: follows_def update_if_def split: option.splits)

lemma guarded_write_follows: "guarded u \<Longrightarrow> follows tab (snd (apply_write u tab))"
proof (cases u)
  case (Insert_Objective oid row)
  then show ?thesis by (auto simp: follows_def)
qed (auto intro!: follows_update_if simp: row_follows_def same_version_def)

lemma guarded_writes_follow: "list_all guarded us \<Longrightarrow> follows tab (fold (\<lambda>u tab. snd (apply_write u tab)) us tab)"
proof (induction us arbitrary: tab)
  case (Cons u us)
  then show ?case using guarded_write_follows[of u tab] by (auto intro: follows_trans)
qed simp

section \<open>Calls beside other callers\<close>

text \<open>Every write still to come from another caller is one a call of the service can issue.\<close>

definition lawful_others :: "'w objective_world \<Rightarrow> bool" where
  "lawful_others w \<longleftrightarrow> list_all (list_all guarded) (ow_others w)"

definition lawful_act :: "('w, 'a) objective_act \<Rightarrow> bool" where
  "lawful_act m \<longleftrightarrow> (\<forall>w. lawful_others w \<longrightarrow>
     lawful_others (snd (m w)) \<and> follows (ow_table w) (ow_table (snd (m w)))
     \<and> (\<exists>us. ow_written (snd (m w)) = ow_written w @ us \<and> list_all guarded us))"

named_theorems lawful_intros \<open>composition of calls that write only what they checked\<close>

lemma checked_ok [lawful_intros]: "lawful_act (act_ok x)" "lawful_act (act_raise e)"
  by (simp_all add: lawful_act_def act_ok_def act_raise_def)

lemma checked_bind [lawful_intros]:
  assumes "lawful_act m" and "\<And>x. lawful_act (f x)"
  shows "lawful_act (act_bind m f)"
  unfolding lawful_act_def
proof (intro allI impI)
  fix w :: "'a objective_world" assume w: "lawful_others w"
  obtain res w1 where m: "m w = (res, w1)" by (cases "m w")
  have 1: "lawful_others w1" "follows (ow_table w) (ow_table w1)"
    "\<exists>us. ow_written w1 = ow_written w @ us \<and> list_all guarded us"
    using assms(1) w m unfolding lawful_act_def by (metis snd_conv)+
  show "lawful_others (snd (act_bind m f w)) \<and> follows (ow_table w) (ow_table (snd (act_bind m f w)))
      \<and> (\<exists>us. ow_written (snd (act_bind m f w)) = ow_written w @ us \<and> list_all guarded us)"
  proof (cases res)
    case (Inl e)
    with m 1 show ?thesis by (simp add: act_bind_def)
  next
    case (Inr x)
    then have f: "act_bind m f w = f x w1" using m by (simp add: act_bind_def)
    have "lawful_others (snd (f x w1))" "follows (ow_table w1) (ow_table (snd (f x w1)))"
      "\<exists>us. ow_written (snd (f x w1)) = ow_written w1 @ us \<and> list_all guarded us"
      using assms(2)[of x] 1(1) unfolding lawful_act_def by blast+
    with f 1 show ?thesis by (auto intro: follows_trans)
  qed
qed

lemma checked_catch [lawful_intros]:
  assumes "lawful_act m" and "\<And>e. lawful_act (h e)"
  shows "lawful_act (act_catch m h)"
  unfolding lawful_act_def
proof (intro allI impI)
  fix w :: "'a objective_world" assume w: "lawful_others w"
  obtain res w1 where m: "m w = (res, w1)" by (cases "m w")
  have 1: "lawful_others w1" "follows (ow_table w) (ow_table w1)"
    "\<exists>us. ow_written w1 = ow_written w @ us \<and> list_all guarded us"
    using assms(1) w m unfolding lawful_act_def by (metis snd_conv)+
  show "lawful_others (snd (act_catch m h w)) \<and> follows (ow_table w) (ow_table (snd (act_catch m h w)))
      \<and> (\<exists>us. ow_written (snd (act_catch m h w)) = ow_written w @ us \<and> list_all guarded us)"
  proof (cases res)
    case (Inr x)
    with m 1 show ?thesis by (simp add: act_catch_def)
  next
    case (Inl e)
    then have f: "act_catch m h w = h e w1" using m by (simp add: act_catch_def)
    have "lawful_others (snd (h e w1))" "follows (ow_table w1) (ow_table (snd (h e w1)))"
      "\<exists>us. ow_written (snd (h e w1)) = ow_written w1 @ us \<and> list_all guarded us"
      using assms(2)[of e] 1(1) unfolding lawful_act_def by blast+
    with f 1 show ?thesis by (auto intro: follows_trans)
  qed
qed

lemma checked_interfere: "lawful_others w \<Longrightarrow> lawful_others (interfere w) \<and> follows (ow_table w) (ow_table (interfere w))"
  by (auto simp: interfere_def lawful_others_def guarded_writes_follow split: list.splits)

lemma interfere_written [simp]: "ow_written (interfere w) = ow_written w"
  by (simp add: interfere_def split: list.splits)

lemma checked_fetch [lawful_intros]: "lawful_act (fetch oid)"
  by (auto simp: lawful_act_def fetch_def Let_def checked_interfere)

lemma checked_tasks [lawful_intros]: "lawful_act (tasks m)"
  by (auto simp: lawful_act_def tasks_def lawful_others_def split: prod.splits)

lemma checked_execute [lawful_intros]: "guarded u \<Longrightarrow> lawful_act (execute u)"
  unfolding lawful_act_def execute_def
  using checked_interfere guarded_write_follows follows_trans
  by (fastforce simp: Let_def lawful_others_def split: prod.splits)

lemma checked_ask [lawful_intros]: "lawful_act (ask f t)"
  by (auto simp: ask_def intro: lawful_intros split: option.splits)

lemma checked_get [lawful_intros]: "lawful_act (get_objective cfg oid)"
  unfolding get_objective_def project_def
  by (intro lawful_intros) (auto intro!: lawful_intros split: option.splits)

lemma checked_move [lawful_intros]:
  "guarded (Move_Objective oid (ob_row item) st now) \<Longrightarrow> lawful_act (move_objective cfg oid item st now)"
  unfolding move_objective_def by (intro lawful_intros) (auto intro!: lawful_intros)

lemma checked_create: "lawful_act (create_objective cfg body wanted fresh now)"
  unfolding create_objective_def Let_def
  by (auto intro!: lawful_intros split: option.splits)

lemma checked_resume: "lawful_act (resume_objective cfg oid now)"
  unfolding resume_objective_def by (auto intro!: lawful_intros)

lemma checked_cancel: "lawful_act (cancel_objective cfg oid now)"
  unfolding cancel_objective_def recover_reservation_def
  by (auto intro!: lawful_intros split: option.splits)

lemma checked_bind_plan [lawful_intros]: "lawful_act (bind_plan cfg oid t now)"
  unfolding bind_plan_def by (auto intro!: lawful_intros split: option.splits)

lemma checked_rebind: "lawful_act (rebind_unapproved_plan cfg oid t old new now)"
  unfolding rebind_unapproved_plan_def Let_def by (auto intro!: lawful_intros split: option.splits)

lemma checked_request_plan: "lawful_act (request_plan cfg oid repository fresh now)"
  unfolding request_plan_def reserve_task_def plan_for_task_def
  by (auto intro!: lawful_intros split: option.splits)

lemma checked_delegations:
  "lawful_act (request_execution cfg oid)" "lawful_act (recover_execution cfg oid t h key owner)"
  "lawful_act (retry_execution cfg oid t h key owner reason)" "lawful_act (plan_review cfg oid)"
  unfolding request_execution_def recover_execution_def retry_execution_def plan_review_def Let_def
  by (auto intro!: lawful_intros split: option.splits)

lemma checked_perform: "lawful_act (perform cfg c)"
  by (cases c) (auto intro!: lawful_intros checked_create checked_resume checked_cancel checked_rebind
      checked_request_plan checked_delegations)

section \<open>What an objective keeps\<close>

text \<open>Whatever the calls of other callers write between its own accesses, no call of the service loses an objective or changes its text; once an objective is bound to a task it keeps that task and its repository; a plan that was bound is never lost; and a cancelled objective stays cancelled with its task and plan.\<close>
theorem objective_bindings_final:
  assumes "list_all (list_all guarded) (ow_others w)" and "ow_table w oid = Some r"
  shows "\<exists>r'. ow_table (snd (perform cfg c w)) oid = Some r'
    \<and> oj_text r' = oj_text r \<and> oj_created r' = oj_created r
    \<and> (\<forall>t. oj_task r = Some t \<longrightarrow> oj_task r' = Some t \<and> oj_repository r' = oj_repository r)
    \<and> (oj_plan r \<noteq> None \<longrightarrow> oj_plan r' \<noteq> None)
    \<and> (oj_state r = Obj_Cancelled \<longrightarrow>
         oj_state r' = Obj_Cancelled \<and> oj_task r' = oj_task r \<and> oj_plan r' = oj_plan r)"
proof -
  have "follows (ow_table w) (ow_table (snd (perform cfg c w)))"
    using checked_perform[of cfg c] assms(1) unfolding lawful_act_def lawful_others_def by blast
  then show ?thesis using assms(2) unfolding follows_def row_follows_def by fastforce
qed

definition sample_row :: "objective_state \<Rightarrow> string option \<Rightarrow> string option \<Rightarrow> objective_row" where
  "sample_row st task plan = \<lparr>oj_text = [120], oj_state = st, oj_created = 0, oj_updated = 0,
     oj_plan = plan, oj_task = task, oj_repository = Some ''repo''\<rparr>"

text \<open>A task history that counts cancellations and executions.\<close>

definition sample_config :: "(nat \<times> nat) objective_config" where
  "sample_config = \<lparr>oc_plan_hash = Some (\<lambda>t. act_ok (Some ''h'')), oc_plan_review = None,
     oc_create_task = None, oc_request_plan = None,
     oc_cancel_task = Some (\<lambda>t (a, b). (Inr (), (a + 1, b))), oc_validate_repository = None,
     oc_task_state = Some (\<lambda>t. act_ok (Some ''approved'')), oc_task_outcome = None,
     oc_execute_task = Some (\<lambda>t h (a, b). (Inr ''started'', (a, b + 1))),
     oc_recover_task = None, oc_retry_task = None\<rparr>"

definition sample_world :: "objective_row \<Rightarrow> objective_write list list \<Rightarrow> (nat \<times> nat) objective_world" where
  "sample_world r us = \<lparr>ow_table = [''o'' \<mapsto> r], ow_others = us, ow_written = [], ow_tasks = (0, 0)\<rparr>"

theorem objective_bindings_final_witness:
  "\<exists>r'. ow_table (snd (perform sample_config (Call_Resume ''o'' 3)
      (sample_world (sample_row Obj_Planned (Some ''t'') (Some ''h'')) [[], [Move_Objective ''o'' (sample_row Obj_Planned (Some ''t'') (Some ''h'')) Obj_Cancelled 2]]))) ''o'' = Some r'
    \<and> oj_task r' = Some ''t''"
  using objective_bindings_final[of "sample_world (sample_row Obj_Planned (Some ''t'') (Some ''h''))
      [[], [Move_Objective ''o'' (sample_row Obj_Planned (Some ''t'') (Some ''h'')) Obj_Cancelled 2]]" "''o''"
      "sample_row Obj_Planned (Some ''t'') (Some ''h'')" sample_config "Call_Resume ''o'' 3"]
  by (auto simp: sample_world_def sample_row_def)

section \<open>Execution of the exact plan\<close>

lemma interfere_tasks [simp]: "ow_tasks (interfere w) = ow_tasks w"
  by (simp add: interfere_def split: list.splits)

lemma get_objective_Inr:
  assumes "get_objective cfg oid w = (Inr item, w')"
  shows "ow_table (interfere w) oid = Some (ob_row item)" and "ow_table w' = ow_table (interfere w)"
    and "ob_task_state item = Some st \<Longrightarrow> st \<notin> set ended_task_states \<Longrightarrow>
      \<exists>f t. oc_task_state cfg = Some f \<and> oj_task (ob_row item) = Some t
        \<and> f t (ow_tasks w) = (Inr (Some st), ow_tasks w')"
  using assms
  by (auto simp: get_objective_def project_def fetch_def ask_def tasks_def act_bind_def act_ok_def
      act_raise_def Let_def split: option.splits prod.splits sum.splits if_splits)

text \<open>C18: Execution is started only for the exact plan: when a request for execution succeeds, the objective was planned when it was read, its task was approved, the canonical history still gave the plan the objective is bound to, and what ran was the execution of exactly that task and that plan.\<close>
theorem execution_is_exact:
  assumes "request_execution cfg oid w = (Inr v, w')"
  shows "\<exists>r t h f g k s1 s2. ow_table (interfere w) oid = Some r
    \<and> oj_state r = Obj_Planned \<and> oj_task r = Some t \<and> oj_plan r = Some h
    \<and> oc_task_state cfg = Some f \<and> f t (ow_tasks w) = (Inr (Some ''approved''), s1)
    \<and> oc_plan_hash cfg = Some g \<and> g t s1 = (Inr (Some h), s2)
    \<and> oc_execute_task cfg = Some k \<and> k t h s2 = (Inr v, ow_tasks w')"
proof -
  obtain item w1 where g: "get_objective cfg oid w = (Inr item, w1)"
    using assms by (auto simp: request_execution_def act_bind_def split: prod.splits sum.splits)
  from assms g obtain t h f s2 k where st: "oj_state (ob_row item) = Obj_Planned"
      "oj_task (ob_row item) = Some t" "oj_plan (ob_row item) = Some h" "ob_task_state item = Some ''approved''"
    and f: "oc_plan_hash cfg = Some f" "f t (ow_tasks w1) = (Inr (Some h), s2)"
    and k: "oc_execute_task cfg = Some k" "k t h s2 = (Inr v, ow_tasks w')"
    by (auto simp: request_execution_def act_bind_def act_raise_def tasks_def Let_def
        split: option.splits prod.splits sum.splits if_splits)
  have "''approved'' \<notin> set ended_task_states" by (simp add: ended_task_states_def)
  then obtain ft where "oc_task_state cfg = Some ft" "ft t (ow_tasks w) = (Inr (Some ''approved''), ow_tasks w1)"
    using get_objective_Inr(3)[OF g st(4)] st(2) by auto
  then show ?thesis using get_objective_Inr(1)[OF g] st f k by blast
qed

theorem execution_is_exact_witness:
  "\<exists>r t h. ow_table (sample_world (sample_row Obj_Planned (Some ''t'') (Some ''h'')) []) ''o'' = Some r
    \<and> oj_state r = Obj_Planned \<and> oj_task r = Some t \<and> oj_plan r = Some h"
proof -
  let ?w = "sample_world (sample_row Obj_Planned (Some ''t'') (Some ''h'')) []"
  have run: "request_execution sample_config ''o'' ?w = (Inr ''started'', ?w\<lparr>ow_tasks := (0, 1)\<rparr>)"
    by (simp add: request_execution_def get_objective_def project_def fetch_def interfere_def ask_def tasks_def
        sample_config_def sample_world_def sample_row_def ended_task_states_def act_simps)
  have "interfere ?w = ?w" by (simp add: interfere_def sample_world_def)
  then show ?thesis using execution_is_exact[OF run] by auto
qed

section \<open>Races\<close>

text \<open>
  A cancellation cancels the canonical task before it compares the objective; when the
  objective changed in between the call fails with the task already cancelled.
\<close>

lemma failed_cancel_has_cancelled_task:
  "let r = sample_row Obj_Planned (Some ''t'') (Some ''h'');
       run = cancel_objective sample_config ''o'' 3
         (sample_world r [[], [Move_Objective ''o'' r Obj_Planning 2]])
   in fst run = Inl (ValueError concurrent_change) \<and> ow_tasks (snd run) = (1, 0)
      \<and> map_option oj_state (ow_table (snd run) ''o'') = Some Obj_Planning"
  by (simp add: cancel_objective_def recover_reservation_def move_objective_def execute_def get_objective_def
      project_def fetch_def interfere_def ask_def tasks_def sample_config_def sample_world_def sample_row_def
      ended_task_states_def update_if_def same_version_def act_simps Let_def)

text \<open>Creating an objective again is idempotent, but not when the other creation comes in between.\<close>

lemma create_race_raises:
  assumes "oid = replicate 32 CHR ''a''" and "cfg = sample_config"
  shows "let w = \<lparr>ow_table = (\<lambda>_. None), ow_others = [[], [Insert_Objective oid
           \<lparr>oj_text = [120], oj_state = Obj_Created, oj_created = 1, oj_updated = 1, oj_plan = None,
            oj_task = None, oj_repository = None\<rparr>]], ow_written = [], ow_tasks = (0, 0)\<rparr>
    in fst (create_objective cfg [120] (Some oid) [] 2 w)
       = Inl (Exn IntegrityErrorC ''UNIQUE constraint failed'')"
  using assms
  by (simp add: list_all_iff create_objective_def strip_def lstrip_def rstrip_def py_isspace_def hex_text_def lower_hex_def
      get_objective_def fetch_def interfere_def execute_def is_instance_def act_simps Let_def)

end
