(* ===== verification/Worktrees.thy ===== *)
theory Worktrees
  imports Friday_Prelude "HOL-Library.Char_ord"
begin

text \<open>
  The worktree of one task: creation, load, state changes and cleanup of
  \<open>isolation/worktrees.py\<close>, with the lock of \<open>isolation/locks.py\<close> and the identifiers of
  \<open>isolation/paths.py\<close>. Git and the file system are calls on a world of their own: each may
  raise, or give a return code. The state is the task's metadata file and its lock.
\<close>

section \<open>Identifiers\<close>

definition safe_start :: "char \<Rightarrow> bool" where
  "safe_start c \<longleftrightarrow> (CHR ''A'' \<le> c \<and> c \<le> CHR ''Z'') \<or> (CHR ''a'' \<le> c \<and> c \<le> CHR ''z'')
     \<or> (CHR ''0'' \<le> c \<and> c \<le> CHR ''9'')"

definition safe_char :: "char \<Rightarrow> bool" where
  "safe_char c \<longleftrightarrow> safe_start c \<or> c = CHR ''.'' \<or> c = CHR ''_'' \<or> c = CHR ''-''"

primrec has_dots :: "string \<Rightarrow> bool" where
  "has_dots [] \<longleftrightarrow> False"
| "has_dots (c # s) \<longleftrightarrow> c = CHR ''.'' \<and> take 1 s = ''.'' \<or> has_dots s"

definition safe_identifier :: "string \<Rightarrow> exn + string" where
  "safe_identifier v =
     (if v = [] \<or> \<not> safe_start (hd v) \<or> \<not> list_all safe_char (tl v) \<or> 128 < length v
         \<or> has_dots v \<or> last v = CHR ''.''
      then Inl (Exn IsolationErrorC ''Unsafe identifier'') else Inr v)"

section \<open>State and calls\<close>

datatype worktree_state =
    Wt_Creating | Wt_Ready | Wt_Executing | Wt_Validating | Wt_Rollback_In_Progress
  | Wt_Promotion_Ready | Wt_Promoted | Wt_Failed | Wt_Rolled_Back | Wt_Cancelled
  | Wt_Recovery_Required | Wt_Cleanup_Pending | Wt_Cleaned

record worktree_identity =
  wi_schema :: nat
  wi_task :: string
  wi_repository_id :: string
  wi_canonical :: string
  wi_worktree :: string
  wi_branch :: string
  wi_starting_commit :: string
  wi_plan :: string
  wi_created :: nat
  wi_state :: worktree_state
  wi_commit :: "string option"
  wi_cleanup :: string

text \<open>
  The calls outside the modelled code. Those that run git give its return code where the code
  looks at it and raise otherwise; \<open>wp_disk\<close> is everything of \<open>_persist\<close> that may fail.
\<close>

record 'w worktree_ports =
  wp_root :: string
  wp_resolve :: "string \<Rightarrow> ('w, string) act"
  wp_repository_id :: "string \<Rightarrow> ('w, string) act"
  wp_location :: "string \<Rightarrow> string \<Rightarrow> ('w, string) act"
  wp_metadata_path :: "string \<Rightarrow> string \<Rightarrow> ('w, unit) act"
  wp_disk :: "('w, unit) act"
  wp_status :: "string \<Rightarrow> ('w, string) act"
  wp_head :: "string \<Rightarrow> ('w, string) act"
  wp_filters :: "string \<Rightarrow> string \<Rightarrow> ('w, unit) act"
  wp_occupied :: "string \<Rightarrow> ('w, bool) act"
  wp_exists :: "string \<Rightarrow> ('w, bool) act"
  wp_show_ref :: "string \<Rightarrow> string \<Rightarrow> ('w, int) act"
  wp_commit_of :: "string \<Rightarrow> string \<Rightarrow> ('w, string) act"
  wp_current_branch :: "string \<Rightarrow> ('w, string) act"
  wp_listed :: "string \<Rightarrow> ('w, int \<times> string) act"
  wp_delete_branch :: "string \<Rightarrow> string \<Rightarrow> ('w, int) act"
  wp_add :: "string \<Rightarrow> string \<Rightarrow> string \<Rightarrow> string \<Rightarrow> ('w, int) act"
  wp_checkout :: "string \<Rightarrow> string \<Rightarrow> ('w, int) act"
  wp_attach :: "string \<Rightarrow> string \<Rightarrow> ('w, unit) act"
  wp_remove :: "string \<Rightarrow> string \<Rightarrow> ('w, int) act"

record 'w worktree_world =
  tw_world :: 'w
  tw_metadata :: "worktree_identity option"
  tw_locked :: bool

type_synonym ('w, 'z, 'a) worktree_act = "(('w, 'z) worktree_world_scheme, 'a) act"

definition port :: "('w, 'a) act \<Rightarrow> ('w, 'z, 'a) worktree_act" where
  "port m w = (case m (tw_world w) of (r, s) \<Rightarrow> (r, w\<lparr>tw_world := s\<rparr>))"

definition require :: "bool \<Rightarrow> exn \<Rightarrow> ('s, unit) act" where
  "require b e = (if b then act_ok () else act_raise e)"

definition act_of :: "exn + 'a \<Rightarrow> ('s, 'a) act" where
  "act_of r w = (r, w)"

abbreviation isolation_error :: "string \<Rightarrow> exn" where
  "isolation_error \<equiv> Exn IsolationErrorC"

abbreviation identity_error :: "string \<Rightarrow> exn" where
  "identity_error \<equiv> Exn WorktreeIdentityErrorC"

text \<open>\<open>task_lock\<close>, not blocking. A second descriptor of the same process is refused as well.\<close>

definition with_task_lock :: "('w, 'z, 'a) worktree_act \<Rightarrow> ('w, 'z, 'a) worktree_act" where
  "with_task_lock m w =
     (if tw_locked w then (Inl (isolation_error ''Task isolation lock is already held''), w)
      else act_finally m (act_lift (\<lambda>w. w\<lparr>tw_locked := False\<rparr>)) (w\<lparr>tw_locked := True\<rparr>))"

section \<open>Load and state changes\<close>

definition recorded_head :: "worktree_identity \<Rightarrow> string" where
  "recorded_head i = (case wi_commit i of Some c \<Rightarrow> if c = [] then wi_starting_commit i else c
     | None \<Rightarrow> wi_starting_commit i)"

definition git_matches ::
    "('w, 'p) worktree_ports_scheme \<Rightarrow> string \<Rightarrow> worktree_identity \<Rightarrow> ('w, 'z, worktree_identity) worktree_act" where
  "git_matches p path i =
     act_bind (port (wp_head p path)) (\<lambda>h.
       act_seq (require (h = recorded_head i) (identity_error ''Task worktree HEAD is stale''))
         (act_bind (port (wp_current_branch p path)) (\<lambda>b.
           act_seq (require (b = wi_branch i) (identity_error ''Task worktree branch mismatch''))
             (act_ok i))))"

text \<open>An optional argument of \<open>load\<close> is compared when it is not empty.\<close>

definition agrees :: "string option \<Rightarrow> string \<Rightarrow> bool" where
  "agrees wanted v \<longleftrightarrow> (case wanted of None \<Rightarrow> True | Some x \<Rightarrow> x = [] \<or> x = v)"

definition check_worktree ::
    "('w, 'p) worktree_ports_scheme \<Rightarrow> string \<Rightarrow> string \<Rightarrow> string \<Rightarrow> string \<Rightarrow> string option \<Rightarrow> string option
     \<Rightarrow> ('w, 'z, worktree_identity) worktree_act" where
  "check_worktree p rid canonical path t start plan w =
     (case tw_metadata w of
        None \<Rightarrow> (Inl (identity_error ''Invalid task worktree metadata''), w)
      | Some i \<Rightarrow>
          if wi_repository_id i \<noteq> rid \<or> wi_canonical i \<noteq> canonical \<or> wi_worktree i \<noteq> path \<or> wi_task i \<noteq> t then
            (Inl (identity_error ''Task worktree identity mismatch''), w)
          else if \<not> agrees start (wi_starting_commit i) then
            (Inl (identity_error ''Task worktree starting commit mismatch''), w)
          else if \<not> agrees plan (wi_plan i) then
            (Inl (identity_error ''Task worktree plan hash mismatch''), w)
          else if wi_state i = Wt_Cleaned then (Inr i, w)
          else git_matches p path i w)"

definition load_worktree ::
    "('w, 'p) worktree_ports_scheme \<Rightarrow> string \<Rightarrow> string \<Rightarrow> string option \<Rightarrow> string option
     \<Rightarrow> ('w, 'z, worktree_identity) worktree_act" where
  "load_worktree p repository t start plan =
     act_bind (port (wp_repository_id p repository)) (\<lambda>rid.
     act_seq (act_bind (act_of (safe_identifier t)) (\<lambda>_. act_ok ()))
     (act_bind (port (wp_location p rid t)) (\<lambda>path.
     act_seq (port (wp_metadata_path p rid t))
     (act_bind (port (wp_resolve p repository)) (\<lambda>canonical.
       check_worktree p rid canonical path t start plan)))))"

text \<open>\<open>_persist\<close>: the metadata file is replaced, after everything that may fail.\<close>

definition persist ::
    "('w, 'p) worktree_ports_scheme \<Rightarrow> worktree_identity \<Rightarrow> ('w, 'z, worktree_identity) worktree_act" where
  "persist p i =
     act_seq (port (wp_disk p)) (act_seq (act_lift (\<lambda>w. w\<lparr>tw_metadata := Some i\<rparr>)) (act_ok i))"

definition persist_state_under_lock ::
    "('w, 'p) worktree_ports_scheme \<Rightarrow> worktree_identity \<Rightarrow> worktree_state
     \<Rightarrow> ('w, 'z, worktree_identity) worktree_act" where
  "persist_state_under_lock p i st =
     act_bind (port (wp_head p (wi_worktree i))) (\<lambda>h. persist p (i\<lparr>wi_state := st, wi_commit := Some h\<rparr>))"

definition transition_worktree ::
    "('w, 'p) worktree_ports_scheme \<Rightarrow> worktree_identity \<Rightarrow> worktree_state
     \<Rightarrow> ('w, 'z, worktree_identity) worktree_act" where
  "transition_worktree p i st = with_task_lock (persist_state_under_lock p i st)"

definition mark_worktree_recovery ::
    "('w, 'p) worktree_ports_scheme \<Rightarrow> worktree_identity \<Rightarrow> ('w, 'z, worktree_identity) worktree_act" where
  "mark_worktree_recovery p i = persist p (i\<lparr>wi_state := Wt_Recovery_Required\<rparr>)"

section \<open>Cleanup\<close>

definition active_worktree_states :: "worktree_state list" where
  "active_worktree_states = [Wt_Executing, Wt_Validating, Wt_Rollback_In_Progress, Wt_Recovery_Required]"

abbreviation cleaned :: "worktree_identity \<Rightarrow> worktree_identity" where
  "cleaned i \<equiv> i\<lparr>wi_state := Wt_Cleaned, wi_cleanup := ''cleaned''\<rparr>"

text \<open>The worktree's directory is gone: only a worktree that was cleaned may be cleaned again.\<close>

definition missing_worktree :: "worktree_identity \<Rightarrow> ('w, 'z, worktree_identity) worktree_act" where
  "missing_worktree i w =
     (if map_option wi_state (tw_metadata w) = Some Wt_Cleaned then (Inr (cleaned i), w)
      else (Inl (identity_error ''Active task worktree is missing''), w))"

definition cleanup_locked ::
    "('w, 'p) worktree_ports_scheme \<Rightarrow> worktree_identity \<Rightarrow> bool \<Rightarrow> bool
     \<Rightarrow> ('w, 'z, worktree_identity) worktree_act" where
  "cleanup_locked p i delete_branch allow_active =
     act_bind (port (wp_resolve p (wi_canonical i))) (\<lambda>canonical.
     act_bind (port (wp_location p (wi_repository_id i) (wi_task i))) (\<lambda>path.
     act_seq (require (path = wi_worktree i) (identity_error ''Refusing cleanup outside bound task worktree''))
     (act_seq (port (wp_metadata_path p (wi_repository_id i) (wi_task i)))
     (act_bind (port (wp_exists p path)) (\<lambda>present.
       if \<not> present then missing_worktree i
       else
         act_bind (load_worktree p canonical (wi_task i) (Some (wi_starting_commit i)) (Some (wi_plan i))) (\<lambda>persisted.
         act_seq (require (allow_active \<or> wi_state persisted \<notin> set active_worktree_states)
           (isolation_error ''Refusing cleanup while task execution or recovery is active''))
         (act_bind (port (wp_exists p path)) (\<lambda>present.
         act_seq (if present
             then act_bind (port (wp_remove p canonical path)) (\<lambda>rc.
               require (rc = 0) (isolation_error ''Worktree cleanup failed: ''))
             else act_ok ())
         (act_seq (if delete_branch
             then act_bind (port (wp_delete_branch p canonical (wi_branch i))) (\<lambda>rc.
               require (rc = 0) (isolation_error ''Task branch cleanup failed: ''))
             else act_ok ())
           (persist p (cleaned i)))))))))))"

definition cleanup_worktree ::
    "('w, 'p) worktree_ports_scheme \<Rightarrow> worktree_identity \<Rightarrow> bool \<Rightarrow> bool
     \<Rightarrow> ('w, 'z, worktree_identity) worktree_act" where
  "cleanup_worktree p i delete_branch allow_active = with_task_lock (cleanup_locked p i delete_branch allow_active)"

section \<open>Creation\<close>

text \<open>\<open>a in b.parents\<close>, for resolved paths.\<close>

definition above :: "string \<Rightarrow> string \<Rightarrow> bool" where
  "above a b \<longleftrightarrow> (if a = ''/'' then b \<noteq> a else prefix (a @ ''/'') b)"

definition task_branch :: "string \<Rightarrow> string" where
  "task_branch t = ''friday/task/'' @ t"

text \<open>The branch of the task exists: it is taken back from a worktree of the same plan that was cleaned.\<close>

definition load_prior ::
    "('w, 'p) worktree_ports_scheme \<Rightarrow> string \<Rightarrow> string \<Rightarrow> string \<Rightarrow> string
     \<Rightarrow> ('w, 'z, worktree_identity) worktree_act" where
  "load_prior p repository t start plan =
     act_catch (load_worktree p repository t (Some start) (Some plan)) (\<lambda>e.
       if is_instance e WorktreeIdentityErrorC then act_raise (identity_error ''Task branch already exists'')
       else act_raise e)"

definition reclaim_branch ::
    "('w, 'p) worktree_ports_scheme \<Rightarrow> string \<Rightarrow> string \<Rightarrow> string \<Rightarrow> string \<Rightarrow> ('w, 'z, unit) worktree_act" where
  "reclaim_branch p repository t start plan =
     (let branch = task_branch t; taken = identity_error ''Task branch already exists'' in
      act_bind (load_prior p repository t start plan) (\<lambda>prior.
      act_seq (require (wi_state prior = Wt_Cleaned \<and> wi_branch prior = branch) taken)
      (act_bind (port (wp_exists p (wi_worktree prior))) (\<lambda>present.
      act_seq (require (\<not> present \<and> wi_commit prior = Some start) taken)
      (act_bind (port (wp_commit_of p repository branch)) (\<lambda>c.
      act_seq (require (c = start) taken)
      (act_bind (port (wp_listed p repository)) (\<lambda>(rc, listing).
      act_seq (require (rc = 0 \<and> \<not> sublist (''branch refs/heads/'' @ branch) listing)
        (identity_error ''Task branch is still attached to a worktree''))
      (act_bind (port (wp_delete_branch p repository branch)) (\<lambda>rc.
        require (rc = 0) (identity_error ''Verified cleaned task branch could not be reclaimed'')))))))))))"

definition claim_branch ::
    "('w, 'p) worktree_ports_scheme \<Rightarrow> string \<Rightarrow> string \<Rightarrow> string \<Rightarrow> string \<Rightarrow> ('w, 'z, unit) worktree_act" where
  "claim_branch p repository t start plan =
     act_bind (port (wp_show_ref p repository (task_branch t))) (\<lambda>rc.
       if rc = 0 then reclaim_branch p repository t start plan
       else require (rc = 1) (identity_error ''Task branch state could not be verified''))"

definition populate ::
    "('w, 'p) worktree_ports_scheme \<Rightarrow> worktree_identity \<Rightarrow> ('w, 'z, worktree_identity) worktree_act" where
  "populate p i =
     act_bind (port (wp_add p (wi_canonical i) (wi_branch i) (wi_worktree i) (wi_starting_commit i))) (\<lambda>rc.
     act_seq (require (rc = 0) (isolation_error ''Could not create task worktree: ''))
     (act_bind (port (wp_checkout p (wi_worktree i) (wi_starting_commit i))) (\<lambda>rc.
       if rc \<noteq> 0 then
         act_bind (cleanup_worktree p i True False) (\<lambda>_.
           act_raise (isolation_error ''Could not populate task worktree: ''))
       else
         act_seq (port (wp_attach p (wi_worktree i) (wi_branch i)))
           (persist p (i\<lparr>wi_state := Wt_Ready, wi_commit := Some (wi_starting_commit i)\<rparr>)))))"

definition new_identity :: "string \<Rightarrow> string \<Rightarrow> string \<Rightarrow> string \<Rightarrow> string \<Rightarrow> string \<Rightarrow> nat \<Rightarrow> worktree_identity" where
  "new_identity t rid repository location start plan stamp =
     \<lparr>wi_schema = 1, wi_task = t, wi_repository_id = rid, wi_canonical = repository, wi_worktree = location,
      wi_branch = task_branch t, wi_starting_commit = start, wi_plan = plan, wi_created = stamp,
      wi_state = Wt_Creating, wi_commit = None, wi_cleanup = ''pending''\<rparr>"

definition create_locked ::
    "('w, 'p) worktree_ports_scheme \<Rightarrow> string \<Rightarrow> string \<Rightarrow> string \<Rightarrow> string \<Rightarrow> string \<Rightarrow> nat
     \<Rightarrow> ('w, 'z, worktree_identity) worktree_act" where
  "create_locked p repository t start plan rid stamp =
     act_seq (act_bind (act_of (safe_identifier t)) (\<lambda>_. act_ok ()))
     (act_bind (port (wp_resolve p repository)) (\<lambda>repository.
     act_seq (require (wp_root p \<noteq> repository \<and> \<not> above repository (wp_root p) \<and> \<not> above (wp_root p) repository)
       (isolation_error ''Worktree runtime root must be separate from the canonical repository''))
     (act_bind (port (wp_status p repository)) (\<lambda>dirty.
     act_seq (require (dirty = []) (isolation_error ''Canonical repository must be clean before isolation''))
     (act_bind (port (wp_head p repository)) (\<lambda>h.
     act_seq (require (h = start) (identity_error ''Canonical HEAD does not match starting commit''))
     (act_seq (port (wp_filters p repository start))
     (act_bind (port (wp_location p rid t)) (\<lambda>location.
     act_bind (port (wp_occupied p location)) (\<lambda>occupied.
     act_seq (require (\<not> occupied) (identity_error ''Task worktree path already exists''))
     (act_seq (claim_branch p repository t start plan)
     (act_bind (persist p (new_identity t rid repository location start plan stamp)) (\<lambda>creating.
       populate p creating)))))))))))))"

definition create_worktree ::
    "('w, 'p) worktree_ports_scheme \<Rightarrow> string \<Rightarrow> string \<Rightarrow> string \<Rightarrow> string \<Rightarrow> nat
     \<Rightarrow> ('w, 'z, worktree_identity) worktree_act" where
  "create_worktree p repository t start plan stamp =
     act_seq (act_bind (act_of (safe_identifier t)) (\<lambda>_. act_ok ()))
     (act_bind (port (wp_repository_id p repository)) (\<lambda>rid.
       with_task_lock (create_locked p repository t start plan rid stamp)))"

section \<open>What the calls leave alone\<close>

text \<open>Metadata and lock, as one value.\<close>

definition persisted :: "('w, 'z) worktree_world_scheme \<Rightarrow> worktree_identity option \<times> bool" where
  "persisted w = (tw_metadata w, tw_locked w)"

definition still :: "('w, 'z, 'a) worktree_act \<Rightarrow> bool" where
  "still m \<longleftrightarrow> (\<forall>w r w'. m w = (r, w') \<longrightarrow> persisted w' = persisted w)"

named_theorems still_intros \<open>actions that leave metadata and lock alone\<close>

lemma stillD: "still m \<Longrightarrow> m w = (r, w') \<Longrightarrow> persisted w' = persisted w"
  by (simp add: still_def)

lemma still_ok [still_intros]: "still (act_ok x)" "still (act_raise e)" "still (act_of r)" "still (require b e)"
  by (auto simp: still_def act_ok_def act_raise_def act_of_def require_def)

lemma still_port [still_intros]: "still (port m)"
  by (auto simp: still_def port_def persisted_def split: prod.splits)

lemma still_bind [still_intros]: "still m \<Longrightarrow> (\<And>x. still (f x)) \<Longrightarrow> still (act_bind m f)"
  unfolding still_def act_bind_def by (fastforce split: prod.splits sum.splits)

lemma still_catch [still_intros]: "still m \<Longrightarrow> (\<And>e. still (h e)) \<Longrightarrow> still (act_catch m h)"
  unfolding still_def act_catch_def by (fastforce split: prod.splits sum.splits)

lemma still_if [still_intros]: "still m \<Longrightarrow> still n \<Longrightarrow> still (if b then m else n)"
  by simp

lemma still_git [still_intros]: "still (git_matches p path i)"
  unfolding git_matches_def by (intro still_intros)

lemma still_check [still_intros]: "still (check_worktree p rid canonical path t start plan)"
  unfolding still_def check_worktree_def
  by (auto split: option.splits if_splits dest: stillD[OF still_git])

lemma still_load [still_intros]: "still (load_worktree p repository t start plan)"
  unfolding load_worktree_def by (intro still_intros)

lemma still_claim [still_intros]: "still (claim_branch p repository t start plan)"
  unfolding claim_branch_def reclaim_branch_def load_prior_def Let_def
  by (intro still_intros) (auto intro!: still_intros split: prod.splits)

lemma persist_Inr: "persist p i w = (Inr x, w') \<Longrightarrow> x = i \<and> persisted w' = (Some i, tw_locked w)"
  by (auto simp: persist_def act_lift_def run_simps persisted_def dest!: stillD[OF still_port])

lemma persist_Inl: "persist p i w = (Inl e, w') \<Longrightarrow> persisted w' = persisted w"
  by (auto simp: persist_def act_lift_def run_simps dest!: stillD[OF still_port])

text \<open>The lock is given back whatever happens, and nothing happens while another holds it.\<close>

lemma with_task_lock_cases:
  assumes "with_task_lock m w = (r, w')"
  obtains (held) "tw_locked w" "r = Inl (isolation_error ''Task isolation lock is already held'')" "w' = w"
  | (run) v where "\<not> tw_locked w" "m (w\<lparr>tw_locked := True\<rparr>) = (r, v)" "w' = v\<lparr>tw_locked := False\<rparr>"
proof (cases "tw_locked w")
  case True
  show ?thesis by (rule held) (use assms True in \<open>simp_all add: with_task_lock_def\<close>)
next
  case False
  obtain r1 v where m: "m (w\<lparr>tw_locked := True\<rparr>) = (r1, v)" by fastforce
  show ?thesis
    by (rule run[of v]) (use assms False m in \<open>simp_all add: with_task_lock_def act_finally_def act_lift_def\<close>)
qed

section \<open>Creation\<close>

text \<open>
  The cleanup of a worktree whose checkout failed asks for the lock the creation still holds:
  it is always refused, the worktree and its branch stay, and the git error is lost.
\<close>

lemma failed_checkout_is_not_cleaned:
  assumes "tw_locked w"
    and "port (wp_add p (wi_canonical i) (wi_branch i) (wi_worktree i) (wi_starting_commit i)) w = (Inr 0, w1)"
    and "port (wp_checkout p (wi_worktree i) (wi_starting_commit i)) w1 = (Inr rc, w2)" and "rc \<noteq> 0"
  shows "populate p i w = (Inl (isolation_error ''Task isolation lock is already held''), w2)"
proof -
  have "persisted w2 = persisted w"
    using stillD[OF still_port assms(2)] stillD[OF still_port assms(3)] by simp
  then have "tw_locked w2" using assms(1) by (simp add: persisted_def)
  then show ?thesis
    using assms by (simp add: populate_def act_bind_def require_def act_ok_def cleanup_worktree_def with_task_lock_def)
qed

lemma populate_outcome:
  assumes "populate p i w = (r, w')" and "tw_locked w"
  shows "r = Inr (i\<lparr>wi_state := Wt_Ready, wi_commit := Some (wi_starting_commit i)\<rparr>)
      \<and> persisted w' = (Some (i\<lparr>wi_state := Wt_Ready, wi_commit := Some (wi_starting_commit i)\<rparr>), True)
    \<or> (\<exists>e. r = Inl e \<and> persisted w' = persisted w)"
proof -
  note q = stillD[OF still_port]
  obtain a w1 where add: "port (wp_add p (wi_canonical i) (wi_branch i) (wi_worktree i) (wi_starting_commit i)) w = (a, w1)"
    by fastforce
  show ?thesis
  proof (cases "a = Inr 0")
    case False
    then show ?thesis using assms add q[OF add]
      by (cases a) (auto simp: populate_def act_bind_def require_def act_raise_def)
  next
    case True
    obtain c w2 where co: "port (wp_checkout p (wi_worktree i) (wi_starting_commit i)) w1 = (c, w2)" by fastforce
    note w2 = q[OF co, unfolded q[OF add]]
    show ?thesis
    proof (cases "c = Inr 0")
      case False
      then show ?thesis
        using assms(1) add co w2 True failed_checkout_is_not_cleaned[OF assms(2) add[unfolded True] ]
        by (cases c) (auto simp: populate_def act_bind_def require_def act_ok_def)
    next
      case ok: True
      have "act_seq (port (wp_attach p (wi_worktree i) (wi_branch i)))
          (persist p (i\<lparr>wi_state := Wt_Ready, wi_commit := Some (wi_starting_commit i)\<rparr>)) w2 = (r, w')"
        using assms(1) add co True ok by (simp add: populate_def act_bind_def require_def act_ok_def)
      then consider (no) e where "r = Inl e" "port (wp_attach p (wi_worktree i) (wi_branch i)) w2 = (Inl e, w')"
        | (yes) v where "port (wp_attach p (wi_worktree i) (wi_branch i)) w2 = (Inr (), v)"
            "persist p (i\<lparr>wi_state := Wt_Ready, wi_commit := Some (wi_starting_commit i)\<rparr>) v = (r, w')"
        by (cases r) (auto simp: bind_Inr bind_Inl)
      then show ?thesis
      proof cases
        case no
        then show ?thesis using q[OF no(2)] w2 by simp
      next
        case yes
        have v: "persisted v = persisted w" using q[OF yes(1)] w2 by simp
        then have "tw_locked v" using assms(2) by (simp add: persisted_def)
        then show ?thesis using persist_Inr[of p _ v] persist_Inl[of p _ v] yes(2) v by (cases r) fastforce+
      qed
    qed
  qed
qed

definition ready_for :: "string \<Rightarrow> string \<Rightarrow> string \<Rightarrow> worktree_identity \<Rightarrow> bool" where
  "ready_for t start plan i \<longleftrightarrow> wi_task i = t \<and> wi_starting_commit i = start \<and> wi_commit i = Some start
     \<and> wi_plan i = plan \<and> wi_branch i = task_branch t \<and> wi_state i = Wt_Ready"

text \<open>Everything a creation does before it writes the metadata leaves it as it was.\<close>

definition creation_outcome ::
    "string \<Rightarrow> string \<Rightarrow> string \<Rightarrow> worktree_identity option \<Rightarrow> exn + worktree_identity
     \<Rightarrow> worktree_identity option \<Rightarrow> bool" where
  "creation_outcome t start plan before r after \<longleftrightarrow>
     (case r of Inr i \<Rightarrow> ready_for t start plan i \<and> after = Some i
      | Inl _ \<Rightarrow> after = before \<or> map_option wi_state after = Some Wt_Creating)"

definition creates :: "string \<Rightarrow> string \<Rightarrow> string \<Rightarrow> ('w, 'z, worktree_identity) worktree_act \<Rightarrow> bool" where
  "creates t start plan m \<longleftrightarrow> (\<forall>w r w'. tw_locked w \<longrightarrow> m w = (r, w') \<longrightarrow>
     tw_locked w' \<and> creation_outcome t start plan (tw_metadata w) r (tw_metadata w'))"

lemma creates_after: 
  assumes "still m" and "\<And>x. creates t start plan (f x)"
  shows "creates t start plan (act_bind m f)"
  unfolding creates_def
proof (intro allI impI)
  fix w r w' assume w: "tw_locked w" and run: "act_bind m f w = (r, w')"
  obtain a v where m: "m w = (a, v)" by fastforce
  have v: "tw_metadata v = tw_metadata w" "tw_locked v = tw_locked w"
    using stillD[OF assms(1) m] by (simp_all add: persisted_def)
  show "tw_locked w' \<and> creation_outcome t start plan (tw_metadata w) r (tw_metadata w')"
  proof (cases a)
    case (Inl e)
    then show ?thesis using run m v w by (auto simp: act_bind_def creation_outcome_def)
  next
    case (Inr x)
    then have "f x v = (r, w')" using run m by (simp add: act_bind_def)
    then show ?thesis using assms(2) w v unfolding creates_def by (metis (no_types))
  qed
qed

lemma creates_populated:
  "creates t start plan (act_bind (persist p (new_identity t rid repository location start plan stamp)) (populate p))"
  unfolding creates_def
proof (intro allI impI)
  fix w r w' let ?i = "new_identity t rid repository location start plan stamp"
  assume w: "tw_locked w" and run: "act_bind (persist p ?i) (populate p) w = (r, w')"
  obtain a v where m: "persist p ?i w = (a, v)" by fastforce
  show "tw_locked w' \<and> creation_outcome t start plan (tw_metadata w) r (tw_metadata w')"
  proof (cases a)
    case (Inl e)
    then show ?thesis using run m persist_Inl[OF m[unfolded Inl]] w
      by (auto simp: act_bind_def creation_outcome_def persisted_def)
  next
    case (Inr x)
    note v = persist_Inr[OF m[unfolded Inr]]
    have "populate p ?i v = (r, w')" using run m Inr v by (simp add: act_bind_def)
    from populate_outcome[OF this] show ?thesis using v w
      by (auto simp: persisted_def creation_outcome_def ready_for_def new_identity_def)
  qed
qed

lemma creates_locked: "creates t start plan (create_locked p repository t start plan rid stamp)"
  unfolding create_locked_def
  by (intro creates_after creates_populated still_intros)


text \<open>A world that only remembers what was done to the files.\<close>

definition plain_ports :: "int \<Rightarrow> string list worktree_ports" where
  "plain_ports checkout = \<lparr>wp_root = ''/runtime'', wp_resolve = act_ok, wp_repository_id = (\<lambda>_. act_ok ''rid''),
     wp_location = (\<lambda>_ t. act_ok (''/runtime/rid/'' @ t)), wp_metadata_path = (\<lambda>_ _. act_ok ()), wp_disk = act_ok (),
     wp_status = (\<lambda>_. act_ok []), wp_head = (\<lambda>_. act_ok ''c0''), wp_filters = (\<lambda>_ _. act_ok ()),
     wp_occupied = (\<lambda>_. act_ok False), wp_exists = (\<lambda>_ s. (Inr (''add'' \<in> set s), s)),
     wp_show_ref = (\<lambda>_ _. act_ok 1), wp_commit_of = (\<lambda>_ _. act_ok ''c0''),
     wp_current_branch = (\<lambda>_. act_ok ''friday/task/t''), wp_listed = (\<lambda>_. act_ok (0, [])),
     wp_delete_branch = (\<lambda>_ _ s. (Inr 0, s @ [''delete''])), wp_add = (\<lambda>_ _ _ _ s. (Inr 0, s @ [''add''])),
     wp_checkout = (\<lambda>_ _ s. (Inr checkout, s @ [''checkout''])), wp_attach = (\<lambda>_ _. act_ok ()),
     wp_remove = (\<lambda>_ _ s. (Inr 0, s @ [''remove'']))\<rparr>"

definition fresh_world :: "worktree_identity option \<Rightarrow> string list \<Rightarrow> string list worktree_world" where
  "fresh_world i s = \<lparr>tw_world = s, tw_metadata = i, tw_locked = False\<rparr>"

lemmas plain_run = plain_ports_def fresh_world_def create_worktree_def create_locked_def claim_branch_def populate_def
  new_identity_def persist_def with_task_lock_def port_def require_def act_of_def safe_identifier_def safe_start_def
  above_def task_branch_def

definition sample_create :: "int \<Rightarrow> (exn + worktree_identity) \<times> string list worktree_world" where
  "sample_create checkout = create_worktree (plain_ports checkout) ''/r'' ''t'' ''c0'' ''h'' 7 (fresh_world None [])"

lemma failed_checkout_leaves_worktree:
  "fst (sample_create 1) = Inl (isolation_error ''Task isolation lock is already held'')"
  "tw_world (snd (sample_create 1)) = [''add'', ''checkout'']"
  "map_option wi_state (tw_metadata (snd (sample_create 1))) = Some Wt_Creating"
  by (simp_all add: sample_create_def plain_run cleanup_worktree_def act_simps)


section \<open>Cleanup\<close>

lemma load_worktree_Inr:
  assumes "load_worktree p repository t start plan w = (Inr i, w')"
  shows "tw_metadata w = Some i" and "agrees start (wi_starting_commit i)" and "agrees plan (wi_plan i)"
    and "wi_task i = t"
proof -
  from assms obtain rid v path v1 v2 canonical v3 where
    "port (wp_repository_id p repository) w = (Inr rid, v)" "port (wp_location p rid t) v = (Inr path, v1)"
    "port (wp_metadata_path p rid t) v1 = (Inr (), v2)" "port (wp_resolve p repository) v2 = (Inr canonical, v3)"
    and c: "check_worktree p rid canonical path t start plan v3 = (Inr i, w')"
    by (auto simp: load_worktree_def act_of_def run_simps)
  then have w: "tw_metadata v3 = tw_metadata w" using stillD[OF still_port] by (metis fst_conv persisted_def)
  have gm: "git_matches p path j v = (Inr i, v') \<Longrightarrow> j = i" for j v v'
    by (auto simp: git_matches_def run_simps)
  have "tw_metadata v3 = Some i \<and> agrees start (wi_starting_commit i) \<and> agrees plan (wi_plan i) \<and> wi_task i = t"
  proof (cases "tw_metadata v3")
    case (Some j)
    then show ?thesis using c gm[of j v3 w'] by (simp add: check_worktree_def split: if_splits)
  qed (use c in \<open>simp add: check_worktree_def\<close>)
  then show "tw_metadata w = Some i" "agrees start (wi_starting_commit i)" "agrees plan (wi_plan i)" "wi_task i = t"
    by (simp_all add: w)
qed

text \<open>Both actions raise the same, with the metadata as they were.\<close>

definition refused ::
    "worktree_identity \<Rightarrow> ('w, 'z, 'a) worktree_act \<Rightarrow> ('w, 'z, 'a) worktree_act \<Rightarrow> bool" where
  "refused j m n \<longleftrightarrow> (\<forall>w. tw_metadata w = Some j \<longrightarrow>
     (\<exists>e w'. m w = (Inl e, w') \<and> persisted w' = persisted w) \<and> n w = m w)"

lemma refused_after:
  assumes "still m" and "\<And>x. refused j (f x) (g x)"
  shows "refused j (act_bind m f) (act_bind m g)"
  unfolding refused_def
proof (intro allI impI)
  fix w :: "('a, 'b) worktree_world_scheme" assume w: "tw_metadata w = Some j"
  obtain a v where m: "m w = (a, v)" by fastforce
  have v: "persisted v = persisted w" by (rule stillD[OF assms(1) m])
  show "(\<exists>e w'. act_bind m f w = (Inl e, w') \<and> persisted w' = persisted w) \<and> act_bind m g w = act_bind m f w"
  proof (cases a)
    case (Inr x)
    have "tw_metadata v = Some j" using v w by (simp add: persisted_def)
    then obtain e u where "f x v = (Inl e, u)" "persisted u = persisted v" "g x v = f x v"
      using assms(2)[of x] unfolding refused_def by blast
    then show ?thesis using Inr m v by (simp add: act_bind_def)
  qed (use m v in \<open>simp add: act_bind_def\<close>)
qed

lemma refused_active:
  assumes "wi_state j \<in> set active_worktree_states"
  shows "refused j (act_bind (load_worktree p repository t start plan) (\<lambda>i.
      act_seq (require (False \<or> wi_state i \<notin> set active_worktree_states) e) (f i)))
    (act_bind (load_worktree p repository t start plan) (\<lambda>i.
      act_seq (require (False \<or> wi_state i \<notin> set active_worktree_states) e) (g i)))"
  unfolding refused_def
proof (intro allI impI)
  fix w :: "('a, 'b) worktree_world_scheme" assume w: "tw_metadata w = Some j"
  obtain a v where m: "load_worktree p repository t start plan w = (a, v)" by fastforce
  have v: "persisted v = persisted w" by (rule stillD[OF still_load m])
  show "(\<exists>e' w'. act_bind (load_worktree p repository t start plan) (\<lambda>i.
        act_seq (require (False \<or> wi_state i \<notin> set active_worktree_states) e) (f i)) w = (Inl e', w')
      \<and> persisted w' = persisted w)
    \<and> act_bind (load_worktree p repository t start plan) (\<lambda>i.
        act_seq (require (False \<or> wi_state i \<notin> set active_worktree_states) e) (g i)) w
      = act_bind (load_worktree p repository t start plan) (\<lambda>i.
        act_seq (require (False \<or> wi_state i \<notin> set active_worktree_states) e) (f i)) w"
  proof (cases a)
    case (Inr i)
    have "i = j" using load_worktree_Inr(1)[OF m[unfolded Inr]] w by simp
    then show ?thesis using assms m v Inr by (simp add: act_bind_def require_def act_raise_def)
  qed (use m v in \<open>simp add: act_bind_def\<close>)
qed

lemma refused_missing: "wi_state j \<noteq> Wt_Cleaned \<Longrightarrow> refused j (missing_worktree i) (missing_worktree i)"
  by (simp add: refused_def missing_worktree_def)

lemma git_matches_ports: "git_matches (p\<lparr>wp_remove := f, wp_delete_branch := g\<rparr>) = git_matches p"
  by (intro ext) (simp add: git_matches_def)

lemma check_ports: "check_worktree (p\<lparr>wp_remove := f, wp_delete_branch := g\<rparr>) = check_worktree p"
  by (intro ext) (unfold check_worktree_def git_matches_ports, rule refl)

lemma load_ports: "load_worktree (p\<lparr>wp_remove := f, wp_delete_branch := g\<rparr>) = load_worktree p"
  by (intro ext) (simp add: load_worktree_def check_ports)

lemma refused_cleanup:
  assumes "wi_state j \<in> set active_worktree_states"
  shows "refused j (cleanup_locked p i delete_branch False)
    (cleanup_locked (p\<lparr>wp_remove := f, wp_delete_branch := g\<rparr>) i delete_branch False)"
proof -
  let ?p = "p\<lparr>wp_remove := f, wp_delete_branch := g\<rparr>"
  have ports: "wp_resolve ?p = wp_resolve p" "wp_location ?p = wp_location p" "wp_exists ?p = wp_exists p"
    "wp_metadata_path ?p = wp_metadata_path p" by simp_all
  have "wi_state j \<noteq> Wt_Cleaned" using assms by (auto simp: active_worktree_states_def)
  then have branch: "refused j (if \<not> present then missing_worktree i else x) (if \<not> present then missing_worktree i else y)"
    if "refused j x y" for present x y
    using refused_missing that by auto
  show ?thesis
    unfolding cleanup_locked_def load_ports ports
    by (intro refused_after branch refused_active[OF assms] still_intros)
qed

text \<open>While the metadata say that the task is executing, validating, being rolled back or waiting for manual recovery, a cleanup that does not insist is refused: it raises, the metadata stay, and what happens does not depend on the commands that remove a worktree or delete a branch, because neither is run.\<close>
theorem cleanup_spares_active_worktree:
  assumes "tw_metadata w = Some j"
    and "wi_state j \<in> {Wt_Executing, Wt_Validating, Wt_Rollback_In_Progress, Wt_Recovery_Required}"
    and "cleanup_worktree p i delete_branch False w = (r, w')"
  shows "(\<exists>e. r = Inl e) \<and> tw_metadata w' = tw_metadata w
    \<and> cleanup_worktree (p\<lparr>wp_remove := f, wp_delete_branch := g\<rparr>) i delete_branch False w = (r, w')"
proof (cases "tw_locked w")
  case True
  then show ?thesis using assms(3) by (auto simp: cleanup_worktree_def with_task_lock_def)
next
  case False
  let ?w = "w\<lparr>tw_locked := True\<rparr>"
  have "tw_metadata ?w = Some j" using assms(1) by simp
  moreover have "wi_state j \<in> set active_worktree_states"
    using assms(2) by (auto simp: active_worktree_states_def)
  note refused_cleanup[OF this]
  ultimately have "(\<exists>e v. cleanup_locked p i delete_branch False ?w = (Inl e, v) \<and> persisted v = persisted ?w)
      \<and> cleanup_locked (p\<lparr>wp_remove := f, wp_delete_branch := g\<rparr>) i delete_branch False ?w
        = cleanup_locked p i delete_branch False ?w"
    unfolding refused_def by blast
  then obtain e v where run: "cleanup_locked p i delete_branch False ?w = (Inl e, v)" "persisted v = persisted ?w"
    "cleanup_locked (p\<lparr>wp_remove := f, wp_delete_branch := g\<rparr>) i delete_branch False ?w = (Inl e, v)"
    by auto
  then show ?thesis using assms(3) False
    by (auto simp: cleanup_worktree_def with_task_lock_def act_finally_def act_lift_def persisted_def)
qed

definition executing_worktree :: worktree_identity where
  "executing_worktree = (new_identity ''t'' ''rid'' ''/r'' ''/runtime/rid/t'' ''c0'' ''h'' 7)\<lparr>wi_state := Wt_Executing\<rparr>"

theorem cleanup_spares_active_worktree_witness:
  "let run = cleanup_worktree (plain_ports 0) executing_worktree True False (fresh_world (Some executing_worktree) [''add''])
   in isl (fst run) \<and> tw_metadata (snd run) = Some executing_worktree"
proof -
  let ?w = "fresh_world (Some executing_worktree) [''add'']"
  obtain r w' where run: "cleanup_worktree (plain_ports 0) executing_worktree True False ?w = (r, w')" by fastforce
  have "tw_metadata ?w = Some executing_worktree" by (simp add: fresh_world_def)
  moreover have "wi_state executing_worktree \<in> {Wt_Executing, Wt_Validating, Wt_Rollback_In_Progress, Wt_Recovery_Required}"
    by (simp add: executing_worktree_def)
  ultimately have "(\<exists>e. r = Inl e) \<and> tw_metadata w' = tw_metadata ?w"
    using cleanup_spares_active_worktree[OF _ _ run] by blast
  then show ?thesis using run by (auto simp: fresh_world_def)
qed

end
