(* ===== verification/Rollback.thy ===== *)
theory Rollback
  imports Task_Store Worktrees
begin

text \<open>
  The transactional restore of a task checkpoint, \<open>isolation/transactional_rollback.py\<close>, with the
  worktree metadata of \<open>isolation/worktrees.py\<close>, the lock of \<open>isolation/locks.py\<close> and the
  identifiers of \<open>isolation/paths.py\<close>. Git, the file system and the checkpoint archives are
  functions on a world of their own and may raise at any call; the history is the store.
\<close>

section \<open>Checkpoints and calls\<close>

record checkpoint =
  cp_id :: string
  cp_schema :: nat
  cp_head :: string

text \<open>What the restore calls outside the modelled code, beside git and the metadata.\<close>

record 'w rollback_ports = "'w worktree_ports" +
  rp_fingerprint :: "string \<Rightarrow> ('w, string) act"
  rp_load :: "string \<Rightarrow> string \<Rightarrow> string \<Rightarrow> ('w, checkpoint) act"
  rp_create :: "string \<Rightarrow> string \<Rightarrow> ('w, checkpoint) act"
  rp_verify :: "string \<Rightarrow> checkpoint \<Rightarrow> ('w, bool) act"
  rp_restore :: "string \<Rightarrow> checkpoint \<Rightarrow> ('w, unit) act"
  rp_history :: "('w, unit) act"
  rp_protected :: "string list"
  rp_resolved :: "string \<Rightarrow> string"

text \<open>The calls that change or judge the files of the worktree, in the order they are made.\<close>

datatype tree_call = Restore_Tree string | Verify_Tree string bool

record 'w rollback_world = "'w worktree_world" +
  rw_db :: history_db
  rw_trace :: "tree_call list"

type_synonym ('w, 'a) rollback_act = "('w rollback_world, 'a) act"

definition record_call :: "tree_call \<Rightarrow> ('w, unit) rollback_act" where
  "record_call c = act_lift (\<lambda>w. w\<lparr>rw_trace := rw_trace w @ [c]\<rparr>)"

definition verify_tree :: "'w rollback_ports \<Rightarrow> string \<Rightarrow> checkpoint \<Rightarrow> ('w, bool) rollback_act" where
  "verify_tree p tree cp =
     act_bind (port (rp_verify p tree cp)) (\<lambda>b. act_seq (record_call (Verify_Tree (cp_id cp) b)) (act_ok b))"

definition restore_tree :: "'w rollback_ports \<Rightarrow> string \<Rightarrow> checkpoint \<Rightarrow> ('w, unit) rollback_act" where
  "restore_tree p tree cp = act_seq (record_call (Restore_Tree (cp_id cp))) (port (rp_restore p tree cp))"

abbreviation checkpoint_error :: "string \<Rightarrow> exn" where
  "checkpoint_error \<equiv> Exn CheckpointErrorC"

section \<open>The restore\<close>

datatype rollback_status = Restored | Failed_Recovered | Needs_Recovery

record rollback_result =
  rr_status :: rollback_status
  rr_target :: string
  rr_safety :: string
  rr_error :: "exn option"

text \<open>\<open>_event\<close>: the history may fail to be written, and refuses an unknown task.\<close>

definition isolation_event :: "'w rollback_ports \<Rightarrow> string \<Rightarrow> nat \<Rightarrow> string \<Rightarrow> ('w, unit) rollback_act" where
  "isolation_event p t stamp kind =
     act_seq (port (rp_history p))
       (\<lambda>w. case add_event t stamp ''isolation'' kind (Some kind) no_metadata (rw_db w) of
          (r, db) \<Rightarrow> (r, w\<lparr>rw_db := db\<rparr>))"

definition allowed_worktree_states :: "worktree_state list" where
  "allowed_worktree_states = [Wt_Ready, Wt_Failed, Wt_Recovery_Required]"

definition active_task_states :: "task_status list" where
  "active_task_states = [Planning, Executing, Validating, Reviewing]"

text \<open>The history agrees with the worktree about an inactive, unfinished task.\<close>

definition inactive_task :: "'w rollback_ports \<Rightarrow> string \<Rightarrow> string \<Rightarrow> string \<Rightarrow> string \<Rightarrow> history_db \<Rightarrow> bool" where
  "inactive_task p t repository plan start db \<longleftrightarrow>
     (case db_tasks db t of None \<Rightarrow> False
      | Some r \<Rightarrow> rp_resolved p (tr_repository r) = repository \<and> tr_plan_hash r = Some plan \<and> tr_starting_commit r = start
          \<and> tr_status r \<notin> set active_task_states \<and> tr_status r \<notin> set terminal_statuses)"

definition restore_and_verify :: "'w rollback_ports \<Rightarrow> string \<Rightarrow> checkpoint \<Rightarrow> string \<Rightarrow> ('w, unit) rollback_act" where
  "restore_and_verify p tree cp msg =
     act_seq (restore_tree p tree cp)
       (act_bind (verify_tree p tree cp) (\<lambda>b. require b (checkpoint_error msg)))"

text \<open>The first restore failed: put the safety checkpoint back, or ask for manual recovery.\<close>

definition compensate ::
    "'w rollback_ports \<Rightarrow> string \<Rightarrow> string \<Rightarrow> nat \<Rightarrow> worktree_identity \<Rightarrow> worktree_state \<Rightarrow> checkpoint \<Rightarrow> checkpoint
     \<Rightarrow> exn \<Rightarrow> ('w, rollback_result) rollback_act" where
  "compensate p tree t stamp i original target safety e =
     act_seq (isolation_event p t stamp ''rollback_target_failed'')
       (act_bind
         (act_catch (act_seq (restore_and_verify p tree safety ''Safety checkpoint state verification failed'')
                       (act_ok None))
           (\<lambda>e'. act_ok (Some e')))
         (\<lambda>failed. case failed of
            Some e' \<Rightarrow>
              act_seq (act_bind (mark_worktree_recovery p i) (\<lambda>_. act_ok ()))
                (act_seq (isolation_event p t stamp ''rollback_recovery_required'')
                  (act_ok \<lparr>rr_status = Needs_Recovery, rr_target = cp_id target, rr_safety = cp_id safety,
                     rr_error = Some e'\<rparr>))
          | None \<Rightarrow>
              act_seq (isolation_event p t stamp ''rollback_failed_recovered'')
                (act_seq (act_bind (persist_state_under_lock p i original) (\<lambda>_. act_ok ()))
                  (act_ok \<lparr>rr_status = Failed_Recovered, rr_target = cp_id target, rr_safety = cp_id safety,
                     rr_error = Some e\<rparr>))))"

text \<open>From the marker on: restore the target, or compensate.\<close>

definition restore_marked ::
    "'w rollback_ports \<Rightarrow> string \<Rightarrow> string \<Rightarrow> nat \<Rightarrow> worktree_identity \<Rightarrow> worktree_state \<Rightarrow> checkpoint \<Rightarrow> checkpoint
     \<Rightarrow> ('w, rollback_result) rollback_act" where
  "restore_marked p tree t stamp i original target safety =
     act_bind
       (act_catch (act_seq (restore_and_verify p tree target ''Target checkpoint state verification failed'')
                     (act_ok None))
         (\<lambda>e. act_ok (Some e)))
       (\<lambda>failed. case failed of
          Some e \<Rightarrow> compensate p tree t stamp i original target safety e
        | None \<Rightarrow>
            act_seq (isolation_event p t stamp ''rollback_restore_succeeded'')
              (act_seq (act_bind (persist_state_under_lock p i original) (\<lambda>_. act_ok ()))
                (act_ok \<lparr>rr_status = Restored, rr_target = cp_id target, rr_safety = cp_id safety,
                   rr_error = None\<rparr>)))"

text \<open>Under the lock, up to the verified safety checkpoint.\<close>

definition prepare_restore ::
    "'w rollback_ports \<Rightarrow> string \<Rightarrow> string \<Rightarrow> string \<Rightarrow> string \<Rightarrow> string option \<Rightarrow> string
     \<Rightarrow> ('w, worktree_identity \<times> string \<times> checkpoint \<times> checkpoint) rollback_act" where
  "prepare_restore p repository t plan label expected safety_label =
     act_bind (load_worktree p repository t None (Some plan)) (\<lambda>i.
     act_seq (require (wi_state i \<in> set allowed_worktree_states)
       (isolation_error ''Task worktree lifecycle does not permit checkpoint restore''))
     (act_bind (port (wp_resolve p (wi_worktree i))) (\<lambda>tree.
     act_seq (require (tree \<noteq> repository)
       (isolation_error ''Task worktree resolves to the canonical repository''))
     (act_seq (case expected of None \<Rightarrow> act_ok ()
        | Some v \<Rightarrow> act_bind (port (rp_fingerprint p tree)) (\<lambda>now.
            require (now = v) (checkpoint_error ''Reviewed worktree state is stale'')))
     (act_bind (port (rp_load p t label plan)) (\<lambda>target.
     act_seq (require (2 \<le> cp_schema target)
       (checkpoint_error ''Checkpoint predates transactional restore verification; create a fresh checkpoint''))
     (act_bind (port (wp_head p tree)) (\<lambda>h.
     act_seq (require (cp_head target = h) (checkpoint_error ''Target checkpoint HEAD is stale''))
     (act_bind (port (rp_create p tree safety_label)) (\<lambda>safety.
     act_bind (verify_tree p tree safety) (\<lambda>b.
     act_seq (require b (checkpoint_error ''Pre-restore safety checkpoint does not match the current worktree''))
       (act_ok (i, tree, target, safety)))))))))))))"

text \<open>The whole part under the lock: the marker is written before the first file is touched.\<close>

definition restore_locked ::
    "'w rollback_ports \<Rightarrow> string \<Rightarrow> string \<Rightarrow> string \<Rightarrow> string \<Rightarrow> string option \<Rightarrow> string \<Rightarrow> nat
     \<Rightarrow> ('w, rollback_result) rollback_act" where
  "restore_locked p repository t plan label expected safety_label stamp =
     act_bind (prepare_restore p repository t plan label expected safety_label) (\<lambda>(i, tree, target, safety).
     act_seq (isolation_event p t stamp ''rollback_started'')
     (act_bind (persist_state_under_lock p i Wt_Rollback_In_Progress) (\<lambda>i'.
       restore_marked p tree t stamp i' (wi_state i) target safety)))"

definition restore_checkpoint ::
    "'w rollback_ports \<Rightarrow> string \<Rightarrow> string \<Rightarrow> string \<Rightarrow> string \<Rightarrow> string option \<Rightarrow> string \<Rightarrow> nat
     \<Rightarrow> ('w, rollback_result) rollback_act" where
  "restore_checkpoint p repository t plan label expected safety_label stamp =
     act_bind (load_worktree p repository t None (Some plan)) (\<lambda>i.
     act_bind (port (wp_resolve p repository)) (\<lambda>canonical.
     act_bind (port (wp_resolve p (wi_worktree i))) (\<lambda>tree.
     act_seq (require (tree \<noteq> canonical)
       (isolation_error ''Refusing rollback of a canonical or active integration repository''))
     (act_seq (require (canonical \<notin> set (rp_protected p))
       (isolation_error ''Refusing rollback against a protected Friday checkout''))
     (act_seq (\<lambda>w. require (inactive_task p t canonical plan (wi_starting_commit i) (rw_db w))
         (isolation_error ''Canonical task history does not match an inactive isolated task'') w)
       (with_task_lock (restore_locked p canonical t plan label expected safety_label stamp)))))))"

section \<open>Calls that leave the worktree and its metadata alone\<close>

definition quiet :: "('w, 'a) rollback_act \<Rightarrow> bool" where
  "quiet m \<longleftrightarrow> (\<forall>w r w'. m w = (r, w') \<longrightarrow> rw_trace w' = rw_trace w \<and> tw_metadata w' = tw_metadata w)"

lemma quietD: "quiet m \<Longrightarrow> m w = (r, w') \<Longrightarrow> rw_trace w' = rw_trace w \<and> tw_metadata w' = tw_metadata w"
  by (simp add: quiet_def)

lemma quiet_bind: "quiet m \<Longrightarrow> (\<And>x. quiet (f x)) \<Longrightarrow> quiet (act_bind m f)"
  by (fastforce simp: quiet_def act_bind_def split: prod.splits sum.splits)

lemma quiet_ok: "quiet (act_ok x)" and quiet_raise: "quiet (act_raise e)"
  by (auto simp: quiet_def act_ok_def act_raise_def)

lemma quiet_port: "quiet (port m)"
  by (auto simp: quiet_def port_def split: prod.splits)

lemma quiet_require: "quiet (require b e)"
  by (simp add: require_def quiet_ok quiet_raise)

lemma quiet_act_of: "quiet (act_of r)"
  by (simp add: quiet_def act_of_def)

lemma quiet_event: "quiet (isolation_event p t stamp kind)"
  unfolding isolation_event_def
  by (rule quiet_bind[OF quiet_port]) (auto simp: quiet_def split: prod.splits)

lemma quiet_git: "quiet (git_matches p path i)"
  unfolding git_matches_def by (intro quiet_bind quiet_port quiet_require quiet_ok)

lemma quiet_check: "quiet (check_worktree p rid canonical path t start plan)"
  unfolding check_worktree_def quiet_def
  by (auto split: sum.splits option.splits if_splits dest: quietD[OF quiet_git])

lemma quiet_load: "quiet (load_worktree p repository t start plan)"
  unfolding load_worktree_def by (intro quiet_bind quiet_port quiet_check quiet_act_of quiet_ok)

section \<open>Restoring and verifying\<close>

lemma restore_and_verify_Inr:
  assumes "restore_and_verify p tree cp msg w = (Inr x, w')"
  shows "rw_trace w' = rw_trace w @ [Restore_Tree (cp_id cp), Verify_Tree (cp_id cp) True]"
    and "tw_metadata w' = tw_metadata w"
proof -
  note q = quietD[OF quiet_port]
  show "rw_trace w' = rw_trace w @ [Restore_Tree (cp_id cp), Verify_Tree (cp_id cp) True]"
    "tw_metadata w' = tw_metadata w"
    using assms
    by (auto simp: restore_and_verify_def restore_tree_def verify_tree_def record_call_def require_def
        act_lift_def act_raise_def run_simps split: if_splits dest!: q)
qed

lemma restore_and_verify_Inl:
  assumes "restore_and_verify p tree cp msg w = (Inl e, w')"
  shows "\<exists>mid. rw_trace w' = rw_trace w @ Restore_Tree (cp_id cp) # mid \<and> Verify_Tree (cp_id cp) True \<notin> set mid
    \<and> (\<forall>k. Restore_Tree k \<notin> set mid)"
    and "tw_metadata w' = tw_metadata w"
proof -
  note q = quietD[OF quiet_port]
  show "\<exists>mid. rw_trace w' = rw_trace w @ Restore_Tree (cp_id cp) # mid \<and> Verify_Tree (cp_id cp) True \<notin> set mid
      \<and> (\<forall>k. Restore_Tree k \<notin> set mid)"
    "tw_metadata w' = tw_metadata w"
    using assms
    by (auto simp: restore_and_verify_def restore_tree_def verify_tree_def record_call_def require_def
        act_lift_def act_raise_def run_simps split: if_splits dest!: q)
qed

lemma persist_cases:
  fixes w :: "'w rollback_world"
  assumes "persist p i w = (r, w')"
  shows "rw_trace w' = rw_trace w" and "r = Inr x \<Longrightarrow> x = i \<and> tw_metadata w' = Some i"
    and "r = Inl e \<Longrightarrow> tw_metadata w' = tw_metadata w"
proof -
  note q = quietD[OF quiet_port]
  show "rw_trace w' = rw_trace w"
    using assms by (cases r) (auto simp: persist_def act_lift_def run_simps dest!: q)
  show "r = Inr x \<Longrightarrow> x = i \<and> tw_metadata w' = Some i"
    using assms by (auto simp: persist_def act_lift_def run_simps)
  show "r = Inl e \<Longrightarrow> tw_metadata w' = tw_metadata w"
    using assms by (auto simp: persist_def act_lift_def run_simps dest!: q)
qed

lemma persist_state_cases:
  fixes w :: "'w rollback_world"
  assumes "persist_state_under_lock p i st w = (r, w')"
  shows "rw_trace w' = rw_trace w"
    and "r = Inr x \<Longrightarrow> wi_state x = st \<and> tw_metadata w' = Some x"
    and "r = Inl e \<Longrightarrow> tw_metadata w' = tw_metadata w"
proof -
  note q = quietD[OF quiet_port]
  show "rw_trace w' = rw_trace w"
    using assms by (cases r) (auto simp: persist_state_under_lock_def run_simps dest!: q persist_cases(1))
  show "r = Inr x \<Longrightarrow> wi_state x = st \<and> tw_metadata w' = Some x"
    using assms by (auto simp: persist_state_under_lock_def run_simps dest!: persist_cases(2))
  show "r = Inl e \<Longrightarrow> tw_metadata w' = tw_metadata w"
    using assms by (auto simp: persist_state_under_lock_def run_simps dest!: q persist_cases(3))
qed

lemma attempt_cases:
  assumes "act_catch (act_seq X (act_ok None)) (\<lambda>e. act_ok (Some e)) w = (r, v)"
  shows "r = Inr None \<and> X w = (Inr (), v) \<or> (\<exists>e. r = Inr (Some e) \<and> X w = (Inl e, v))"
  using assms by (auto simp: act_catch_def act_bind_def act_ok_def split: prod.splits sum.splits)

definition marked :: "'w rollback_world \<Rightarrow> worktree_state option" where
  "marked w = map_option wi_state (tw_metadata w)"

lemma event_quiet:
  "isolation_event p t stamp kind v = (r, v') \<Longrightarrow> rw_trace v' = rw_trace v \<and> tw_metadata v' = tw_metadata v"
  using quietD[OF quiet_event] by blast

lemma compensate_Inr:
  assumes "compensate p tree t stamp i original target safety e w = (Inr res, w')"
  shows "rr_status res = Failed_Recovered \<and> marked w' = Some original
      \<and> rw_trace w' = rw_trace w @ [Restore_Tree (cp_id safety), Verify_Tree (cp_id safety) True]
    \<or> rr_status res = Needs_Recovery \<and> marked w' = Some Wt_Recovery_Required
      \<and> (\<exists>mid. rw_trace w' = rw_trace w @ Restore_Tree (cp_id safety) # mid)"
proof -
  obtain v1 where ev: "isolation_event p t stamp ''rollback_target_failed'' w = (Inr (), v1)"
    and rest: "act_bind (act_catch (act_seq (restore_and_verify p tree safety ''Safety checkpoint state verification failed'')
          (act_ok None)) (\<lambda>e'. act_ok (Some e')))
       (\<lambda>failed. case failed of
            Some e' \<Rightarrow>
              act_seq (act_bind (mark_worktree_recovery p i) (\<lambda>_. act_ok ()))
                (act_seq (isolation_event p t stamp ''rollback_recovery_required'')
                  (act_ok \<lparr>rr_status = Needs_Recovery, rr_target = cp_id target, rr_safety = cp_id safety,
                     rr_error = Some e'\<rparr>))
          | None \<Rightarrow>
              act_seq (isolation_event p t stamp ''rollback_failed_recovered'')
                (act_seq (act_bind (persist_state_under_lock p i original) (\<lambda>_. act_ok ()))
                  (act_ok \<lparr>rr_status = Failed_Recovered, rr_target = cp_id target, rr_safety = cp_id safety,
                     rr_error = Some e\<rparr>))) v1 = (Inr res, w')"
    using assms unfolding compensate_def bind_Inr by auto
  obtain failed v2 where att: "act_catch (act_seq (restore_and_verify p tree safety ''Safety checkpoint state verification failed'')
          (act_ok None)) (\<lambda>e'. act_ok (Some e')) v1 = (Inr failed, v2)"
    using rest by (auto simp: bind_Inr)
  show ?thesis
  proof (cases failed)
    case None
    then have rv: "restore_and_verify p tree safety ''Safety checkpoint state verification failed'' v1 = (Inr (), v2)"
      using attempt_cases[OF att] by auto
    obtain v3 i' where "isolation_event p t stamp ''rollback_failed_recovered'' v2 = (Inr (), v3)"
      "persist_state_under_lock p i original v3 = (Inr i', w')" "rr_status res = Failed_Recovered"
      using rest att None by (auto simp: run_simps)
    then show ?thesis
      using event_quiet[OF ev] restore_and_verify_Inr[OF rv] event_quiet[of p t stamp _ v2]
        persist_state_cases[of p i original v3] by (auto simp: marked_def)
  next
    case (Some e')
    then have rv: "restore_and_verify p tree safety ''Safety checkpoint state verification failed'' v1 = (Inl e', v2)"
      using attempt_cases[OF att] by auto
    obtain v3 i' where "mark_worktree_recovery p i v2 = (Inr i', v3)"
      "isolation_event p t stamp ''rollback_recovery_required'' v3 = (Inr (), w')" "rr_status res = Needs_Recovery"
      using rest att Some by (auto simp: run_simps)
    then show ?thesis
      using event_quiet[OF ev] restore_and_verify_Inl(1)[OF rv] event_quiet[of p t stamp _ v3]
        persist_cases[of p "i\<lparr>wi_state := Wt_Recovery_Required\<rparr>" v2]
      by (auto simp: marked_def mark_worktree_recovery_def)
  qed
qed

section \<open>A raise leaves the marker\<close>

text \<open>The worktree is marked as being restored, or as needing manual recovery.\<close>

definition marking :: "'w rollback_world \<Rightarrow> bool" where
  "marking w \<longleftrightarrow> marked w \<in> {Some Wt_Rollback_In_Progress, Some Wt_Recovery_Required}"

definition safe_raise :: "('w, 'a) rollback_act \<Rightarrow> bool" where
  "safe_raise m \<longleftrightarrow> (\<forall>w e w'. marking w \<longrightarrow> m w = (Inl e, w') \<longrightarrow> marking w')"

lemma safe_raise_after: "keeps marking m \<Longrightarrow> (\<And>x. safe_raise (f x)) \<Longrightarrow> safe_raise (act_bind m f)"
  unfolding safe_raise_def bind_Inl by (metis keepsD snd_conv)

lemma safe_raise_last: "safe_raise m \<Longrightarrow> (\<And>x. f x = act_ok (g x)) \<Longrightarrow> safe_raise (act_bind m f)"
  by (auto simp: safe_raise_def bind_Inl ok_eq)

lemma keeps_safe_raise: "keeps marking m \<Longrightarrow> safe_raise m"
  unfolding safe_raise_def by (metis keepsD snd_conv)

lemma marking_quiet: "quiet m \<Longrightarrow> keeps marking m"
  by (rule keepsI) (metis marked_def marking_def prod.collapse quietD)

lemma marking_restore: "keeps marking (restore_and_verify p tree cp msg)"
proof (rule keepsI)
  fix w :: "'a rollback_world" assume w: "marking w"
  obtain r w' where m: "restore_and_verify p tree cp msg w = (r, w')" by (cases "restore_and_verify p tree cp msg w")
  then have "tw_metadata w' = tw_metadata w"
    using restore_and_verify_Inr(2) restore_and_verify_Inl(2) by (cases r) blast+
  with m w show "marking (snd (restore_and_verify p tree cp msg w))" by (simp add: marking_def marked_def)
qed

lemma marking_recovery: "keeps marking (mark_worktree_recovery p i)"
proof (rule keepsI)
  fix w :: "'a rollback_world" assume w: "marking w"
  obtain r w' where m: "mark_worktree_recovery p i w = (r, w')" by (cases "mark_worktree_recovery p i w")
  note c = persist_cases[OF m[unfolded mark_worktree_recovery_def]]
  show "marking (snd (mark_worktree_recovery p i w))"
    using c(2,3) w by (cases r) (auto simp: m marking_def marked_def)
qed

lemma safe_raise_persist: "safe_raise (persist_state_under_lock p i st)"
  unfolding safe_raise_def marking_def marked_def using persist_state_cases(3) by fastforce

lemmas marking_intros = marking_quiet[OF quiet_event] marking_restore marking_recovery

lemma safe_raise_final:
  "safe_raise (act_seq (isolation_event p t stamp kind)
     (act_seq (act_bind (persist_state_under_lock p i st) (\<lambda>_. act_ok ())) (act_ok x)))"
proof (rule safe_raise_after[OF marking_intros(1)])
  fix y :: unit
  have "safe_raise (act_bind (persist_state_under_lock p i st) (\<lambda>_. act_ok ()))"
    by (rule safe_raise_last[OF safe_raise_persist]) simp
  then show "safe_raise (act_seq (act_bind (persist_state_under_lock p i st) (\<lambda>_. act_ok ())) (act_ok x))"
    by (rule safe_raise_last) simp
qed

lemma marking_attempt: "keeps marking (act_catch (act_seq (restore_and_verify p tree cp msg) (act_ok None)) (\<lambda>e. act_ok (Some e)))"
  by (intro keeps_intros marking_intros)

lemma safe_raise_compensate: "safe_raise (compensate p tree t stamp i original target safety e)"
  unfolding compensate_def
proof (rule safe_raise_after[OF marking_intros(1)], rule safe_raise_after[OF marking_attempt])
  fix u :: unit and failed :: "exn option"
  show "safe_raise (case failed of
            Some e' \<Rightarrow>
              act_seq (act_bind (mark_worktree_recovery p i) (\<lambda>_. act_ok ()))
                (act_seq (isolation_event p t stamp ''rollback_recovery_required'')
                  (act_ok \<lparr>rr_status = Needs_Recovery, rr_target = cp_id target, rr_safety = cp_id safety,
                     rr_error = Some e'\<rparr>))
          | None \<Rightarrow>
              act_seq (isolation_event p t stamp ''rollback_failed_recovered'')
                (act_seq (act_bind (persist_state_under_lock p i original) (\<lambda>_. act_ok ()))
                  (act_ok \<lparr>rr_status = Failed_Recovered, rr_target = cp_id target, rr_safety = cp_id safety,
                     rr_error = Some e\<rparr>)))"
    by (cases failed) (auto intro!: safe_raise_final keeps_safe_raise keeps_intros marking_intros)
qed

lemma safe_raise_marked: "safe_raise (restore_marked p tree t stamp i original target safety)"
  unfolding restore_marked_def
  by (rule safe_raise_after[OF marking_attempt])
     (auto intro: safe_raise_final safe_raise_compensate split: option.splits)

section \<open>What a returned result says\<close>

lemma restore_marked_Inr:
  assumes "restore_marked p tree t stamp i original target safety w = (Inr res, w')"
  shows "rr_status res = Restored \<and> marked w' = Some original
      \<and> rw_trace w' = rw_trace w @ [Restore_Tree (cp_id target), Verify_Tree (cp_id target) True]
    \<or> rr_status res = Failed_Recovered \<and> marked w' = Some original
      \<and> (\<exists>mid. rw_trace w' = rw_trace w @ mid @ [Restore_Tree (cp_id safety), Verify_Tree (cp_id safety) True])
    \<or> rr_status res = Needs_Recovery \<and> marked w' = Some Wt_Recovery_Required"
proof -
  obtain failed v where att: "act_catch (act_seq (restore_and_verify p tree target ''Target checkpoint state verification failed'')
          (act_ok None)) (\<lambda>e. act_ok (Some e)) w = (Inr failed, v)"
    using assms by (auto simp: restore_marked_def bind_Inr)
  show ?thesis
  proof (cases failed)
    case None
    then have rv: "restore_and_verify p tree target ''Target checkpoint state verification failed'' w = (Inr (), v)"
      using attempt_cases[OF att] by auto
    obtain v3 i' where "isolation_event p t stamp ''rollback_restore_succeeded'' v = (Inr (), v3)"
      "persist_state_under_lock p i original v3 = (Inr i', w')" "rr_status res = Restored"
      using assms att None by (auto simp: restore_marked_def run_simps)
    then show ?thesis
      using restore_and_verify_Inr[OF rv] event_quiet[of p t stamp _ v] persist_state_cases[of p i original v3]
      by (auto simp: marked_def)
  next
    case (Some e)
    then have rv: "restore_and_verify p tree target ''Target checkpoint state verification failed'' w = (Inl e, v)"
      using attempt_cases[OF att] by auto
    have "compensate p tree t stamp i original target safety e v = (Inr res, w')"
      using assms att Some by (auto simp: restore_marked_def run_simps)
    from compensate_Inr[OF this] show ?thesis using restore_and_verify_Inl(1)[OF rv] by fastforce
  qed
qed

section \<open>The whole restore\<close>

text \<open>Nothing but verifications, and the worktree keeps its metadata.\<close>

definition gentle :: "('w, 'a) rollback_act \<Rightarrow> bool" where
  "gentle m \<longleftrightarrow> (\<forall>w r w'. m w = (r, w') \<longrightarrow> tw_metadata w' = tw_metadata w
     \<and> (\<exists>vs. rw_trace w' = rw_trace w @ vs \<and> (\<forall>k. Restore_Tree k \<notin> set vs)))"

lemma gentle_quiet: "quiet m \<Longrightarrow> gentle m"
  unfolding gentle_def by (metis append_Nil2 empty_iff list.set(1) quietD)

lemma gentle_bind: "gentle m \<Longrightarrow> (\<And>x. gentle (f x)) \<Longrightarrow> gentle (act_bind m f)"
  unfolding gentle_def act_bind_def by (fastforce split: prod.splits sum.splits)

lemma gentle_verify: "gentle (verify_tree p tree cp)"
  unfolding gentle_def verify_tree_def record_call_def act_lift_def
  by (auto simp: act_bind_def act_ok_def dest!: quietD[OF quiet_port] split: prod.splits sum.splits)

lemma gentle_prepare: "gentle (prepare_restore p repository t plan label expected safety_label)"
  unfolding prepare_restore_def
  by (intro gentle_bind gentle_verify gentle_quiet[OF quiet_load] gentle_quiet[OF quiet_port]
      gentle_quiet[OF quiet_require] gentle_quiet[OF quiet_ok])
     (auto intro: gentle_bind gentle_quiet[OF quiet_port] gentle_quiet[OF quiet_require] gentle_quiet[OF quiet_ok]
        split: option.splits)

lemma loaded_worktree:
  fixes w :: "'w rollback_world"
  assumes "load_worktree p repository t start plan w = (Inr i, w')"
  shows "tw_metadata w = Some i \<and> tw_metadata w' = Some i \<and> rw_trace w' = rw_trace w"
  using load_worktree_Inr(1)[OF assms] quietD[OF quiet_load assms] by simp

lemma require_Inr: "require b e w = (Inr x, w') \<longleftrightarrow> b \<and> w' = w"
  by (auto simp: require_def act_ok_def act_raise_def)

lemma verify_tree_Inr: "verify_tree p tree cp w = (Inr b, w') \<Longrightarrow>
    tw_metadata w' = tw_metadata w \<and> rw_trace w' = rw_trace w @ [Verify_Tree (cp_id cp) b]"
  by (auto simp: verify_tree_def record_call_def act_lift_def run_simps dest!: quietD[OF quiet_port])

lemma quiet_expected: "quiet (case expected of None \<Rightarrow> act_ok ()
    | Some v \<Rightarrow> act_bind (port (rp_fingerprint p tree)) (\<lambda>now. require (now = v) (checkpoint_error msg)))"
  by (auto intro: quiet_bind quiet_port quiet_require quiet_ok split: option.splits)

lemma prepare_restore_Inr:
  assumes "prepare_restore p repository t plan label expected safety_label w = (Inr (i, tree, target, safety), w')"
  shows "marked w = Some (wi_state i)" and "wi_state i \<in> set allowed_worktree_states"
    and "rw_trace w' = rw_trace w @ [Verify_Tree (cp_id safety) True]"
  using assms
  unfolding prepare_restore_def bind_Inr require_Inr ok_eq marked_def
  by (auto dest!: loaded_worktree verify_tree_Inr quietD[OF quiet_port] quietD[OF quiet_expected])

text \<open>What a call under the lock leaves behind.\<close>

definition restore_outcome ::
    "worktree_state option \<Rightarrow> tree_call list \<Rightarrow> exn + rollback_result \<Rightarrow> worktree_state option \<Rightarrow> tree_call list \<Rightarrow> bool" where
  "restore_outcome before tr r after tr' \<longleftrightarrow>
     (case r of
        Inr res \<Rightarrow>
          (let safe = tr @ [Verify_Tree (rr_safety res) True]
           in case rr_status res of
                Restored \<Rightarrow> after = before
                  \<and> tr' = safe @ [Restore_Tree (rr_target res), Verify_Tree (rr_target res) True]
              | Failed_Recovered \<Rightarrow> after = before
                  \<and> (\<exists>mid. tr' = safe @ mid @ [Restore_Tree (rr_safety res), Verify_Tree (rr_safety res) True])
              | Needs_Recovery \<Rightarrow> after = Some Wt_Recovery_Required)
      | Inl _ \<Rightarrow> after \<in> {Some Wt_Rollback_In_Progress, Some Wt_Recovery_Required}
          \<or> after = before \<and> (\<exists>vs. tr' = tr @ vs \<and> (\<forall>k. Restore_Tree k \<notin> set vs)))"

lemma restore_marked_ids:
  "restore_marked p tree t stamp i original target safety w = (Inr res, w') \<Longrightarrow>
     rr_target res = cp_id target \<and> rr_safety res = cp_id safety"
  by (auto simp: restore_marked_def compensate_def run_simps split: option.splits)

lemma restore_locked_outcome:
  assumes "restore_locked p repository t plan label expected safety_label stamp w = (r, w')"
  shows "restore_outcome (marked w) (rw_trace w) r (marked w') (rw_trace w')"
proof -
  obtain a v where prep: "prepare_restore p repository t plan label expected safety_label w = (a, v)"
    by (cases "prepare_restore p repository t plan label expected safety_label w")
  have g: "tw_metadata v = tw_metadata w" "\<exists>vs. rw_trace v = rw_trace w @ vs \<and> (\<forall>k. Restore_Tree k \<notin> set vs)"
    using gentle_prepare prep unfolding gentle_def by blast+
  show ?thesis
  proof (cases a)
    case (Inl e)
    then show ?thesis using assms prep g
      by (auto simp: restore_locked_def act_bind_def restore_outcome_def marked_def)
  next
    case (Inr y)
    obtain i tree target safety where y: "y = (i, tree, target, safety)" by (cases y)
    note pr = prepare_restore_Inr[OF prep[unfolded Inr y]]
    obtain b v1 where ev: "isolation_event p t stamp ''rollback_started'' v = (b, v1)"
      by (cases "isolation_event p t stamp ''rollback_started'' v")
    have v1: "tw_metadata v1 = tw_metadata w" "rw_trace v1 = rw_trace v" using event_quiet[OF ev] g by auto
    obtain c v2 where ps: "persist_state_under_lock p i Wt_Rollback_In_Progress v1 = (c, v2)"
      by (cases "persist_state_under_lock p i Wt_Rollback_In_Progress v1")
    show ?thesis
    proof (cases "(\<exists>e. b = Inl e) \<or> (\<exists>e. c = Inl e)")
      case True
      then have "(r, w') = (case b of Inl e \<Rightarrow> (Inl e, v1) | Inr _ \<Rightarrow> (Inl (projl c), v2))"
        using assms prep ev ps by (auto simp: Inr y restore_locked_def act_bind_def split: sum.splits)
      then show ?thesis using v1 g persist_state_cases[OF ps] True
        by (cases b; cases c) (auto simp: restore_outcome_def marked_def)
    next
      case False
      then obtain i' where c: "b = Inr ()" "c = Inr i'" by (cases b; cases c) auto
      note ps' = persist_state_cases[OF ps]
      have rm: "restore_marked p tree t stamp i' (wi_state i) target safety v2 = (r, w')"
        using assms prep ev ps by (auto simp: Inr y c restore_locked_def act_bind_def)
      show ?thesis
      proof (cases r)
        case (Inl e)
        have "marking v2" using ps'(2)[OF c(2)] by (auto simp: marking_def marked_def)
        then have "marking w'" using safe_raise_marked rm Inl unfolding safe_raise_def by blast
        then show ?thesis by (simp add: Inl marking_def restore_outcome_def)
      next
        case (Inr res)
        have tr: "rw_trace v2 = rw_trace w @ [Verify_Tree (cp_id safety) True]" using ps'(1) v1 pr by simp
        show ?thesis
          using restore_marked_Inr[OF rm[unfolded Inr]] restore_marked_ids[OF rm[unfolded Inr]] pr(1)
          unfolding tr restore_outcome_def Inr by (auto simp: Let_def)
      qed
    qed
  qed
qed

lemma history_port: "keeps (\<lambda>v. rw_db v = d) (port m)"
  by (auto simp: keeps_def port_def split: prod.splits)

lemma history_require: "keeps (\<lambda>v. rw_db v = d) (require b e)"
  by (simp add: require_def keeps_intros)

lemma history_git: "keeps (\<lambda>v. rw_db (v :: ('w, 'z) rollback_world_scheme) = d) (git_matches p path i)"
  unfolding git_matches_def by (intro keeps_intros history_port history_require)

lemma history_act_of: "keeps (\<lambda>v. rw_db v = d) (act_of r)"
  by (simp add: keeps_def act_of_def)

lemma history_check: "keeps (\<lambda>v. rw_db (v :: ('w, 'z) rollback_world_scheme) = d)
    (check_worktree p rid canonical path t start plan)"
proof (rule keepsI)
  fix w :: "('w, 'z) rollback_world_scheme" assume w: "rw_db w = d"
  show "rw_db (snd (check_worktree p rid canonical path t start plan w)) = d"
    by (cases "tw_metadata w") (auto simp: check_worktree_def w keepsD[OF history_git w])
qed

lemma history_load: "keeps (\<lambda>v. rw_db v = d) (load_worktree p repository t start plan)"
  unfolding load_worktree_def by (intro keeps_intros history_port history_check history_act_of)

lemma history_kept: "m w = (r, v) \<Longrightarrow> keeps (\<lambda>v. rw_db v = rw_db w) m \<Longrightarrow> rw_db v = rw_db w"
  using keepsD[of "\<lambda>v. rw_db v = rw_db w" m w] by simp

lemma restore_checkpoint_entry:
  assumes "restore_checkpoint p repository t plan label expected safety_label stamp w = (r, w')"
  shows "(\<exists>e. r = Inl e \<and> marked w' = marked w \<and> rw_trace w' = rw_trace w)
    \<or> (\<exists>canonical i v. tw_metadata w = Some i \<and> canonical \<notin> set (rp_protected p)
         \<and> inactive_task p t canonical plan (wi_starting_commit i) (rw_db w)
         \<and> tw_metadata v = tw_metadata w \<and> rw_trace v = rw_trace w
         \<and> with_task_lock (restore_locked p canonical t plan label expected safety_label stamp) v = (r, w'))"
proof -
  note q = quietD[OF quiet_load] quietD[OF quiet_port] quietD[OF quiet_require]
  show ?thesis
  proof (cases "load_worktree p repository t None (Some plan) w")
    case (Pair a v1)
    then have v1: "tw_metadata v1 = tw_metadata w" "rw_trace v1 = rw_trace w" "rw_db v1 = rw_db w"
      using q(1)[OF Pair] history_kept[OF Pair history_load] by simp_all
    show ?thesis
    proof (cases a)
      case (Inl e)
      then show ?thesis using assms Pair v1 by (auto simp: restore_checkpoint_def act_bind_def marked_def)
    next
      case (Inr i)
      then have i: "tw_metadata w = Some i" using Pair loaded_worktree by blast
      obtain b v2 where b: "port (wp_resolve p repository) v1 = (b, v2)" by fastforce
      then have v2: "tw_metadata v2 = tw_metadata w" "rw_trace v2 = rw_trace w" "rw_db v2 = rw_db w"
        using q(2)[OF b] history_kept[OF b history_port] v1 by simp_all
      obtain c v3 where c: "port (wp_resolve p (wi_worktree i)) v2 = (c, v3)" by fastforce
      then have v3: "tw_metadata v3 = tw_metadata w" "rw_trace v3 = rw_trace w" "rw_db v3 = rw_db w"
        using q(2)[OF c] history_kept[OF c history_port] v2 by simp_all
      show ?thesis using assms Pair Inr i b c v2 v3
        by (cases b; cases c)
           (auto simp: restore_checkpoint_def act_bind_def require_def act_ok_def act_raise_def marked_def
             split: if_splits)
    qed
  qed
qed

lemma locked_outcome:
  assumes "with_task_lock (restore_locked p canonical t plan label expected safety_label stamp) v = (r, w')"
  shows "restore_outcome (marked v) (rw_trace v) r (marked w') (rw_trace w')"
proof (cases "tw_locked v")
  case True
  then show ?thesis using assms by (auto simp: with_task_lock_def restore_outcome_def)
next
  case False
  then obtain u where "restore_locked p canonical t plan label expected safety_label stamp (v\<lparr>tw_locked := True\<rparr>) = (r, u)"
    and u: "w' = u\<lparr>tw_locked := False\<rparr>"
    using assms by (auto simp: with_task_lock_def act_finally_def act_lift_def split: prod.splits)
  from restore_locked_outcome[OF this(1)] show ?thesis by (simp add: u marked_def)
qed


text \<open>A worktree is the name of its content. Its files change one restore at a time; the listed restores fail.\<close>

definition disk_of :: "(string \<times> bool list \<times> bool list, unit) act" where
  "disk_of = (\<lambda>(c, fails, ds). case ds of
       d # ds \<Rightarrow> (if d then Inr () else Inl (Exn OSErrorC ''disk''), (c, fails, ds))
     | [] \<Rightarrow> (Inr (), (c, fails, [])))"

definition sample_ports :: "(string \<times> bool list \<times> bool list) rollback_ports" where
  "sample_ports = \<lparr>wp_root = ''/runtime'', wp_resolve = act_ok, wp_repository_id = act_ok, wp_location = (\<lambda>_ t. act_ok ''/w''),
     wp_metadata_path = (\<lambda>_ _. act_ok ()), wp_disk = act_ok (), wp_status = (\<lambda>_. act_ok []),
     wp_head = (\<lambda>_. act_ok ''c0''), wp_filters = (\<lambda>_ _. act_ok ()), wp_occupied = (\<lambda>_. act_ok True),
     wp_exists = (\<lambda>_. act_ok True), wp_show_ref = (\<lambda>_ _. act_ok 0), wp_commit_of = (\<lambda>_ _. act_ok ''c0''),
     wp_current_branch = (\<lambda>_. act_ok ''b''), wp_listed = (\<lambda>_. act_ok (0, [])),
     wp_delete_branch = (\<lambda>_ _. act_ok 0), wp_add = (\<lambda>_ _ _ _. act_ok 0), wp_checkout = (\<lambda>_ _. act_ok 0),
     wp_attach = (\<lambda>_ _. act_ok ()), wp_remove = (\<lambda>_ _. act_ok 0),
     rp_fingerprint = (\<lambda>_. act_ok ''f''),
     rp_load = (\<lambda>_ _ _. act_ok \<lparr>cp_id = ''old'', cp_schema = 2, cp_head = ''c0''\<rparr>),
     rp_create = (\<lambda>_ _ (c, s). (Inr \<lparr>cp_id = c, cp_schema = 2, cp_head = ''c0''\<rparr>, (c, s))),
     rp_verify = (\<lambda>_ cp (c, s). (Inr (cp_id cp = c), (c, s))),
     rp_restore = (\<lambda>_ cp (c, fails, ds). case fails of
         True # fs \<Rightarrow> (Inl (Exn OSErrorC ''tar''), (''half'', fs, ds))
       | False # fs \<Rightarrow> (Inr (), (cp_id cp, fs, ds)) | [] \<Rightarrow> (Inr (), (cp_id cp, [], ds))),
     rp_history = disk_of, rp_protected = [], rp_resolved = id\<rparr>"

definition sample_rollback :: "bool list \<Rightarrow> bool list \<Rightarrow> (string \<times> bool list \<times> bool list) rollback_world" where
  "sample_rollback fails ds = \<lparr>tw_world = (''new'', fails, ds),
     tw_metadata = Some \<lparr>wi_schema = 1, wi_task = ''t'', wi_repository_id = ''/r'', wi_canonical = ''/r'', wi_worktree = ''/w'',
       wi_branch = ''b'', wi_starting_commit = ''c0'', wi_plan = ''h'', wi_created = 0, wi_state = Wt_Ready,
       wi_commit = None, wi_cleanup = ''pending''\<rparr>,
     tw_locked = False,
     rw_db = empty_db\<lparr>db_tasks := [''t'' \<mapsto> \<lparr>tr_repository = ''/r'', tr_starting_commit = ''c0'', tr_status = Approved,
       tr_plan_hash = Some ''h'', tr_approval_state = ''none'', tr_final_commit = None, tr_decision = None,
       tr_duration = None, tr_updated_at = 0\<rparr>]\<rparr>, rw_trace = []\<rparr>"

definition sample_restore :: "bool list \<Rightarrow> bool list
    \<Rightarrow> (exn + rollback_result) \<times> (string \<times> bool list \<times> bool list) rollback_world" where
  "sample_restore fails ds =
     restore_checkpoint sample_ports ''/r'' ''t'' ''h'' ''l'' None ''safety'' 1 (sample_rollback fails ds)"

lemmas sample_restore_defs = disk_of_def act_of_def agrees_def recorded_head_def sample_restore_def restore_checkpoint_def load_worktree_def check_worktree_def git_matches_def
  safe_identifier_def safe_start_def require_def inactive_task_def with_task_lock_def restore_locked_def prepare_restore_def
  sample_ports_def sample_rollback_def port_def verify_tree_def restore_tree_def record_call_def isolation_event_def
  add_event_def transaction_def insert_event_def empty_db_def persist_state_under_lock_def persist_def restore_marked_def
  restore_and_verify_def compensate_def mark_worktree_recovery_def allowed_worktree_states_def active_task_states_def
  terminal_statuses_def

text \<open>
  A history event that cannot be written between the failed restore of the target and the
  compensation stops the call: the half restored files stay, the marker stays.
\<close>

lemma failed_event_skips_compensation:
  "fst (sample_restore [True] [True, False]) = Inl (Exn OSErrorC ''disk'')"
  "fst (tw_world (snd (sample_restore [True] [True, False]))) = ''half''"
  "marked (snd (sample_restore [True] [True, False])) = Some Wt_Rollback_In_Progress"
  by (simp_all add: sample_restore_defs act_simps marked_def)


end
