(* ===== verification/Gateway.thy ===== *)
theory Gateway
  imports Friday_Prelude Complex_Main
begin

text \<open>
  The integration gateway's guards: token and scopes (\<open>gateway/auth.py\<close>), the limit of calls per
  minute, and the bounded event bus (\<open>gateway/events.py\<close>). Readings of the clock and the digest
  of a token are inputs. Every method of the bus holds its lock, so that publications are steps.
\<close>

section \<open>Authentication\<close>

datatype gateway_scope =
    Read_Status | Read_History | Create_Task | Request_Plan | Submit_Approval | Request_Execution
  | Request_Cancel | Request_Rollback | Github_Read | Github_Write

record gateway_auth =
  ga_token_hash :: string
  ga_scopes :: "gateway_scope list"

record gateway_principal =
  gp_name :: string
  gp_scopes :: "gateway_scope list"

definition default_scopes :: "gateway_scope list" where
  "default_scopes = [Read_Status, Read_History]"

text \<open>\<open>normalized\<close> is the configured hash, stripped and in lower case.\<close>

definition gateway_auth_init :: "string \<Rightarrow> gateway_scope list option \<Rightarrow> exn + gateway_auth" where
  "gateway_auth_init normalized scopes =
     (if length normalized \<noteq> 64 \<or> list_ex (\<lambda>c. c \<notin> set ''0123456789abcdef'') normalized then
        Inl (ValueError ''LOCAL_AI_GATEWAY_TOKEN_HASH must be a SHA-256 hex digest'')
      else Inr \<lparr>ga_token_hash = normalized,
        ga_scopes = (case scopes of None \<Rightarrow> default_scopes | Some s \<Rightarrow> s)\<rparr>)"

definition authenticate :: "(string \<Rightarrow> string) \<Rightarrow> gateway_auth \<Rightarrow> string option \<Rightarrow> gateway_principal option" where
  "authenticate digest a token =
     (case token of None \<Rightarrow> None
      | Some v \<Rightarrow>
          if v = [] \<or> ga_token_hash a = [] then None
          else if digest v \<noteq> ga_token_hash a then None
          else Some \<lparr>gp_name = ''local-token'', gp_scopes = ga_scopes a\<rparr>)"

definition require_scope ::
    "(string \<Rightarrow> string) \<Rightarrow> gateway_auth \<Rightarrow> string option \<Rightarrow> gateway_scope \<Rightarrow> exn + gateway_principal" where
  "require_scope digest a token scope =
     (case authenticate digest a token of
        None \<Rightarrow> Inl (Exn GatewayAuthenticationErrorC ''authentication required'')
      | Some p \<Rightarrow>
          if scope \<notin> set (gp_scopes p) then Inl (Exn GatewayAuthorizationErrorC ''insufficient gateway scope'')
          else Inr p)"

definition require_server_scope :: "gateway_auth \<Rightarrow> gateway_scope \<Rightarrow> exn + gateway_principal" where
  "require_server_scope a scope =
     (if scope \<notin> set (ga_scopes a) then Inl (Exn GatewayAuthorizationErrorC ''insufficient gateway scope'')
      else Inr \<lparr>gp_name = ''friday-server'', gp_scopes = ga_scopes a\<rparr>)"

section \<open>The rate limiter\<close>

record rate_limiter =
  rl_limit :: int
  rl_calls :: "string \<Rightarrow> real list"

definition rate_limiter_init :: "int \<Rightarrow> exn + rate_limiter" where
  "rate_limiter_init n =
     (if n < 1 then Inl (ValueError ''requests_per_minute must be positive'')
      else Inr \<lparr>rl_limit = n, rl_calls = (\<lambda>_. [])\<rparr>)"

definition allow_call :: "string \<Rightarrow> real \<Rightarrow> rate_limiter \<Rightarrow> bool \<times> rate_limiter" where
  "allow_call who now l =
     (let calls = dropWhile (\<lambda>t. 60 \<le> now - t) (rl_calls l who)
      in if rl_limit l \<le> int (length calls) then (False, l\<lparr>rl_calls := (rl_calls l)(who := calls)\<rparr>)
         else (True, l\<lparr>rl_calls := (rl_calls l)(who := calls @ [now])\<rparr>))"

text \<open>The answers to a sequence of calls, in the order of the clock.\<close>

record rate_answer =
  ra_who :: string
  ra_time :: real
  ra_allowed :: bool

primrec answer_calls :: "(string \<times> real) list \<Rightarrow> rate_limiter \<Rightarrow> rate_answer list \<times> rate_limiter" where
  "answer_calls [] l = ([], l)"
| "answer_calls (c # cs) l =
     (let (b, l') = allow_call (fst c) (snd c) l; (as, l'') = answer_calls cs l'
      in (\<lparr>ra_who = fst c, ra_time = snd c, ra_allowed = b\<rparr> # as, l''))"

text \<open>The allowed calls of one principal in the last minute before a time.\<close>

definition recent_calls :: "string \<Rightarrow> real \<Rightarrow> rate_answer list \<Rightarrow> real list" where
  "recent_calls who now as =
     map ra_time (filter (\<lambda>a. ra_who a = who \<and> ra_allowed a \<and> now - ra_time a < 60) as)"

text \<open>The answers a limiter gives that looks at all earlier answers.\<close>

fun reference_answers :: "int \<Rightarrow> rate_answer list \<Rightarrow> (string \<times> real) list \<Rightarrow> rate_answer list" where
  "reference_answers n past [] = []"
| "reference_answers n past ((who, now) # cs) =
     (let a = \<lparr>ra_who = who, ra_time = now, ra_allowed = int (length (recent_calls who now past)) < n\<rparr>
      in a # reference_answers n (past @ [a]) cs)"

definition tracks :: "rate_answer list \<Rightarrow> rate_limiter \<Rightarrow> real \<Rightarrow> bool" where
  "tracks past l now \<longleftrightarrow> (\<forall>who. sorted (rl_calls l who) \<and>
     (\<forall>later \<ge> now. filter (\<lambda>t. later - t < 60) (rl_calls l who) = recent_calls who later past))
     \<and> (\<forall>a \<in> set past. ra_time a \<le> now) \<and> (\<forall>who. \<forall>t \<in> set (rl_calls l who). t \<le> now)"

lemma dropWhile_filter_sorted:
  "sorted ts \<Longrightarrow> dropWhile (\<lambda>t. 60 \<le> now - t) ts = filter (\<lambda>t. now - t < (60::real)) ts"
proof (induction ts)
  case (Cons t ts)
  show ?case
  proof (cases "60 \<le> now - t")
    case False
    then have "\<forall>x \<in> set (t # ts). now - x < 60" using Cons.prems by fastforce
    then show ?thesis using False by (metis dropWhile.simps(2) filter_True)
  qed (use Cons in auto)
qed simp

lemma tracks_allow:
  assumes "tracks past l now" and "now \<le> t"
  shows "fst (allow_call who t l) \<longleftrightarrow> int (length (recent_calls who t past)) < rl_limit l"
    and "tracks (past @ [\<lparr>ra_who = who, ra_time = t, ra_allowed = fst (allow_call who t l)\<rparr>])
      (snd (allow_call who t l)) t"
    and "rl_limit (snd (allow_call who t l)) = rl_limit l"
proof -
  have d: "dropWhile (\<lambda>x. 60 \<le> t - x) (rl_calls l who) = recent_calls who t past"
    using assms dropWhile_filter_sorted[of "rl_calls l who" t] unfolding tracks_def by auto
  show b: "fst (allow_call who t l) \<longleftrightarrow> int (length (recent_calls who t past)) < rl_limit l"
    and "rl_limit (snd (allow_call who t l)) = rl_limit l"
    by (simp_all add: allow_call_def d Let_def)
  have f: "filter (\<lambda>x. later - x < 60) (recent_calls who t past) = recent_calls who later past" if "t \<le> later" for later
  proof -
    have "later - ra_time a < 60 \<longrightarrow> t - ra_time a < 60" for a using that by linarith
    then show ?thesis unfolding recent_calls_def by (auto simp: filter_map o_def intro!: arg_cong[where f = "map ra_time"] filter_cong)
  qed
  have s: "sorted (recent_calls who t past)"
    using assms unfolding d[symmetric] tracks_def by (simp add: sorted_dropWhile)
  have le: "x \<le> t" if "x \<in> set (recent_calls who t past)" for x
    using that assms unfolding tracks_def recent_calls_def by fastforce
  let ?b = "fst (allow_call who t l)" and ?l = "snd (allow_call who t l)"
  let ?past = "past @ [\<lparr>ra_who = who, ra_time = t, ra_allowed = ?b\<rparr>]"
  have calls: "rl_calls ?l who = recent_calls who t past @ (if ?b then [t] else [])"
    by (simp add: allow_call_def d Let_def)
  have others: "rl_calls ?l q = rl_calls l q" if "q \<noteq> who" for q
    using that by (simp add: allow_call_def d Let_def)
  show "tracks ?past ?l t"
    unfolding tracks_def
  proof (intro conjI allI impI ballI)
    fix q
    show "sorted (rl_calls ?l q)"
      using s le calls others assms by (cases "q = who") (auto simp: sorted_append tracks_def)
    fix later :: real assume later: "t \<le> later"
    show "filter (\<lambda>x. later - x < 60) (rl_calls ?l q) = recent_calls q later ?past"
    proof (cases "q = who")
      case True
      then show ?thesis using f[OF later] calls by (simp add: recent_calls_def)
    next
      case False
      have "filter (\<lambda>x. later - x < 60) (rl_calls l q) = recent_calls q later past"
        using assms later unfolding tracks_def by auto
      then show ?thesis using False others[OF False] by (simp add: recent_calls_def)
    qed
  next
    fix a assume "a \<in> set ?past"
    then show "ra_time a \<le> t" using assms unfolding tracks_def by auto
  next
    fix q x assume x: "x \<in> set (rl_calls ?l q)"
    show "x \<le> t"
    proof (cases "q = who")
      case False
      then show ?thesis using x others[OF False] assms unfolding tracks_def by force
    qed (use x calls le in \<open>auto split: if_splits\<close>)
  qed
qed

lemma tracks_answers:
  assumes "tracks past l now" and "sorted (now # map snd cs)"
  shows "fst (answer_calls cs l) = reference_answers (rl_limit l) past cs"
  using assms
proof (induction cs arbitrary: past l now)
  case (Cons c cs)
  obtain who t where c: "c = (who, t)" by (cases c)
  have t: "now \<le> t" "sorted (t # map snd cs)" using Cons.prems(2) c by auto
  note step = tracks_allow[OF Cons.prems(1) t(1), of who]
  obtain b l' where a: "allow_call who t l = (b, l')" by fastforce
  obtain as l'' where r: "answer_calls cs l' = (as, l'')" by fastforce
  show ?case
    using Cons.IH[OF step(2) t(2)] step(1,3) by (simp add: c a r Let_def)
qed simp

lemma length_filter_mono: "(\<And>x. P x \<Longrightarrow> Q x) \<Longrightarrow> length (filter P xs) \<le> length (filter Q xs)"
  by (induction xs) (auto intro: le_SucI)

lemma recent_calls_snoc:
  "recent_calls who now (as @ [a]) = recent_calls who now as
     @ (if ra_who a = who \<and> ra_allowed a \<and> now - ra_time a < 60 then [ra_time a] else [])"
  by (simp add: recent_calls_def)

lemma reference_limited:
  assumes "1 \<le> n" and "sorted (now # map snd cs)"
    and "\<And>later. now \<le> later \<Longrightarrow> int (length (recent_calls who later past)) \<le> n"
    and "now \<le> later" and "\<forall>c \<in> set cs. snd c \<le> later"
  shows "int (length (recent_calls who later (past @ reference_answers n past cs))) \<le> n"
  using assms
proof (induction cs arbitrary: past now)
  case (Cons c cs)
  obtain q t where c: "c = (q, t)" by (cases c)
  let ?a = "\<lparr>ra_who = q, ra_time = t, ra_allowed = int (length (recent_calls q t past)) < n\<rparr>"
  have t: "now \<le> t" "sorted (t # map snd cs)" "t \<le> later" "\<forall>c \<in> set cs. snd c \<le> later"
    using Cons.prems(2,5) c by auto
  have grow: "int (length (recent_calls who later' (past @ [?a]))) \<le> n" if "t \<le> later'" for later'
  proof -
    have "length (recent_calls who later' past) \<le> length (recent_calls who t past)"
      unfolding recent_calls_def length_map by (rule length_filter_mono) (use that in auto)
    moreover have "int (length (recent_calls who later' past)) \<le> n" using Cons.prems(3) t(1) that by simp
    ultimately show ?thesis by (auto simp: recent_calls_snoc)
  qed
  from Cons.IH[OF Cons.prems(1) t(2) grow t(3,4)] show ?case by (simp add: c Let_def)
qed simp

text \<open>C21: The limiter is exact: on any sequence of calls in the order of the clock it answers like the reference that looks at all earlier answers, allowing a call if and only if the same principal has had fewer allowed calls than the limit in the last sixty seconds. So no principal ever gets more calls than the limit within a minute, and forgetting old calls and keeping refused ones out of the record loses nothing.\<close>
theorem rate_limit_is_exact_window:
  assumes "rate_limiter_init n = Inr l" and "sorted (map snd cs)"
  shows "fst (answer_calls cs l) = reference_answers n [] cs
    \<and> (\<forall>later. (\<forall>c \<in> set cs. snd c \<le> later) \<longrightarrow>
         int (length (recent_calls who later (fst (answer_calls cs l)))) \<le> n)"
proof -
  have l: "1 \<le> n" "l = \<lparr>rl_limit = n, rl_calls = (\<lambda>_. [])\<rparr>"
    using assms(1) by (auto simp: rate_limiter_init_def split: if_splits)
  define now where "now = (case cs of [] \<Rightarrow> 0 | c # _ \<Rightarrow> snd c)"
  have now: "sorted (now # map snd cs)" using assms(2) by (cases cs) (auto simp: now_def)
  have "tracks [] l now" by (simp add: tracks_def l recent_calls_def)
  from tracks_answers[OF this now] have eq: "fst (answer_calls cs l) = reference_answers n [] cs" by (simp add: l)
  have "int (length (recent_calls who later (fst (answer_calls cs l)))) \<le> n"
    if "\<forall>c \<in> set cs. snd c \<le> later" for later
  proof (cases cs)
    case Nil
    then show ?thesis using l by (simp add: recent_calls_def)
  next
    case (Cons c cs')
    then have "now \<le> later" using that by (simp add: now_def)
    then show ?thesis
      using reference_limited[OF l(1) now, of who "[]" later] that l(1) by (simp add: eq recent_calls_def)
  qed
  with eq show ?thesis by blast
qed

theorem rate_limit_is_exact_window_witness:
  "\<exists>l. rate_limiter_init 2 = Inr l \<and>
    (let cs = [(''a'', 0), (''a'', 10), (''b'', 20), (''a'', 59), (''a'', 60)]
     in map ra_allowed (fst (answer_calls cs l)) = [True, True, True, False, True])"
proof -
  let ?l = "\<lparr>rl_limit = 2, rl_calls = (\<lambda>_. [])\<rparr>"
  have i: "rate_limiter_init 2 = Inr ?l" by (simp add: rate_limiter_init_def)
  have "sorted (map snd [(''a'', 0::real), (''a'', 10), (''b'', 20), (''a'', 59), (''a'', 60)])" by simp
  from rate_limit_is_exact_window[OF i this] i show ?thesis
    by (simp add: recent_calls_def Let_def)
qed

section \<open>The event bus\<close>

record gateway_event =
  ge_id :: string
  ge_sequence :: int
  ge_task :: "string option"
  ge_type :: string
  ge_timestamp :: nat
  ge_summary :: string
  ge_source :: string
  ge_critical :: bool
  ge_metadata :: "(string \<times> string) list"

text \<open>A subscriber's queue is bounded when its size is positive.\<close>

record bus_queue =
  bq_size :: int
  bq_items :: "gateway_event list"

record event_bus =
  eb_max :: nat
  eb_events :: "gateway_event list"
  eb_next :: int
  eb_ids :: "string list"
  eb_queues :: "bus_queue list"
  eb_subscribers :: "nat list"

definition event_bus_init :: "int \<Rightarrow> exn + event_bus" where
  "event_bus_init n =
     (if n < 1 then Inl (ValueError ''max_events must be positive'')
      else Inr \<lparr>eb_max = nat n, eb_events = [], eb_next = 1, eb_ids = [], eb_queues = [], eb_subscribers = []\<rparr>)"

definition bq_full :: "bus_queue \<Rightarrow> bool" where
  "bq_full q \<longleftrightarrow> 0 < bq_size q \<and> bq_size q \<le> int (length (bq_items q))"

text \<open>A full queue does not take the event; a critical one costs its subscriber the subscription.\<close>

definition offer_event :: "gateway_event \<Rightarrow> nat \<Rightarrow> event_bus \<Rightarrow> event_bus" where
  "offer_event e i b =
     (let q = eb_queues b ! i
      in if \<not> bq_full q then b\<lparr>eb_queues := (eb_queues b)[i := q\<lparr>bq_items := bq_items q @ [e]\<rparr>]\<rparr>
         else if ge_critical e then b\<lparr>eb_subscribers := removeAll i (eb_subscribers b)\<rparr>
         else b)"

definition publish_event :: "gateway_event \<Rightarrow> event_bus \<Rightarrow> gateway_event \<times> event_bus" where
  "publish_event e b =
     (if ge_id e \<noteq> [] \<and> ge_id e \<in> set (eb_ids b) then (e, b)
      else
        let n = (if 0 < ge_sequence e then ge_sequence e else eb_next b);
            v = e\<lparr>ge_sequence := n\<rparr>;
            b = b\<lparr>eb_ids := (if ge_id e \<noteq> [] then ge_id e # eb_ids b else eb_ids b),
                  eb_next := max (eb_next b) (n + 1),
                  eb_events := deque_append (Some (eb_max b)) (eb_events b) v\<rparr>
        in (v, fold (offer_event v) (eb_subscribers b) b))"

definition bus_since :: "int \<Rightarrow> nat \<Rightarrow> event_bus \<Rightarrow> gateway_event list" where
  "bus_since n limit b = take limit (filter (\<lambda>e. n < ge_sequence e) (eb_events b))"

definition bus_subscribe :: "int \<Rightarrow> event_bus \<Rightarrow> nat \<times> event_bus" where
  "bus_subscribe bound b =
     (length (eb_queues b),
      b\<lparr>eb_queues := eb_queues b @ [\<lparr>bq_size = bound, bq_items = []\<rparr>],
        eb_subscribers := length (eb_queues b) # eb_subscribers b\<rparr>)"

definition bus_unsubscribe :: "nat \<Rightarrow> event_bus \<Rightarrow> event_bus" where
  "bus_unsubscribe i b = b\<lparr>eb_subscribers := removeAll i (eb_subscribers b)\<rparr>"

section \<open>The bus is a bounded log without repetitions\<close>

text \<open>What the methods mean for the whole log of accepted events.\<close>

definition sequenced :: "int \<Rightarrow> gateway_event \<Rightarrow> gateway_event" where
  "sequenced n e = e\<lparr>ge_sequence := (if 0 < ge_sequence e then ge_sequence e else n)\<rparr>"

definition next_number :: "gateway_event list \<Rightarrow> int" where
  "next_number es = fold (\<lambda>e n. max n (ge_sequence e + 1)) es 1"

definition log_event :: "gateway_event \<Rightarrow> gateway_event list \<Rightarrow> gateway_event list" where
  "log_event e es =
     (if ge_id e \<noteq> [] \<and> ge_id e \<in> set (map ge_id es) then es else es @ [sequenced (next_number es) e])"

datatype bus_call = Publish gateway_event | Subscribe int | Unsubscribe nat | Take_Item nat

text \<open>\<open>Take_Item\<close> is a reader that gets the first item of its queue.\<close>

fun bus_step :: "bus_call \<Rightarrow> event_bus \<Rightarrow> event_bus" where
  "bus_step (Publish e) b = snd (publish_event e b)"
| "bus_step (Subscribe n) b = snd (bus_subscribe n b)"
| "bus_step (Unsubscribe i) b = bus_unsubscribe i b"
| "bus_step (Take_Item i) b =
     (if i < length (eb_queues b)
      then b\<lparr>eb_queues := (eb_queues b)[i := (eb_queues b ! i)\<lparr>bq_items := tl (bq_items (eb_queues b ! i))\<rparr>]\<rparr>
      else b)"

text \<open>The log of the events a bus accepted over a sequence of steps.\<close>

fun accept :: "bus_call \<Rightarrow> gateway_event list \<Rightarrow> gateway_event list" where
  "accept (Publish e) es = log_event e es"
| "accept _ es = es"

definition bus_log :: "bus_call list \<Rightarrow> gateway_event list" where
  "bus_log ss = fold accept ss []"

definition well_queued :: "event_bus \<Rightarrow> gateway_event list \<Rightarrow> bool" where
  "well_queued b es \<longleftrightarrow> distinct (eb_subscribers b) \<and> (\<forall>i \<in> set (eb_subscribers b). i < length (eb_queues b))
     \<and> (\<forall>q \<in> set (eb_queues b). subseq (bq_items q) es \<and> (0 < bq_size q \<longrightarrow> int (length (bq_items q)) \<le> bq_size q))"

definition represents :: "event_bus \<Rightarrow> gateway_event list \<Rightarrow> bool" where
  "represents b es \<longleftrightarrow> 0 < eb_max b \<and> eb_events b = drop (length es - eb_max b) es
     \<and> set (eb_ids b) = set (map ge_id es) - {[]} \<and> eb_next b = next_number es"

lemma represents_queues [simp]:
  "represents (b\<lparr>eb_queues := qs\<rparr>) es = represents b es"
  "represents (b\<lparr>eb_subscribers := is\<rparr>) es = represents b es"
  by (simp_all add: represents_def)

lemma next_number_snoc: "next_number (es @ [e]) = max (next_number es) (ge_sequence e + 1)"
  by (simp add: next_number_def)

lemma represents_offer [simp]: "represents (offer_event e i b) es = represents b es"
  by (simp add: offer_event_def Let_def)

lemma represents_offers [simp]: "represents (fold (offer_event e) is b) es = represents b es"
  by (induction "is" arbitrary: b) simp_all

lemma deque_append_drop:
  "0 < m \<Longrightarrow> deque_append (Some m) (drop (length xs - m) xs) x = drop (Suc (length xs) - m) (xs @ [x])"
  using deque_append_last_entries[of m xs x] by simp

text \<open>A new event is logged, and then offered to every subscriber.\<close>

lemma publish_new:
  assumes "represents b es" and new: "\<not> (ge_id e \<noteq> [] \<and> ge_id e \<in> set (eb_ids b))"
  shows "log_event e es = es @ [sequenced (next_number es) e]"
    and "snd (publish_event e b) = fold (offer_event (sequenced (next_number es) e)) (eb_subscribers b)
      (b\<lparr>eb_ids := (if ge_id e \<noteq> [] then ge_id e # eb_ids b else eb_ids b),
         eb_next := max (eb_next b) (ge_sequence (sequenced (next_number es) e) + 1),
         eb_events := deque_append (Some (eb_max b)) (eb_events b) (sequenced (next_number es) e)\<rparr>)"
proof -
  have "\<not> (ge_id e \<noteq> [] \<and> ge_id e \<in> set (map ge_id es))" using assms by (auto simp: represents_def)
  then show "log_event e es = es @ [sequenced (next_number es) e]" unfolding log_event_def if_not_P by simp
  have "eb_next b = next_number es" using assms(1) by (simp add: represents_def)
  then show "snd (publish_event e b) = fold (offer_event (sequenced (next_number es) e)) (eb_subscribers b)
      (b\<lparr>eb_ids := (if ge_id e \<noteq> [] then ge_id e # eb_ids b else eb_ids b),
         eb_next := max (eb_next b) (ge_sequence (sequenced (next_number es) e) + 1),
         eb_events := deque_append (Some (eb_max b)) (eb_events b) (sequenced (next_number es) e)\<rparr>)"
    unfolding publish_event_def if_not_P[OF new] by (simp add: Let_def sequenced_def)
qed

lemma publish_seen:
  assumes "represents b es" and "ge_id e \<noteq> [] \<and> ge_id e \<in> set (eb_ids b)"
  shows "log_event e es = es" and "snd (publish_event e b) = b"
  using assms by (auto simp: publish_event_def log_event_def represents_def)

lemma represents_publish:
  assumes r: "represents b es"
  shows "represents (snd (publish_event e b)) (log_event e es)"
proof (cases "ge_id e \<noteq> [] \<and> ge_id e \<in> set (eb_ids b)")
  case True
  then show ?thesis using publish_seen[OF r] r by simp
next
  case False
  let ?v = "sequenced (next_number es) e"
  have "ge_id ?v = ge_id e" by (simp add: sequenced_def)
  then show ?thesis
    unfolding publish_new[OF r False] represents_offers
    using r by (auto simp: represents_def next_number_snoc deque_append_drop)
qed

lemma offer_queues:
  assumes "i < length (eb_queues b)"
  shows "eb_queues (offer_event e i b) = (eb_queues b)[i := (let q = eb_queues b ! i
      in if bq_full q then q else q\<lparr>bq_items := bq_items q @ [e]\<rparr>)]"
  by (simp add: offer_event_def Let_def)

lemma well_queued_offers:
  assumes "distinct is" and "\<forall>i \<in> set is. i < length (eb_queues b)"
    and "\<forall>j < length (eb_queues b). j \<in> set is \<longrightarrow> subseq (bq_items (eb_queues b ! j)) es"
    and "\<forall>j < length (eb_queues b). subseq (bq_items (eb_queues b ! j)) (es @ [e])
      \<and> (0 < bq_size (eb_queues b ! j) \<longrightarrow> int (length (bq_items (eb_queues b ! j))) \<le> bq_size (eb_queues b ! j))"
    and "distinct (eb_subscribers b)" and "\<forall>i \<in> set (eb_subscribers b). i < length (eb_queues b)"
  shows "well_queued (fold (offer_event e) is b) (es @ [e])"
  using assms
proof (induction "is" arbitrary: b)
  case Nil
  then show ?case by (auto simp: well_queued_def in_set_conv_nth)
next
  case (Cons i "is")
  let ?b = "offer_event e i b"
  have q: "eb_queues ?b = (eb_queues b)[i := (let q = eb_queues b ! i
      in if bq_full q then q else q\<lparr>bq_items := bq_items q @ [e]\<rparr>)]"
    by (rule offer_queues) (use Cons.prems in simp)
  have subs: "distinct (eb_subscribers ?b)" "\<forall>j \<in> set (eb_subscribers ?b). j < length (eb_queues b)"
    using Cons.prems(5,6) by (auto simp: offer_event_def Let_def distinct_removeAll)
  have i: "i < length (eb_queues b)" "i \<notin> set is" "subseq (bq_items (eb_queues b ! i)) es"
    using Cons.prems(1,2,3) by auto
  have len: "length (eb_queues ?b) = length (eb_queues b)" by (simp add: q)
  have "well_queued (fold (offer_event e) is ?b) (es @ [e])"
  proof (rule Cons.IH)
    show "distinct is" "\<forall>j \<in> set is. j < length (eb_queues ?b)" using Cons.prems(1,2) len by auto
    show "\<forall>j < length (eb_queues ?b). j \<in> set is \<longrightarrow> subseq (bq_items (eb_queues ?b ! j)) es"
    proof (intro allI impI)
      fix j assume j: "j < length (eb_queues ?b)" "j \<in> set is"
      then have "eb_queues ?b ! j = eb_queues b ! j" using i(2) by (metis q nth_list_update_neq)
      then show "subseq (bq_items (eb_queues ?b ! j)) es" using Cons.prems(3) j len by simp
    qed
    show "\<forall>j < length (eb_queues ?b). subseq (bq_items (eb_queues ?b ! j)) (es @ [e])
        \<and> (0 < bq_size (eb_queues ?b ! j) \<longrightarrow> int (length (bq_items (eb_queues ?b ! j))) \<le> bq_size (eb_queues ?b ! j))"
    proof (intro allI impI)
      fix j assume j: "j < length (eb_queues ?b)"
      let ?q = "eb_queues b ! j"
      have p: "subseq (bq_items ?q) (es @ [e]) \<and> (0 < bq_size ?q \<longrightarrow> int (length (bq_items ?q)) \<le> bq_size ?q)"
        using Cons.prems(4) j len by simp
      show "subseq (bq_items (eb_queues ?b ! j)) (es @ [e])
        \<and> (0 < bq_size (eb_queues ?b ! j) \<longrightarrow> int (length (bq_items (eb_queues ?b ! j))) \<le> bq_size (eb_queues ?b ! j))"
      proof (cases "j = i \<and> \<not> bq_full ?q")
        case False
        then have "eb_queues ?b ! j = ?q" using i(1) by (cases "j = i") (auto simp: q Let_def)
        then show ?thesis using p by simp
      next
        case True
        then have "eb_queues ?b ! j = ?q\<lparr>bq_items := bq_items ?q @ [e]\<rparr>" using i(1) by (auto simp: q Let_def)
        moreover have "subseq (bq_items ?q @ [e]) (es @ [e])" using True i(3) by simp
        ultimately show ?thesis using True by (auto simp: bq_full_def)
      qed
    qed
    show "distinct (eb_subscribers ?b)" "\<forall>j \<in> set (eb_subscribers ?b). j < length (eb_queues ?b)"
      using subs len by simp_all
  qed
  then show ?case by simp
qed

lemma subseq_tl: "subseq xs es \<Longrightarrow> subseq (tl xs) es"
  by (cases xs) (auto dest: subseq_Cons')

lemma well_queued_step:
  assumes w: "well_queued b es" and r: "represents b es"
  shows "well_queued (bus_step s b) (accept s es)"
proof (cases s)
  case (Publish e)
  show ?thesis
  proof (cases "ge_id e \<noteq> [] \<and> ge_id e \<in> set (eb_ids b)")
    case True
    then show ?thesis using publish_seen[OF r] w Publish by simp
  next
    case False
    let ?v = "sequenced (next_number es) e"
    have "well_queued (snd (publish_event e b)) (es @ [?v])"
      unfolding publish_new(2)[OF r False]
      by (rule well_queued_offers) (use w in \<open>auto simp: well_queued_def intro: list_emb_append2\<close>)
    then show ?thesis using Publish publish_new(1)[OF r False] by simp
  qed
next
  case (Subscribe n)
  then show ?thesis using w by (auto simp: well_queued_def bus_subscribe_def)
next
  case (Unsubscribe i)
  then show ?thesis using w by (auto simp: well_queued_def bus_unsubscribe_def distinct_removeAll)
next
  case (Take_Item i)
  show ?thesis
  proof (cases "i < length (eb_queues b)")
    case True
    let ?q = "(eb_queues b ! i)\<lparr>bq_items := tl (bq_items (eb_queues b ! i))\<rparr>"
    have "eb_queues b ! i \<in> set (eb_queues b)" using True by simp
    then have q: "subseq (bq_items ?q) es" "0 < bq_size ?q \<longrightarrow> int (length (bq_items ?q)) \<le> bq_size ?q"
      using w subseq_tl unfolding well_queued_def by fastforce+
    have "set ((eb_queues b)[i := ?q]) \<subseteq> insert ?q (set (eb_queues b))" by (rule set_update_subset_insert)
    then have "\<forall>x \<in> set ((eb_queues b)[i := ?q]). subseq (bq_items x) es
        \<and> (0 < bq_size x \<longrightarrow> int (length (bq_items x)) \<le> bq_size x)"
      using q w unfolding well_queued_def by blast
    then show ?thesis using w Take_Item True by (simp add: well_queued_def)
  qed (use w Take_Item in simp)
qed

lemma log_event_ids:
  "distinct (filter (\<lambda>i. i \<noteq> []) (map ge_id es)) \<Longrightarrow>
     distinct (filter (\<lambda>i. i \<noteq> []) (map ge_id (log_event e es)))"
  by (auto simp: log_event_def sequenced_def)

lemma bus_run:
  assumes "represents b es" and "well_queued b es"
  shows "represents (fold bus_step ss b) (fold accept ss es) \<and> well_queued (fold bus_step ss b) (fold accept ss es)"
  using assms
proof (induction ss arbitrary: b es)
  case (Cons s ss)
  have "represents (bus_step s b) (accept s es)"
    using Cons.prems represents_publish
    by (cases s) (auto simp: bus_subscribe_def bus_unsubscribe_def represents_def)
  then show ?case using Cons.IH well_queued_step[OF Cons.prems(2,1)] by simp
qed simp

lemma bus_max_step: "eb_max (bus_step s b) = eb_max b"
proof -
  have "eb_max (fold (offer_event e) is b) = eb_max b" for e "is" b
    by (induction "is" arbitrary: b) (simp_all add: offer_event_def Let_def)
  then show ?thesis
    by (cases s) (auto simp: publish_event_def bus_subscribe_def bus_unsubscribe_def Let_def)
qed

lemma bus_max_run: "eb_max (fold bus_step ss b) = eb_max b"
  by (induction ss arbitrary: b) (simp_all add: bus_max_step)

text \<open>C22: The event bus is a bounded log without repetitions: after any sequence of publications, subscriptions and reads it holds exactly the last events of the log of the accepted ones, in the order of publication, an event whose identity was seen is accepted once, and a request for the events after a number is answered from that window. What waits in a subscriber's queue is part of the log, in its order, and never more than the size asked for.\<close>
theorem event_bus_refines_log:
  assumes "event_bus_init n = Inr b"
  shows "let b' = fold bus_step ss b; es = bus_log ss; window = drop (length es - nat n) es in
    eb_events b' = window
    \<and> distinct (filter (\<lambda>i. i \<noteq> []) (map ge_id es))
    \<and> bus_since k limit b' = take limit (filter (\<lambda>e. k < ge_sequence e) window)
    \<and> (\<forall>q \<in> set (eb_queues b'). subseq (bq_items q) es
         \<and> (0 < bq_size q \<longrightarrow> int (length (bq_items q)) \<le> bq_size q))"
proof -
  have b: "represents b []" "well_queued b []" "eb_max b = nat n"
    using assms by (auto simp: event_bus_init_def represents_def well_queued_def next_number_def split: if_splits)
  have "distinct (filter (\<lambda>i. i \<noteq> []) (map ge_id (fold accept ss es)))"
    if "distinct (filter (\<lambda>i. i \<noteq> []) (map ge_id es))" for es
    using that
  proof (induction ss arbitrary: es)
    case (Cons s ss)
    then show ?case using log_event_ids by (cases s) (auto simp del: distinct_filter)
  qed simp
  then have "distinct (filter (\<lambda>i. i \<noteq> []) (map ge_id (bus_log ss)))" by (simp add: bus_log_def)
  then show ?thesis using bus_run[OF b(1,2), of ss] bus_max_run[of ss b] b(3)
    by (simp add: Let_def bus_log_def represents_def well_queued_def bus_since_def)
qed

definition numbered :: "int \<Rightarrow> string \<Rightarrow> bool \<Rightarrow> gateway_event" where
  "numbered n i c = \<lparr>ge_id = i, ge_sequence = n, ge_task = None, ge_type = ''T'', ge_timestamp = 0, ge_summary = [],
     ge_source = ''gateway'', ge_critical = c, ge_metadata = []\<rparr>"

definition small_bus :: event_bus where
  "small_bus = \<lparr>eb_max = 2, eb_events = [], eb_next = 1, eb_ids = [], eb_queues = [], eb_subscribers = []\<rparr>"

lemmas bus_eval = small_bus_def numbered_def publish_event_def offer_event_def bus_subscribe_def bus_since_def
  deque_append_def bq_full_def

theorem event_bus_refines_log_witness:
  "eb_events (fold bus_step [Publish (numbered 0 ''a'' False), Publish (numbered 0 ''a'' False),
      Publish (numbered 0 ''b'' False), Publish (numbered 0 ''c'' False)] small_bus)
    = [numbered 2 ''b'' False, numbered 3 ''c'' False]"
proof -
  have "event_bus_init 2 = Inr small_bus" by (simp add: event_bus_init_def small_bus_def)
  from event_bus_refines_log[OF this, of "[Publish (numbered 0 ''a'' False), Publish (numbered 0 ''a'' False),
      Publish (numbered 0 ''b'' False), Publish (numbered 0 ''c'' False)]"]
  show ?thesis
    by (simp add: Let_def bus_log_def log_event_def sequenced_def next_number_def numbered_def)
qed

text \<open>
  The gateway publishes its own event with the number the history gave it, and the bridge
  publishes earlier rows later: a client that has seen the higher number is never given the
  lower one.
\<close>

lemma late_event_is_skipped:
  "let b1 = snd (publish_event (numbered 10 ''x'' False) small_bus); b2 = snd (publish_event (numbered 9 ''y'' True) b1)
   in bus_since 8 100 b1 = [numbered 10 ''x'' False] \<and> bus_since 10 100 b2 = [] \<and> numbered 9 ''y'' True \<in> set (eb_events b2)"
  by (simp add: bus_eval Let_def)

text \<open>
  A subscriber whose queue is full loses its subscription on a critical event, and nothing in
  its queue says so: it waits on for events that never come.
\<close>

lemma slow_subscriber_goes_silent:
  "let b = snd (bus_subscribe 1 small_bus); b1 = snd (publish_event (numbered 1 ''x'' False) b);
       b2 = snd (publish_event (numbered 2 ''y'' True) b1); b3 = bus_step (Take_Item 0) b2;
       b4 = snd (publish_event (numbered 3 ''z'' True) b3)
   in map bq_items (eb_queues b2) = [[numbered 1 ''x'' False]] \<and> map bq_items (eb_queues b4) = [[]]"
  by (simp add: bus_eval Let_def)

end
