(* ===== verification/Publication.thy ===== *)
theory Publication
  imports Friday_Prelude "HOL-Library.Sublist" "HOL-Library.List_Lexorder" Complex_Main
begin

text \<open>
  The publication of a finished task on GitHub, \<open>gateway/publication.py\<close>, with its row of
  \<open>external_publications\<close> in \<open>history/store.py\<close>. The GitHub transport, git and the disk are calls on
  a world of their own and may raise at any time. The trace holds what the service did to the
  remote repository and what it read there.
\<close>

section \<open>Rows, tasks and pull requests\<close>

datatype publication_state =
    Pub_Not_Requested | Pub_Ready | Pub_Pushing | Pub_Pushed | Pub_Pr_Creating | Pub_Published
  | Pub_Retryable_Failure | Pub_Blocked | Pub_Reconciliation_Required

text \<open>The parts of a URL after \<open>urlparse\<close>; \<open>pu_user\<close> says that it carries a user or a password.\<close>

record parsed_url =
  pu_scheme :: string
  pu_user :: bool
  pu_host :: "string option"
  pu_path :: string

text \<open>
  A pull request as the API reports it: \<open>pq_repo\<close> and \<open>pq_head_sha\<close> are the compact fields of the
  test transport, the references have their repository's full name.
\<close>

record pull_request_ref =
  pf_ref :: "string option"
  pf_sha :: "string option"
  pf_full_name :: string

record pull_request =
  pq_id :: string
  pq_number :: "int option"
  pq_url :: "parsed_url option"
  pq_head :: pull_request_ref
  pq_base :: pull_request_ref
  pq_repo :: "(string \<times> string) option"
  pq_head_sha :: "string option"

record publication_row =
  pr_state :: publication_state
  pr_repository_id :: string
  pr_branch :: "string option"
  pr_commit :: "string option"
  pr_request :: "pull_request option"
  pr_error :: string
  pr_attempts :: int
  pr_blob :: "string option"

record publication_task =
  pt_id :: string
  pt_repository :: string
  pt_branch :: string
  pt_starting_commit :: string
  pt_final_commit :: "string option"
  pt_succeeded :: bool

record repository_mapping =
  rm_repository_id :: string
  rm_local_path :: string
  rm_owner :: string
  rm_name :: string

record retry_policy =
  ry_max_attempts :: int
  ry_initial :: real
  ry_max :: real

definition retry_policy_check :: "retry_policy \<Rightarrow> exn + retry_policy" where
  "retry_policy_check y =
     (if ry_max_attempts y < 1 \<or> ry_initial y < 0 \<or> ry_max y < ry_initial y
      then Inl (ValueError ''invalid publication retry policy'') else Inr y)"

section \<open>The world\<close>

datatype publication_effect =
    Push_Branch string string
  | Create_Pull_Request string string
  | Saw_Branch string "string option"
  | Saw_Blob string "string option"

record repository_metadata =
  rd_full_name :: string
  rd_default_branch :: string
  rd_size :: int

text \<open>
  The calls; \<open>pp_casefold\<close> and \<open>pp_resolve\<close> are functions of the libraries on their arguments,
  \<open>pp_redact\<close> is the redaction of \<open>execution/history.py\<close>, or any other.
\<close>

record 'w publication_ports =
  pp_resolve :: "string \<Rightarrow> string"
  pp_casefold :: "string \<Rightarrow> string"
  pp_redact :: "string \<Rightarrow> string"
  pp_host :: string
  pp_remote :: "string \<Rightarrow> ('w, parsed_url) act"
  pp_blob_of :: "string \<Rightarrow> string \<Rightarrow> ('w, string) act"
  pp_branch_sha :: "string \<Rightarrow> ('w, string option) act"
  pp_file_blob :: "string \<Rightarrow> string \<Rightarrow> ('w, string option) act"
  pp_repository :: "('w, repository_metadata) act"
  pp_is_ancestor :: "string \<Rightarrow> string \<Rightarrow> ('w, bool) act"
  pp_credential :: "('w, unit) act"
  pp_push :: "string \<Rightarrow> string \<Rightarrow> ('w, unit) act"
  pp_find :: "string \<Rightarrow> ('w, pull_request list) act"
  pp_create :: "string \<Rightarrow> string \<Rightarrow> ('w, pull_request) act"
  pp_sleep :: "real \<Rightarrow> ('w, unit) act"
  pp_disk :: "('w, unit) act"

record 'w publication_world =
  pw_world :: 'w
  pw_row :: "publication_row option"
  pw_trace :: "publication_effect list"

type_synonym ('w, 'a) publication_act = "('w publication_world, 'a) act"

definition remote_call :: "('w, 'a) act \<Rightarrow> ('w, 'a) publication_act" where
  "remote_call m w = (case m (pw_world w) of (r, s) \<Rightarrow> (r, w\<lparr>pw_world := s\<rparr>))"

definition note_effect :: "publication_effect \<Rightarrow> ('w, unit) publication_act" where
  "note_effect e = act_lift (\<lambda>w. w\<lparr>pw_trace := pw_trace w @ [e]\<rparr>)"

definition ensure :: "bool \<Rightarrow> exn \<Rightarrow> ('s, unit) act" where
  "ensure b e = (if b then act_ok () else act_raise e)"

abbreviation publication_error :: "string \<Rightarrow> exn" where
  "publication_error \<equiv> Exn HistoryDatabaseErrorC"

section \<open>The row\<close>

text \<open>\<open>upsert_publication\<close>: the identity of a row that exists is not written again.\<close>

definition upsert_publication ::
    "'w publication_ports \<Rightarrow> publication_task \<Rightarrow> publication_row \<Rightarrow> ('w, publication_row) publication_act" where
  "upsert_publication p t row =
     act_seq (ensure (pp_resolve p (pt_repository t) = pt_repository t)
       (publication_error ''Publication task identity mismatch''))
     (act_seq (remote_call (pp_disk p))
     (\<lambda>w. let new = row\<lparr>pr_error := pp_redact p (pr_error row)\<rparr>;
            row' = (case pw_row w of None \<Rightarrow> new | Some old \<Rightarrow> new\<lparr>pr_repository_id := pr_repository_id old\<rparr>)
          in (Inr row', w\<lparr>pw_row := Some row'\<rparr>)))"

definition claimable_states :: "publication_state list" where
  "claimable_states = [Pub_Not_Requested, Pub_Ready, Pub_Retryable_Failure, Pub_Reconciliation_Required]"

definition claim_publication ::
    "'w publication_ports \<Rightarrow> string \<Rightarrow> string \<Rightarrow> string \<Rightarrow> ('w, int option) publication_act" where
  "claim_publication p repository_id branch commit =
     act_seq (remote_call (pp_disk p))
     (\<lambda>w. case pw_row w of
        None \<Rightarrow>
          (Inr (Some 1), w\<lparr>pw_row := Some \<lparr>pr_state = Pub_Pushing, pr_repository_id = repository_id,
             pr_branch = Some branch, pr_commit = Some commit, pr_request = None, pr_error = [],
             pr_attempts = 1, pr_blob = None\<rparr>\<rparr>)
      | Some row \<Rightarrow>
          if pr_repository_id row \<noteq> repository_id \<or> pr_branch row \<notin> {None, Some branch}
             \<or> pr_commit row \<notin> {None, Some commit} then
            (Inl (publication_error ''publication identity mismatch''), w)
          else if pr_state row \<notin> set claimable_states then (Inr None, w)
          else (Inr (Some (pr_attempts row + 1)), w\<lparr>pw_row := Some (row\<lparr>pr_state := Pub_Pushing,
             pr_branch := Some branch, pr_commit := Some commit, pr_attempts := pr_attempts row + 1\<rparr>)\<rparr>))"

section \<open>Retries\<close>

definition retryable :: "exn \<Rightarrow> bool" where
  "retryable e \<longleftrightarrow> exn_kind e \<in> {GitHubRateLimitErrorC, GitHubTransientErrorC}"

definition backoff :: "retry_policy \<Rightarrow> nat \<Rightarrow> real" where
  "backoff y attempt = min (ry_max y) (ry_initial y * 2 ^ (attempt - 1))"

text \<open>The loop over the attempts: \<open>n\<close> attempts are left after this one, the \<open>k\<close>-th.\<close>

primrec attempts_loop ::
    "'w publication_ports \<Rightarrow> retry_policy \<Rightarrow> ('w, 'a) publication_act \<Rightarrow> nat \<Rightarrow> nat \<Rightarrow> ('w, 'a) publication_act" where
  "attempts_loop p y m k 0 = m"
| "attempts_loop p y m k (Suc n) =
     act_catch m (\<lambda>e. if retryable e
       then act_seq (remote_call (pp_sleep p (backoff y k))) (attempts_loop p y m (Suc k) n)
       else act_raise e)"

definition with_retry ::
    "'w publication_ports \<Rightarrow> retry_policy \<Rightarrow> ('w, 'a) publication_act \<Rightarrow> ('w, 'a) publication_act" where
  "with_retry p y m = attempts_loop p y m 1 (nat (ry_max_attempts y - 1))"

definition read_branch :: "'w publication_ports \<Rightarrow> retry_policy \<Rightarrow> string \<Rightarrow> ('w, string option) publication_act" where
  "read_branch p y branch =
     act_bind (with_retry p y (remote_call (pp_branch_sha p branch))) (\<lambda>sha.
       act_seq (note_effect (Saw_Branch branch sha)) (act_ok sha))"

definition push_with_retry ::
    "'w publication_ports \<Rightarrow> retry_policy \<Rightarrow> string \<Rightarrow> string \<Rightarrow> ('w, unit) publication_act" where
  "push_with_retry p y branch commit =
     act_seq (remote_call (pp_credential p))
       (with_retry p y (act_seq (note_effect (Push_Branch branch commit)) (remote_call (pp_push p branch commit))))"

text \<open>After each failed creation the service looks whether it was made after all.\<close>

primrec create_pr_loop ::
    "'w publication_ports \<Rightarrow> retry_policy \<Rightarrow> string \<Rightarrow> string \<Rightarrow> nat \<Rightarrow> nat \<Rightarrow> ('w, pull_request) publication_act" where
  "create_pr_loop p y branch base k 0 =
     act_catch (act_seq (note_effect (Create_Pull_Request branch base)) (remote_call (pp_create p branch base)))
       (\<lambda>e. if \<not> is_instance e GitHubErrorC \<or> \<not> retryable e then act_raise e
         else act_bind (with_retry p y (remote_call (pp_find p branch))) (\<lambda>found.
           if length found = 1 then act_ok (hd found)
           else if 1 < length found then act_raise (publication_error ''Ambiguous pull request reconciliation'')
           else act_raise e))"
| "create_pr_loop p y branch base k (Suc n) =
     act_catch (act_seq (note_effect (Create_Pull_Request branch base)) (remote_call (pp_create p branch base)))
       (\<lambda>e. if \<not> is_instance e GitHubErrorC \<or> \<not> retryable e then act_raise e
         else act_bind (with_retry p y (remote_call (pp_find p branch))) (\<lambda>found.
           if length found = 1 then act_ok (hd found)
           else if 1 < length found then act_raise (publication_error ''Ambiguous pull request reconciliation'')
           else act_seq (remote_call (pp_sleep p (backoff y k))) (create_pr_loop p y branch base (Suc k) n)))"

definition create_pr_reconciled ::
    "'w publication_ports \<Rightarrow> retry_policy \<Rightarrow> string \<Rightarrow> string \<Rightarrow> ('w, pull_request) publication_act" where
  "create_pr_reconciled p y branch base = create_pr_loop p y branch base 1 (nat (ry_max_attempts y - 1))"

section \<open>Identity of what was published\<close>

definition rstrip_slash :: "string \<Rightarrow> string" where
  "rstrip_slash s = rev (dropWhile (\<lambda>c. c = CHR ''/'') (rev s))"

definition remove_git :: "string \<Rightarrow> string" where
  "remove_git s = (if suffix ''.git'' s then take (length s - 4) s else s)"

definition validate_remote :: "parsed_url \<Rightarrow> string \<Rightarrow> string \<Rightarrow> bool" where
  "validate_remote u owner repo \<longleftrightarrow> \<not> pu_user u \<and> pu_host u = Some ''github.com''
     \<and> remove_git (rstrip_slash (pu_path u)) = ''/'' @ owner @ ''/'' @ repo"

fun decimal :: "nat \<Rightarrow> string" where
  "decimal n = (if n < 10 then [char_of (48 + n)] else decimal (n div 10) @ [char_of (48 + n mod 10)])"

declare decimal.simps [simp del]

definition matches_pull_request ::
    "'w publication_ports \<Rightarrow> repository_mapping \<Rightarrow> string \<Rightarrow> string \<Rightarrow> string \<Rightarrow> pull_request \<Rightarrow> bool" where
  "matches_pull_request p mp branch base commit pr \<longleftrightarrow>
     (case (pq_number pr, pq_url pr) of
        (Some n, Some u) \<Rightarrow>
          1 \<le> n \<and> pu_scheme u = ''https'' \<and> \<not> pu_user u
          \<and> rstrip_slash (pu_path u) = ''/'' @ rm_owner mp @ ''/'' @ rm_name mp @ ''/pull/'' @ decimal (nat n)
          \<and> pu_host u = Some (pp_host p)
          \<and> (if pq_repo pr = Some (rm_owner mp, rm_name mp) then pq_head_sha pr = Some commit
             else pf_ref (pq_head pr) = Some branch \<and> pf_sha (pq_head pr) = Some commit
               \<and> pf_ref (pq_base pr) = Some base
               \<and> pp_casefold p (pf_full_name (pq_head pr)) = pp_casefold p (rm_owner mp @ ''/'' @ rm_name mp)
               \<and> pp_casefold p (pf_full_name (pq_base pr)) = pp_casefold p (rm_owner mp @ ''/'' @ rm_name mp))
      | _ \<Rightarrow> False)"

section \<open>Eligibility\<close>

definition mapping_for ::
    "'w publication_ports \<Rightarrow> repository_mapping list \<Rightarrow> publication_task \<Rightarrow> string \<Rightarrow> repository_mapping option" where
  "mapping_for p ms t rid =
     (case find (\<lambda>m. rm_repository_id m = rid) ms of None \<Rightarrow> None
      | Some m \<Rightarrow> if pp_resolve p (rm_local_path m) = pp_resolve p (pt_repository t) then Some m else None)"

definition promotion_ready :: "publication_task \<Rightarrow> bool" where
  "promotion_ready t \<longleftrightarrow> prefix ''friday/task/'' (pt_branch t) \<and> pt_final_commit t \<notin> {None, Some []} \<and> pt_succeeded t"

definition validate_eligibility ::
    "'w publication_ports \<Rightarrow> repository_mapping list \<Rightarrow> publication_task option \<Rightarrow> string
     \<Rightarrow> ('w, publication_task) publication_act" where
  "validate_eligibility p ms task rid =
     (case task of None \<Rightarrow> act_raise (publication_error ''Publication repository identity mismatch'')
      | Some t \<Rightarrow>
         (case mapping_for p ms t rid of
            None \<Rightarrow> act_raise (publication_error ''Publication repository identity mismatch'')
          | Some mp \<Rightarrow>
              act_seq (ensure (promotion_ready t)
                (publication_error ''Only a promotion-ready Friday task may be published''))
              (act_bind (remote_call (pp_remote p (pp_resolve p (pt_repository t)))) (\<lambda>u.
                act_seq (ensure (validate_remote u (rm_owner mp) (rm_name mp))
                  (publication_error ''Configured GitHub remote does not match repository mapping''))
                (act_ok t)))))"

fun path_split :: "string \<Rightarrow> string \<Rightarrow> string list" where
  "path_split cur [] = [cur]"
| "path_split cur (c # s) = (if c = CHR ''/'' then cur # path_split [] s else path_split (cur @ [c]) s)"

definition bad_artifact_path :: "string \<Rightarrow> bool" where
  "bad_artifact_path s \<longleftrightarrow> s = [] \<or> 2000 < length s \<or> prefix ''/'' s \<or> char_of (92 :: nat) \<in> set s \<or> CHR '':'' \<in> set s
     \<or> list_ex (\<lambda>w. w \<in> {'''', ''.'', ''..''}) (path_split [] s)"

definition validate_artifact_identity ::
    "'w publication_ports \<Rightarrow> repository_mapping list \<Rightarrow> publication_task option \<Rightarrow> string \<Rightarrow> string
     \<Rightarrow> ('w, string \<times> string) publication_act" where
  "validate_artifact_identity p ms task rid path =
     act_bind (validate_eligibility p ms task rid) (\<lambda>t.
       act_seq (ensure (\<not> bad_artifact_path path) (publication_error ''Publication artifact path is invalid''))
       (act_bind (remote_call (pp_blob_of p (the (pt_final_commit t)) path)) (\<lambda>blob.
         act_ok (the (pt_final_commit t), blob))))"

definition blob_sha :: "string \<Rightarrow> bool" where
  "blob_sha v \<longleftrightarrow> length v = 40 \<and> list_all (\<lambda>c. c \<in> set ''0123456789abcdef'') v"

section \<open>Publication\<close>

definition bootstrap_base ::
    "'w publication_ports \<Rightarrow> retry_policy \<Rightarrow> repository_mapping \<Rightarrow> publication_task \<Rightarrow> string \<Rightarrow> string
     \<Rightarrow> ('w, unit) publication_act" where
  "bootstrap_base p y mp t commit base =
     act_bind (with_retry p y (remote_call (pp_repository p))) (\<lambda>d.
     act_seq (ensure (pp_casefold p (rd_full_name d) = pp_casefold p (rm_owner mp @ ''/'' @ rm_name mp)
         \<and> rd_default_branch d = base \<and> rd_size d = 0)
       (publication_error ''Publication base is absent and the mapped repository is not empty''))
     (act_bind (remote_call (pp_is_ancestor p (pt_starting_commit t) commit)) (\<lambda>ok.
     act_seq (ensure ok (publication_error ''Task commit is not descended from its exact starting commit''))
     (act_seq (push_with_retry p y base (pt_starting_commit t))
     (act_bind (read_branch p y base) (\<lambda>actual.
       ensure (actual = Some (pt_starting_commit t))
         (publication_error ''Empty repository base bootstrap requires reconciliation'')))))))"

definition publication_record ::
    "publication_task \<Rightarrow> string \<Rightarrow> string \<Rightarrow> publication_state \<Rightarrow> int \<Rightarrow> string \<Rightarrow> publication_row" where
  "publication_record t rid commit st n err =
     \<lparr>pr_state = st, pr_repository_id = rid, pr_branch = Some (pt_branch t), pr_commit = Some commit,
      pr_request = None, pr_error = err, pr_attempts = n, pr_blob = None\<rparr>"

text \<open>The row asks for reconciliation, and the call raises.\<close>

definition reconcile ::
    "'w publication_ports \<Rightarrow> publication_task \<Rightarrow> publication_row \<Rightarrow> string \<Rightarrow> ('w, 'a) publication_act" where
  "reconcile p t row msg = act_bind (upsert_publication p t row) (\<lambda>_. act_raise (publication_error msg))"

definition ensure_base ::
    "'w publication_ports \<Rightarrow> retry_policy \<Rightarrow> repository_mapping \<Rightarrow> publication_task \<Rightarrow> string \<Rightarrow> string \<Rightarrow> string
     \<Rightarrow> int \<Rightarrow> string option \<Rightarrow> ('w, unit) publication_act" where
  "ensure_base p y mp t rid commit base n sha =
     act_bind (read_branch p y base) (\<lambda>base_sha.
       if base_sha \<noteq> None then act_ok ()
       else act_seq (ensure (sha = None) (publication_error ''Task branch exists but publication base is missing''))
         (act_catch (bootstrap_base p y mp t commit base) (\<lambda>e.
           if is_instance e HistoryDatabaseErrorC then
             act_bind (upsert_publication p t
               (publication_record t rid commit Pub_Reconciliation_Required n (exn_msg e))) (\<lambda>_. act_raise e)
           else act_raise e)))"

definition verify_blob ::
    "'w publication_ports \<Rightarrow> retry_policy \<Rightarrow> publication_task \<Rightarrow> string \<Rightarrow> string \<Rightarrow> int
     \<Rightarrow> (string \<times> string) option \<Rightarrow> ('w, unit) publication_act" where
  "verify_blob p y t rid commit n artifact =
     (case artifact of None \<Rightarrow> act_ok ()
      | Some (path, blob) \<Rightarrow>
          act_bind (with_retry p y (remote_call (pp_file_blob p path (pt_branch t)))) (\<lambda>found.
          act_seq (note_effect (Saw_Blob path found))
            (if found \<noteq> Some blob then
               reconcile p t ((publication_record t rid commit Pub_Reconciliation_Required n
                   ''Remote artifact content does not match approved blob'')\<lparr>pr_blob := Some blob\<rparr>)
                 ''Remote artifact content does not match approved blob''
             else act_ok ())))"

definition publish_request ::
    "'w publication_ports \<Rightarrow> retry_policy \<Rightarrow> repository_mapping \<Rightarrow> publication_task \<Rightarrow> string \<Rightarrow> string \<Rightarrow> string
     \<Rightarrow> int \<Rightarrow> (string \<times> string) option \<Rightarrow> ('w, publication_row) publication_act" where
  "publish_request p y mp t rid commit base n artifact =
     act_bind (with_retry p y (remote_call (pp_find p (pt_branch t)))) (\<lambda>found.
     act_seq (if 1 < length found then
         reconcile p t (publication_record t rid commit Pub_Reconciliation_Required 1
           ''Ambiguous Friday-owned pull requests'') ''Ambiguous pull request reconciliation''
       else act_ok ())
     (act_bind (case found of [] \<Rightarrow> create_pr_reconciled p y (pt_branch t) base | pr # _ \<Rightarrow> act_ok pr) (\<lambda>pr.
       if \<not> matches_pull_request p mp (pt_branch t) base commit pr then
         reconcile p t (publication_record t rid commit Pub_Reconciliation_Required n
           ''External pull request identity does not match approved publication'')
           ''External pull request does not match the approved publication''
       else
         upsert_publication p t ((publication_record t rid commit Pub_Published n [])
           \<lparr>pr_request := Some pr, pr_blob := map_option snd artifact\<rparr>))))"

definition publish_remote ::
    "'w publication_ports \<Rightarrow> retry_policy \<Rightarrow> repository_mapping \<Rightarrow> publication_task \<Rightarrow> string \<Rightarrow> string \<Rightarrow> string
     \<Rightarrow> int \<Rightarrow> (string \<times> string) option \<Rightarrow> ('w, publication_row) publication_act" where
  "publish_remote p y mp t rid commit base n artifact =
     act_bind (read_branch p y (pt_branch t)) (\<lambda>sha.
     act_seq (if sha \<notin> {None, Some [], Some commit} then
         reconcile p t (publication_record t rid commit Pub_Reconciliation_Required 1
           ''Remote branch points to an unexpected commit'') ''Remote task branch has unexpected commit''
       else act_ok ())
     (act_seq (ensure_base p y mp t rid commit base n sha)
     (act_seq (if sha \<noteq> Some commit then push_with_retry p y (pt_branch t) commit else act_ok ())
     (act_bind (read_branch p y (pt_branch t)) (\<lambda>now.
     act_seq (if now \<noteq> Some commit then
         reconcile p t (publication_record t rid commit Pub_Reconciliation_Required n
           ''Remote branch does not match the approved commit'')
           ''Published branch does not match the approved commit''
       else act_ok ())
     (act_seq (verify_blob p y t rid commit n artifact)
     (act_bind (upsert_publication p t (publication_record t rid commit Pub_Pr_Creating n [])) (\<lambda>_.
       publish_request p y mp t rid commit base n artifact))))))))"

definition retry_errors :: "exn_class list" where
  "retry_errors = [OSErrorC, SubprocessErrorC, RuntimeErrorC, ValueErrorC]"

definition publish_claimed ::
    "'w publication_ports \<Rightarrow> retry_policy \<Rightarrow> repository_mapping \<Rightarrow> publication_task \<Rightarrow> string \<Rightarrow> string \<Rightarrow> string
     \<Rightarrow> int \<Rightarrow> (string \<times> string) option \<Rightarrow> ('w, publication_row) publication_act" where
  "publish_claimed p y mp t rid commit base n artifact =
     act_catch (publish_remote p y mp t rid commit base n artifact) (\<lambda>e.
       if caught_by retry_errors e then
         act_bind (upsert_publication p t (publication_record t rid commit Pub_Retryable_Failure
           (if n = 0 then 1 else n) (exn_msg e))) (\<lambda>_. act_raise e)
       else act_raise e)"

text \<open>The claim is refused: the row says whether the call may go on.\<close>

definition resume_publication ::
    "(int \<Rightarrow> ('w, publication_row) publication_act) \<Rightarrow> ('w, publication_row) publication_act" where
  "resume_publication go w =
     (case pw_row w of
        None \<Rightarrow> (Inl (publication_error ''publication is already in progress''), w)
      | Some row \<Rightarrow>
          if pr_state row = Pub_Published then (Inr row, w)
          else if pr_state row \<notin> {Pub_Pushing, Pub_Pr_Creating} then
            (Inl (publication_error ''publication is already in progress''), w)
          else go (if pr_attempts row = 0 then 1 else pr_attempts row) w)"

definition bind_artifact ::
    "'w publication_ports \<Rightarrow> repository_mapping list \<Rightarrow> publication_task \<Rightarrow> string \<Rightarrow> string \<Rightarrow> string option
     \<Rightarrow> string option \<Rightarrow> ('w, (string \<times> string) option) publication_act" where
  "bind_artifact p ms t rid commit path blob =
     act_seq (ensure ((path = None) = (blob = None))
       (publication_error ''Artifact path and exact approved blob must be bound together''))
     (act_seq (ensure (case blob of None \<Rightarrow> True | Some b \<Rightarrow> blob_sha b)
       (publication_error ''Approved artifact blob identity is invalid''))
     (case (path, blob) of
        (Some a, Some b) \<Rightarrow>
          act_bind (validate_artifact_identity p ms (Some t) rid a) (\<lambda>(c, found).
            act_seq (ensure (c = commit \<and> found = b)
              (publication_error ''Approved artifact changed after publication binding''))
            (act_ok (Some (a, b))))
      | _ \<Rightarrow> act_ok None))"

definition publish ::
    "'w publication_ports \<Rightarrow> retry_policy \<Rightarrow> repository_mapping list \<Rightarrow> publication_task option \<Rightarrow> string \<Rightarrow> string
     \<Rightarrow> string option \<Rightarrow> string option \<Rightarrow> ('w, publication_row) publication_act" where
  "publish p y ms task rid base path blob =
     (case task of None \<Rightarrow> act_raise (publication_error ''Publication repository identity mismatch'')
      | Some t \<Rightarrow>
        (case mapping_for p ms t rid of
           None \<Rightarrow> act_raise (publication_error ''Publication repository identity mismatch'')
         | Some mp \<Rightarrow>
             if \<not> promotion_ready t then
               act_bind (upsert_publication p t \<lparr>pr_state = Pub_Blocked, pr_repository_id = rid, pr_branch = None,
                   pr_commit = None, pr_request = None, pr_error = ''Task is not promotion-ready'', pr_attempts = 0,
                   pr_blob = None\<rparr>)
                 (\<lambda>_. act_raise (publication_error ''Only a promotion-ready Friday task may be published''))
             else
               act_seq (act_bind (validate_eligibility p ms task rid) (\<lambda>_. act_ok ()))
               (act_bind (bind_artifact p ms t rid (the (pt_final_commit t)) path blob) (\<lambda>artifact.
               (let go = (\<lambda>n. publish_claimed p y mp t rid (the (pt_final_commit t)) base n artifact)
                in act_bind (claim_publication p rid (pt_branch t) (the (pt_final_commit t))) (\<lambda>claimed.
                   case claimed of None \<Rightarrow> resume_publication go | Some n \<Rightarrow> go n))))))"

section \<open>Effects of a call\<close>

text \<open>The action appends to the trace, at most \<open>k\<close> effects of the kind \<open>Q\<close> among them.\<close>

definition adds :: "(publication_effect \<Rightarrow> bool) \<Rightarrow> nat \<Rightarrow> ('w, 'a) publication_act \<Rightarrow> bool" where
  "adds Q k m \<longleftrightarrow> (\<forall>w r w'. m w = (r, w') \<longrightarrow>
     (\<exists>es. pw_trace w' = pw_trace w @ es \<and> length (filter Q es) \<le> k))"

named_theorems adds_intros \<open>effects of composed actions\<close>

lemma addsD: "adds Q k m \<Longrightarrow> m w = (r, w') \<Longrightarrow> \<exists>es. pw_trace w' = pw_trace w @ es \<and> length (filter Q es) \<le> k"
  by (simp add: adds_def)

lemma adds_same: "(\<And>w r w'. m w = (r, w') \<Longrightarrow> pw_trace w' = pw_trace w) \<Longrightarrow> adds Q k m"
  by (auto simp: adds_def)

lemma adds_ok [adds_intros]: "adds Q k (act_ok x)" "adds Q k (act_raise e)" "adds Q k (ensure b e)"
  by (auto intro!: adds_same simp: act_ok_def act_raise_def ensure_def)

lemma adds_remote [adds_intros]: "adds Q k (remote_call m)"
  by (rule adds_same) (auto simp: remote_call_def split: prod.splits)

lemma adds_note: "adds Q (if Q e then 1 else 0) (note_effect e)"
  by (auto simp: adds_def note_effect_def act_lift_def)

lemma adds_bind:
  assumes "adds Q i m" and "\<And>x. adds Q j (f x)"
  shows "adds Q (i + j) (act_bind m f)"
  unfolding adds_def
proof (intro allI impI)
  fix w r w' assume run: "act_bind m f w = (r, w')"
  obtain a v where m: "m w = (a, v)" by fastforce
  obtain es where es: "pw_trace v = pw_trace w @ es" "length (filter Q es) \<le> i" using addsD[OF assms(1) m] by blast
  show "\<exists>es. pw_trace w' = pw_trace w @ es \<and> length (filter Q es) \<le> i + j"
  proof (cases a)
    case (Inl e)
    then show ?thesis using run m es by (intro exI[of _ es]) (auto simp: act_bind_def)
  next
    case (Inr x)
    then have "f x v = (r, w')" using run m by (simp add: act_bind_def)
    from addsD[OF assms(2) this] obtain fs where "pw_trace w' = pw_trace v @ fs" "length (filter Q fs) \<le> j" by blast
    then show ?thesis using es by (intro exI[of _ "es @ fs"]) simp
  qed
qed

lemma adds_catch:
  assumes "adds Q i m" and "\<And>e. adds Q j (h e)"
  shows "adds Q (i + j) (act_catch m h)"
  unfolding adds_def
proof (intro allI impI)
  fix w r w' assume run: "act_catch m h w = (r, w')"
  obtain a v where m: "m w = (a, v)" by fastforce
  obtain es where es: "pw_trace v = pw_trace w @ es" "length (filter Q es) \<le> i" using addsD[OF assms(1) m] by blast
  show "\<exists>es. pw_trace w' = pw_trace w @ es \<and> length (filter Q es) \<le> i + j"
  proof (cases a)
    case (Inr x)
    then show ?thesis using run m es by (intro exI[of _ es]) (auto simp: act_catch_def)
  next
    case (Inl e)
    then have "h e v = (r, w')" using run m by (simp add: act_catch_def)
    from addsD[OF assms(2) this] obtain fs where "pw_trace w' = pw_trace v @ fs" "length (filter Q fs) \<le> j" by blast
    then show ?thesis using es by (intro exI[of _ "es @ fs"]) simp
  qed
qed

lemma adds_mono: "adds Q i m \<Longrightarrow> i \<le> j \<Longrightarrow> adds Q j m"
  unfolding adds_def by (meson order_trans)

lemmas adds_bind0 = adds_bind[where i = 0 and j = j for j, simplified]
  and adds_catch0 = adds_catch[where i = 0 and j = j for j, simplified]

lemma adds_loop: "adds Q i m \<Longrightarrow> adds Q (i * Suc n) (attempts_loop p y m k n)"
proof (induction n arbitrary: k)
  case (Suc n)
  have "adds Q (i + i * Suc n) (attempts_loop p y m k (Suc n))"
    unfolding attempts_loop.simps
    by (rule adds_catch[OF Suc.prems])
       (use Suc.IH[OF Suc.prems, simplified] in \<open>auto intro!: adds_bind0 adds_intros\<close>)
  then show ?case by simp
qed simp

lemma adds_retry0: "adds Q 0 m \<Longrightarrow> adds Q 0 (with_retry p y m)"
  unfolding with_retry_def using adds_loop[of Q 0] by fastforce

lemma adds_retry:
  assumes "adds Q i m" and "1 \<le> ry_max_attempts y"
  shows "adds Q (i * nat (ry_max_attempts y)) (with_retry p y m)"
proof -
  have "Suc (nat (ry_max_attempts y - 1)) = nat (ry_max_attempts y)" using assms(2) by simp
  then show ?thesis unfolding with_retry_def using adds_loop[OF assms(1)] by metis
qed

lemma adds_upsert [adds_intros]: "adds Q k (upsert_publication p t row)"
proof (rule adds_mono[of Q 0])
  show "adds Q 0 (upsert_publication p t row)"
    unfolding upsert_publication_def
    by (intro adds_bind0 adds_intros adds_same) (auto simp: Let_def)
qed simp

lemma adds_claim [adds_intros]: "adds Q k (claim_publication p rid branch commit)"
proof (rule adds_mono[of Q 0])
  show "adds Q 0 (claim_publication p rid branch commit)"
    unfolding claim_publication_def
    by (intro adds_bind0 adds_intros adds_same) (auto split: option.splits if_splits)
qed simp

text \<open>A kind of effects that reading the remote repository is not.\<close>

definition no_reads :: "(publication_effect \<Rightarrow> bool) \<Rightarrow> bool" where
  "no_reads Q \<longleftrightarrow> (\<forall>b v. \<not> Q (Saw_Branch b v)) \<and> (\<forall>a v. \<not> Q (Saw_Blob a v))"

lemma adds_read [adds_intros]: "no_reads Q \<Longrightarrow> adds Q k (read_branch p y branch)"
proof (rule adds_mono[of Q 0])
  assume Q: "no_reads Q"
  have "adds Q 0 (note_effect (Saw_Branch branch v))" for v
    using adds_note[of Q "Saw_Branch branch v"] Q by (simp add: no_reads_def)
  then show "adds Q 0 (read_branch p y branch)"
    unfolding read_branch_def by (intro adds_bind0 adds_retry0 adds_intros)
qed simp

lemma adds_push:
  assumes "1 \<le> ry_max_attempts y"
  shows "adds Q (if Q (Push_Branch branch commit) then nat (ry_max_attempts y) else 0) (push_with_retry p y branch commit)"
proof -
  let ?i = "if Q (Push_Branch branch commit) then 1 else 0"
  have "adds Q (?i + 0) (act_seq (note_effect (Push_Branch branch commit)) (remote_call (pp_push p branch commit)))"
    by (intro adds_bind adds_note adds_intros)
  then have "adds Q (?i * nat (ry_max_attempts y)) (with_retry p y
      (act_seq (note_effect (Push_Branch branch commit)) (remote_call (pp_push p branch commit))))"
    using adds_retry[OF _ assms] by fastforce
  then have "adds Q (0 + ?i * nat (ry_max_attempts y)) (push_with_retry p y branch commit)"
    unfolding push_with_retry_def by (intro adds_bind adds_intros)
  then show ?thesis by (simp split: if_splits)
qed

lemma adds_create_loop:
  "adds Q ((if Q (Create_Pull_Request branch base) then 1 else 0) * Suc n) (create_pr_loop p y branch base k n)"
proof (induction n arbitrary: k)
  case 0
  let ?i = "if Q (Create_Pull_Request branch base) then 1 else 0 :: nat"
  have "adds Q ((?i + 0) + 0) (create_pr_loop p y branch base k 0)"
    unfolding create_pr_loop.simps
    by (intro adds_catch adds_bind adds_note adds_intros)
       (auto intro!: adds_bind0 adds_retry0 adds_intros)
  then show ?case by simp
next
  case (Suc n)
  let ?i = "if Q (Create_Pull_Request branch base) then 1 else 0 :: nat"
  have "adds Q ((?i + 0) + ?i * Suc n) (create_pr_loop p y branch base k (Suc n))"
    unfolding create_pr_loop.simps
    by (intro adds_catch adds_bind adds_note adds_intros)
       (auto intro!: adds_bind0 adds_retry0 adds_intros Suc.IH adds_mono[OF Suc.IH] simp del: mult_Suc_right)
  then show ?case by simp
qed

lemma adds_create:
  assumes "1 \<le> ry_max_attempts y"
  shows "adds Q (if Q (Create_Pull_Request branch base) then nat (ry_max_attempts y) else 0)
    (create_pr_reconciled p y branch base)"
proof -
  have "Suc (nat (ry_max_attempts y - 1)) = nat (ry_max_attempts y)" using assms by simp
  then show ?thesis
    unfolding create_pr_reconciled_def
    using adds_create_loop[of Q branch base "nat (ry_max_attempts y - 1)" p y 1] by (simp split: if_splits)
qed

text \<open>The effects of the remote part, for a kind of effects that reading is not.\<close>

lemma adds_reconcile [adds_intros]: "adds Q 0 (reconcile p t row msg)"
  unfolding reconcile_def by (intro adds_bind0 adds_intros)

lemma adds_blob [adds_intros]: "no_reads Q \<Longrightarrow> adds Q 0 (verify_blob p y t rid commit n artifact)"
proof -
  assume "no_reads Q"
  then have "adds Q 0 (note_effect (Saw_Blob a v))" for a v
    using adds_note[of Q "Saw_Blob a v"] by (simp add: no_reads_def)
  then show ?thesis
    unfolding verify_blob_def by (auto intro!: adds_bind0 adds_retry0 adds_intros split: option.splits)
qed

text \<open>How many effects of the kind a call with retries can have.\<close>

definition tries :: "retry_policy \<Rightarrow> (publication_effect \<Rightarrow> bool) \<Rightarrow> publication_effect \<Rightarrow> nat" where
  "tries y Q e = (if Q e then nat (ry_max_attempts y) else 0)"

lemma adds_tail: "adds Q i m \<Longrightarrow> (\<And>x. adds Q 0 (f x)) \<Longrightarrow> adds Q i (act_bind m f)"
  using adds_bind[of Q i m 0 f] by simp

lemma adds_caught: "adds Q i m \<Longrightarrow> (\<And>e. adds Q 0 (h e)) \<Longrightarrow> adds Q i (act_catch m h)"
  using adds_catch[of Q i m 0 h] by simp

lemma adds_bootstrap:
  assumes "no_reads Q" and "1 \<le> ry_max_attempts y"
  shows "adds Q (tries y Q (Push_Branch base (pt_starting_commit t))) (bootstrap_base p y mp t commit base)"
proof -
  have "adds Q (tries y Q (Push_Branch base (pt_starting_commit t)))
     (act_seq (push_with_retry p y base (pt_starting_commit t))
      (act_bind (read_branch p y base) (\<lambda>actual. ensure (actual = Some (pt_starting_commit t))
         (publication_error ''Empty repository base bootstrap requires reconciliation''))))"
    unfolding tries_def by (intro adds_tail adds_push assms(2) adds_bind0 adds_intros assms(1))
  note push = this
  show ?thesis
    unfolding bootstrap_base_def
    by (rule adds_bind0[OF adds_retry0[OF adds_remote]], rule adds_bind0[OF adds_ok(3)],
        rule adds_bind0[OF adds_remote], rule adds_bind0[OF adds_ok(3) push])
qed

lemma adds_base:
  assumes "no_reads Q" and "1 \<le> ry_max_attempts y"
  shows "adds Q (tries y Q (Push_Branch base (pt_starting_commit t))) (ensure_base p y mp t rid commit base n sha)"
proof -
  have k: "adds Q (tries y Q (Push_Branch base (pt_starting_commit t)))
     (act_catch (bootstrap_base p y mp t commit base) (\<lambda>e.
      if is_instance e HistoryDatabaseErrorC then
        act_bind (upsert_publication p t
          (publication_record t rid commit Pub_Reconciliation_Required n (exn_msg e))) (\<lambda>_. act_raise e)
      else act_raise e))"
    by (rule adds_caught[OF adds_bootstrap[OF assms]]) (auto intro!: adds_bind0 adds_intros)
  show ?thesis
    unfolding ensure_base_def
    by (rule adds_bind0[OF adds_read[OF assms(1)]]) (auto intro!: adds_bind0 adds_intros k)
qed

lemma adds_request:
  assumes "1 \<le> ry_max_attempts y"
  shows "adds Q (tries y Q (Create_Pull_Request (pt_branch t) base)) (publish_request p y mp t rid commit base n artifact)"
proof -
  let ?k = "tries y Q (Create_Pull_Request (pt_branch t) base)"
  have create: "adds Q ?k (case found of [] \<Rightarrow> create_pr_reconciled p y (pt_branch t) base | pr # _ \<Rightarrow> act_ok pr)" for found
    using adds_create[OF assms, of Q "pt_branch t" base p] by (auto simp: tries_def intro: adds_intros split: list.splits)
  show ?thesis
    unfolding publish_request_def
    by (rule adds_bind0[OF adds_retry0[OF adds_remote]], rule adds_bind0)
       (auto intro!: adds_intros adds_tail[OF create])
qed

lemma adds_publish_remote:
  assumes "no_reads Q" and "1 \<le> ry_max_attempts y"
  shows "adds Q (tries y Q (Push_Branch base (pt_starting_commit t)) + (tries y Q (Push_Branch (pt_branch t) commit)
      + tries y Q (Create_Pull_Request (pt_branch t) base)))
    (publish_remote p y mp t rid commit base n artifact)"
proof -
  have push: "adds Q (tries y Q (Push_Branch (pt_branch t) commit))
      (if sha \<noteq> Some commit then push_with_retry p y (pt_branch t) commit else act_ok ())" for sha
    unfolding tries_def using adds_push[OF assms(2), of Q "pt_branch t" commit p] by (auto intro: adds_intros)
  have rest: "adds Q (tries y Q (Create_Pull_Request (pt_branch t) base))
    (act_bind (read_branch p y (pt_branch t)) (\<lambda>now.
     act_seq (if now \<noteq> Some commit then
         reconcile p t (publication_record t rid commit Pub_Reconciliation_Required n
           ''Remote branch does not match the approved commit'')
           ''Published branch does not match the approved commit''
       else act_ok ())
     (act_seq (verify_blob p y t rid commit n artifact)
     (act_bind (upsert_publication p t (publication_record t rid commit Pub_Pr_Creating n [])) (\<lambda>_.
       publish_request p y mp t rid commit base n artifact)))))"
    by (rule adds_bind0[OF adds_read[OF assms(1)]], rule adds_bind0)
       (auto intro!: adds_bind0[OF adds_blob[OF assms(1)]] adds_bind0[OF adds_upsert] adds_request[OF assms(2)] adds_intros)
  show ?thesis
    unfolding publish_remote_def
    by (rule adds_bind0[OF adds_read[OF assms(1)]], rule adds_bind0, simp add: adds_intros,
        rule adds_bind[OF adds_base[OF assms]], rule adds_bind[OF push rest])
qed

section \<open>What a call does to the row\<close>

definition unpublished_change :: "'w publication_world \<Rightarrow> 'w publication_world \<Rightarrow> bool" where
  "unpublished_change w w' \<longleftrightarrow> pw_row w' = pw_row w \<or> (\<exists>row. pw_row w' = Some row \<and> pr_state row \<noteq> Pub_Published)"

definition calm :: "('w, 'a) publication_act \<Rightarrow> bool" where
  "calm m \<longleftrightarrow> (\<forall>w r w'. m w = (r, w') \<longrightarrow> unpublished_change w w')"

definition honest :: "('w, 'a) publication_act \<Rightarrow> bool" where
  "honest m \<longleftrightarrow> (\<forall>w e w'. m w = (Inl e, w') \<longrightarrow> unpublished_change w w')"

named_theorems calm_intros \<open>composed actions that never write a published row\<close>

lemma unpublished_change_trans:
  "unpublished_change a b \<Longrightarrow> unpublished_change b c \<Longrightarrow> unpublished_change a c"
  by (auto simp: unpublished_change_def)

lemma calm_ok [calm_intros]: "calm (act_ok x)" "calm (act_raise e)" "calm (ensure b e)"
  by (auto simp: calm_def act_ok_def act_raise_def ensure_def unpublished_change_def)

lemma calm_remote [calm_intros]: "calm (remote_call m)"
  by (auto simp: calm_def remote_call_def unpublished_change_def split: prod.splits)

lemma calm_note [calm_intros]: "calm (note_effect e)"
  by (auto simp: calm_def note_effect_def act_lift_def unpublished_change_def)

lemma bind_honest:
  assumes "calm m" and "\<And>x. honest (f x)"
  shows "honest (act_bind m f)"
  unfolding honest_def bind_Inl
  using assms unfolding calm_def honest_def by (meson unpublished_change_trans)

lemma calm_bind [calm_intros]:
  assumes "calm m" and "\<And>x. calm (f x)"
  shows "calm (act_bind m f)"
  unfolding calm_def
proof (intro allI impI)
  fix w r w' assume run: "act_bind m f w = (r, w')"
  obtain a v where m: "m w = (a, v)" by fastforce
  have v: "unpublished_change w v" using assms(1) m unfolding calm_def by blast
  show "unpublished_change w w'"
  proof (cases a)
    case (Inr x)
    then have "f x v = (r, w')" using run m by (simp add: act_bind_def)
    then have "unpublished_change v w'" using assms(2) unfolding calm_def by blast
    with v show ?thesis by (rule unpublished_change_trans)
  qed (use run m v in \<open>simp add: act_bind_def\<close>)
qed

lemma calm_catch [calm_intros]:
  assumes "calm m" and "\<And>e. calm (h e)"
  shows "calm (act_catch m h)"
  unfolding calm_def
proof (intro allI impI)
  fix w r w' assume run: "act_catch m h w = (r, w')"
  obtain a v where m: "m w = (a, v)" by fastforce
  have v: "unpublished_change w v" using assms(1) m unfolding calm_def by blast
  show "unpublished_change w w'"
  proof (cases a)
    case (Inl e)
    then have "h e v = (r, w')" using run m by (simp add: act_catch_def)
    then have "unpublished_change v w'" using assms(2) unfolding calm_def by blast
    with v show ?thesis by (rule unpublished_change_trans)
  qed (use run m v in \<open>simp add: act_catch_def\<close>)
qed

lemma catch_honest: "honest m \<Longrightarrow> (\<And>e. calm (h e)) \<Longrightarrow> honest (act_catch m h)"
  unfolding honest_def calm_def act_catch_def by (fastforce split: prod.splits sum.splits intro: unpublished_change_trans)

lemma calm_honest: "calm m \<Longrightarrow> honest m"
  by (simp add: calm_def honest_def)

lemma calm_loop: "calm m \<Longrightarrow> calm (attempts_loop p y m k n)"
  by (induction n arbitrary: k) (auto intro!: calm_intros)

lemma calm_retry [calm_intros]: "calm m \<Longrightarrow> calm (with_retry p y m)"
  by (simp add: with_retry_def calm_loop)

lemma calm_reads [calm_intros]: "calm (read_branch p y b)" "calm (push_with_retry p y b c)"
  by (auto simp: read_branch_def push_with_retry_def intro!: calm_intros)

lemma calm_create_loop: "calm (create_pr_loop p y branch base k n)"
  by (induction n arbitrary: k) (auto intro!: calm_intros)

lemma calm_create [calm_intros]: "calm (create_pr_reconciled p y branch base)"
  by (simp add: create_pr_reconciled_def calm_create_loop)

lemma upsert_result:
  assumes "upsert_publication p t row w = (r, w')"
  shows "pw_trace w' = pw_trace w" and "r = Inl e \<Longrightarrow> pw_row w' = pw_row w"
    and "r = Inr x \<Longrightarrow> pw_row w' = Some x \<and> x = row\<lparr>pr_repository_id := pr_repository_id x, pr_error := pr_error x\<rparr>"
proof -
  obtain a v where d: "remote_call (pp_disk p) w = (a, v)" by fastforce
  have v: "pw_row v = pw_row w" "pw_trace v = pw_trace w" using d by (auto simp: remote_call_def split: prod.splits)
  show "pw_trace w' = pw_trace w" and "r = Inl e \<Longrightarrow> pw_row w' = pw_row w"
    and "r = Inr x \<Longrightarrow> pw_row w' = Some x \<and> x = row\<lparr>pr_repository_id := pr_repository_id x, pr_error := pr_error x\<rparr>"
    using assms d v
    by (cases a; auto simp: upsert_publication_def act_bind_def ensure_def act_ok_def act_raise_def Let_def
        split: if_splits option.splits)+
qed

lemma calm_upsert [calm_intros]: "pr_state row \<noteq> Pub_Published \<Longrightarrow> calm (upsert_publication p t row)"
  unfolding calm_def
proof (intro allI impI)
  fix w r w' assume n: "pr_state row \<noteq> Pub_Published" and run: "upsert_publication p t row w = (r, w')"
  show "unpublished_change w w'"
  proof (cases r)
    case (Inr x)
    then have "pw_row w' = Some x" "x = row\<lparr>pr_repository_id := pr_repository_id x, pr_error := pr_error x\<rparr>"
      using upsert_result(3)[OF run] by auto
    moreover from this(2) have "pr_state x = pr_state row" by (cases row, cases x) simp
    ultimately show ?thesis using n by (simp add: unpublished_change_def)
  qed (use upsert_result(2)[OF run] in \<open>auto simp: unpublished_change_def\<close>)
qed

lemma honest_upsert: "honest (upsert_publication p t row)"
  unfolding honest_def unpublished_change_def using upsert_result(2) by blast

lemma calm_reconcile [calm_intros]: "pr_state row \<noteq> Pub_Published \<Longrightarrow> calm (reconcile p t row msg)"
  unfolding reconcile_def by (intro calm_intros)

lemma record_state [simp]: "pr_state (publication_record t rid commit st n err) = st"
  by (simp add: publication_record_def)

lemma calm_base [calm_intros]: "calm (ensure_base p y mp t rid commit base n sha)"
  unfolding ensure_base_def bootstrap_base_def by (auto intro!: calm_intros)

lemma calm_blob [calm_intros]: "calm (verify_blob p y t rid commit n artifact)"
  unfolding verify_blob_def by (auto intro!: calm_intros split: option.splits)

lemma honest_request: "honest (publish_request p y mp t rid commit base n artifact)"
  unfolding publish_request_def
proof (intro bind_honest)
  fix found :: "pull_request list"
  show "calm (case found of [] \<Rightarrow> create_pr_reconciled p y (pt_branch t) base | pr # _ \<Rightarrow> act_ok pr)"
    by (cases found) (auto intro: calm_intros)
qed (auto intro!: calm_intros honest_upsert calm_honest)

lemma honest_remote: "honest (publish_remote p y mp t rid commit base n artifact)"
  unfolding publish_remote_def
  by (intro bind_honest honest_request) (auto intro!: calm_intros)

lemma honest_claimed: "honest (publish_claimed p y mp t rid commit base n artifact)"
  unfolding publish_claimed_def by (rule catch_honest[OF honest_remote]) (auto intro!: calm_intros)

lemma calm_claim [calm_intros]: "calm (claim_publication p rid branch commit)"
  unfolding claim_publication_def
  by (rule calm_bind[OF calm_remote])
     (auto simp: calm_def unpublished_change_def split: option.splits if_splits)

lemma calm_eligible [calm_intros]: "calm (validate_eligibility p ms task rid)"
  unfolding validate_eligibility_def by (auto intro!: calm_intros split: option.splits)

lemma calm_bind_artifact [calm_intros]: "calm (bind_artifact p ms t rid commit path blob)"
  unfolding bind_artifact_def validate_artifact_identity_def
  by (auto intro!: calm_intros split: option.splits prod.splits)

lemma honest_resume:
  assumes "\<And>n. honest (go n)"
  shows "honest (resume_publication go)"
  unfolding honest_def
proof (intro allI impI)
  fix w e w' assume run: "resume_publication go w = (Inl e, w')"
  show "unpublished_change w w'"
  proof (cases "\<exists>n. go n w = (Inl e, w')")
    case True
    then show ?thesis using assms unfolding honest_def by blast
  next
    case False
    then have "w' = w" using run by (auto simp: resume_publication_def split: option.splits if_splits)
    then show ?thesis by (simp add: unpublished_change_def)
  qed
qed

lemma honest_publish: "honest (publish p y ms task rid base path blob)"
proof (cases task)
  case None
  then show ?thesis by (simp add: publish_def calm_honest calm_intros)
next
  case (Some t)
  let ?go = "\<lambda>mp artifact n. publish_claimed p y mp t rid (the (pt_final_commit t)) base n artifact"
  have go: "honest (case claimed of None \<Rightarrow> resume_publication (?go mp artifact) | Some n \<Rightarrow> ?go mp artifact n)"
    for mp artifact claimed
    by (cases claimed) (auto intro: honest_resume honest_claimed)
  show ?thesis
  proof (cases "mapping_for p ms t rid")
    case None
    then show ?thesis using Some by (simp add: publish_def calm_honest calm_intros)
  next
    case (Some mp)
    show ?thesis
    proof (cases "promotion_ready t")
      case False
      then show ?thesis using \<open>task = Some t\<close> Some
        by (auto simp: publish_def intro!: calm_honest calm_intros)
    next
      case True
      then show ?thesis
        unfolding publish_def Let_def \<open>task = Some t\<close> option.case Some
        by (simp, intro bind_honest go) (auto intro!: calm_intros)
    qed
  qed
qed

section \<open>A published row\<close>

definition is_push :: "publication_effect \<Rightarrow> bool" where
  "is_push e \<longleftrightarrow> (\<exists>b c. e = Push_Branch b c)"

lemma no_reads_push: "no_reads is_push"
  by (simp add: no_reads_def is_push_def)

lemma no_push: "length (filter is_push es) \<le> 0 \<Longrightarrow> Push_Branch b c \<notin> set es"
  by (auto simp: filter_empty_conv is_push_def)

lemma reconcile_Inr: "reconcile p t row msg w \<noteq> (Inr x, w')"
  by (auto simp: reconcile_def bind_Inr act_raise_def)

lemma guard_Inr:
  "(if b then reconcile p t row msg else act_ok ()) w = (Inr u, w') \<longleftrightarrow> \<not> b \<and> w' = w"
  by (auto simp: reconcile_Inr ok_eq)

lemma read_branch_trace:
  assumes "read_branch p y branch w = (Inr v, w')"
  shows "\<exists>es. pw_trace w' = pw_trace w @ es @ [Saw_Branch branch v] \<and> (\<forall>b c. Push_Branch b c \<notin> set es)"
proof -
  obtain u where r: "with_retry p y (remote_call (pp_branch_sha p branch)) w = (Inr v, u)"
    "pw_trace w' = pw_trace u @ [Saw_Branch branch v]"
    using assms by (auto simp: read_branch_def run_simps note_effect_def act_lift_def)
  from addsD[OF adds_retry0[OF adds_remote[of is_push]] r(1)] r(2) no_push show ?thesis by fastforce
qed

lemma verify_blob_trace:
  assumes "verify_blob p y t rid commit n (Some (a, b)) w = (Inr u, w')"
  shows "\<exists>es. pw_trace w' = pw_trace w @ es @ [Saw_Blob a (Some b)]"
proof -
  obtain found v where r: "with_retry p y (remote_call (pp_file_blob p a (pt_branch t))) w = (Inr found, v)"
    and rest: "(if found \<noteq> Some b then
               reconcile p t ((publication_record t rid commit Pub_Reconciliation_Required n
                   ''Remote artifact content does not match approved blob'')\<lparr>pr_blob := Some b\<rparr>)
                 ''Remote artifact content does not match approved blob''
             else act_ok ()) (v\<lparr>pw_trace := pw_trace v @ [Saw_Blob a found]\<rparr>) = (Inr u, w')"
    using assms by (auto simp: verify_blob_def bind_Inr note_effect_def act_lift_def)
  then have "pw_trace w' = pw_trace v @ [Saw_Blob a (Some b)]" by (auto simp: guard_Inr)
  then show ?thesis using addsD[OF adds_retry0[OF adds_remote[of is_push]] r] by fastforce
qed

lemma publish_request_Inr:
  assumes "publish_request p y mp t rid commit base n artifact w = (Inr row, w')"
  shows "\<exists>pr. matches_pull_request p mp (pt_branch t) base commit pr \<and> pr_request row = Some pr"
    and "pw_row w' = Some row" and "pr_state row = Pub_Published" and "pr_commit row = Some commit"
    and "pr_branch row = Some (pt_branch t)" and "pr_blob row = map_option snd artifact"
proof -
  obtain pr v where m: "matches_pull_request p mp (pt_branch t) base commit pr"
    and u: "upsert_publication p t ((publication_record t rid commit Pub_Published n [])
           \<lparr>pr_request := Some pr, pr_blob := map_option snd artifact\<rparr>) v = (Inr row, w')"
    using assms by (auto simp: publish_request_def bind_Inr reconcile_Inr split: if_splits)
  note r = upsert_result(3)[OF u refl]
  from r have row: "row = ((publication_record t rid commit Pub_Published n [])
           \<lparr>pr_request := Some pr, pr_blob := map_option snd artifact\<rparr>)\<lparr>pr_repository_id := pr_repository_id row, pr_error := pr_error row\<rparr>" by simp
  show "\<exists>pr. matches_pull_request p mp (pt_branch t) base commit pr \<and> pr_request row = Some pr"
    using m by (subst row) simp
  show "pw_row w' = Some row" using r by simp
  show "pr_state row = Pub_Published" "pr_commit row = Some commit" "pr_branch row = Some (pt_branch t)"
    "pr_blob row = map_option snd artifact"
    by (subst row, simp add: publication_record_def)+
qed

text \<open>After the last look at the branch nothing is pushed any more.\<close>

definition verified_after_push ::
    "string \<Rightarrow> string \<Rightarrow> (string \<times> string) option \<Rightarrow> publication_effect list \<Rightarrow> publication_effect list \<Rightarrow> bool" where
  "verified_after_push branch commit artifact tr tr' \<longleftrightarrow>
     (\<exists>pre post. tr' = tr @ pre @ Saw_Branch branch (Some commit) # post
       \<and> (\<forall>b c. Push_Branch b c \<notin> set post)
       \<and> (case artifact of None \<Rightarrow> True | Some (a, v) \<Rightarrow> Saw_Blob a (Some v) \<in> set post))"

lemma publish_remote_Inr:
  assumes "publish_remote p y mp t rid commit base n artifact w = (Inr row, w')" and "1 \<le> ry_max_attempts y"
  shows "verified_after_push (pt_branch t) commit artifact (pw_trace w) (pw_trace w')"
    and "\<exists>v. publish_request p y mp t rid commit base n artifact v = (Inr row, w')"
proof -
  obtain sha w1 w2 w3 w4 now w5 w5' w6 w7 u3 u4 u6 x where
    s1: "read_branch p y (pt_branch t) w = (Inr sha, w1)"
    and s2: "w2 = w1" and s3: "ensure_base p y mp t rid commit base n sha w2 = (Inr u3, w3)"
    and s4: "(if sha \<noteq> Some commit then push_with_retry p y (pt_branch t) commit else act_ok ()) w3 = (Inr u4, w4)"
    and s5: "read_branch p y (pt_branch t) w4 = (Inr now, w5)"
    and now: "\<not> now \<noteq> Some commit" and s5': "w5' = w5"
    and s6: "verify_blob p y t rid commit n artifact w5' = (Inr u6, w6)"
    and s7: "upsert_publication p t (publication_record t rid commit Pub_Pr_Creating n []) w6 = (Inr x, w7)"
    and s8: "publish_request p y mp t rid commit base n artifact w7 = (Inr row, w')"
    using assms(1) unfolding publish_remote_def bind_Inr guard_Inr
    by (elim exE conjE) (rule that)
  show "\<exists>v. publish_request p y mp t rid commit base n artifact v = (Inr row, w')" using s8 by blast
  have P: "\<exists>es. pw_trace v' = pw_trace v @ es" if "adds Q k m" "m v = (r, v')" for Q k m v r v'
    using addsD[OF that] by blast
  obtain e1 where e1: "pw_trace w4 = pw_trace w @ e1"
  proof -
    have "\<exists>es. pw_trace w1 = pw_trace w @ es" using read_branch_trace[OF s1] by auto
    moreover have "\<exists>es. pw_trace w3 = pw_trace w2 @ es"
      by (rule P[OF adds_base[OF no_reads_push assms(2)] s3])
    moreover have "\<exists>es. pw_trace w4 = pw_trace w3 @ es"
      using s4 P[OF adds_push[OF assms(2), of is_push]] by (auto simp: ok_eq split: if_splits)
    ultimately show ?thesis using that s2 by auto
  qed
  obtain e2 where e2: "pw_trace w5 = pw_trace w4 @ e2 @ [Saw_Branch (pt_branch t) (Some commit)]"
    using read_branch_trace[OF s5] now by auto
  obtain e3 where e3: "pw_trace w6 = pw_trace w5' @ e3" "length (filter is_push e3) \<le> 0"
    using addsD[OF adds_blob[OF no_reads_push] s6] by blast
  have blob: "case artifact of None \<Rightarrow> True | Some (a, v) \<Rightarrow> Saw_Blob a (Some v) \<in> set e3"
  proof (cases artifact)
    case (Some av)
    obtain a v where av: "av = (a, v)" by (cases av)
    have "\<exists>es. pw_trace w6 = pw_trace w5' @ es @ [Saw_Blob a (Some v)]"
      by (rule verify_blob_trace[OF s6[unfolded Some av]])
    then show ?thesis using e3(1) Some av by auto
  qed simp
  have e4: "pw_trace w7 = pw_trace w6" using s7 upsert_result(1) by blast
  have "tries y is_push (Create_Pull_Request (pt_branch t) base) = 0" by (simp add: tries_def is_push_def)
  then obtain e5 where e5: "pw_trace w' = pw_trace w7 @ e5" "length (filter is_push e5) \<le> 0"
    using addsD[OF adds_request[OF assms(2), of is_push] s8] by auto
  have tr: "pw_trace w' = pw_trace w @ (e1 @ e2) @ Saw_Branch (pt_branch t) (Some commit) # (e3 @ e5)"
    using e1 e2 e3 e4 e5 s5' by simp
  have np: "\<forall>b c. Push_Branch b c \<notin> set (e3 @ e5)" using no_push[OF e3(2)] no_push[OF e5(2)] by simp
  have bl: "case artifact of None \<Rightarrow> True | Some (a, v) \<Rightarrow> Saw_Blob a (Some v) \<in> set (e3 @ e5)"
    using blob by (auto split: option.splits prod.splits)
  show "verified_after_push (pt_branch t) commit artifact (pw_trace w) (pw_trace w')"
    unfolding verified_after_push_def using tr np bl by blast
qed

section \<open>What a successful publication says\<close>

definition bound_artifact :: "string option \<Rightarrow> string option \<Rightarrow> (string \<times> string) option" where
  "bound_artifact path blob = (case (path, blob) of (Some a, Some b) \<Rightarrow> Some (a, b) | _ \<Rightarrow> None)"

lemma bind_artifact_Inr:
  "bind_artifact p ms t rid commit path blob w = (Inr artifact, w') \<Longrightarrow>
     artifact = bound_artifact path blob \<and> (path = None \<longleftrightarrow> blob = None)"
  by (cases path; cases blob)
     (auto simp: bind_artifact_def bound_artifact_def run_simps ensure_def act_raise_def split: if_splits prod.splits)

lemma publish_claimed_Inr:
  "publish_claimed p y mp t rid commit base n artifact w = (Inr row, w') \<Longrightarrow>
     publish_remote p y mp t rid commit base n artifact w = (Inr row, w')"
  by (auto simp: publish_claimed_def act_catch_def run_simps act_raise_def split: prod.splits sum.splits if_splits)

text \<open>What nobody can see: no effect and no published row.\<close>

definition silent :: "('w, 'a) publication_act \<Rightarrow> bool" where
  "silent m \<longleftrightarrow> calm m \<and> adds (\<lambda>_. True) 0 m"

lemma silentD: "silent m \<Longrightarrow> m w = (r, w') \<Longrightarrow> unpublished_change w w' \<and> pw_trace w' = pw_trace w"
  unfolding silent_def calm_def using addsD[of "\<lambda>_. True" 0 m w r w'] by auto

lemma silent_eligible: "silent (validate_eligibility p ms task rid)"
  unfolding silent_def
  by (intro conjI calm_intros)
     (auto simp: validate_eligibility_def intro!: adds_bind0 adds_intros split: option.splits)

lemma silent_artifact: "silent (bind_artifact p ms t rid commit path blob)"
  unfolding silent_def bind_artifact_def validate_artifact_identity_def
  using silent_eligible unfolding silent_def
  by (auto intro!: calm_intros adds_bind0 adds_intros split: option.splits prod.splits)

lemma silent_claim: "silent (claim_publication p rid branch commit)"
  unfolding silent_def by (intro conjI calm_intros adds_intros)

lemma publish_InrE:
  assumes "publish p y ms task rid base path blob w = (Inr row, w')"
  obtains t mp v claimed where "task = Some t" and "mapping_for p ms t rid = Some mp" and "promotion_ready t"
    and "unpublished_change w v" and "pw_trace v = pw_trace w"
    and "(case claimed of
          None \<Rightarrow> resume_publication (\<lambda>n. publish_claimed p y mp t rid (the (pt_final_commit t)) base n (bound_artifact path blob))
        | Some n \<Rightarrow> publish_claimed p y mp t rid (the (pt_final_commit t)) base n (bound_artifact path blob)) v = (Inr row, w')"
    and "path = None \<longleftrightarrow> blob = None"
proof -
  obtain t where t: "task = Some t" using assms by (cases task) (auto simp: publish_def act_raise_def)
  obtain mp where mp: "mapping_for p ms t rid = Some mp"
    using assms t by (cases "mapping_for p ms t rid") (auto simp: publish_def act_raise_def)
  have ready: "promotion_ready t"
  proof (rule ccontr)
    assume "\<not> promotion_ready t"
    then show False using assms t mp by (simp add: publish_def bind_Inr act_raise_def)
  qed
  let ?go = "\<lambda>artifact n. publish_claimed p y mp t rid (the (pt_final_commit t)) base n artifact"
  obtain x w1 artifact w2 claimed v where
    s1: "validate_eligibility p ms task rid w = (Inr x, w1)"
    and s2: "bind_artifact p ms t rid (the (pt_final_commit t)) path blob w1 = (Inr artifact, w2)"
    and s3: "claim_publication p rid (pt_branch t) (the (pt_final_commit t)) w2 = (Inr claimed, v)"
    and s4: "(case claimed of None \<Rightarrow> resume_publication (?go artifact) | Some n \<Rightarrow> ?go artifact n) v = (Inr row, w')"
    using assms unfolding t by (simp add: publish_def mp ready Let_def) (auto simp: bind_Inr ok_eq)
  note q = silentD[OF silent_eligible s1] silentD[OF silent_artifact s2] silentD[OF silent_claim s3]
  have "unpublished_change w v" using q by (meson unpublished_change_trans)
  moreover have "pw_trace v = pw_trace w" using q by simp
  ultimately show thesis using that t mp ready s4 bind_artifact_Inr[OF s2] by blast
qed

lemma resume_cases:
  assumes "resume_publication go w = (Inr row, w')"
  obtains "pw_row w = Some row" and "pr_state row = Pub_Published" and "w' = w"
  | n where "go n w = (Inr row, w')"
  using assms by (auto simp: resume_publication_def split: option.splits if_splits)

section \<open>Bounds and failures\<close>

definition is_create :: "publication_effect \<Rightarrow> bool" where
  "is_create e \<longleftrightarrow> (\<exists>b c. e = Create_Pull_Request b c)"

definition is_read :: "publication_effect \<Rightarrow> bool" where
  "is_read e \<longleftrightarrow> (\<exists>b v. e = Saw_Branch b v) \<or> (\<exists>a v. e = Saw_Blob a v)"

definition allowed_effects :: "publication_task \<Rightarrow> string \<Rightarrow> publication_effect list" where
  "allowed_effects t base =
     [Push_Branch base (pt_starting_commit t), Push_Branch (pt_branch t) (the (pt_final_commit t)),
      Create_Pull_Request (pt_branch t) base]"

definition publication_tries :: "retry_policy \<Rightarrow> (publication_effect \<Rightarrow> bool) \<Rightarrow> publication_task \<Rightarrow> string \<Rightarrow> nat" where
  "publication_tries y Q t base = sum_list (map (tries y Q) (allowed_effects t base))"

lemma adds_claimed:
  assumes "no_reads Q" and "1 \<le> ry_max_attempts y"
  shows "adds Q (publication_tries y Q t base)
    (publish_claimed p y mp t rid (the (pt_final_commit t)) base n artifact)"
  unfolding publish_claimed_def
  by (rule adds_caught[OF adds_mono[OF adds_publish_remote[OF assms]]])
     (auto simp: publication_tries_def allowed_effects_def intro!: adds_bind0 adds_intros)

lemma adds_resume:
  assumes "\<And>n. adds Q k (go n)"
  shows "adds Q k (resume_publication go)"
  unfolding adds_def
proof (intro allI impI)
  fix w r w' assume run: "resume_publication go w = (r, w')"
  then consider "w' = w" | n where "go n w = (r, w')"
    by (auto simp: resume_publication_def split: option.splits if_splits)
  then show "\<exists>es. pw_trace w' = pw_trace w @ es \<and> length (filter Q es) \<le> k"
    by cases (use assms in \<open>auto dest: addsD\<close>)
qed

lemma adds_silent: "silent m \<Longrightarrow> adds Q 0 m"
  unfolding silent_def adds_def by fastforce

lemma adds_publish:
  assumes "no_reads Q" and "1 \<le> ry_max_attempts y"
  shows "adds Q (publication_tries y Q t base) (publish p y ms (Some t) rid base path blob)"
proof (cases "mapping_for p ms t rid")
  case None
  then show ?thesis by (simp add: publish_def adds_intros)
next
  case (Some mp)
  let ?go = "\<lambda>artifact n. publish_claimed p y mp t rid (the (pt_final_commit t)) base n artifact"
  have go: "adds Q (publication_tries y Q t base)
      (case claimed of None \<Rightarrow> resume_publication (?go artifact) | Some n \<Rightarrow> ?go artifact n)" for artifact claimed
    by (cases claimed) (auto intro: adds_resume adds_claimed[OF assms])
  show ?thesis
  proof (cases "promotion_ready t")
    case False
    then show ?thesis using Some by (auto simp: publish_def intro!: adds_bind0 adds_intros)
  next
    case True
    show ?thesis
      unfolding publish_def option.case Some Let_def
      by (simp add: True, intro adds_bind0 go adds_silent silent_eligible silent_artifact silent_claim adds_intros)
  qed
qed

text \<open>C24: what a publication may do to the remote repository. Whatever the calls answer and raise, the
  call pushes only the task's final commit to the task's branch and, into an empty repository, the
  starting commit to the base, each at most as often as the policy allows, and opens pull requests
  only from that branch to that base, at most as often. When it raises, no row in the state
  published was written: the row is the one from before or has another state.
\<close>

theorem publication_effects_bounded:
  assumes "publish p y ms (Some t) rid base path blob w = (r, w')" and "1 \<le> ry_max_attempts y"
  shows "\<exists>es. pw_trace w' = pw_trace w @ es
    \<and> (\<forall>e \<in> set es. e \<in> set (allowed_effects t base) \<or> is_read e)
    \<and> length (filter is_push es) \<le> 2 * nat (ry_max_attempts y)
    \<and> length (filter is_create es) \<le> nat (ry_max_attempts y)
    \<and> (\<forall>e. r = Inl e \<longrightarrow> pw_row w' = pw_row w \<or> (\<exists>row. pw_row w' = Some row \<and> pr_state row \<noteq> Pub_Published))"
proof -
  let ?other = "\<lambda>e. e \<notin> set (allowed_effects t base) \<and> \<not> is_read e"
  have Q: "\<exists>es. pw_trace w' = pw_trace w @ es \<and> length (filter Q es) \<le> publication_tries y Q t base"
    if "no_reads Q" for Q
    by (rule addsD[OF adds_publish[OF that assms(2)] assms(1)])
  have reads: "no_reads is_push" "no_reads is_create" "no_reads ?other"
    by (auto simp: no_reads_def is_push_def is_create_def is_read_def)
  have tries: "publication_tries y is_push t base = 2 * nat (ry_max_attempts y)"
    "publication_tries y is_create t base = nat (ry_max_attempts y)" "publication_tries y ?other t base = 0"
    by (auto simp: publication_tries_def tries_def allowed_effects_def is_push_def is_create_def)
  from Q[OF reads(1)] obtain es where es: "pw_trace w' = pw_trace w @ es" "length (filter is_push es) \<le> 2 * nat (ry_max_attempts y)"
    unfolding tries by blast
  have "length (filter is_create es) \<le> nat (ry_max_attempts y)" using Q[OF reads(2)] es(1) unfolding tries by auto
  moreover have "filter ?other es = []" using Q[OF reads(3)] es(1) unfolding tries by auto
  moreover have "unpublished_change w w'" if "r = Inl e" for e
    using honest_publish assms(1) that unfolding honest_def by blast
  ultimately show ?thesis using es by (auto simp: filter_empty_conv unpublished_change_def)
qed

section \<open>A publication that runs\<close>

text \<open>The remote repository is its task branch; pushing sets it and the disk never fails.\<close>

definition sample_pull_request :: pull_request where
  "sample_pull_request = \<lparr>pq_id = ''7'', pq_number = Some 1,
     pq_url = Some \<lparr>pu_scheme = ''https'', pu_user = False, pu_host = Some ''github.com'', pu_path = ''/o/r/pull/1''\<rparr>,
     pq_head = \<lparr>pf_ref = None, pf_sha = None, pf_full_name = []\<rparr>,
     pq_base = \<lparr>pf_ref = None, pf_sha = None, pf_full_name = []\<rparr>,
     pq_repo = Some (''o'', ''r''), pq_head_sha = Some ''c1''\<rparr>"

definition sample_ports :: "string option publication_ports" where
  "sample_ports = \<lparr>pp_resolve = (\<lambda>s. s), pp_casefold = (\<lambda>s. s), pp_redact = (\<lambda>s. s), pp_host = ''github.com'',
     pp_remote = (\<lambda>_. act_ok \<lparr>pu_scheme = ''https'', pu_user = False, pu_host = Some ''github.com'', pu_path = ''/o/r.git''\<rparr>),
     pp_blob_of = (\<lambda>_ _. act_ok ''b''),
     pp_branch_sha = (\<lambda>b w. (Inr (if b = ''main'' then Some ''c0'' else w), w)),
     pp_file_blob = (\<lambda>_ _. act_ok None),
     pp_repository = act_ok \<lparr>rd_full_name = ''o/r'', rd_default_branch = ''main'', rd_size = 0\<rparr>,
     pp_is_ancestor = (\<lambda>_ _. act_ok True), pp_credential = act_ok (),
     pp_push = (\<lambda>_ c _. (Inr (), Some c)), pp_find = (\<lambda>_. act_ok []),
     pp_create = (\<lambda>_ _. act_ok sample_pull_request), pp_sleep = (\<lambda>_. act_ok ()), pp_disk = act_ok ()\<rparr>"

definition sample_publication :: publication_task where
  "sample_publication = \<lparr>pt_id = ''t'', pt_repository = ''/r'', pt_branch = ''friday/task/t'', pt_starting_commit = ''c0'',
     pt_final_commit = Some ''c1'', pt_succeeded = True\<rparr>"

definition sample_mapping :: repository_mapping where
  "sample_mapping = \<lparr>rm_repository_id = ''r1'', rm_local_path = ''/r'', rm_owner = ''o'', rm_name = ''r''\<rparr>"

definition sample_policy :: retry_policy where
  "sample_policy = \<lparr>ry_max_attempts = 1, ry_initial = 0, ry_max = 0\<rparr>"

definition sample_publish :: "publication_row option \<Rightarrow> (exn + publication_row) \<times> string option publication_world" where
  "sample_publish row = publish sample_ports sample_policy [sample_mapping] (Some sample_publication) ''r1'' ''main'' None None
     \<lparr>pw_world = None, pw_row = row, pw_trace = []\<rparr>"

definition sample_effects :: "publication_effect list" where
  "sample_effects = [Saw_Branch ''friday/task/t'' None, Saw_Branch ''main'' (Some ''c0''), Push_Branch ''friday/task/t'' ''c1'',
     Saw_Branch ''friday/task/t'' (Some ''c1''), Create_Pull_Request ''friday/task/t'' ''main'']"

definition sample_row :: "publication_state \<Rightarrow> pull_request option \<Rightarrow> publication_row" where
  "sample_row st pr = \<lparr>pr_state = st, pr_repository_id = ''r1'', pr_branch = Some ''friday/task/t'', pr_commit = Some ''c1'',
     pr_request = pr, pr_error = [], pr_attempts = 1, pr_blob = None\<rparr>"

lemma sample_runs:
  "sample_publish None = (Inr (sample_row Pub_Published (Some sample_pull_request)),
     \<lparr>pw_world = Some ''c1'', pw_row = Some (sample_row Pub_Published (Some sample_pull_request)), pw_trace = sample_effects\<rparr>)"
  by code_simp


text \<open>
  The claim does not keep a second publisher out: it is refused, but the row of the first one, still
  in the state pushing, lets the second call push and open a pull request beside it.
\<close>

lemma second_publisher_proceeds:
  "claim_publication sample_ports ''r1'' ''friday/task/t'' ''c1''
     \<lparr>pw_world = None, pw_row = Some (sample_row Pub_Pushing None), pw_trace = []\<rparr>
   = (Inr None, \<lparr>pw_world = None, pw_row = Some (sample_row Pub_Pushing None), pw_trace = []\<rparr>)"
  "pw_trace (snd (sample_publish (Some (sample_row Pub_Pushing None)))) = sample_effects"
  by code_simp+


theorem publication_effects_bounded_witness:
  "length (filter is_push sample_effects) \<le> 2 \<and> length (filter is_create sample_effects) \<le> 1"
proof -
  have run: "publish sample_ports sample_policy [sample_mapping] (Some sample_publication) ''r1'' ''main'' None None
     \<lparr>pw_world = None, pw_row = None, pw_trace = []\<rparr>
    = (Inr (sample_row Pub_Published (Some sample_pull_request)),
       \<lparr>pw_world = Some ''c1'', pw_row = Some (sample_row Pub_Published (Some sample_pull_request)), pw_trace = sample_effects\<rparr>)"
    using sample_runs by (simp add: sample_publish_def)
  show ?thesis
    using publication_effects_bounded[OF run] by (simp add: sample_policy_def)
qed

end
