(* ===== verification/Validation.thy ===== *)
theory Validation
  imports Patch_Guard Complex_Main
begin

text \<open>
  Validation of a change: the records of \<open>validation/models.py\<close>, the classification of failures
  (\<open>failures.py\<close>), the final decision (\<open>decision.py\<close>) and the detection of the validation steps
  of a plan (\<open>detection.py\<close>). What the repository holds and the tables of Unicode are inputs.
\<close>

section \<open>Records\<close>

datatype requirement = Required | Recommended | Optional

datatype validation_kind =
  Kind_Structural | Kind_Test | Kind_Lint | Kind_Typecheck | Kind_Build | Kind_Security | Kind_Advisory

datatype failure_category =
    Cat_Syntax | Cat_Import | Cat_Runtime | Cat_Attribute | Cat_Transport | Cat_Model_Response | Cat_Schema
  | Cat_Subprocess | Cat_Type | Cat_Lint | Cat_Assertion | Cat_Regression | Cat_Flaky | Cat_Timeout | Cat_Build
  | Cat_Dependency | Cat_Environment | Cat_Scope_Violation | Cat_Security | Cat_Infrastructure | Cat_Unknown

datatype review_severity = Sev_Info | Sev_Low | Sev_Medium | Sev_High | Sev_Critical

datatype decision_status =
  Dec_Pass | Dec_Pass_With_Warnings | Dec_Repair_Required | Dec_Reapproval_Required | Dec_Blocked | Dec_Failed

record validation_step =
  vs_id :: pystr
  vs_kind :: validation_kind
  vs_requirement :: requirement
  vs_command :: "pystr option"
  vs_reason :: pystr
  vs_targeted :: bool
  vs_tool :: "pystr option"
  vs_timeout :: int
  vs_files :: "pystr list"
  vs_symbols :: "pystr list"

record validation_plan =
  va_id :: pystr
  va_task :: pystr
  va_hash :: pystr
  va_repository :: pystr
  va_commit :: pystr
  va_risk :: pystr
  va_files :: "pystr list"
  va_symbols :: "pystr list"
  va_targeted :: "validation_step list"
  va_final :: "validation_step list"
  va_timeouts :: "(pystr \<times> int) list"
  va_tdd :: bool
  va_configuration :: pystr

record validation_result =
  vr_step :: pystr
  vr_success :: bool
  vr_skipped :: bool
  vr_code :: "int option"
  vr_summary :: pystr
  vr_output :: pystr
  vr_cached :: bool

record review_finding =
  rf_category :: pystr
  rf_severity :: review_severity
  rf_path :: "pystr option"
  rf_rationale :: pystr
  rf_blocking :: bool
  rf_check :: pystr

record final_decision =
  fd_status :: decision_status
  fd_reasons :: "pystr list"
  fd_evidence :: "pystr list"

section \<open>Failures\<close>

text \<open>The reasons and the notes about flaky runs are texts for display; they are left out.\<close>

record failure_record =
  fl_category :: failure_category
  fl_command :: pystr
  fl_exit :: "int option"
  fl_output :: pystr
  fl_tests :: "pystr list"
  fl_confidence :: real
  fl_repair :: bool
  fl_diagnostic :: pystr
  fl_disposition :: pystr

definition has_any :: "string list \<Rightarrow> pystr \<Rightarrow> bool" where
  "has_any ps s \<longleftrightarrow> list_ex (\<lambda>p. has_part (lit p) s) ps"

text \<open>\<open>re.search(r, s)\<close>, and the same for a pattern that starts with \<open>\b\<close> and a word character.\<close>

definition rx_search :: "rx \<Rightarrow> pystr \<Rightarrow> bool" where
  "rx_search r s \<longleftrightarrow> list_ex (\<lambda>i. rests r (drop i s) \<noteq> []) [0..<Suc (length s)]"

definition word_starts :: "text_db \<Rightarrow> pystr \<Rightarrow> nat list" where
  "word_starts db s = filter (\<lambda>i. i = 0 \<or> \<not> td_word db (s ! (i - 1))) [0..<length s]"

definition word_search :: "text_db \<Rightarrow> rx \<Rightarrow> pystr \<Rightarrow> bool" where
  "word_search db r s \<longleftrightarrow> list_ex (\<lambda>i. rests r (drop i s) \<noteq> []) (word_starts db s)"

definition in_line :: rx where "in_line = Ch (\<lambda>c. c \<noteq> 10)"

definition name_error_rx :: rx where
  "name_error_rx = seq_of [Str (lit ''nameerror:''), spaces, Str (lit ''name ''), plus1 in_line, Str (lit '' is not defined'')]"

text \<open>\<open>failed\b.*assert\<close>: the boundary means that a character of the line follows that is not of a word.\<close>

definition failed_assert_rx :: "text_db \<Rightarrow> rx" where
  "failed_assert_rx db =
     seq_of [Str (lit ''failed''), Ch (\<lambda>c. c \<noteq> 10 \<and> \<not> td_word db c), Star in_line, Str (lit ''assert'')]"

definition expected_rx :: rx where
  "expected_rx = seq_of [Str (lit ''expected ''), Star in_line, Str (lit '' ''), alt_of [''but'', ''got'']]"

text \<open>The tests in the order of the branches; the first that holds decides.\<close>

definition failure_signals ::
    "text_db \<Rightarrow> pystr \<Rightarrow> int option \<Rightarrow> bool \<Rightarrow> pystr \<Rightarrow> (bool \<times> failure_category \<times> real) list" where
  "failure_signals db command code timed_out lower =
    [(has_any [''scope violation'', ''outside approved scope''] lower, Cat_Scope_Violation, 98 / 100),
     (has_any [''secret detected'', ''security finding'', ''vulnerability''] lower, Cat_Security, 9 / 10),
     (has_any [''connection refused'', ''network is unreachable'', ''connection reset''] lower, Cat_Transport, 9 / 10),
     (has_any [''disk full'', ''no space left on device'', ''permission denied''] lower, Cat_Infrastructure, 9 / 10),
     (has_any [''command not found'', ''bwrap: execvp'', ''not installed''] lower, Cat_Environment, 9 / 10),
     (timed_out \<or> has_any [''timed out''] lower, Cat_Timeout, 95 / 100),
     (has_any [''syntaxerror'', ''indentationerror'', ''cannot compile''] lower, Cat_Syntax, 95 / 100),
     (has_any [''modulenotfounderror'', ''importerror'', ''cannot import''] lower, Cat_Import, 92 / 100),
     (word_search db name_error_rx lower, Cat_Runtime, 9 / 10),
     (word_search db (Str (lit ''attributeerror:'')) lower, Cat_Attribute, 9 / 10),
     (word_search db (Str (lit ''typeerror:'')) lower, Cat_Type, 9 / 10),
     (has_any [''malformed llm response'', ''malformed model response'', ''malformed repair response'',
        ''truncated llm response'', ''truncated model response''] lower, Cat_Model_Response, 9 / 10),
     (has_any [''schema validation'', ''schema-invalid''] lower, Cat_Schema, 9 / 10),
     (has_any [''assertionerror''] lower \<or> word_search db (failed_assert_rx db) lower \<or> rx_search expected_rx lower,
      Cat_Assertion, 88 / 100),
     (has_any [''scope violation'', ''outside approved scope''] lower, Cat_Scope_Violation, 98 / 100),
     (has_any [''secret detected'', ''security finding'', ''vulnerability''] lower, Cat_Security, 9 / 10),
     (has_any [''dependency conflict'', ''resolution failed'', ''lockfile''] lower, Cat_Dependency, 85 / 100),
     (has_any [''command not found'', ''no such file or directory'', ''not installed''] lower, Cat_Environment, 9 / 10),
     (has_any [''connection refused'', ''network is unreachable'', ''disk full'', ''permission denied''] lower,
      Cat_Infrastructure, 85 / 100),
     (has_any [''regression'', ''previously passing''] lower, Cat_Regression, 8 / 10),
     (has_any [''mypy'', ''pyright''] command \<or> has_any [''type error'', ''incompatible type''] lower, Cat_Type, 85 / 100),
     (has_any [''ruff'', ''eslint'', ''clippy'', ''shellcheck''] command, Cat_Lint, 85 / 100),
     (has_any [''cargo check'', ''forge build'', ''tsc''] command \<or> has_any [''build failed''] lower, Cat_Build, 85 / 100),
     (code \<notin> {None, Some 0}, Cat_Subprocess, 6 / 10)]"

definition repairable_category :: "failure_category \<Rightarrow> bool" where
  "repairable_category c \<longleftrightarrow> c \<notin> {Cat_Environment, Cat_Infrastructure, Cat_Scope_Violation, Cat_Security, Cat_Flaky,
     Cat_Timeout, Cat_Unknown, Cat_Transport, Cat_Model_Response, Cat_Schema, Cat_Subprocess}"

definition failure_disposition :: "failure_category \<Rightarrow> string" where
  "failure_disposition c =
     (if c \<in> {Cat_Scope_Violation, Cat_Security} then ''policy-blocked''
      else if c \<in> {Cat_Infrastructure, Cat_Environment, Cat_Transport} then ''infrastructure-recoverable''
      else if c \<in> {Cat_Model_Response, Cat_Schema} then ''retryable''
      else if repairable_category c then ''repairable'' else ''fatal'')"

fun category_value :: "failure_category \<Rightarrow> string" where
  "category_value Cat_Syntax = ''syntax''" | "category_value Cat_Import = ''import''"
| "category_value Cat_Runtime = ''runtime''" | "category_value Cat_Attribute = ''attribute''"
| "category_value Cat_Transport = ''transport''" | "category_value Cat_Model_Response = ''model_response''"
| "category_value Cat_Schema = ''schema''" | "category_value Cat_Subprocess = ''subprocess''"
| "category_value Cat_Type = ''type''" | "category_value Cat_Lint = ''lint''"
| "category_value Cat_Assertion = ''assertion''" | "category_value Cat_Regression = ''regression''"
| "category_value Cat_Flaky = ''flaky''" | "category_value Cat_Timeout = ''timeout''"
| "category_value Cat_Build = ''build''" | "category_value Cat_Dependency = ''dependency''"
| "category_value Cat_Environment = ''environment''" | "category_value Cat_Scope_Violation = ''scope_violation''"
| "category_value Cat_Security = ''security''" | "category_value Cat_Infrastructure = ''infrastructure''"
| "category_value Cat_Unknown = ''unknown''"

text \<open>\<open>re.findall\<close> for a pattern that matches no empty text.\<close>

function findall :: "rx \<Rightarrow> pystr \<Rightarrow> pystr list" where
  "findall r [] = []"
| "findall r (c # s) =
     (case rests r (c # s) of [] \<Rightarrow> findall r s
      | t # _ \<Rightarrow> take (Suc (length s) - length t) (c # s) # findall r (if length t \<le> length s then t else s))"
  by pat_completeness auto
termination by (relation "measure (length \<circ> snd)") auto

definition test_name_rx :: rx where
  "test_name_rx =
     Alt (seq_of [Str (lit ''test''), Opt (Str (lit ''s'')), Str [slash], plus1 (Ch (\<lambda>c. \<not> py_isspace c \<and> c \<noteq> 58))])
         (seq_of [plus1 (Ch (\<lambda>c. name_start c \<or> 48 \<le> c \<and> c \<le> 57 \<or> c \<in> {46, slash, 45})), Str (lit ''::test_''),
           plus1 (Ch (\<lambda>c. name_start c \<or> 48 \<le> c \<and> c \<le> 57))])"

definition exception_names :: "string list" where
  "exception_names = [''NameError'', ''TypeError'', ''AttributeError'', ''SyntaxError'', ''IndentationError'',
     ''ImportError'', ''ModuleNotFoundError'', ''AssertionError'']"

definition named_exception :: "text_db \<Rightarrow> pystr \<Rightarrow> pystr option" where
  "named_exception db s =
     first (concat (map (\<lambda>i. map lit (filter (\<lambda>n. starts_with (lit n @ [58]) (drop i s)) exception_names)) (word_starts db s)))"

definition classify_failure ::
    "text_db \<Rightarrow> (pystr \<Rightarrow> pystr) \<Rightarrow> pystr \<Rightarrow> int option \<Rightarrow> pystr \<Rightarrow> bool \<Rightarrow> nat \<Rightarrow> nat \<Rightarrow> failure_record" where
  "classify_failure db redact command code output timed_out passes reruns =
     (let shown = drop (length output - 20000) output;
          found = (case find fst (failure_signals db command code timed_out (td_lower db shown)) of
            None \<Rightarrow> (Cat_Unknown, 45 / 100) | Some (_, c, r) \<Rightarrow> (c, r));
          (category, confidence) =
            (if 2 \<le> reruns \<and> 2 \<le> passes then (Cat_Flaky, min (8 / 10) (55 / 100 + real passes / 10)) else found)
      in \<lparr>fl_category = category, fl_command = command, fl_exit = code, fl_output = redact shown,
          fl_tests = dedup (findall test_name_rx shown), fl_confidence = confidence,
          fl_repair = repairable_category category,
          fl_diagnostic = (case named_exception db shown of Some n \<Rightarrow> n | None \<Rightarrow> lit (category_value category)),
          fl_disposition = lit (failure_disposition category)\<rparr>)"

section \<open>Decisions\<close>

definition required_ids :: "validation_plan \<Rightarrow> pystr list" where
  "required_ids p = map vs_id (filter (\<lambda>s. vs_requirement s = Required) (va_targeted p @ va_final p))"

text \<open>The dictionary of the results by step keeps the last result of a step.\<close>

definition result_of :: "validation_result list \<Rightarrow> pystr \<Rightarrow> validation_result option" where
  "result_of rs i = find (\<lambda>r. vr_step r = i) (rev rs)"

definition passed :: "validation_result \<Rightarrow> bool" where
  "passed r \<longleftrightarrow> vr_success r \<and> \<not> vr_skipped r"

definition decide_final ::
    "validation_plan \<Rightarrow> validation_result list \<Rightarrow> review_finding list \<Rightarrow> bool \<Rightarrow> bool \<Rightarrow> final_decision" where
  "decide_final p results findings scope_violation reapproval =
     (if scope_violation \<or> reapproval then
        \<lparr>fd_status = Dec_Reapproval_Required, fd_reasons = [lit ''Approved scope or risk must expand.''],
         fd_evidence = [lit ''scope_guard'']\<rparr>
      else
        let required = required_ids p;
            missing = sort (remdups (filter (\<lambda>i. result_of results i = None) required));
            failed = sort (remdups (filter (\<lambda>i. \<exists>r \<in> set_option (result_of results i). \<not> passed r) required));
            blocking = filter rf_blocking findings
        in if missing \<noteq> [] \<or> failed \<noteq> [] then
             \<lparr>fd_status = Dec_Failed,
              fd_reasons = map (\<lambda>i. lit ''Required validation missing: '' @ i) missing
                @ map (\<lambda>i. lit ''Required validation failed: '' @ i) failed,
              fd_evidence = missing @ failed\<rparr>
           else if blocking \<noteq> [] then
             \<lparr>fd_status = Dec_Blocked,
              fd_reasons = map (\<lambda>f. lit ''Blocking '' @ rf_category f @ lit '': '' @ rf_rationale f) blocking,
              fd_evidence = map rf_check blocking\<rparr>
           else
             let other = filter (\<lambda>r. \<not> passed r \<and> vr_step r \<notin> set required) results;
                 warnings = filter (\<lambda>f. rf_severity f \<in> {Sev_Low, Sev_Medium}) findings
             in \<lparr>fd_status = (if warnings \<noteq> [] \<or> other \<noteq> [] then Dec_Pass_With_Warnings else Dec_Pass),
                 fd_reasons = lit ''All deterministic required gates passed.''
                   # map (\<lambda>r. lit ''Non-required validation did not pass: '' @ vr_step r) other,
                 fd_evidence = map rf_check warnings @ map vr_step other\<rparr>)"

definition repair_decision :: "failure_category \<Rightarrow> nat \<Rightarrow> nat \<Rightarrow> bool \<Rightarrow> bool \<Rightarrow> bool \<Rightarrow> decision_status" where
  "repair_decision c attempts max_attempts repeated scope_increase risk_increase =
     (if scope_increase \<or> risk_increase then Dec_Reapproval_Required
      else if c \<in> {Cat_Environment, Cat_Infrastructure, Cat_Security, Cat_Scope_Violation, Cat_Flaky, Cat_Timeout,
          Cat_Transport, Cat_Model_Response, Cat_Schema, Cat_Subprocess, Cat_Unknown} then Dec_Blocked
      else if repeated \<or> max_attempts \<le> attempts then Dec_Failed
      else Dec_Repair_Required)"

section \<open>Detection\<close>

text \<open>What the functions look up in the repository; a file that cannot be read is the empty text.\<close>

record repository_facts =
  re_file :: "pystr \<Rightarrow> bool"
  re_directory :: "pystr \<Rightarrow> bool"
  re_exists :: "pystr \<Rightarrow> bool"
  re_text :: "pystr \<Rightarrow> pystr"
  re_files :: "pystr list"
  re_scripts :: "pystr list option"

datatype risk_level = Risk_Low | Risk_Medium | Risk_High | Risk_Critical

record implementation_plan =
  im_task :: pystr
  im_token :: pystr
  im_modify :: "pystr list"
  im_create :: "pystr list"
  im_delete :: "pystr list"
  im_tests :: "(pystr \<times> pystr) list"
  im_symbols :: "pystr list"
  im_commands :: "pystr list"
  im_risk :: risk_level

definition alnum :: "text_db \<Rightarrow> nat \<Rightarrow> bool" where
  "alnum db c \<longleftrightarrow> td_word db c \<and> c \<noteq> 95"

definition slug :: "text_db \<Rightarrow> pystr \<Rightarrow> pystr" where
  "slug db s =
     (let dashed = map (\<lambda>c. if alnum db c then c else 45) s
      in rev (dropWhile (\<lambda>c. c = 45) (rev (dropWhile (\<lambda>c. c = 45) dashed))))"

text \<open>\<open>str(n)\<close>\<close>

fun decimal_text :: "nat \<Rightarrow> pystr" where
  "decimal_text n = (if n < 10 then [48 + n] else decimal_text (n div 10) @ [48 + n mod 10])"

declare decimal_text.simps [simp del]

text \<open>\<open>command.split()[0]\<close>; a command of blanks alone, which would raise there, has the empty word.\<close>

definition first_word :: "pystr \<Rightarrow> pystr" where
  "first_word s = takeWhile (\<lambda>c. \<not> py_isspace c) (lstrip s)"

definition make_step ::
    "pystr \<Rightarrow> validation_kind \<Rightarrow> requirement \<Rightarrow> pystr option \<Rightarrow> pystr \<Rightarrow> bool \<Rightarrow> pystr list \<Rightarrow> pystr list
     \<Rightarrow> validation_step" where
  "make_step i k q command reason targeted files symbols =
     \<lparr>vs_id = i, vs_kind = k, vs_requirement = q, vs_command = command, vs_reason = reason, vs_targeted = targeted,
      vs_tool = (case command of None \<Rightarrow> None | Some c \<Rightarrow> if c = [] then None else Some (first_word c)),
      vs_timeout = (if k \<in> {Kind_Test, Kind_Build} then 900 else 300), vs_files = files, vs_symbols = symbols\<rparr>"

definition plain_step :: "string \<Rightarrow> validation_kind \<Rightarrow> requirement \<Rightarrow> string \<Rightarrow> string \<Rightarrow> validation_step" where
  "plain_step i k q command reason = make_step (lit i) k q (Some (lit command)) (lit reason) False [] []"

definition has_pytest :: "repository_facts \<Rightarrow> bool" where
  "has_pytest f \<longleftrightarrow> re_directory f (lit ''tests'') \<or> re_file f (lit ''pytest.ini'') \<or> re_file f (lit ''tox.ini'')
     \<or> has_part (lit ''pytest'') (re_text f (lit ''pyproject.toml''))"

definition node_manager :: "repository_facts \<Rightarrow> string" where
  "node_manager f = (if re_file f (lit ''pnpm-lock.yaml'') then ''pnpm'' else if re_file f (lit ''yarn.lock'') then ''yarn'' else ''npm'')"

definition python_steps :: "repository_facts \<Rightarrow> validation_step list" where
  "python_steps f =
     (let pyproject = re_text f (lit ''pyproject.toml'');
          coverage = has_part (lit ''[tool.coverage'') pyproject \<or> re_file f (lit ''.coveragerc'')
      in plain_step ''python-compile'' Kind_Structural Required ''python -m compileall -q .''
           ''Python files require deterministic syntax compilation.''
         # (if has_pytest f then
              [if coverage then plain_step ''pytest-full'' Kind_Test Recommended ''python -m pytest -q --cov''
                 ''Pytest configuration or tests were detected; configured coverage is included.''
               else plain_step ''pytest-full'' Kind_Test Recommended ''python -m pytest -q''
                 ''Pytest configuration or tests were detected.''] else [])
         @ (if has_part (lit ''[tool.ruff'') pyproject \<or> re_file f (lit ''ruff.toml'')
            then [plain_step ''ruff'' Kind_Lint Required ''ruff check .'' ''Ruff is configured.''] else [])
         @ (if has_part (lit ''[tool.mypy'') pyproject \<or> re_file f (lit ''mypy.ini'')
            then [plain_step ''mypy'' Kind_Typecheck Required ''mypy .'' ''mypy is configured.''] else [])
         @ (if re_file f (lit ''pyrightconfig.json'')
            then [plain_step ''pyright'' Kind_Typecheck Required ''pyright'' ''Pyright is configured.''] else []))"

definition cargo_steps :: "text_db \<Rightarrow> repository_facts \<Rightarrow> validation_step list" where
  "cargo_steps db f =
     (if re_file f (lit ''Cargo.toml'') then
        [plain_step ''cargo-check'' Kind_Build Required ''cargo check'' ''Cargo manifest detected.'',
         plain_step ''cargo-test'' Kind_Test Required ''cargo test'' ''Cargo manifest detected.'']
        @ (if has_part (lit ''clippy'') (td_lower db (re_text f (lit ''Cargo.toml''))) \<or> re_file f (lit ''clippy.toml'')
           then [plain_step ''cargo-clippy'' Kind_Lint Recommended ''cargo clippy'' ''Clippy configuration detected.'']
           else [])
      else [])"

definition forge_steps :: "repository_facts \<Rightarrow> validation_step list" where
  "forge_steps f =
     (if re_file f (lit ''foundry.toml'') then
        [plain_step ''forge-build'' Kind_Build Required ''forge build'' ''Foundry configuration detected.'',
         plain_step ''forge-test'' Kind_Test Required ''forge test'' ''Foundry configuration detected.'']
      else [])"

definition node_steps :: "repository_facts \<Rightarrow> validation_step list" where
  "node_steps f =
     (case re_scripts f of None \<Rightarrow> []
      | Some scripts \<Rightarrow>
         (if lit ''test'' \<in> set scripts
          then [plain_step ''node-test'' Kind_Test Required (node_manager f @ '' test'') ''Node test script detected.''] else [])
         @ (if re_file f (lit ''tsconfig.json'')
            then [plain_step ''typescript'' Kind_Typecheck Required ''tsc --noEmit'' ''TypeScript configuration detected.''] else [])
         @ (if list_ex (\<lambda>n. re_exists f (lit n)) [''eslint.config.js'', ''.eslintrc'', ''.eslintrc.json'']
            then [plain_step ''eslint'' Kind_Lint Required ''eslint .'' ''ESLint configuration detected.''] else []))"

definition is_shell :: "pystr \<Rightarrow> bool" where
  "is_shell p \<longleftrightarrow> ends_with (lit ''.sh'') p \<or> ends_with (lit ''.bash'') p"

definition source_like :: "string list" where
  "source_like = [''.go'', ''.java'', ''.c'', ''.cc'', ''.cpp'', ''.h'', ''.hpp'', ''.sql'', ''.rb'', ''.php'']"

definition file_suffixes :: "text_db \<Rightarrow> pystr list \<Rightarrow> pystr list" where
  "file_suffixes db files = map (\<lambda>p. td_lower db (name_suffix (path_name p))) files"

definition join_texts :: "string \<Rightarrow> pystr list \<Rightarrow> pystr" where
  "join_texts sep ws = (case ws of [] \<Rightarrow> [] | w # vs \<Rightarrow> concat (w # map (\<lambda>v. lit sep @ v) vs))"

text \<open>\<open>_dedupe\<close>: a dictionary keeps the place of the first and the value of the last.\<close>

definition dedupe_steps :: "validation_step list \<Rightarrow> validation_step list" where
  "dedupe_steps ss = map snd (fold (\<lambda>s d. AList.update (vs_id s) s d) ss [])"

definition detect_validators :: "text_db \<Rightarrow> repository_facts \<Rightarrow> pystr list \<Rightarrow> validation_step list" where
  "detect_validators db f files =
     (let suffixes = file_suffixes db files;
          unsupported = sort (remdups (filter (\<lambda>x. x \<in> set (map lit source_like)) suffixes))
      in dedupe_steps (
           (if lit ''.py'' \<in> set suffixes \<or> re_file f (lit ''pyproject.toml'') then python_steps f else [])
           @ cargo_steps db f @ forge_steps f @ node_steps f
           @ (if list_ex is_shell files
              then [make_step (lit ''shellcheck'') Kind_Lint Recommended
                      (Some (lit ''shellcheck '' @ join_texts '' '' (filter is_shell files))) (lit ''Shell sources changed.'') False [] []]
              else [])
           @ (if re_file f (lit ''.gitleaks.toml'')
              then [plain_step ''gitleaks'' Kind_Security Recommended ''gitleaks detect --no-git --redact''
                      ''A local gitleaks configuration was detected.''] else [])
           @ (if unsupported \<noteq> []
              then [make_step (lit ''unsupported-source-validation'') Kind_Structural Required None
                      (lit ''No configured deterministic validator for affected source extensions: ''
                        @ join_texts '', '' unsupported) False [] []] else [])))"

definition name_stem :: "pystr \<Rightarrow> pystr" where
  "name_stem p = (let n = path_name p in take (length n - length (name_suffix n)) n)"

definition is_test_file :: "pystr \<Rightarrow> bool" where
  "is_test_file p \<longleftrightarrow> lit ''tests'' \<in> set (path_parts p) \<or> starts_with (lit ''test_'') (path_name p)
     \<or> ends_with (lit ''_test'') (name_stem p)"

definition target_command :: "repository_facts \<Rightarrow> pystr \<Rightarrow> pystr" where
  "target_command f p =
     (if ends_with (lit ''.py'') p then lit ''python -m pytest -q '' @ p
      else if has_pytest f then lit ''python -m pytest -q'' else p)"

definition planned_tests :: "repository_facts \<Rightarrow> implementation_plan \<Rightarrow> (pystr \<times> pystr \<times> pystr) list" where
  "planned_tests f plan = fold (\<lambda>(p, why) d.
     if p \<notin> {lit ''.'', lit ''full-suite''} \<and> re_file f p then
       AList.update p (lit ''Approved plan test candidate; path existence verified deterministically. '' @ why, target_command f p) d
     else d) (im_tests plan) []"

text \<open>One production file against one test file; \<open>dotted\<close> is its module name.\<close>

definition test_evidence :: "repository_facts \<Rightarrow> implementation_plan \<Rightarrow> pystr \<Rightarrow> pystr \<Rightarrow> pystr \<Rightarrow> pystr list" where
  "test_evidence f plan stem dotted t =
     (if has_part stem (name_stem t) \<or> name_stem t \<in> {lit ''test_'' @ stem, stem @ lit ''_test''}
      then [lit ''matching test/module naming''] else [])
     @ (if has_part dotted (re_text f t)
          \<or> list_ex (\<lambda>n. n \<noteq> [] \<and> has_part n (re_text f t)) (map last_segment (im_symbols plan))
        then [lit ''static module/symbol reference''] else [])"

definition source_stem :: "pystr \<Rightarrow> pystr" where
  "source_stem p = (let s = name_stem p in if starts_with (lit ''test_'') s then drop 5 s else s)"

primrec tests_of_source ::
    "repository_facts \<Rightarrow> implementation_plan \<Rightarrow> pystr \<Rightarrow> pystr list \<Rightarrow> (pystr \<times> pystr \<times> pystr) list
     \<Rightarrow> exn + (pystr \<times> pystr \<times> pystr) list" where
  "tests_of_source f plan source [] d = Inr d"
| "tests_of_source f plan source (t # ts) d =
     (case without_suffix source of Inl e \<Rightarrow> Inl e
      | Inr base \<Rightarrow>
          let dotted = map (\<lambda>c. if c = slash then dot else c) base;
              evidence = test_evidence f plan (source_stem source) dotted t
          in tests_of_source f plan source ts
               (if evidence \<noteq> [] \<and> t \<notin> fst ` set d
                then d @ [(t, join_texts ''; '' evidence, target_command f t)] else d))"

primrec tests_of_sources ::
    "repository_facts \<Rightarrow> implementation_plan \<Rightarrow> pystr list \<Rightarrow> pystr list \<Rightarrow> (pystr \<times> pystr \<times> pystr) list
     \<Rightarrow> exn + (pystr \<times> pystr \<times> pystr) list" where
  "tests_of_sources f plan [] ts d = Inr d"
| "tests_of_sources f plan (s # ss) ts d =
     (case tests_of_source f plan s ts d of Inl e \<Rightarrow> Inl e | Inr d' \<Rightarrow> tests_of_sources f plan ss ts d')"

definition select_targeted_tests ::
    "repository_facts \<Rightarrow> implementation_plan \<Rightarrow> exn + (pystr \<times> pystr \<times> pystr) list" where
  "select_targeted_tests f plan =
     tests_of_sources f plan (filter (\<lambda>p. \<not> is_test_file p) (im_modify plan))
       (sort (filter is_test_file (re_files f))) (planned_tests f plan)"

section \<open>The validation plan\<close>

definition plan_step_id :: "text_db \<Rightarrow> nat \<Rightarrow> pystr" where
  "plan_step_id db i = lit ''plan-validation-'' @ slug db (decimal_text i)"

definition report_steps :: "text_db \<Rightarrow> implementation_plan \<Rightarrow> validation_step list" where
  "report_steps db plan = map (\<lambda>(i, c). make_step (plan_step_id db i) Kind_Structural Required (Some c)
     (lit ''Exact approved report-only validation command.'') False [] []) (enumerate 1 (im_commands plan))"

definition contract_step :: "text_db \<Rightarrow> nat \<Rightarrow> pystr \<Rightarrow> validation_step" where
  "contract_step db i c = make_step (plan_step_id db i)
     (if has_any [''pytest'', ''unittest''] c then Kind_Test else Kind_Structural) Required (Some c)
     (lit ''Exact approved validation command from the implementation plan.'') False [] []"

primrec contract_steps :: "text_db \<Rightarrow> (nat \<times> pystr) list \<Rightarrow> pystr option list \<Rightarrow> validation_step list" where
  "contract_steps db [] seen = []"
| "contract_steps db (ic # ics) seen =
     (if Some (snd ic) \<in> set seen then contract_steps db ics seen
      else contract_step db (fst ic) (snd ic) # contract_steps db ics (Some (snd ic) # seen))"

definition target_step :: "text_db \<Rightarrow> implementation_plan \<Rightarrow> pystr \<times> pystr \<times> pystr \<Rightarrow> validation_step" where
  "target_step db plan t =
     make_step (lit ''target-test-'' @ slug db (fst t)) Kind_Test Required (Some (snd (snd t))) (fst (snd t)) True
       [fst t] (im_symbols plan)"

definition make_required :: "validation_step \<Rightarrow> validation_step" where
  "make_required s = s\<lparr>vs_requirement := Required\<rparr>"

fun kind_value :: "validation_kind \<Rightarrow> string" where
  "kind_value Kind_Structural = ''structural''" | "kind_value Kind_Test = ''test''"
| "kind_value Kind_Lint = ''lint''" | "kind_value Kind_Typecheck = ''typecheck''"
| "kind_value Kind_Build = ''build''" | "kind_value Kind_Security = ''security''"
| "kind_value Kind_Advisory = ''advisory''"

fun risk_value :: "risk_level \<Rightarrow> string" where
  "risk_value Risk_Low = ''low''" | "risk_value Risk_Medium = ''medium''"
| "risk_value Risk_High = ''high''" | "risk_value Risk_Critical = ''critical''"

definition default_timeouts :: "(pystr \<times> int) list" where
  "default_timeouts = [(lit ''structural'', 60), (lit ''lint'', 180), (lit ''typecheck'', 300), (lit ''test'', 900),
     (lit ''build'', 900)]"

definition set_timeout :: "(pystr \<times> int) list \<Rightarrow> validation_step \<Rightarrow> validation_step" where
  "set_timeout ts s = s\<lparr>vs_timeout := (case map_of ts (lit (kind_value (vs_kind s))) of None \<Rightarrow> vs_timeout s | Some n \<Rightarrow> n)\<rparr>"

definition changed_paths :: "implementation_plan \<Rightarrow> pystr list" where
  "changed_paths plan = dedup (im_modify plan @ im_create plan @ im_delete plan)"

text \<open>\<open>identity\<close> is the digest of the payload; structural steps are put in front, one by one.\<close>

definition build_validation_plan ::
    "text_db \<Rightarrow> (pystr list \<Rightarrow> pystr list \<Rightarrow> pystr) \<Rightarrow> repository_facts \<Rightarrow> pystr \<Rightarrow> implementation_plan \<Rightarrow> pystr
     \<Rightarrow> bool \<Rightarrow> (pystr \<times> int) list option \<Rightarrow> exn + validation_plan" where
  "build_validation_plan db identity f repository plan commit tdd timeouts =
     (case select_targeted_tests f plan of Inl e \<Rightarrow> Inl e
      | Inr tests \<Rightarrow>
        let files = changed_paths plan;
            detected = (if files = [] then [] else detect_validators db f files);
            structural = filter (\<lambda>s. vs_kind s = Kind_Structural) detected;
            targeted = rev structural @ map (target_step db plan) tests;
            final = (if files = [] then report_steps db plan else [])
              @ filter (\<lambda>s. vs_kind s \<noteq> Kind_Structural) detected;
            final = final @ contract_steps db (enumerate 1 (im_commands plan)) (map vs_command (targeted @ final));
            final =
              (if im_risk plan \<noteq> Risk_Low then
                 map (\<lambda>s. if vs_kind s \<in> {Kind_Test, Kind_Security} then make_required s else s) final
               else if targeted = [] then map (\<lambda>s. if vs_kind s = Kind_Test then make_required s else s) final
               else final);
            policy = (case timeouts of None \<Rightarrow> default_timeouts | Some [] \<Rightarrow> default_timeouts | Some ts \<Rightarrow> ts)
        in Inr \<lparr>va_id = identity (map vs_id targeted) (map vs_id final), va_task = im_task plan, va_hash = im_token plan,
             va_repository = repository, va_commit = commit, va_risk = lit (risk_value (im_risk plan)),
             va_files = files, va_symbols = im_symbols plan, va_targeted = map (set_timeout policy) targeted,
             va_final = map (set_timeout policy) final, va_timeouts = policy, va_tdd = tdd, va_configuration = []\<rparr>)"

section \<open>What a decision means\<close>

lemma repairable_iff:
  "repairable_category c \<longleftrightarrow> repair_decision c 0 1 False False False = Dec_Repair_Required"
  "repairable_category c \<longleftrightarrow> failure_disposition c = ''repairable''"
  by (cases c; simp add: repairable_category_def repair_decision_def failure_disposition_def)+

lemma classify_repair:
  "fl_repair (classify_failure db redact command code output timed_out passes reruns)
   \<longleftrightarrow> repairable_category (fl_category (classify_failure db redact command code output timed_out passes reruns))"
  by (simp add: classify_failure_def Let_def split: prod.splits)

lemma classify_disposition:
  "fl_disposition (classify_failure db redact command code output timed_out passes reruns)
   = lit (failure_disposition (fl_category (classify_failure db redact command code output timed_out passes reruns)))"
  by (simp add: classify_failure_def Let_def split: prod.splits)

definition policy_evidence :: "text_db \<Rightarrow> pystr \<Rightarrow> bool" where
  "policy_evidence db output \<longleftrightarrow>
     (let lower = td_lower db (drop (length output - 20000) output)
      in has_any [''scope violation'', ''outside approved scope''] lower
         \<or> has_any [''secret detected'', ''security finding'', ''vulnerability''] lower)"

lemma first_signals:
  "has_any [''scope violation'', ''outside approved scope''] lower \<Longrightarrow>
     find fst (failure_signals db command code timed_out lower) = Some (True, Cat_Scope_Violation, 98 / 100)"
  "\<not> has_any [''scope violation'', ''outside approved scope''] lower \<Longrightarrow>
     has_any [''secret detected'', ''security finding'', ''vulnerability''] lower \<Longrightarrow>
     find fst (failure_signals db command code timed_out lower) = Some (True, Cat_Security, 9 / 10)"
  by (simp_all add: failure_signals_def)

lemma policy_evidence_category:
  assumes "policy_evidence db out"
  shows "fl_category (classify_failure db redact command code out timed_out passes reruns)
    \<in> {Cat_Scope_Violation, Cat_Security, Cat_Flaky}"
  using assms
  by (cases "has_any [''scope violation'', ''outside approved scope''] (td_lower db (drop (length out - 20000) out))")
     (simp_all add: classify_failure_def policy_evidence_def Let_def first_signals)

lemma lit_inject: "lit s = lit t \<longleftrightarrow> s = t"
  by (auto simp: lit_def inj_map_eq_map inj_def)

text \<open>the three tables agree. A failure is called repairable exactly when the repair engine would try
  to repair its category and exactly when its disposition says so, and output that reports a
  violation of the scope or a security finding is never repairable, whatever else it says.\<close>

theorem failure_tables_agree:
  fixes db redact command code out timed_out passes reruns
  defines "f \<equiv> classify_failure db redact command code out timed_out passes reruns"
  shows "(fl_repair f \<longleftrightarrow> repair_decision (fl_category f) 0 1 False False False = Dec_Repair_Required)
    \<and> (fl_repair f \<longleftrightarrow> fl_disposition f = lit ''repairable'')
    \<and> (policy_evidence db out \<longrightarrow> \<not> fl_repair f)"
proof (intro conjI impI)
  show "fl_repair f \<longleftrightarrow> repair_decision (fl_category f) 0 1 False False False = Dec_Repair_Required"
    unfolding f_def classify_repair by (rule repairable_iff)
  show "fl_repair f \<longleftrightarrow> fl_disposition f = lit ''repairable''"
    unfolding f_def classify_repair classify_disposition lit_inject by (rule repairable_iff)
  show "\<not> fl_repair f" if "policy_evidence db out"
    using policy_evidence_category[OF that, of redact command code timed_out passes reruns]
    unfolding f_def classify_repair by (auto simp: repairable_category_def)
qed

lemma result_of_Some: "result_of rs i = Some r \<Longrightarrow> r \<in> set rs \<and> vr_step r = i"
  unfolding result_of_def find_Some_iff using nth_mem[of _ "rev rs"] by auto

definition required_passed :: "validation_plan \<Rightarrow> validation_result list \<Rightarrow> bool" where
  "required_passed p rs \<longleftrightarrow> list_all (\<lambda>i. case result_of rs i of None \<Rightarrow> False | Some r \<Rightarrow> passed r) (required_ids p)"

lemma required_passed_iff:
  "required_passed p rs \<longleftrightarrow>
     sort (remdups (filter (\<lambda>i. result_of rs i = None) (required_ids p))) = []
     \<and> sort (remdups (filter (\<lambda>i. \<exists>r \<in> set_option (result_of rs i). \<not> passed r) (required_ids p))) = []"
  unfolding required_passed_def sort_remdups_Nil filter_empty_conv list_all_iff
  by (auto split: option.splits)

lemma decide_final_status:
  "fd_status (decide_final p rs fs sv ra) =
     (if sv \<or> ra then Dec_Reapproval_Required
      else if \<not> required_passed p rs then Dec_Failed
      else if list_ex rf_blocking fs then Dec_Blocked
      else if list_ex (\<lambda>f. rf_severity f \<in> {Sev_Low, Sev_Medium}) fs
        \<or> list_ex (\<lambda>r. \<not> passed r \<and> vr_step r \<notin> set (required_ids p)) rs
        then Dec_Pass_With_Warnings else Dec_Pass)"
  unfolding decide_final_def required_passed_iff Let_def
  by (simp add: filter_empty_conv list_ex_iff)

text \<open>C25: what a passing decision means: no scope violation, no blocking finding, and the last
  result of every required step is a success that was not skipped. Without warnings, every other
  step passed too and no finding is of low or medium severity. Each other status names the first
  gate that is not met.\<close>

theorem passing_decision_is_earned:
  fixes p rs fs sv ra
  defines "s \<equiv> fd_status (decide_final p rs fs sv ra)"
  shows "(s \<in> {Dec_Pass, Dec_Pass_With_Warnings} \<longleftrightarrow>
       \<not> sv \<and> \<not> ra \<and> (\<forall>f \<in> set fs. \<not> rf_blocking f)
       \<and> (\<forall>i \<in> set (required_ids p). \<exists>r \<in> set rs. result_of rs i = Some r \<and> vr_step r = i \<and> passed r))
    \<and> (s = Dec_Pass \<longrightarrow> (\<forall>r \<in> set rs. vr_step r \<notin> set (required_ids p) \<longrightarrow> passed r)
       \<and> (\<forall>f \<in> set fs. rf_severity f \<notin> {Sev_Low, Sev_Medium}))
    \<and> s \<noteq> Dec_Repair_Required"
proof -
  have r: "required_passed p rs \<longleftrightarrow>
      (\<forall>i \<in> set (required_ids p). \<exists>r \<in> set rs. result_of rs i = Some r \<and> vr_step r = i \<and> passed r)"
    unfolding required_passed_def list_all_iff by (fastforce split: option.splits dest: result_of_Some)
  show ?thesis
    unfolding s_def decide_final_status r[symmetric] by (auto simp: list_ex_iff)
qed

section \<open>The approved commands are in the plan\<close>

lemma contract_steps_cover:
  "(i, c) \<in> set ics \<Longrightarrow> Some c \<in> set seen \<or> (\<exists>s \<in> set (contract_steps db ics seen). vs_command s = Some c \<and> vs_requirement s = Required)"
proof (induction ics arbitrary: seen)
  case (Cons ic ics)
  show ?case
  proof (cases "Some (snd ic) \<in> set seen")
    case True
    then show ?thesis using Cons by fastforce
  next
    case False
    consider "(i, c) = ic" | "(i, c) \<in> set ics" using Cons.prems by auto
    then show ?thesis
    proof cases
      case 1
      then show ?thesis using False by (auto simp: contract_step_def make_step_def)
    next
      case 2
      then show ?thesis using Cons.IH[OF 2, of "Some (snd ic) # seen"] False
        by (auto simp: contract_step_def make_step_def)
    qed
  qed
qed simp

lemma report_steps_required: "s \<in> set (report_steps db plan) \<Longrightarrow> vs_requirement s = Required"
  by (auto simp: report_steps_def make_step_def)

lemma target_steps_required: "vs_requirement (target_step db plan t) = Required"
  by (simp add: target_step_def make_step_def)

lemma set_timeout_fields [simp]:
  "vs_command (set_timeout ts s) = vs_command s" "vs_requirement (set_timeout ts s) = vs_requirement s"
  "vs_id (set_timeout ts s) = vs_id s" "vs_kind (set_timeout ts s) = vs_kind s"
  "vs_command (make_required s) = vs_command s" "vs_kind (make_required s) = vs_kind s"
  "vs_id (make_required s) = vs_id s" "vs_requirement (make_required s) = Required"
  by (simp_all add: set_timeout_def make_required_def)

definition planned_step :: "pystr \<Rightarrow> validation_step list \<Rightarrow> bool" where
  "planned_step c ss \<longleftrightarrow> (\<exists>s \<in> set ss. vs_command s = Some c)"

text \<open>Whether a command is that of a detected step that is not required.\<close>

definition optional_detected :: "text_db \<Rightarrow> repository_facts \<Rightarrow> implementation_plan \<Rightarrow> pystr \<Rightarrow> bool" where
  "optional_detected db f plan c \<longleftrightarrow> changed_paths plan \<noteq> []
     \<and> (\<exists>s \<in> set (detect_validators db f (changed_paths plan)). vs_command s = Some c \<and> vs_requirement s \<noteq> Required)"

lemma upgraded_step:
  fixes final :: "validation_step list" and high none :: bool
  assumes "s \<in> set final" and "vs_command s = Some c"
  defines "up \<equiv> (if high then map (\<lambda>s. if vs_kind s \<in> {Kind_Test, Kind_Security} then make_required s else s) final
      else if none then map (\<lambda>s. if vs_kind s = Kind_Test then make_required s else s) final else final)"
  shows "\<exists>s' \<in> set up. vs_command s' = Some c
    \<and> (vs_requirement s' = Required \<or> vs_requirement s \<noteq> Required \<and> (high \<longrightarrow> vs_kind s \<notin> {Kind_Test, Kind_Security}))"
proof -
  let ?up = "\<lambda>K s. if vs_kind s \<in> K then make_required s else s"
  have "\<exists>K. up = map (?up K) final \<and> (high \<longrightarrow> K = {Kind_Test, Kind_Security})"
  proof (cases "high \<or> none")
    case True
    then show ?thesis unfolding up_def
      by (intro exI[of _ "if high then {Kind_Test, Kind_Security} else {Kind_Test}"]) auto
  next
    case False
    then show ?thesis unfolding up_def by (intro exI[of _ "{}"]) simp
  qed
  then obtain K where K: "up = map (?up K) final" "high \<longrightarrow> K = {Kind_Test, Kind_Security}" by blast
  then have "?up K s \<in> set up" using assms(1) by simp
  then show ?thesis using assms(2) K(2) by (intro bexI[of _ "?up K s"]) (auto split: if_splits)
qed

text \<open>C26: the validation plan covers the contract of the approved plan. Every approved command is the
  command of a step; that step is required unless a detector proposed the same command without
  requiring it and either the risk is low or the step is neither a test nor a security check.\<close>

theorem approved_commands_are_validated:
  assumes "build_validation_plan db identity f repository plan commit tdd timeouts = Inr v"
    and "c \<in> set (im_commands plan)"
  shows "\<exists>s \<in> set (va_targeted v @ va_final v). vs_command s = Some c
    \<and> (vs_requirement s = Required \<or> optional_detected db f plan c)"
proof -
  obtain tests where t: "select_targeted_tests f plan = Inr tests"
    using assms(1) by (auto simp: build_validation_plan_def split: sum.splits)
  define files where "files = changed_paths plan"
  define detected where "detected = (if files = [] then [] else detect_validators db f files)"
  define targeted where "targeted = rev (filter (\<lambda>s. vs_kind s = Kind_Structural) detected) @ map (target_step db plan) tests"
  define final0 where "final0 = (if files = [] then report_steps db plan else []) @ filter (\<lambda>s. vs_kind s \<noteq> Kind_Structural) detected"
  define final1 where "final1 = final0 @ contract_steps db (enumerate 1 (im_commands plan)) (map vs_command (targeted @ final0))"
  define final2 where "final2 = (if im_risk plan \<noteq> Risk_Low
      then map (\<lambda>s. if vs_kind s \<in> {Kind_Test, Kind_Security} then make_required s else s) final1
      else if targeted = [] then map (\<lambda>s. if vs_kind s = Kind_Test then make_required s else s) final1 else final1)"
  define policy where "policy = (case timeouts of None \<Rightarrow> default_timeouts | Some [] \<Rightarrow> default_timeouts | Some ts \<Rightarrow> ts)"
  have v: "va_targeted v = map (set_timeout policy) targeted" "va_final v = map (set_timeout policy) final2"
    using assms(1) t
    by (auto simp: build_validation_plan_def Let_def files_def detected_def targeted_def final0_def final1_def final2_def policy_def)
  obtain i where i: "(i, c) \<in> set (enumerate 1 (im_commands plan))"
    using assms(2) by (auto simp: in_set_conv_nth[of c] in_set_enumerate_eq intro: that[of "Suc k" for k])
  have opt: "vs_requirement s = Required \<or> optional_detected db f plan c"
    if "s \<in> set (targeted @ final0)" "vs_command s = Some c" for s
  proof -
    from that(1) consider "s \<in> set detected" | "s \<in> set (map (target_step db plan) tests)" | "s \<in> set (report_steps db plan)"
      by (auto simp: targeted_def final0_def split: if_splits)
    then show ?thesis
    proof cases
      case 1
      then show ?thesis using that(2) by (auto simp: detected_def files_def optional_detected_def split: if_splits)
    qed (auto simp: target_steps_required dest: report_steps_required)
  qed
  have "\<exists>s \<in> set (targeted @ final1). vs_command s = Some c \<and> (vs_requirement s = Required \<or> optional_detected db f plan c)"
  proof (cases "Some c \<in> set (map vs_command (targeted @ final0))")
    case True
    then obtain s where "s \<in> set (targeted @ final0)" "vs_command s = Some c" by (metis image_iff set_map)
    moreover from this have "s \<in> set (targeted @ final1)" by (auto simp: final1_def)
    ultimately show ?thesis using opt by blast
  next
    case False
    then obtain s where s: "s \<in> set (contract_steps db (enumerate 1 (im_commands plan)) (map vs_command (targeted @ final0)))"
      "vs_command s = Some c" "vs_requirement s = Required"
      using contract_steps_cover[OF i] by blast
    then have "s \<in> set (targeted @ final1)" by (auto simp: final1_def)
    then show ?thesis using s(2,3) by blast
  qed
  then obtain s where s: "s \<in> set (targeted @ final1)" "vs_command s = Some c"
    "vs_requirement s = Required \<or> optional_detected db f plan c" by blast
  then consider "s \<in> set targeted" | "s \<in> set final1" by auto
  then show ?thesis
  proof cases
    case 1
    then have "set_timeout policy s \<in> set (va_targeted v @ va_final v)" unfolding v by simp
    then show ?thesis by (rule bexI[rotated]) (use s(2,3) in simp)
  next
    case 2
    from upgraded_step[OF 2 s(2), of "im_risk plan \<noteq> Risk_Low" "targeted = []"]
    obtain s' where s': "s' \<in> set final2" "vs_command s' = Some c"
      "vs_requirement s' = Required \<or> vs_requirement s \<noteq> Required"
      unfolding final2_def by blast
    then have "set_timeout policy s' \<in> set (va_targeted v @ va_final v)" unfolding v by simp
    then show ?thesis by (rule bexI[rotated]) (use s' s(3) in auto)
  qed
qed

section \<open>Examples\<close>

text \<open>
  A Python repository with two test files whose names differ in one separator, and a plan of low risk
  whose approved command runs all tests.
\<close>

definition python_repository :: "string list \<Rightarrow> repository_facts" where
  "python_repository files =
     \<lparr>re_file = (\<lambda>p. p \<in> set (map lit files)), re_directory = (\<lambda>p. p = lit ''tests''),
      re_exists = (\<lambda>p. p \<in> set (map lit files)), re_text = (\<lambda>_. []), re_files = map lit files, re_scripts = None\<rparr>"

definition small_plan :: "string list \<Rightarrow> implementation_plan" where
  "small_plan tests = \<lparr>im_task = lit ''t'', im_token = lit ''h'', im_modify = [lit ''src/a.py''], im_create = [], im_delete = [],
     im_tests = map (\<lambda>t. (lit t, lit ''planned'')) tests, im_symbols = [], im_commands = [lit ''python -m pytest -q''],
     im_risk = Risk_Low\<rparr>"

definition small_validation :: "string list \<Rightarrow> exn + validation_plan" where
  "small_validation tests = build_validation_plan ascii_text (\<lambda>_ _. []) (python_repository tests) (lit ''/r'') (small_plan tests)
     (lit ''c'') False None"

definition run_as :: "(pystr \<Rightarrow> bool) \<Rightarrow> validation_plan \<Rightarrow> validation_result list" where
  "run_as ok v = map (\<lambda>s. \<lparr>vr_step = vs_id s, vr_success = ok (the (vs_command s)), vr_skipped = False,
     vr_code = Some (if ok (the (vs_command s)) then 0 else 1), vr_summary = [], vr_output = [], vr_cached = False\<rparr>)
     (va_targeted v @ va_final v)"

definition verdict :: "string list \<Rightarrow> (pystr \<Rightarrow> bool) \<Rightarrow> decision_status option" where
  "verdict tests ok = (case small_validation tests of Inl _ \<Rightarrow> None
     | Inr v \<Rightarrow> Some (fd_status (decide_final v (run_as ok v) [] False False)))"

text \<open>
  The steps of two test files whose paths differ only in characters that are replaced have the same
  name; the result of the second one hides the failure of the first, though both are required.
\<close>

lemma colliding_steps_hide_failure:
  "map_option vs_id (find (\<lambda>s. vs_command s = Some (lit ''python -m pytest -q tests/test_a_b.py''))
      (case small_validation [''tests/test_a_b.py'', ''tests/test_a/b.py''] of Inr v \<Rightarrow> va_targeted v))
    = Some (lit ''target-test-tests-test-a-b-py'')"
  "verdict [''tests/test_a_b.py'', ''tests/test_a/b.py''] (\<lambda>c. c \<noteq> lit ''python -m pytest -q tests/test_a_b.py'') = Some Dec_Pass"
  "verdict [''tests/test_a_b.py''] (\<lambda>c. c \<noteq> lit ''python -m pytest -q tests/test_a_b.py'') = Some Dec_Failed"
  by code_simp+

text \<open>
  The approved command that runs all tests is not required when the detector proposes it: the whole
  suite fails and the decision is to pass with warnings.
\<close>

lemma approved_command_may_fail:
  "verdict [] (\<lambda>c. c \<noteq> lit ''python -m pytest -q'') = Some Dec_Pass_With_Warnings"
  by code_simp

theorem failure_tables_agree_witness:
  "\<not> fl_repair (classify_failure ascii_text (\<lambda>s. s) [] (Some 1) (lit ''TypeError: secret detected'') False 0 0)"
proof -
  have "policy_evidence ascii_text (lit ''TypeError: secret detected'')" by code_simp
  then show ?thesis
    using failure_tables_agree[of ascii_text "\<lambda>s. s" "[]" "Some 1" "lit ''TypeError: secret detected''" False 0 0] by blast
qed

definition lone_step :: validation_plan where
  "lone_step = \<lparr>va_id = [], va_task = [], va_hash = [], va_repository = [], va_commit = [], va_risk = [], va_files = [],
     va_symbols = [], va_targeted = [], va_final = [plain_step ''ruff'' Kind_Lint Required ''ruff check .'' ''''],
     va_timeouts = [], va_tdd = False, va_configuration = []\<rparr>"

theorem passing_decision_is_earned_witness:
  "\<exists>r \<in> set (run_as (\<lambda>_. True) lone_step). result_of (run_as (\<lambda>_. True) lone_step) (lit ''ruff'') = Some r \<and> passed r"
proof -
  have "fd_status (decide_final lone_step (run_as (\<lambda>_. True) lone_step) [] False False) = Dec_Pass"
    and "lit ''ruff'' \<in> set (required_ids lone_step)" by code_simp+
  then show ?thesis
    using passing_decision_is_earned[of lone_step "run_as (\<lambda>_. True) lone_step" "[]" False False] by auto
qed

theorem approved_commands_are_validated_witness:
  "\<exists>v. small_validation [] = Inr v \<and> (\<exists>s \<in> set (va_targeted v @ va_final v). vs_command s = Some (lit ''python -m pytest -q''))"
proof -
  have "case small_validation [] of Inl _ \<Rightarrow> False | Inr _ \<Rightarrow> True" by code_simp
  then obtain v where v: "small_validation [] = Inr v" by (cases "small_validation []") auto
  have c: "lit ''python -m pytest -q'' \<in> set (im_commands (small_plan []))" by (simp add: small_plan_def)
  show ?thesis using approved_commands_are_validated[OF v[unfolded small_validation_def] c] v by blast
qed

end
