(* ===== verification/Validation_Run.thy ===== *)
theory Validation_Run
  imports Validation "HOL-Library.AList"
begin

text \<open>
  The validation of a worktree, \<open>validation/service.py\<close> with its cache (\<open>cache.py\<close>): the steps of the
  validation plan run one after the other, and a step that changed the worktree is undone. Git, the
  file system and the commands are calls on a world of their own that may raise. The trace holds
  what the service saw of the worktree and which commands it took as passed.
\<close>

section \<open>The world\<close>

datatype entry_kind = Entry_Symlink | Entry_File

record worktree_entry =
  we_path :: pystr
  we_kind :: entry_kind
  we_content :: "nat list"
  we_mode :: nat

record worktree_snapshot =
  ws_staged :: pystr
  ws_unstaged :: pystr
  ws_untracked :: "worktree_entry list"
  ws_sensitive :: "worktree_entry list"

record step_output =
  so_code :: "int option"
  so_timed_out :: bool
  so_stdout :: pystr
  so_stderr :: pystr

text \<open>
  The calls. \<open>vp_sensitive\<close> and \<open>vp_entry\<close> read entries and raise on what cannot be read safely;
  \<open>vp_unlink\<close> removes a link or a file; \<open>vp_key\<close> is the digest of a cache key.
\<close>

record 'w validation_ports =
  vp_root :: pystr
  vp_resolve :: "pystr \<Rightarrow> pystr"
  vp_redact :: "pystr \<Rightarrow> pystr"
  vp_key :: "pystr list \<Rightarrow> pystr"
  vp_head :: "('w, pystr) act"
  vp_configuration :: "('w, pystr) act"
  vp_environment :: "pystr \<Rightarrow> ('w, pystr) act"
  vp_build :: "bool \<Rightarrow> (pystr \<times> int) list \<Rightarrow> ('w, validation_plan) act"
  vp_diff :: "('w, pystr) act"
  vp_which :: "pystr \<Rightarrow> ('w, bool) act"
  vp_run :: "pystr \<Rightarrow> int \<Rightarrow> ('w, step_output) act"
  vp_patch :: "bool \<Rightarrow> ('w, pystr) act"
  vp_untracked :: "('w, pystr list) act"
  vp_entry :: "pystr \<Rightarrow> ('w, worktree_entry) act"
  vp_sensitive :: "('w, worktree_entry list) act"
  vp_git_restore :: "('w, unit) act"
  vp_unlink :: "pystr \<Rightarrow> ('w, unit) act"
  vp_apply :: "pystr \<Rightarrow> bool \<Rightarrow> ('w, unit) act"
  vp_write :: "worktree_entry \<Rightarrow> ('w, unit) act"
  vp_cache_file :: "('w, unit) act"
  vp_review :: "pystr \<Rightarrow> ('w, review_finding list) act"
  vp_cached :: bool

datatype validation_event =
    Saw_Diff pystr
  | Saw_Snapshot worktree_snapshot
  | Command_Ran pystr pystr step_output
  | Step_Passed pystr pystr

record 'w validation_world =
  vw_world :: 'w
  vw_cache :: "(pystr \<times> pystr) list"
  vw_trace :: "validation_event list"

type_synonym ('w, 'a) validation_act = "('w validation_world, 'a) act"

definition tree_call :: "('w, 'a) act \<Rightarrow> ('w, 'a) validation_act" where
  "tree_call m w = (case m (vw_world w) of (r, s) \<Rightarrow> (r, w\<lparr>vw_world := s\<rparr>))"

definition record_event :: "validation_event \<Rightarrow> ('w, unit) validation_act" where
  "record_event e = act_lift (\<lambda>w. w\<lparr>vw_trace := vw_trace w @ [e]\<rparr>)"

definition assure :: "bool \<Rightarrow> string \<Rightarrow> ('s, unit) act" where
  "assure b msg = (if b then act_ok () else act_raise (Exn ValidationArtifactErrorC msg))"

primrec each :: "('a \<Rightarrow> ('s, 'b) act) \<Rightarrow> 'a list \<Rightarrow> ('s, 'b list) act" where
  "each f [] = act_ok []"
| "each f (x # xs) = act_bind (f x) (\<lambda>y. act_bind (each f xs) (\<lambda>ys. act_ok (y # ys)))"

definition each_do :: "('a \<Rightarrow> ('s, unit) act) \<Rightarrow> 'a list \<Rightarrow> ('s, unit) act" where
  "each_do f xs = act_bind (each f xs) (\<lambda>_. act_ok ())"

definition read_diff :: "'w validation_ports \<Rightarrow> ('w, pystr) validation_act" where
  "read_diff p = act_bind (tree_call (vp_diff p)) (\<lambda>d. act_seq (record_event (Saw_Diff d)) (act_ok d))"

section \<open>Snapshots\<close>

definition take_snapshot :: "'w validation_ports \<Rightarrow> ('w, worktree_snapshot) validation_act" where
  "take_snapshot p =
     act_bind (tree_call (vp_patch p True)) (\<lambda>staged.
     act_bind (tree_call (vp_patch p False)) (\<lambda>unstaged.
     act_bind (tree_call (vp_untracked p)) (\<lambda>paths.
     act_bind (each (\<lambda>f. tree_call (vp_entry p f)) paths) (\<lambda>untracked.
     act_bind (tree_call (vp_sensitive p)) (\<lambda>sensitive.
       let s = \<lparr>ws_staged = staged, ws_unstaged = unstaged, ws_untracked = untracked, ws_sensitive = sensitive\<rparr>
       in act_seq (record_event (Saw_Snapshot s)) (act_ok s))))))"

definition apply_patch :: "'w validation_ports \<Rightarrow> pystr \<Rightarrow> bool \<Rightarrow> ('w, unit) validation_act" where
  "apply_patch p patch index = (if patch = [] then act_ok () else tree_call (vp_apply p patch index))"

definition restore_snapshot :: "'w validation_ports \<Rightarrow> worktree_snapshot \<Rightarrow> ('w, unit) validation_act" where
  "restore_snapshot p s =
     act_seq (tree_call (vp_git_restore p))
     (act_bind (tree_call (vp_untracked p)) (\<lambda>paths.
     act_seq (each_do (\<lambda>f. tree_call (vp_unlink p f)) paths)
     (act_seq (apply_patch p (ws_staged s) True)
     (act_seq (apply_patch p (ws_unstaged s) False)
     (act_seq (each_do (\<lambda>e. tree_call (vp_write p e)) (ws_untracked s))
     (act_bind (tree_call (vp_sensitive p)) (\<lambda>found.
     act_seq (each_do (\<lambda>e. tree_call (vp_unlink p (we_path e))) found)
     (act_seq (each_do (\<lambda>e. tree_call (vp_write p e)) (ws_sensitive s))
     (act_bind (take_snapshot p) (\<lambda>now.
       assure (now = s) ''Could not restore exact pre-validation repository state'')))))))))) "

section \<open>The cache\<close>

definition cache_get :: "'w validation_ports \<Rightarrow> pystr \<Rightarrow> ('w, pystr option) validation_act" where
  "cache_get p key = act_seq (tree_call (vp_cache_file p)) (\<lambda>w. (Inr (map_of (vw_cache w) key), w))"

definition cache_put :: "'w validation_ports \<Rightarrow> pystr \<Rightarrow> pystr \<Rightarrow> ('w, unit) validation_act" where
  "cache_put p key summary =
     act_seq (tree_call (vp_cache_file p)) (act_lift (\<lambda>w. w\<lparr>vw_cache := AList.update key summary (vw_cache w)\<rparr>))"

section \<open>One step\<close>

definition validation_outcome ::
    "validation_step \<Rightarrow> bool \<Rightarrow> bool \<Rightarrow> int option \<Rightarrow> pystr \<Rightarrow> pystr \<Rightarrow> bool \<Rightarrow> validation_result" where
  "validation_outcome s ok skipped code summary output_text cached =
     \<lparr>vr_step = vs_id s, vr_success = ok, vr_skipped = skipped, vr_code = code, vr_summary = summary,
      vr_output = output_text, vr_cached = cached\<rparr>"

definition cache_key ::
    "'w validation_ports \<Rightarrow> pystr \<Rightarrow> pystr \<Rightarrow> pystr \<Rightarrow> pystr \<Rightarrow> pystr" where
  "cache_key p commit diff command configuration = vp_key p [vp_root p, commit, diff, command, configuration]"

text \<open>Whether the command changed the worktree; the entries are read only when the diff is the same.\<close>

definition worktree_changed ::
    "'w validation_ports \<Rightarrow> pystr \<Rightarrow> worktree_snapshot \<Rightarrow> ('w, bool) validation_act" where
  "worktree_changed p diff s =
     act_bind (read_diff p) (\<lambda>now.
       if now \<noteq> diff then act_ok True
       else act_bind (tree_call (vp_sensitive p)) (\<lambda>found. act_ok (found \<noteq> ws_sensitive s)))"

definition run_command ::
    "'w validation_ports \<Rightarrow> validation_step \<Rightarrow> pystr \<Rightarrow> pystr \<Rightarrow> pystr \<Rightarrow> ('w, validation_result) validation_act" where
  "run_command p s command key diff =
     act_bind (take_snapshot p) (\<lambda>snapshot.
     act_bind (tree_call (vp_run p command (vs_timeout s))) (\<lambda>out.
     act_seq (record_event (Command_Ran key command out))
     (act_bind (worktree_changed p diff snapshot) (\<lambda>changed.
     act_seq (if changed then restore_snapshot p snapshot else act_ok ())
     (let ok = (so_code out = Some 0 \<and> \<not> so_timed_out out \<and> \<not> changed);
          summary = lit (if ok then ''Validation passed''
            else if so_timed_out out then ''Validation timed out'' else ''Validation failed'');
          err = so_stderr out @ (if changed then 10 # lit ''Validation command changed repository state.'' else []);
          full = so_stdout out @ 10 # err;
          shown = vp_redact p (drop (length full - 20000) full)
      in act_seq (if ok then act_seq (record_event (Step_Passed key command))
             (if vp_cached p then cache_put p key summary else act_ok ()) else act_ok ())
           (act_ok (validation_outcome s ok False (so_code out) summary shown False)))))))"

definition run_step ::
    "'w validation_ports \<Rightarrow> pystr \<Rightarrow> pystr \<Rightarrow> validation_step \<Rightarrow> ('w, validation_result) validation_act" where
  "run_step p commit diff s =
     (case vs_command s of
        None \<Rightarrow> act_ok (validation_outcome s (vs_requirement s \<noteq> Required) True None (lit ''No command configured'') [] False)
      | Some command \<Rightarrow>
          if command = [] then
            act_ok (validation_outcome s (vs_requirement s \<noteq> Required) True None (lit ''No command configured'') [] False)
          else
            act_bind (tree_call (vp_which p (first_word command))) (\<lambda>found.
              if \<not> found then
                act_ok (validation_outcome s (vs_requirement s \<noteq> Required) True None
                  (lit ''Validation tool unavailable: '' @ first_word command) [] False)
              else
                act_bind (tree_call (vp_configuration p)) (\<lambda>configuration.
                act_bind (tree_call (vp_environment p (first_word command))) (\<lambda>environment.
                (let key = cache_key p commit diff command (configuration @ 58 # environment)
                 in act_bind (if vp_cached p then cache_get p key else act_ok None) (\<lambda>cached.
                      case cached of
                        Some summary \<Rightarrow>
                          act_ok (validation_outcome s True False (Some 0) summary [] True)
                      | None \<Rightarrow> run_command p s command key diff))))))"

section \<open>A validation\<close>

datatype validation_phase = Phase_All | Phase_Targeted | Phase_Required

record validation_report =
  vt_plan :: validation_plan
  vt_results :: "validation_result list"
  vt_failures :: "failure_record list"
  vt_findings :: "review_finding list"
  vt_decision :: final_decision

text \<open>What the planning artifact fixes.\<close>

record planning_facts =
  pf_task :: pystr
  pf_token :: pystr
  pf_risk :: pystr
  pf_commit :: pystr

abbreviation stale_plan :: string where
  "stale_plan \<equiv> ''Validation plan repository, task, or starting commit is stale''"

definition verify_plan :: "'w validation_ports \<Rightarrow> planning_facts \<Rightarrow> validation_plan \<Rightarrow> ('w, unit) validation_act" where
  "verify_plan p facts v =
     act_bind (tree_call (vp_head p)) (\<lambda>head.
     act_seq (assure (vp_root p = vp_resolve p (va_repository v) \<and> pf_commit facts = va_commit v \<and> head = va_commit v
         \<and> va_task v = pf_task facts \<and> va_hash v = pf_token facts \<and> va_risk v = pf_risk facts) stale_plan)
     (act_bind (tree_call (vp_configuration p)) (\<lambda>configuration.
     act_seq (assure (va_configuration v = configuration) stale_plan)
     (act_bind (tree_call (vp_build p (va_tdd v) (va_timeouts v))) (\<lambda>built.
     act_bind (tree_call (vp_configuration p)) (\<lambda>again.
       assure (v = built\<lparr>va_configuration := again\<rparr>) ''Validation commands or requirements differ from detection policy''))))))"

definition phase_steps :: "validation_phase \<Rightarrow> validation_plan \<Rightarrow> validation_step list" where
  "phase_steps ph v = (case ph of Phase_All \<Rightarrow> va_targeted v @ va_final v | Phase_Targeted \<Rightarrow> va_targeted v
     | Phase_Required \<Rightarrow> va_final v)"

definition phase_plan :: "validation_phase \<Rightarrow> validation_plan \<Rightarrow> validation_plan" where
  "phase_plan ph v = (case ph of Phase_All \<Rightarrow> v | Phase_Targeted \<Rightarrow> v\<lparr>va_final := []\<rparr> | Phase_Required \<Rightarrow> v\<lparr>va_targeted := []\<rparr>)"

definition failures_of ::
    "text_db \<Rightarrow> 'w validation_ports \<Rightarrow> validation_step list \<Rightarrow> validation_result list \<Rightarrow> failure_record list" where
  "failures_of db p ss rs =
     map (\<lambda>(s, r). classify_failure db (vp_redact p) (case vs_command s of None \<Rightarrow> [] | Some c \<Rightarrow> c) (vr_code r) (vr_output r)
         (has_part (lit ''timed out'') (td_lower db (vr_summary r))) 0 0)
       (filter (\<lambda>(s, r). \<not> vr_success r \<and> \<not> vr_skipped r) (zip ss rs))"

text \<open>The flags \<open>targeted_only\<close> and \<open>required_only\<close> exclude each other.\<close>

definition phase_of :: "bool \<Rightarrow> bool \<Rightarrow> exn + validation_phase" where
  "phase_of targeted_only required_only =
     (if targeted_only \<and> required_only then
        Inl (Exn ValidationArtifactErrorC ''Validation phase cannot be both targeted and required-only'')
      else Inr (if targeted_only then Phase_Targeted else if required_only then Phase_Required else Phase_All))"

definition validation_run ::
    "text_db \<Rightarrow> 'w validation_ports \<Rightarrow> planning_facts \<Rightarrow> validation_plan \<Rightarrow> bool \<Rightarrow> bool \<Rightarrow> bool
     \<Rightarrow> ('w, validation_report) validation_act" where
  "validation_run db p facts v targeted_only required_only review =
     act_seq (verify_plan p facts v)
     (act_bind (read_diff p) (\<lambda>diff.
     (case phase_of targeted_only required_only of Inl e \<Rightarrow> act_raise e
      | Inr ph \<Rightarrow>
        act_bind (each (run_step p (pf_commit facts) diff) (phase_steps ph v)) (\<lambda>results.
        act_bind (read_diff p) (\<lambda>now.
        act_seq (assure (now = diff) ''Repository diff changed during validation'')
        (act_bind (if review then tree_call (vp_review p diff) else act_ok []) (\<lambda>findings.
          act_ok \<lparr>vt_plan = v, vt_results = results, vt_failures = failures_of db p (phase_steps ph v) results,
            vt_findings = findings, vt_decision = decide_final (phase_plan ph v) results findings False False\<rparr>)))))))"

section \<open>What a step leaves\<close>

definition hushed :: "('w, 'a) validation_act \<Rightarrow> bool" where
  "hushed m \<longleftrightarrow> (\<forall>w r w'. m w = (r, w') \<longrightarrow> vw_trace w' = vw_trace w \<and> vw_cache w' = vw_cache w)"

named_theorems hushed_intros \<open>actions that leave neither trace nor cache entry\<close>

lemma hushedD: "hushed m \<Longrightarrow> m w = (r, w') \<Longrightarrow> vw_trace w' = vw_trace w \<and> vw_cache w' = vw_cache w"
  by (simp add: hushed_def)

lemma hushed_ok [hushed_intros]: "hushed (act_ok x)" "hushed (act_raise e)" "hushed (assure b msg)"
  by (auto simp: hushed_def act_ok_def act_raise_def assure_def)

lemma hushed_call [hushed_intros]: "hushed (tree_call m)"
  by (auto simp: hushed_def tree_call_def split: prod.splits)

lemma hushed_bind [hushed_intros]: "hushed m \<Longrightarrow> (\<And>x. hushed (f x)) \<Longrightarrow> hushed (act_bind m f)"
  unfolding hushed_def act_bind_def by (fastforce split: prod.splits sum.splits)

lemma hushed_each [hushed_intros]: "(\<And>x. hushed (f x)) \<Longrightarrow> hushed (each f xs)"
  by (induction xs) (auto intro!: hushed_intros)

lemma hushed_do [hushed_intros]: "(\<And>x. hushed (f x)) \<Longrightarrow> hushed (each_do f xs)"
  unfolding each_do_def by (intro hushed_intros)

lemma hushed_patch [hushed_intros]: "hushed (apply_patch p patch index)"
  by (simp add: apply_patch_def hushed_intros)

lemma assure_Inr: "assure b msg w = (Inr u, w') \<longleftrightarrow> b \<and> w' = w"
  by (auto simp: assure_def act_ok_def act_raise_def)

lemma record_Inr: "record_event e w = (r, w') \<longleftrightarrow> r = Inr () \<and> w' = w\<lparr>vw_trace := vw_trace w @ [e]\<rparr>"
  by (auto simp: record_event_def act_lift_def)

text \<open>The events added and the cache kept.\<close>

definition leaves :: "'w validation_world \<Rightarrow> validation_event list \<Rightarrow> 'w validation_world \<Rightarrow> bool" where
  "leaves w es w' \<longleftrightarrow> vw_trace w' = vw_trace w @ es \<and> vw_cache w' = vw_cache w"

lemma leaves_hushed: "hushed m \<Longrightarrow> m w = (r, w') \<Longrightarrow> leaves w [] w'"
  using hushedD[of m w r w'] by (simp add: leaves_def)

lemma leaves_trans: "leaves u es v \<Longrightarrow> leaves v fs w \<Longrightarrow> leaves u (es @ fs) w"
  by (simp add: leaves_def)

lemma leaves_record: "leaves w [e] (w\<lparr>vw_trace := vw_trace w @ [e]\<rparr>)"
  by (simp add: leaves_def)

lemma read_diff_Inr:
  assumes "read_diff p w = (Inr d, w')"
  shows "leaves w [Saw_Diff d] w'"
proof -
  obtain v where v: "tree_call (vp_diff p) w = (Inr d, v)" "w' = v\<lparr>vw_trace := vw_trace v @ [Saw_Diff d]\<rparr>"
    using assms by (auto simp: read_diff_def run_simps record_Inr)
  from leaves_trans[OF leaves_hushed[OF hushed_call v(1)] leaves_record] v(2) show ?thesis by simp
qed

lemma take_snapshot_Inr:
  assumes "take_snapshot p w = (Inr s, w')"
  shows "leaves w [Saw_Snapshot s] w'"
proof -
  obtain a w1 b w2 ps w3 us w4 ss w5 where
    1: "tree_call (vp_patch p True) w = (Inr a, w1)" and 2: "tree_call (vp_patch p False) w1 = (Inr b, w2)"
    and 3: "tree_call (vp_untracked p) w2 = (Inr ps, w3)"
    and 4: "each (\<lambda>f. tree_call (vp_entry p f)) ps w3 = (Inr us, w4)"
    and 5: "tree_call (vp_sensitive p) w4 = (Inr ss, w5)"
    and w': "w' = w5\<lparr>vw_trace := vw_trace w5 @ [Saw_Snapshot s]\<rparr>"
    using assms by (auto simp: take_snapshot_def run_simps record_Inr Let_def)
  have "hushed (each (\<lambda>f. tree_call (vp_entry p f)) ps)" by (intro hushed_intros)
  note q = leaves_hushed[OF hushed_call 1] leaves_hushed[OF hushed_call 2] leaves_hushed[OF hushed_call 3]
    leaves_hushed[OF this 4] leaves_hushed[OF hushed_call 5]
  then show ?thesis unfolding w' leaves_def by simp
qed

lemma restore_snapshot_Inr:
  assumes "restore_snapshot p s w = (Inr u, w')"
  shows "leaves w [Saw_Snapshot s] w'"
proof -
  define before where "before = act_seq (tree_call (vp_git_restore p))
     (act_bind (tree_call (vp_untracked p)) (\<lambda>paths.
     act_seq (each_do (\<lambda>f. tree_call (vp_unlink p f)) paths)
     (act_seq (apply_patch p (ws_staged s) True)
     (act_seq (apply_patch p (ws_unstaged s) False)
     (act_seq (each_do (\<lambda>e. tree_call (vp_write p e)) (ws_untracked s))
     (act_bind (tree_call (vp_sensitive p)) (\<lambda>found.
     act_seq (each_do (\<lambda>e. tree_call (vp_unlink p (we_path e))) found)
     (each_do (\<lambda>e. tree_call (vp_write p e)) (ws_sensitive s)))))))))"
  have "hushed before" unfolding before_def by (intro hushed_intros)
  moreover have "\<exists>x v. before w = (Inr x, v) \<and> take_snapshot p v = (Inr s, w')"
    using assms unfolding before_def restore_snapshot_def by (fastforce simp: run_simps assure_Inr)
  then obtain x v where v: "before w = (Inr x, v)" "take_snapshot p v = (Inr s, w')" by blast
  from leaves_trans[OF leaves_hushed[OF calculation v(1)] take_snapshot_Inr[OF v(2)]] show ?thesis by simp
qed

lemma worktree_changed_Inr:
  assumes "worktree_changed p d s w = (Inr c, w')"
  shows "\<exists>now. leaves w [Saw_Diff now] w' \<and> (\<not> c \<longrightarrow> now = d)"
proof -
  obtain now v where r: "read_diff p w = (Inr now, v)"
    and rest: "(if now \<noteq> d then act_ok True
       else act_bind (tree_call (vp_sensitive p)) (\<lambda>found. act_ok (found \<noteq> ws_sensitive s))) v = (Inr c, w')"
    using assms by (auto simp: worktree_changed_def bind_Inr)
  have "hushed (if now \<noteq> d then act_ok True
       else act_bind (tree_call (vp_sensitive p)) (\<lambda>found. act_ok (found \<noteq> ws_sensitive s)))"
    by (auto intro!: hushed_intros)
  from leaves_trans[OF read_diff_Inr[OF r] leaves_hushed[OF this rest]]
  have "leaves w [Saw_Diff now] w'" by simp
  moreover have "c" if "now \<noteq> d" using rest that by (simp add: ok_eq)
  ultimately show ?thesis by blast
qed

text \<open>
  What the trace says of a step with result \<open>r\<close> on the diff \<open>d\<close>: nothing for a step that was skipped or
  answered from the cache; otherwise a snapshot, the command, and then either the unchanged diff, with
  a success only for exit code 0 in time, or the same snapshot again after the command was undone.
\<close>

definition ran_block :: "pystr \<Rightarrow> validation_step \<Rightarrow> validation_result \<Rightarrow> validation_event list \<Rightarrow> bool" where
  "ran_block d s r es \<longleftrightarrow>
     (\<exists>snap key c out. vs_command s = Some c \<and> vr_code r = so_code out
       \<and> (vr_success r \<and> so_code out = Some 0 \<and> \<not> so_timed_out out
            \<and> es = [Saw_Snapshot snap, Command_Ran key c out, Saw_Diff d, Step_Passed key c]
          \<or> \<not> vr_success r \<and> es = [Saw_Snapshot snap, Command_Ran key c out, Saw_Diff d]
          \<or> \<not> vr_success r \<and> (\<exists>now. es = [Saw_Snapshot snap, Command_Ran key c out, Saw_Diff now, Saw_Snapshot snap])))"

definition step_block :: "pystr \<Rightarrow> validation_step \<Rightarrow> validation_result \<Rightarrow> validation_event list \<Rightarrow> bool" where
  "step_block d s r es \<longleftrightarrow> vr_step r = vs_id s
     \<and> (if vr_skipped r then es = [] \<and> (vr_success r \<longleftrightarrow> vs_requirement s \<noteq> Required)
        else if vr_cached r then es = [] \<and> vr_success r
        else ran_block d s r es)"

text \<open>Every entry of the cache stands for a step that passed.\<close>

definition cache_sound :: "'w validation_world \<Rightarrow> bool" where
  "cache_sound w \<longleftrightarrow> (\<forall>k \<in> fst ` set (vw_cache w). \<exists>c. Step_Passed k c \<in> set (vw_trace w))"

definition evidence ::
    "'w validation_ports \<Rightarrow> pystr \<Rightarrow> pystr \<Rightarrow> validation_step \<Rightarrow> validation_event list \<Rightarrow> bool" where
  "evidence p commit d s tr \<longleftrightarrow> (\<exists>c cfg c'. vs_command s = Some c \<and> Step_Passed (cache_key p commit d c cfg) c' \<in> set tr)"

lemma evidence_mono: "evidence p commit d s tr \<Longrightarrow> set tr \<subseteq> set tr' \<Longrightarrow> evidence p commit d s tr'"
  unfolding evidence_def by blast

lemma cache_put_Inr:
  assumes "cache_put p key summary v = (Inr x, w')"
  shows "vw_trace w' = vw_trace v" and "fst ` set (vw_cache w') = insert key (fst ` set (vw_cache v))"
proof -
  obtain y u where u: "tree_call (vp_cache_file p) v = (Inr y, u)" "w' = u\<lparr>vw_cache := AList.update key summary (vw_cache u)\<rparr>"
    using assms by (auto simp: cache_put_def run_simps act_lift_def)
  from hushedD[OF hushed_call u(1)] u(2) show "vw_trace w' = vw_trace v"
    and "fst ` set (vw_cache w') = insert key (fst ` set (vw_cache v))"
    by (auto simp: dom_update)
qed

lemma run_command_Inr:
  assumes "run_command p s c key d w = (Inr r, w')" and "vs_command s = Some c" and "cache_sound w"
  shows "\<exists>es. vw_trace w' = vw_trace w @ es \<and> step_block d s r es \<and> \<not> vr_skipped r \<and> \<not> vr_cached r"
    and "cache_sound w'" and "passed r \<Longrightarrow> Step_Passed key c \<in> set (vw_trace w')"
proof -
  obtain snap w1 out w2 w3 chg w4 u w5 where
    1: "take_snapshot p w = (Inr snap, w1)"
    and 2: "tree_call (vp_run p c (vs_timeout s)) w1 = (Inr out, w2)"
    and 3: "w3 = w2\<lparr>vw_trace := vw_trace w2 @ [Command_Ran key c out]\<rparr>"
    and 4: "worktree_changed p d snap w3 = (Inr chg, w4)"
    and 5: "(if chg then restore_snapshot p snap else act_ok ()) w4 = (Inr u, w5)"
    and 6: "(let ok = (so_code out = Some 0 \<and> \<not> so_timed_out out \<and> \<not> chg);
          summary = lit (if ok then ''Validation passed''
            else if so_timed_out out then ''Validation timed out'' else ''Validation failed'');
          err = so_stderr out @ (if chg then 10 # lit ''Validation command changed repository state.'' else []);
          full = so_stdout out @ 10 # err;
          shown = vp_redact p (drop (length full - 20000) full)
      in act_seq (if ok then act_seq (record_event (Step_Passed key c))
             (if vp_cached p then cache_put p key summary else act_ok ()) else act_ok ())
           (act_ok (validation_outcome s ok False (so_code out) summary shown False))) w5 = (Inr r, w')"
    using assms(1) unfolding run_command_def bind_Inr record_Inr by (elim exE conjE) (rule that)
  obtain now where now: "leaves w3 [Saw_Diff now] w4" "\<not> chg \<longrightarrow> now = d" using worktree_changed_Inr[OF 4] by blast
  note l = take_snapshot_Inr[OF 1] leaves_hushed[OF hushed_call 2] leaves_record[of w2 "Command_Ran key c out", folded 3] now(1)
  have w4: "leaves w [Saw_Snapshot snap, Command_Ran key c out, Saw_Diff now] w4" using l by (simp add: leaves_def)
  have w5: "leaves w ([Saw_Snapshot snap, Command_Ran key c out, Saw_Diff now] @ (if chg then [Saw_Snapshot snap] else [])) w5"
  proof (cases chg)
    case True
    then show ?thesis using leaves_trans[OF w4 restore_snapshot_Inr[of p snap w4 u w5]] 5 by simp
  next
    case False
    then show ?thesis using w4 5 by (simp add: ok_eq)
  qed
  have cs: "cache_sound w5" using assms(3) w5 unfolding cache_sound_def leaves_def by auto
  let ?ok = "so_code out = Some 0 \<and> \<not> so_timed_out out \<and> \<not> chg"
  show "\<exists>es. vw_trace w' = vw_trace w @ es \<and> step_block d s r es \<and> \<not> vr_skipped r \<and> \<not> vr_cached r"
    and "cache_sound w'" and "passed r \<Longrightarrow> Step_Passed key c \<in> set (vw_trace w')"
  proof (atomize (full), cases ?ok)
    case False
    then have "w' = w5" and r: "\<not> vr_success r" "vr_code r = so_code out" "\<not> vr_skipped r" "\<not> vr_cached r" "vr_step r = vs_id s"
      using 6 by (auto simp: Let_def run_simps validation_outcome_def)
    then show "(\<exists>es. vw_trace w' = vw_trace w @ es \<and> step_block d s r es \<and> \<not> vr_skipped r \<and> \<not> vr_cached r)
      \<and> cache_sound w' \<and> (passed r \<longrightarrow> Step_Passed key c \<in> set (vw_trace w'))"
      using w5 cs now(2) assms(2)
      by (auto simp: step_block_def ran_block_def leaves_def passed_def intro!: exI[of _ snap] exI[of _ key] exI[of _ out]
          split: if_splits)
  next
    case True
    obtain v where v: "v = w5\<lparr>vw_trace := vw_trace w5 @ [Step_Passed key c]\<rparr>"
      and c: "\<exists>x summary. (if vp_cached p then cache_put p key summary else act_ok ()) v = (Inr x, w')"
      and r: "vr_success r" "vr_code r = so_code out" "\<not> vr_skipped r" "\<not> vr_cached r" "vr_step r = vs_id s"
      using 6 True by (auto simp: Let_def run_simps record_Inr validation_outcome_def)
    obtain x summary where put: "(if vp_cached p then cache_put p key summary else act_ok ()) v = (Inr x, w')" using c by blast
    have w': "vw_trace w' = vw_trace v \<and> fst ` set (vw_cache w') \<subseteq> insert key (fst ` set (vw_cache v))"
    proof (cases "vp_cached p")
      case True
      with put have "cache_put p key summary v = (Inr x, w')" by simp
      from cache_put_Inr[OF this] show ?thesis by simp
    next
      case False
      with put have "w' = v" by (simp add: ok_eq)
      then show ?thesis by blast
    qed
    have tr: "vw_trace w' = vw_trace w5 @ [Step_Passed key c]" and keys: "fst ` set (vw_cache w') \<subseteq> insert key (fst ` set (vw_cache w5))"
      using w' v by simp_all
    have "\<exists>c'. Step_Passed k c' \<in> set (vw_trace w')" if "k \<in> fst ` set (vw_cache w')" for k
    proof (cases "k = key")
      case True
      then show ?thesis unfolding tr by auto
    next
      case False
      then have "k \<in> fst ` set (vw_cache w5)" using that keys by blast
      then show ?thesis using cs unfolding cache_sound_def tr by auto
    qed
    then have "cache_sound w'" by (simp add: cache_sound_def)
    moreover have "vw_trace w' = vw_trace w @ [Saw_Snapshot snap, Command_Ran key c out, Saw_Diff d, Step_Passed key c]"
      using w5 now(2) True tr by (simp add: leaves_def)
    moreover have "step_block d s r [Saw_Snapshot snap, Command_Ran key c out, Saw_Diff d, Step_Passed key c]"
      using assms(2) True r by (simp add: step_block_def ran_block_def)
    ultimately show "(\<exists>es. vw_trace w' = vw_trace w @ es \<and> step_block d s r es \<and> \<not> vr_skipped r \<and> \<not> vr_cached r)
      \<and> cache_sound w' \<and> (passed r \<longrightarrow> Step_Passed key c \<in> set (vw_trace w'))"
      using r by auto
  qed
qed

lemma run_step_Inr:
  assumes "run_step p commit d s w = (Inr r, w')" and "cache_sound w"
  shows "\<exists>es. vw_trace w' = vw_trace w @ es \<and> step_block d s r es"
    and "cache_sound w'" and "passed r \<Longrightarrow> evidence p commit d s (vw_trace w')"
proof -
  have "(\<exists>es. vw_trace w' = vw_trace w @ es \<and> step_block d s r es) \<and> cache_sound w'
    \<and> (passed r \<longrightarrow> evidence p commit d s (vw_trace w'))"
  proof (cases "vs_command s = None \<or> vs_command s = Some []")
    case True
    then have "w' = w" "vr_skipped r" "vr_step r = vs_id s" "vr_success r \<longleftrightarrow> vs_requirement s \<noteq> Required"
      using assms(1) by (auto simp: run_step_def ok_eq validation_outcome_def)
    then show ?thesis using assms(2) by (simp add: step_block_def passed_def)
  next
    case False
    then obtain c where c: "vs_command s = Some c" "c \<noteq> []" by auto
    obtain found v where f: "tree_call (vp_which p (first_word c)) w = (Inr found, v)"
      using assms(1) c by (auto simp: run_step_def bind_Inr)
    note v = hushedD[OF hushed_call f]
    show ?thesis
    proof (cases found)
      case False
      then have "w' = v" "vr_skipped r" "vr_step r = vs_id s" "vr_success r \<longleftrightarrow> vs_requirement s \<noteq> Required"
        using assms(1) c f by (auto simp: run_step_def run_simps validation_outcome_def)
      then show ?thesis using assms(2) v by (simp add: step_block_def passed_def cache_sound_def)
    next
      case True
      obtain cfg v1 env v2 key cached v3 where
        1: "tree_call (vp_configuration p) v = (Inr cfg, v1)"
        and 2: "tree_call (vp_environment p (first_word c)) v1 = (Inr env, v2)"
        and key: "key = cache_key p commit d c (cfg @ 58 # env)"
        and 3: "(if vp_cached p then cache_get p key else act_ok None) v2 = (Inr cached, v3)"
        and 4: "(case cached of Some summary \<Rightarrow> act_ok (validation_outcome s True False (Some 0) summary [] True)
            | None \<Rightarrow> run_command p s c key d) v3 = (Inr r, w')"
        using assms(1) c f True by (auto simp: run_step_def bind_Inr Let_def)
      have v3: "vw_trace v3 = vw_trace w \<and> vw_cache v3 = vw_cache w \<and> (\<forall>x. cached = Some x \<longrightarrow> key \<in> fst ` set (vw_cache w))"
      proof -
        have "vw_trace v3 = vw_trace v2 \<and> vw_cache v3 = vw_cache v2 \<and> (\<forall>x. cached = Some x \<longrightarrow> key \<in> fst ` set (vw_cache v2))"
          using 3 hushedD[OF hushed_call[of "vp_cache_file p"], of v2]
          by (auto simp: cache_get_def run_simps ok_eq dom_map_of_conv_image_fst[symmetric] split: if_splits)
        then show ?thesis using hushedD[OF hushed_call 1] hushedD[OF hushed_call 2] v by simp
      qed
      then have sound: "cache_sound v3" using assms(2) by (simp add: cache_sound_def)
      show ?thesis
      proof (cases cached)
        case (Some x)
        then have w': "w' = v3" "\<not> vr_skipped r" "vr_cached r" "vr_success r" "vr_step r = vs_id s"
          using 4 by (auto simp: ok_eq validation_outcome_def)
        moreover have "\<exists>c'. Step_Passed key c' \<in> set (vw_trace v3)"
          using v3 Some assms(2) by (auto simp: cache_sound_def)
        ultimately show ?thesis using sound v3 c key by (auto simp: step_block_def evidence_def)
      next
        case None
        then have "run_command p s c key d v3 = (Inr r, w')" using 4 by simp
        from run_command_Inr[OF this c(1) sound] show ?thesis using v3 c key by (auto simp: evidence_def)
      qed
    qed
  qed
  then show "\<exists>es. vw_trace w' = vw_trace w @ es \<and> step_block d s r es"
    and "cache_sound w'" and "passed r \<Longrightarrow> evidence p commit d s (vw_trace w')" by blast+
qed

text \<open>The steps one after the other: one block of events for each.\<close>

lemma run_steps_Inr:
  assumes "each (run_step p commit d) ss w = (Inr rs, w')" and "cache_sound w"
  shows "\<exists>bs. vw_trace w' = vw_trace w @ concat bs \<and> list_all2 (\<lambda>(s, r) es. step_block d s r es) (zip ss rs) bs"
    and "length rs = length ss" and "cache_sound w'"
    and "\<forall>(s, r) \<in> set (zip ss rs). passed r \<longrightarrow> evidence p commit d s (vw_trace w')"
proof -
  have "(\<exists>bs. vw_trace w' = vw_trace w @ concat bs \<and> list_all2 (\<lambda>(s, r) es. step_block d s r es) (zip ss rs) bs)
    \<and> length rs = length ss \<and> cache_sound w'
    \<and> (\<forall>(s, r) \<in> set (zip ss rs). passed r \<longrightarrow> evidence p commit d s (vw_trace w'))"
    using assms
  proof (induction ss arbitrary: w rs)
    case Nil
    then show ?case by (auto simp: ok_eq)
  next
    case (Cons s ss)
    obtain r v rs' where r: "run_step p commit d s w = (Inr r, v)" and rest: "each (run_step p commit d) ss v = (Inr rs', w')"
      and rs: "rs = r # rs'"
      using Cons.prems(1) by (auto simp: run_simps)
    note step = run_step_Inr[OF r Cons.prems(2)]
    obtain es where es: "vw_trace v = vw_trace w @ es" "step_block d s r es" using step(1) by blast
    obtain bs where bs: "vw_trace w' = vw_trace v @ concat bs" "list_all2 (\<lambda>(s, r) es. step_block d s r es) (zip ss rs') bs"
      and more_facts: "length rs' = length ss" "cache_sound w'"
        "\<forall>(s, r) \<in> set (zip ss rs'). passed r \<longrightarrow> evidence p commit d s (vw_trace w')"
      using Cons.IH[OF rest step(2)] by blast
    have "passed r \<longrightarrow> evidence p commit d s (vw_trace w')"
      using step(3) evidence_mono[of p commit d s "vw_trace v" "vw_trace w'"] bs(1) by auto
    moreover have "vw_trace w' = vw_trace w @ concat (es # bs)" using es bs by simp
    moreover have "list_all2 (\<lambda>(s, r) es. step_block d s r es) (zip (s # ss) rs) (es # bs)" using es bs rs by simp
    ultimately show ?case using more_facts rs by (intro conjI exI[of _ "es # bs"]) auto
  qed
  then show "\<exists>bs. vw_trace w' = vw_trace w @ concat bs \<and> list_all2 (\<lambda>(s, r) es. step_block d s r es) (zip ss rs) bs"
    and "length rs = length ss" and "cache_sound w'"
    and "\<forall>(s, r) \<in> set (zip ss rs). passed r \<longrightarrow> evidence p commit d s (vw_trace w')" by blast+
qed

lemma hushed_verify: "hushed (verify_plan p facts v)"
  unfolding verify_plan_def by (intro hushed_intros)

lemma validation_run_InrE:
  assumes "validation_run db p facts v tf rf review w = (Inr rep, w')" and "cache_sound w"
  obtains ph d bs where "phase_of tf rf = Inr ph"
    and "vw_trace w' = vw_trace w @ Saw_Diff d # concat bs @ [Saw_Diff d]"
    and "list_all2 (\<lambda>(s, r) es. step_block d s r es) (zip (phase_steps ph v) (vt_results rep)) bs"
    and "length (vt_results rep) = length (phase_steps ph v)" and "cache_sound w'"
    and "\<forall>(s, r) \<in> set (zip (phase_steps ph v) (vt_results rep)). passed r \<longrightarrow> evidence p (pf_commit facts) d s (vw_trace w')"
    and "vt_decision rep = decide_final (phase_plan ph v) (vt_results rep) (vt_findings rep) False False"
proof -
  obtain ph where ph: "phase_of tf rf = Inr ph"
    using assms(1) by (cases "phase_of tf rf") (auto simp: validation_run_def bind_Inr act_raise_def)
  obtain u w1 d w2 rs w3 now w4 fs w5 where
    1: "verify_plan p facts v w = (Inr u, w1)" and 2: "read_diff p w1 = (Inr d, w2)"
    and 3: "each (run_step p (pf_commit facts) d) (phase_steps ph v) w2 = (Inr rs, w3)"
    and 4: "read_diff p w3 = (Inr now, w4)" and now: "now = d"
    and 5: "(if review then tree_call (vp_review p d) else act_ok []) w4 = (Inr fs, w5)"
    and w': "w' = w5" and rep: "vt_results rep = rs" "vt_findings rep = fs"
      "vt_decision rep = decide_final (phase_plan ph v) rs fs False False"
    using assms(1) by (auto simp: validation_run_def ph run_simps assure_Inr)
  have h: "hushed (if review then tree_call (vp_review p d) else act_ok [])" by (auto intro: hushed_intros)
  note l1 = hushedD[OF hushed_verify 1] and l2 = read_diff_Inr[OF 2] and l4 = read_diff_Inr[OF 4] and l5 = hushedD[OF h 5]
  have "cache_sound w2" using assms(2) l1 l2 by (auto simp: cache_sound_def leaves_def)
  note steps = run_steps_Inr[OF 3 this]
  obtain bs where bs: "vw_trace w3 = vw_trace w2 @ concat bs"
    "list_all2 (\<lambda>(s, r) es. step_block d s r es) (zip (phase_steps ph v) rs) bs" using steps(1) by blast
  have tr: "vw_trace w' = vw_trace w @ Saw_Diff d # concat bs @ [Saw_Diff d]"
    using l1 l2 l4 l5 bs(1) w' now by (simp add: leaves_def)
  have "cache_sound w'" using steps(3) l4 l5 w' by (auto simp: cache_sound_def leaves_def)
  moreover have "\<forall>(s, r) \<in> set (zip (phase_steps ph v) rs). passed r \<longrightarrow> evidence p (pf_commit facts) d s (vw_trace w')"
  proof -
    have "set (vw_trace w3) \<subseteq> set (vw_trace w')" using l4 l5 w' by (auto simp: leaves_def)
    then show ?thesis using steps(4) evidence_mono by blast
  qed
  ultimately show thesis using that ph tr bs(2) steps(2) rep by blast
qed

section \<open>What a report says\<close>

text \<open>C28: what a validation leaves in the worktree. A validation that returns has seen the same diff at its
  start and at its end. In between it ran the steps of its phase in their order, and for each step that
  was not skipped or answered from the cache it took a snapshot first; then either the diff was seen
  unchanged after the command, and the step succeeded only with exit code 0 in time, or the step failed
  and the last thing the service saw was the same snapshot, restored.\<close>

theorem validation_leaves_worktree:
  assumes "validation_run db p facts v targeted_only required_only review w = (Inr rep, w')" and "cache_sound w"
  shows "\<exists>ph d bs. phase_of targeted_only required_only = Inr ph
    \<and> vw_trace w' = vw_trace w @ Saw_Diff d # concat bs @ [Saw_Diff d]
    \<and> length (vt_results rep) = length (phase_steps ph v)
    \<and> list_all2 (\<lambda>(s, r) es. step_block d s r es) (zip (phase_steps ph v) (vt_results rep)) bs"
  using validation_run_InrE[OF assms] by metis

definition passing :: "final_decision \<Rightarrow> bool" where
  "passing d \<longleftrightarrow> fd_status d \<in> {Dec_Pass, Dec_Pass_With_Warnings}"

lemma passing_results:
  assumes "passing (decide_final p rs fs False False)" and "i \<in> set (required_ids p)"
  shows "\<exists>r \<in> set rs. vr_step r = i \<and> passed r"
proof -
  have "required_passed p rs" using assms(1) unfolding passing_def decide_final_status by (auto split: if_splits)
  then have "case result_of rs i of None \<Rightarrow> False | Some r \<Rightarrow> passed r"
    using assms(2) unfolding required_passed_def list_all_iff by blast
  then show ?thesis by (auto split: option.splits dest: result_of_Some)
qed


section \<open>A validation that runs\<close>

text \<open>
  The world is the diff, empty at first; \<open>mypy .\<close> changes it. Restoring the worktree empties it.
\<close>

definition sample_tools :: "pystr validation_ports" where
  "sample_tools = \<lparr>vp_root = lit ''/r'', vp_resolve = (\<lambda>s. s), vp_redact = (\<lambda>s. s), vp_key = concat,
     vp_head = act_ok [], vp_configuration = act_ok [], vp_environment = (\<lambda>_. act_ok []),
     vp_build = (\<lambda>_ _. act_ok (lone_step\<lparr>va_repository := lit ''/r''\<rparr>)),
     vp_diff = (\<lambda>w. (Inr w, w)), vp_which = (\<lambda>_. act_ok True),
     vp_run = (\<lambda>c _ w. (Inr \<lparr>so_code = Some 0, so_timed_out = False, so_stdout = [], so_stderr = []\<rparr>,
       if c = lit ''mypy .'' then [1] else w)),
     vp_patch = (\<lambda>staged w. (Inr (if staged then [] else w), w)), vp_untracked = act_ok [],
     vp_entry = (\<lambda>_. act_raise (ValueError [])), vp_sensitive = act_ok [], vp_git_restore = (\<lambda>_. (Inr (), [])),
     vp_unlink = (\<lambda>_. act_ok ()), vp_apply = (\<lambda>_ _. act_ok ()), vp_write = (\<lambda>_. act_ok ()),
     vp_cache_file = act_ok (), vp_review = (\<lambda>_. act_ok []), vp_cached = True\<rparr>"

definition sample_start :: "pystr validation_world" where
  "sample_start = \<lparr>vw_world = [], vw_cache = [], vw_trace = []\<rparr>"

definition sample_facts :: planning_facts where
  "sample_facts = \<lparr>pf_task = [], pf_token = [], pf_risk = [], pf_commit = []\<rparr>"

definition sample_validation :: "(exn + validation_report) \<times> pystr validation_world" where
  "sample_validation = validation_run ascii_text sample_tools sample_facts (lone_step\<lparr>va_repository := lit ''/r''\<rparr>)
     False False False sample_start"

lemma sample_validation_passes:
  "(case fst sample_validation of Inl _ \<Rightarrow> False | Inr rep \<Rightarrow> passing (vt_decision rep)) = True"
  "snd sample_validation = \<lparr>vw_world = [], vw_cache = [(lit ''/rruff check .:'', lit ''Validation passed'')],
     vw_trace = [Saw_Diff [], Saw_Snapshot \<lparr>ws_staged = [], ws_unstaged = [], ws_untracked = [], ws_sensitive = []\<rparr>,
       Command_Ran (lit ''/rruff check .:'') (lit ''ruff check .'')
         \<lparr>so_code = Some 0, so_timed_out = False, so_stdout = [], so_stderr = []\<rparr>,
       Saw_Diff [], Step_Passed (lit ''/rruff check .:'') (lit ''ruff check .''), Saw_Diff []]\<rparr>"
  by code_simp+

text \<open>A command that exits with 0 but changes a file is undone and fails.\<close>

lemma changing_command_is_undone:
  "(case run_step sample_tools [] [] (plain_step ''mypy'' Kind_Typecheck Required ''mypy .'' []) sample_start of
      (Inr r, w) \<Rightarrow> \<not> vr_success r \<and> vr_code r = Some 0 \<and> vw_world w = [] \<and> vw_cache w = [] | _ \<Rightarrow> False) = True"
  by code_simp

lemma sample_validation_run:
  obtains rep where "validation_run ascii_text sample_tools sample_facts (lone_step\<lparr>va_repository := lit ''/r''\<rparr>)
      False False False sample_start = (Inr rep, snd sample_validation)" and "passing (vt_decision rep)"
proof (cases "fst sample_validation")
  case (Inr rep)
  then have "sample_validation = (Inr rep, snd sample_validation)" by (metis prod.collapse)
  then show thesis using that[of rep] sample_validation_passes(1) Inr by (simp add: sample_validation_def[symmetric])
qed (use sample_validation_passes(1) in simp)

theorem validation_leaves_worktree_witness:
  "\<exists>d bs. vw_trace (snd sample_validation) = Saw_Diff d # concat bs @ [Saw_Diff d]"
proof -
  obtain rep where rep: "validation_run ascii_text sample_tools sample_facts (lone_step\<lparr>va_repository := lit ''/r''\<rparr>)
      False False False sample_start = (Inr rep, snd sample_validation)" by (rule sample_validation_run)
  have "cache_sound sample_start" by (simp add: sample_start_def cache_sound_def)
  from validation_leaves_worktree[OF rep this] show ?thesis by (auto simp: sample_start_def)
qed


end
