(* ===== verification/Change_Review.thy ===== *)
theory Change_Review
  imports Validation "HOL-Library.AList"
begin

text \<open>
  What the deterministic reviews look for in a patch: security patterns and dependency changes
  (\<open>validation/security.py\<close>) and weakened tests (\<open>validation/tests.py\<close>). Evidence texts and line
  numbers of the findings are for display and left out; the parse trees of Python and the tables of
  Unicode are inputs.
\<close>

section \<open>Patterns\<close>

text \<open>
  Patterns with word boundaries. A position is the character before it and the text after it; \<open>ends\<close>
  are the positions after a match.
\<close>

datatype pat = Rx rx | Bound | Then pat pat | Either pat pat

type_synonym place = "nat option \<times> pystr"

definition word_at :: "text_db \<Rightarrow> nat option \<Rightarrow> bool" where
  "word_at db c = (case c of None \<Rightarrow> False | Some x \<Rightarrow> td_word db x)"

definition move_on :: "place \<Rightarrow> pystr \<Rightarrow> place" where
  "move_on pl t = (let k = length (snd pl) - length t in if k = 0 then pl else (Some (snd pl ! (k - 1)), t))"

primrec ends :: "text_db \<Rightarrow> pat \<Rightarrow> place \<Rightarrow> place list" where
  "ends db (Rx r) pl = map (move_on pl) (rests r (snd pl))"
| "ends db Bound pl = (if word_at db (fst pl) \<noteq> word_at db (first (snd pl)) then [pl] else [])"
| "ends db (Then p q) pl = concat (map (ends db q) (ends db p pl))"
| "ends db (Either p q) pl = ends db p pl @ ends db q pl"

primrec places :: "nat option \<Rightarrow> pystr \<Rightarrow> place list" where
  "places c [] = [(c, [])]"
| "places c (x # s) = (c, x # s) # places (Some x) s"

definition searches :: "text_db \<Rightarrow> pat \<Rightarrow> pystr \<Rightarrow> bool" where
  "searches db p s \<longleftrightarrow> list_ex (\<lambda>pl. ends db p pl \<noteq> []) (places None s)"

fun pats :: "pat list \<Rightarrow> pat" where
  "pats [] = Rx (Str [])"
| "pats [p] = p"
| "pats (p # ps) = Then p (pats ps)"

abbreviation rxs :: "rx list \<Rightarrow> pat" where "rxs rs \<equiv> Rx (seq_of rs)"
abbreviation s_lit :: "string \<Rightarrow> rx" where "s_lit w \<equiv> Str (lit w)"

primrec copies :: "nat \<Rightarrow> rx \<Rightarrow> rx" where
  "copies 0 r = Str []"
| "copies (Suc n) r = Cat r (copies n r)"

primrec at_most :: "nat \<Rightarrow> rx \<Rightarrow> rx" where
  "at_most 0 r = Str []"
| "at_most (Suc n) r = Opt (Cat r (at_most n r))"

definition at_least :: "nat \<Rightarrow> rx \<Rightarrow> rx" where
  "at_least n r = Cat (copies n r) (Star r)"

text \<open>Letters without case: \<open>i\<close>, \<open>s\<close> and \<open>k\<close> have variants outside ASCII.\<close>

definition letter_variants :: "nat list" where "letter_variants = [304, 305, 383, 8490]"

definition ascii_lower :: "nat \<Rightarrow> nat" where
  "ascii_lower c = (if 65 \<le> c \<and> c \<le> 90 then c + 32 else if c \<in> {304, 305} then 105
     else if c = 383 then 115 else if c = 8490 then 107 else c)"

definition icase :: "string \<Rightarrow> rx" where
  "icase w = seq_of (map (\<lambda>a. Ch (\<lambda>c. ascii_lower c = ascii_lower a)) (lit w))"

fun alt_icase :: "string list \<Rightarrow> rx" where
  "alt_icase [] = Ch (\<lambda>_. False)"
| "alt_icase [w] = icase w"
| "alt_icase (w # ws) = Alt (icase w) (alt_icase ws)"

abbreviation quote_rx :: rx where "quote_rx \<equiv> Ch (\<lambda>c. c = 39 \<or> c = 34)"

definition alnum_rx :: "string \<Rightarrow> nat \<Rightarrow> bool" where
  "alnum_rx more_chars c \<longleftrightarrow> 48 \<le> c \<and> c \<le> 57 \<or> 65 \<le> c \<and> c \<le> 90 \<or> 97 \<le> c \<and> c \<le> 122 \<or> c \<in> set (lit more_chars)"

definition callee_rx :: rx where
  "callee_rx = seq_of [s_lit ''subprocess.'', plus1 (Ch (\<lambda>c. 65 \<le> c \<and> c \<le> 90 \<or> 97 \<le> c \<and> c \<le> 122 \<or> c = 95)), s_lit ''('',
     Star in_line]"

record security_pattern =
  sp_name :: string
  sp_severity :: review_severity
  sp_pattern :: pat
  sp_rationale :: string

definition rule :: "string \<Rightarrow> review_severity \<Rightarrow> string \<Rightarrow> pat \<Rightarrow> security_pattern" where
  "rule n sev why p = \<lparr>sp_name = n, sp_severity = sev, sp_pattern = p, sp_rationale = why\<rparr>"

definition token_patterns :: "security_pattern list" where
  "token_patterns =
    [rule ''private_key'' Sev_Critical ''Private key material in changed content.''
       (rxs [s_lit ''-----BEGIN '', Star (Ch (\<lambda>c. c \<noteq> 45 \<and> c \<noteq> 10)), s_lit ''PRIVATE KEY-----'']),
     rule ''credential'' Sev_Critical ''Hard-coded credential-like value.''
       (Then Bound (rxs [Alt (seq_of [icase ''api'', Opt (Ch (\<lambda>c. c = 95 \<or> c = 45)), icase ''key''])
            (alt_icase [''token'', ''password'', ''secret'']), spaces, Ch (\<lambda>c. c = 61 \<or> c = 58), spaces, quote_rx,
          at_least 8 (Ch (\<lambda>c. c \<notin> {39, 34, 10})), quote_rx])),
     rule ''provider_token'' Sev_Critical ''Provider credential or signed token in changed content.''
       (pats [Bound,
          Either (rxs [s_lit ''sk-'', at_least 12 (Ch (alnum_rx ''_-''))])
         (Either (rxs [s_lit ''gh'', Ch (\<lambda>c. c \<in> set (lit ''pousr'')), s_lit ''_'', at_least 12 (Ch (alnum_rx ''_''))])
         (Either (rxs [s_lit ''AKIA'', at_least 12 (Ch (\<lambda>c. 48 \<le> c \<and> c \<le> 57 \<or> 65 \<le> c \<and> c \<le> 90))])
            (rxs [s_lit ''eyJ'', at_least 10 (Ch (alnum_rx ''_-'')), s_lit ''.'', at_least 10 (Ch (alnum_rx ''_-'')), s_lit ''.'',
               at_least 8 (Ch (alnum_rx ''_-''))]))), Bound]),
     rule ''bearer_token'' Sev_Critical ''Hard-coded bearer credential.''
       (pats [Bound, Rx (icase ''authorization''), Bound, Rx (at_most 20 in_line), Bound, Rx (icase ''bearer''), Rx spaces1,
          Rx (at_least 8 (Ch (\<lambda>c. alnum_rx ''._~+/=-'' c \<or> c \<in> set letter_variants)))])]"

definition code_patterns :: "security_pattern list" where
  "code_patterns =
    [rule ''unsafe_eval'' Sev_High ''Dynamic code execution introduced.''
       (Then Bound (rxs [alt_of [''eval'', ''exec''], spaces, s_lit ''(''])),
     rule ''shell_true'' Sev_High ''Subprocess shell execution introduced.''
       (rxs [callee_rx, s_lit ''shell'', spaces, s_lit ''='', spaces, s_lit ''True'']),
     rule ''dangerous_command'' Sev_High ''Potentially injectable command construction.''
       (Either (rxs [s_lit ''os.system'', spaces, s_lit ''(''])
          (rxs [callee_rx, Alt (s_lit ''format('') (Cat (s_lit ''f'') quote_rx)])),
     rule ''unsafe_deserialization'' Sev_High ''Potentially unsafe deserialization.''
       (Then Bound (rxs [Alt (Cat (s_lit ''pickle.load'') (Opt (s_lit ''s''))) (s_lit ''yaml.load''), spaces, s_lit ''(''])),
     rule ''sql_concatenation'' Sev_High ''SQL appears dynamically concatenated.''
       (Either (rxs [alt_icase [''select'', ''insert'', ''update'', ''delete''], at_most 80 in_line,
            Alt (s_lit ''+'') (Alt (icase ''.format('') (s_lit ''{''))])
          (rxs [icase ''f'', quote_rx, Star in_line, alt_icase [''select'', ''insert'', ''update'', ''delete'']])),
     rule ''path_traversal'' Sev_Medium ''Potential user-controlled path traversal.''
       (Either (rxs [s_lit ''../'']) (Either (Rx (Str [46, 46, 92, 92]))
          (rxs [s_lit ''Path('', plus1 in_line, s_lit '')'', spaces, s_lit ''/'', spaces, s_lit ''request'']))),
     rule ''weak_crypto'' Sev_Medium ''Weak cryptographic primitive introduced.''
       (Then Bound (rxs [Opt (s_lit ''hashlib.''), alt_of [''md5'', ''sha1''], spaces, s_lit ''(''])),
     rule ''insecure_temp'' Sev_Medium ''Race-prone temporary filename creation.''
       (rxs [s_lit ''tempfile.mktemp'', spaces, s_lit ''(''])]"

definition privilege_patterns :: "security_pattern list" where
  "privilege_patterns =
    [rule ''debug_backdoor'' Sev_High ''Possible privileged debug bypass.''
       (rxs [alt_icase [''admin'', ''debug''], at_most 40 in_line, alt_icase [''bypass'', ''backdoor'', ''allow_all'', ''true'']]),
     rule ''auth_bypass'' Sev_Critical ''Possible authorization bypass.''
       (rxs [alt_icase [''authorize'', ''permission'', ''verify_token'', ''is_admin''], at_most 50 in_line,
          Alt (seq_of [icase ''return'', spaces1, icase ''True'']) (alt_icase [''bypass'', ''disabled''])]),
     rule ''privileged_account'' Sev_Critical ''Hard-coded privileged account or role.''
       (rxs [alt_icase [''username'', ''user'', ''role''], spaces, s_lit ''='', spaces, quote_rx,
          alt_icase [''admin'', ''root'', ''superuser''], quote_rx, at_most 80 in_line, alt_icase [''password'', ''allow'', ''true'']]),
     rule ''destructive_migration'' Sev_Critical ''Destructive database operation requires explicit migration approval.''
       (Either (pats [Bound, rxs [icase ''DROP'', spaces1, alt_icase [''TABLE'', ''COLUMN'', ''DATABASE'']], Bound])
          (pats [Bound, rxs [icase ''TRUNCATE'', spaces1, icase ''TABLE''], Bound]))]"

definition security_patterns :: "security_pattern list" where
  "security_patterns = token_patterns @ code_patterns @ privilege_patterns"

definition solidity_patterns :: "security_pattern list" where
  "solidity_patterns =
    [rule ''solidity_tx_origin'' Sev_High ''tx.origin authorization is unsafe.'' (pats [Bound, Rx (s_lit ''tx.origin''), Bound]),
     rule ''solidity_delegatecall'' Sev_Critical ''delegatecall changes require critical review.''
       (rxs [s_lit ''.delegatecall'', spaces, s_lit ''('']),
     rule ''solidity_selfdestruct'' Sev_Critical ''selfdestruct is irreversible.''
       (Then Bound (rxs [s_lit ''selfdestruct'', spaces, s_lit ''(''])),
     rule ''solidity_unchecked_call'' Sev_High ''Value-transferring external call requires reentrancy review.''
       (rxs [s_lit ''.call'', spaces, s_lit ''{'', Star (Ch (\<lambda>c. c \<noteq> 125)), s_lit ''value'']),
     rule ''solidity_unrestricted_transfer'' Sev_Critical ''Value transfer requires authorization and return-value review.''
       (Then Bound (Either (rxs [s_lit ''payable('', Star (Ch (\<lambda>c. c \<noteq> 41)), s_lit '').transfer''])
          (rxs [s_lit ''.send'', spaces, s_lit ''('']))),
     rule ''solidity_unchecked'' Sev_Medium ''Unchecked arithmetic assumptions require review.''
       (Then Bound (rxs [s_lit ''unchecked'', spaces, s_lit ''{''])),
     rule ''solidity_external_call'' Sev_High ''Low-level external call requires return-value and reentrancy review.''
       (rxs [s_lit ''.call'', spaces, s_lit ''('']),
     rule ''solidity_upgradeability'' Sev_High ''Upgradeability or initialization change may affect storage/layout safety.''
       (pats [Bound, Rx (alt_of [''upgradeTo'', ''upgradeToAndCall'', ''initializer'', ''reinitializer'']), Bound]),
     rule ''solidity_signature_nonce'' Sev_High ''Signature or nonce handling requires replay and authorization review.''
       (pats [Bound, Rx (alt_of [''ecrecover'', ''ECDSA'', ''nonce'', ''permit'']), Bound]),
     rule ''solidity_privileged_role'' Sev_High ''Privileged-role behavior changed.''
       (pats [Bound, Rx (alt_of [''onlyOwner'', ''onlyRole'', ''grantRole'', ''revokeRole'', ''DEFAULT_ADMIN_ROLE'']), Bound])]"

section \<open>Changed content\<close>

definition serious :: "review_severity \<Rightarrow> bool" where
  "serious s \<longleftrightarrow> s \<in> {Sev_High, Sev_Critical}"

definition security_finding :: "string \<Rightarrow> review_severity \<Rightarrow> pystr option \<Rightarrow> string \<Rightarrow> bool \<Rightarrow> review_finding" where
  "security_finding category sev path why blocking =
     \<lparr>rf_category = lit category, rf_severity = sev, rf_path = path, rf_rationale = lit why, rf_blocking = blocking,
      rf_check = lit ''security.scan''\<rparr>"

definition matched_rules :: "text_db \<Rightarrow> security_pattern list \<Rightarrow> pystr option \<Rightarrow> pystr \<Rightarrow> review_finding list" where
  "matched_rules db rules path content =
     map (\<lambda>x. security_finding (sp_name x) (sp_severity x) path (sp_rationale x) (serious (sp_severity x)))
       (filter (\<lambda>x. searches db (sp_pattern x) content) rules)"

definition scan_added_line :: "text_db \<Rightarrow> pystr option \<Rightarrow> pystr \<Rightarrow> review_finding list" where
  "scan_added_line db path content =
     matched_rules db security_patterns path content
     @ (case path of None \<Rightarrow> []
        | Some p \<Rightarrow> if ends_with (lit ''.sol'') p then matched_rules db solidity_patterns path content else [])"

definition new_file_header :: pystr where "new_file_header = lit ''+++ b/''"

definition added_text :: "pystr \<Rightarrow> bool" where
  "added_text l \<longleftrightarrow> starts_with (lit ''+'') l \<and> \<not> starts_with (lit ''+++'') l"

definition removed_text :: "pystr \<Rightarrow> bool" where
  "removed_text l \<longleftrightarrow> starts_with (lit ''-'') l \<and> \<not> starts_with (lit ''---'') l"

text \<open>Hunk headers only move the line number.\<close>

primrec scan_content_lines :: "text_db \<Rightarrow> pystr option \<Rightarrow> pystr list \<Rightarrow> review_finding list" where
  "scan_content_lines db path [] = []"
| "scan_content_lines db path (l # ls) =
     (if starts_with new_file_header l then scan_content_lines db (Some (drop 6 l)) ls
      else (if added_text l then scan_added_line db path (tl l) else []) @ scan_content_lines db path ls)"

definition manifests :: "pystr list" where
  "manifests = map lit [''pyproject.toml'', ''package.json'', ''Cargo.toml'', ''requirements.txt'', ''foundry.toml'']"

definition is_manifest :: "pystr option \<Rightarrow> bool" where
  "is_manifest path \<longleftrightarrow> (case path of None \<Rightarrow> False | Some p \<Rightarrow> p \<noteq> [] \<and> path_name p \<in> set manifests)"

definition source_dependency :: pat where
  "source_dependency = Either (rxs [icase ''git'', s_lit ''+'']) (Either (rxs [icase ''http'', Opt (icase ''s''), s_lit ''://''])
     (Either (rxs [icase ''github:'']) (Either (rxs [icase ''path'', spaces, s_lit ''='']) (rxs [icase ''file:'']))))"

definition lifecycle_script :: pat where
  "lifecycle_script = rxs [Ch (\<lambda>c. c = 34), alt_icase [''preinstall'', ''install'', ''postinstall'', ''prepare''],
     Ch (\<lambda>c. c = 34), spaces, s_lit '':'']"

definition unpinned_rx :: rx where
  "unpinned_rx = seq_of [plus1 (Ch (alnum_rx ''_.-'')), spaces,
     Opt (seq_of [Ch (\<lambda>c. c = 61 \<or> c = 58), spaces, Opt quote_rx, Opt (Ch (\<lambda>c. c \<in> set (lit ''*^~''))),
       Star (Ch (\<lambda>c. py_isspace c \<or> c = 39 \<or> c = 34))])]"

definition looks_unpinned :: "pystr \<Rightarrow> bool" where
  "looks_unpinned s \<longleftrightarrow> s \<noteq> [] \<and> hd s \<notin> {35, 91, 123} \<and> [] \<in> set (rests unpinned_rx s)"

definition dependency_addition :: "text_db \<Rightarrow> pystr option \<Rightarrow> pystr \<Rightarrow> review_finding list" where
  "dependency_addition db path content =
     (if searches db source_dependency content then
        [security_finding ''dependency_security'' Sev_High path ''Direct URL, VCS, or local-path dependency introduced.'' True]
      else if searches db lifecycle_script content then
        [security_finding ''dependency_security'' Sev_High path ''Package lifecycle/build script introduced.'' True]
      else if looks_unpinned content then
        [security_finding ''dependency_security'' Sev_Medium path ''Potentially unpinned dependency introduced.'' False]
      else [])"

primrec dependency_lines :: "text_db \<Rightarrow> pystr option \<Rightarrow> pystr list \<Rightarrow> review_finding list" where
  "dependency_lines db path [] = []"
| "dependency_lines db path (l # ls) =
     (if starts_with new_file_header l then dependency_lines db (Some (drop 6 l)) ls
      else (if is_manifest path \<and> added_text l then dependency_addition db path (strip (tl l))
            else if is_manifest path \<and> removed_text l then
              [security_finding ''dependency_change'' Sev_Medium path
                 ''Dependency removal or version change requires review.'' False]
            else []) @ dependency_lines db path ls)"

definition lock_files :: "(string \<times> string list) list" where
  "lock_files = [(''package.json'', [''package-lock.json'', ''pnpm-lock.yaml'', ''yarn.lock'']), (''Cargo.toml'', [''Cargo.lock''])]"

definition scan_dependency_changes :: "text_db \<Rightarrow> pystr \<Rightarrow> review_finding list" where
  "scan_dependency_changes db diff =
     (let ls = splitlines diff;
          changed = filter (\<lambda>p. p \<noteq> lit ''/dev/null'') (map (drop 6) (filter (starts_with new_file_header) ls));
          names = map path_name changed
      in dependency_lines db None ls
         @ map (\<lambda>(manifest, locks). security_finding ''dependency_lock_mismatch'' Sev_Medium (Some (lit manifest))
             ''Confirm whether the repository requires a synchronized lockfile.'' False)
           (filter (\<lambda>(manifest, locks). lit manifest \<in> set names \<and> \<not> list_ex (\<lambda>k. lit k \<in> set names) locks) lock_files))"

definition scan_changed_content :: "text_db \<Rightarrow> pystr \<Rightarrow> review_finding list" where
  "scan_changed_content db diff = scan_content_lines db None (splitlines diff) @ scan_dependency_changes db diff"

section \<open>Weakened tests\<close>

text \<open>
  What the parse tree of one statement says about an assertion: the dumps of its left side and of the
  whole with every constant replaced by its type, an \<open>assert\<close> whose expression only has a left side or
  none, a call with its function, arguments and dump.
\<close>

datatype assertion_shape =
    Compares pystr pystr
  | Has_Left pystr
  | Asserts_Other
  | Calls pystr nat pystr pystr
  | No_Assertion

definition assert_name :: "pystr \<Rightarrow> bool" where
  "assert_name f \<longleftrightarrow> starts_with (lit ''assert'') (last_segment f)"

text \<open>An attribute that the tree lacks raises; with three arguments the comparison of the rest raises
  and counts as different.\<close>

fun same_assertion :: "assertion_shape \<Rightarrow> assertion_shape \<Rightarrow> exn + bool" where
  "same_assertion (Compares l m) (Compares l' m') = Inr (l = l' \<and> m = m')"
| "same_assertion (Calls f n a m) (Calls f' n' a' m') =
     Inr (assert_name f \<and> f = f' \<and> n = n' \<and> n = 2 \<and> a = a' \<and> m = m')"
| "same_assertion (Calls f n a m) s = Inr False"
| "same_assertion No_Assertion s = Inr False"
| "same_assertion s No_Assertion = Inr False"
| "same_assertion s (Calls f n a m) = Inr False"
| "same_assertion Asserts_Other s = Inl (Exn AttributeErrorC ''left'')"
| "same_assertion s Asserts_Other = Inl (Exn AttributeErrorC ''left'')"
| "same_assertion (Has_Left l) (Has_Left l') = (if l \<noteq> l' then Inr False else Inl (Exn AttributeErrorC ''comparators''))"
| "same_assertion (Has_Left l) (Compares l' m') = (if l \<noteq> l' then Inr False else Inl (Exn AttributeErrorC ''comparators''))"
| "same_assertion (Compares l m) (Has_Left l') = (if l \<noteq> l' then Inr False else Inl (Exn AttributeErrorC ''comparators''))"

record test_tree =
  tt_name :: pystr
  tt_asserts :: bool
  tt_mock_calls :: nat
  tt_calls :: nat
  tt_constant_compare :: bool
  tt_constant_assert :: bool
  tt_body :: "(bool \<times> bool) list"

text \<open>The parser: of one line, and of the tests among added lines (none when they do not parse).\<close>

record python_parser =
  py_statement :: "pystr \<Rightarrow> assertion_shape"
  py_tests :: "pystr \<Rightarrow> test_tree list option"

definition is_test_path :: "text_db \<Rightarrow> pystr \<Rightarrow> bool" where
  "is_test_path db p \<longleftrightarrow>
     (let v = map (\<lambda>c. if c = 92 then slash else c) (td_lower db p); name = last (split_char slash v)
      in has_part (lit ''/tests/'') (slash # v) \<or> starts_with (lit ''test_'') name
         \<or> list_ex (\<lambda>x. ends_with (lit x) name) [''_test.py'', ''.test.js'', ''.test.ts'', ''.spec.js'', ''.spec.ts''])"

definition assertion_line :: "text_db \<Rightarrow> pystr \<Rightarrow> bool" where
  "assertion_line db l \<longleftrightarrow>
     ends db (pats [rxs [spaces, s_lit ''assert''], Bound]) (None, l) \<noteq> []
     \<or> rests (seq_of [Star in_line, s_lit ''.assert'', Ch (\<lambda>c. 65 \<le> c \<and> c \<le> 90), Star (Ch (td_word db)), spaces, s_lit ''('']) l \<noteq> []"

text \<open>The lines a patch adds to or removes from a file, by file in the order of the first line.\<close>

definition append_line :: "pystr \<Rightarrow> pystr \<Rightarrow> (pystr \<times> pystr list) list \<Rightarrow> (pystr \<times> pystr list) list" where
  "append_line path l d = AList.update path ((case map_of d path of None \<Rightarrow> [] | Some ls \<Rightarrow> ls) @ [l]) d"

primrec lines_by_file ::
    "(pystr \<Rightarrow> bool) \<Rightarrow> pystr option \<Rightarrow> pystr list \<Rightarrow> (pystr \<times> pystr list) list \<Rightarrow> (pystr \<times> pystr list) list" where
  "lines_by_file P path [] d = d"
| "lines_by_file P path (l # ls) d =
     (if starts_with new_file_header l then lines_by_file P (Some (drop 6 l)) ls d
      else lines_by_file P path ls
        (case path of None \<Rightarrow> d | Some p \<Rightarrow> if p \<noteq> [] \<and> P l then append_line p (tl l) d else d))"

definition test_finding :: "string \<Rightarrow> pystr \<Rightarrow> pystr \<Rightarrow> review_finding" where
  "test_finding category path why =
     \<lparr>rf_category = lit category, rf_severity = Sev_High, rf_path = Some path, rf_rationale = why, rf_blocking = True,
      rf_check = lit ''test.validity''\<rparr>"

primrec first_same :: "python_parser \<Rightarrow> pystr \<Rightarrow> pystr list \<Rightarrow> nat \<Rightarrow> exn + nat option" where
  "first_same ast a [] i = Inr None"
| "first_same ast a (b # bs) i =
     (case same_assertion (py_statement ast a) (py_statement ast b) of
        Inl e \<Rightarrow> Inl e | Inr True \<Rightarrow> Inr (Some i) | Inr False \<Rightarrow> first_same ast a bs (Suc i))"

text \<open>The added assertions left when each removed one has its partner; nothing when one has none.\<close>

primrec pair_assertions :: "python_parser \<Rightarrow> bool \<Rightarrow> pystr list \<Rightarrow> pystr list \<Rightarrow> exn + pystr list option" where
  "pair_assertions ast allow [] bs = Inr (Some bs)"
| "pair_assertions ast allow (a # as) bs =
     (case first_same ast a bs 0 of Inl e \<Rightarrow> Inl e
      | Inr None \<Rightarrow> Inr None
      | Inr (Some i) \<Rightarrow> if allow then pair_assertions ast allow as (take i bs @ drop (Suc i) bs) else Inr None)"

definition test_def_rx :: pat where
  "test_def_rx = rxs [spaces, Alt (seq_of [s_lit ''async'', spaces1, s_lit ''def'']) (s_lit ''def''), spaces1, s_lit ''test_'']"

definition at_line_start :: "text_db \<Rightarrow> pat \<Rightarrow> pystr \<Rightarrow> bool" where
  "at_line_start db p s \<longleftrightarrow> list_ex (\<lambda>pl. fst pl \<in> {None, Some 10} \<and> ends db p pl \<noteq> []) (places None s)"

definition removed_test_findings ::
    "text_db \<Rightarrow> python_parser \<Rightarrow> bool \<Rightarrow> (pystr \<times> pystr list) list \<Rightarrow> pystr \<times> pystr list \<Rightarrow> exn + review_finding list" where
  "removed_test_findings db ast allow added f =
     (if \<not> is_test_path db (fst f) then Inr []
      else if at_line_start db test_def_rx (join_char 10 (snd f)) then
        Inr [test_finding ''deleted_test_behavior'' (fst f) (lit ''Generated patch deletes a test or assertion.'')]
      else
        let removed = map strip (filter (assertion_line db) (snd f));
            new = map strip (filter (assertion_line db) (case map_of added (fst f) of None \<Rightarrow> [] | Some ls \<Rightarrow> ls))
        in if removed = [] then Inr []
           else (case pair_assertions ast allow removed new of Inl e \<Rightarrow> Inl e
             | Inr None \<Rightarrow> Inr [test_finding ''deleted_test_behavior'' (fst f)
                 (lit ''Generated patch deletes or changes an assertion outside its expected value.'')]
             | Inr (Some []) \<Rightarrow> Inr []
             | Inr (Some _) \<Rightarrow> Inr [test_finding ''deleted_test_behavior'' (fst f)
                 (lit ''Generated patch adds assertions while replacing existing test behavior.'')]))"

primrec unreachable_assertions :: "bool \<Rightarrow> (bool \<times> bool) list \<Rightarrow> nat" where
  "unreachable_assertions terminated [] = 0"
| "unreachable_assertions terminated (b # bs) =
     (if terminated \<and> fst b then 1 else 0) + unreachable_assertions (terminated \<or> snd b) bs"

definition tree_findings :: "pystr list \<Rightarrow> pystr \<Rightarrow> test_tree \<Rightarrow> review_finding list" where
  "tree_findings existing path t =
     (if tt_name t \<in> set existing then [test_finding ''duplicate_test'' path (lit ''Generated test duplicates '' @ tt_name t @ lit ''.'')] else [])
     @ (if \<not> tt_asserts t then [test_finding ''assertion_free'' path (tt_name t @ lit '' has no assertion.'')] else [])
     @ (if 7 * tt_calls t < 10 * tt_mock_calls t \<and> 0 < tt_calls t
        then [test_finding ''excessive_mocking'' path (tt_name t @ lit '' is dominated by mocking.'')] else [])
     @ (if tt_constant_compare t then [test_finding ''constant_assertion'' path (tt_name t @ lit '' asserts only constants.'')] else [])
     @ (if tt_constant_assert t
        then [test_finding ''unconditional_assertion'' path (tt_name t @ lit '' contains an unconditional assertion.'')] else [])
     @ replicate (unreachable_assertions False (tt_body t))
         (test_finding ''unreachable_assertion'' path (tt_name t @ lit '' contains an assertion after unconditional termination.''))"

text \<open>\<open>assert\s+(call)\s*==\s*\1\<close>: the called text again after the comparison.\<close>

definition call_rx :: "text_db \<Rightarrow> rx" where
  "call_rx db = seq_of [Ch name_start, Star (Ch (td_word db)), s_lit ''('', plus1 in_line, s_lit '')'']"

definition compares_with_itself :: "text_db \<Rightarrow> pystr \<Rightarrow> bool" where
  "compares_with_itself db s \<longleftrightarrow>
     list_ex (\<lambda>pl. list_ex (\<lambda>u. list_ex (\<lambda>v.
         rests (seq_of [spaces, s_lit ''=='', spaces, Str (take (length u - length v) u)]) v \<noteq> [])
       (rests (call_rx db) u)) (rests (Cat (s_lit ''assert'') spaces1) (snd pl))) (places None s)"

definition weak_test_rules :: "(string \<times> pat \<times> string) list" where
  "weak_test_rules =
    [(''skip_xfail'', rxs [Alt (alt_of [''pytest.skip'', ''pytest.xfail'']) (alt_of [''@pytest.mark.skip'', ''@pytest.mark.xfail''])],
      ''Generated test adds skip/xfail.''),
     (''unconditional_pass'', Either (pats [rxs [s_lit ''assert'', spaces1, s_lit ''True''], Bound]) (rxs [s_lit ''self.assertTrue(True)'']),
      ''Generated test contains an unconditional passing assertion.''),
     (''swallowed_exception'', rxs [s_lit ''except'', spaces1, Opt (s_lit ''Exception''), spaces, s_lit '':'', spaces, alt_of [''pass'', ''return'']],
      ''Generated test swallows exceptions.''),
     (''broad_exception'', pats [rxs [s_lit ''except'', spaces1, alt_of [''Exception'', ''BaseException'']], Bound],
      ''Generated test adds broad exception handling.''),
     (''network_access'', Then Bound (Rx (alt_of [''requests.'', ''urllib.'', ''httpx.'', ''socket.''])),
      ''Generated test introduces network access.''),
     (''behavior_mocked_away'', Then Bound (Rx (Alt (alt_of [''monkeypatch.setattr'', ''mock.patch'']) (seq_of [s_lit ''patch'', spaces, s_lit ''('']))),
      ''Generated test replaces behavior through monkeypatch/mock patching.'')]"

definition added_test_findings :: "text_db \<Rightarrow> python_parser \<Rightarrow> pystr list \<Rightarrow> pystr \<times> pystr list \<Rightarrow> review_finding list" where
  "added_test_findings db ast existing f =
     (if \<not> is_test_path db (fst f) then
        [test_finding ''production_mutation'' (fst f) (lit ''Generated test patch changes production code.'')]
      else
        let source = join_char 10 (snd f)
        in map (\<lambda>(n, p, why). test_finding n (fst f) (lit why)) (filter (\<lambda>(n, p, why). searches db p source) weak_test_rules)
           @ (if compares_with_itself db source
              then [test_finding ''implementation_derived_expectation'' (fst f)
                      (lit ''Expected value is derived directly from the same call under test.'')] else [])
           @ (case py_tests ast source of
                None \<Rightarrow> [test_finding ''malformed_test'' (fst f)
                  (lit ''Generated test additions cannot be parsed independently for validity review.'')]
              | Some ts \<Rightarrow> concat (map (tree_findings existing (fst f)) ts)))"

primrec collect :: "('a \<Rightarrow> exn + 'b list) \<Rightarrow> 'a list \<Rightarrow> exn + 'b list" where
  "collect g [] = Inr []"
| "collect g (x # xs) = (case g x of Inl e \<Rightarrow> Inl e
     | Inr ys \<Rightarrow> (case collect g xs of Inl e \<Rightarrow> Inl e | Inr zs \<Rightarrow> Inr (ys @ zs)))"

definition validate_test_patch ::
    "text_db \<Rightarrow> python_parser \<Rightarrow> pystr \<Rightarrow> pystr list \<Rightarrow> bool \<Rightarrow> exn + review_finding list" where
  "validate_test_patch db ast diff existing allow =
     (let ls = splitlines diff;
          added = lines_by_file added_text None ls [];
          deleted = lines_by_file removed_text None ls []
      in case collect (removed_test_findings db ast allow added) deleted of Inl e \<Rightarrow> Inl e
         | Inr fs \<Rightarrow> Inr (fs @ concat (map (added_test_findings db ast existing) added)))"

section \<open>What a scan without findings means\<close>

text \<open>No added line matches a pattern of high or critical severity.\<close>

definition clean_additions :: "text_db \<Rightarrow> pystr \<Rightarrow> bool" where
  "clean_additions db diff \<longleftrightarrow>
     (\<forall>l \<in> set (splitlines diff). added_text l \<longrightarrow>
       (\<forall>x \<in> set security_patterns. serious (sp_severity x) \<longrightarrow> \<not> searches db (sp_pattern x) (tl l)))"

lemma header_not_added: "starts_with new_file_header l \<Longrightarrow> \<not> added_text l"
  by (cases l; cases "tl l"; cases "tl (tl l)")
     (auto simp: new_file_header_def added_text_def starts_with_def lit_def)

lemma serious_rule_found:
  assumes "x \<in> set security_patterns" and "serious (sp_severity x)" and "searches db (sp_pattern x) content"
  shows "\<exists>f \<in> set (scan_added_line db path content). rf_blocking f \<and> rf_category f = lit (sp_name x)"
proof -
  let ?f = "security_finding (sp_name x) (sp_severity x) path (sp_rationale x) (serious (sp_severity x))"
  have "?f \<in> set (matched_rules db security_patterns path content)"
    using assms(1,3) unfolding matched_rules_def by (intro image_eqI[where x = x] | simp)+
  then have "?f \<in> set (scan_added_line db path content)" by (simp add: scan_added_line_def)
  then show ?thesis using assms(2) by (intro bexI[of _ ?f]) (simp add: security_finding_def)
qed

lemma added_line_scanned:
  assumes "l \<in> set ls" and "added_text l" and "x \<in> set security_patterns" and "serious (sp_severity x)"
    and "searches db (sp_pattern x) (tl l)"
  shows "\<exists>f \<in> set (scan_content_lines db path ls). rf_blocking f \<and> rf_category f = lit (sp_name x)"
  using assms(1)
proof (induction ls arbitrary: path)
  case (Cons k ls)
  consider (here) "l = k" | (later) "l \<in> set ls" using Cons.prems by auto
  then show ?case
  proof cases
    case here
    then have "\<not> starts_with new_file_header k" using header_not_added assms(2) by blast
    then show ?thesis using here assms(2) serious_rule_found[OF assms(3-5), of path] by auto
  next
    case later
    from Cons.IH[OF this, of "Some (drop 6 k)"] Cons.IH[OF this, of path] show ?thesis by auto
  qed
qed simp


lemma scan_clean: "\<forall>f \<in> set (scan_changed_content db diff). \<not> rf_blocking f \<Longrightarrow> clean_additions db diff"
  unfolding clean_additions_def scan_changed_content_def
  using added_line_scanned[of _ "splitlines diff" _ db None] by (metis UnCI set_append)

text \<open>
  A line of Python may start with two plus signs or hold a form feed; the scan takes the first for a
  header and the rest of the second for a line of its own, and sees neither call.
\<close>

lemma disguised_additions_are_not_scanned:
  "map rf_category (scan_changed_content ascii_text (text_of [''+++ b/a.py'', ''+eval(x)''])) = [lit ''unsafe_eval'']"
  "scan_changed_content ascii_text (text_of [''+++ b/a.py'', ''+++eval(x)'']) = []"
  "scan_changed_content ascii_text (text_of [''+++ b/a.py'', ''+y = 1;''] @ [12] @ lit ''eval(x)'') = []"
  by code_simp+

text \<open>
  The lines of a deleted file are taken for those of the file before it, or for none: a patch that
  deletes a whole test file weakens no test.
\<close>

definition no_parser :: python_parser where
  "no_parser = \<lparr>py_statement = (\<lambda>_. No_Assertion), py_tests = (\<lambda>_. Some [])\<rparr>"

lemma deleted_test_file_is_not_noticed:
  "map_sum id (map rf_category) (validate_test_patch ascii_text no_parser
      (text_of [''--- a/tests/test_a.py'', ''+++ b/tests/test_a.py'', ''-def test_a():'', ''-    assert f() == 1'']) [] False)
    = Inr [lit ''deleted_test_behavior'']"
  "validate_test_patch ascii_text no_parser
      (text_of [''--- a/tests/test_a.py'', ''+++ /dev/null'', ''-def test_a():'', ''-    assert f() == 1'']) [] False = Inr []"
  by code_simp+

text \<open>
  Two assertions whose expressions are no comparisons: the check of the expected value raises
  \<open>AttributeError\<close>, which is none of the errors it catches.
\<close>

lemma plain_assertion_raises:
  "validate_test_patch ascii_text (no_parser\<lparr>py_statement := (\<lambda>_. Asserts_Other)\<rparr>)
      (text_of [''+++ b/tests/test_a.py'', ''-    assert valid(a)'', ''+    assert valid(b)'']) [] True
    = Inl (Exn AttributeErrorC ''left'')"
  by code_simp


end
