(* ===== verification/Redaction.thy ===== *)
theory Redaction
  imports Change_Review "HOL-Library.List_Lexorder"
begin

text \<open>
  Redaction of what the program stores (\<open>execution/history.py\<close>): secrets in texts by pattern, values of
  JSON data also by the key they stand under; and the compact, sorted form in which the data is hashed and
  stored. A floating-point number is kept as the text Python prints for it.
\<close>

section \<open>Data\<close>

datatype json = J_Null | J_Bool bool | J_Int int | J_Float pystr | J_Text pystr | J_List "json list"
  | J_Object "(pystr \<times> json) list"

section \<open>Texts\<close>

text \<open>
  A matcher gives, for a position, what a match keeps in front of the secret and the position after it,
  in the order in which the engine of the library tries them.
\<close>

type_synonym matcher = "place \<Rightarrow> (pystr \<times> place) list"

definition covered :: "place \<Rightarrow> place \<Rightarrow> pystr" where
  "covered pl e = take (length (snd pl) - length (snd e)) (snd pl)"

definition whole :: "text_db \<Rightarrow> pat \<Rightarrow> matcher" where
  "whole db p pl = map (Pair []) (ends db p pl)"

definition after_name :: "text_db \<Rightarrow> pat \<Rightarrow> pat \<Rightarrow> matcher" where
  "after_name db name secret pl =
     concat (map (\<lambda>e. map (Pair (covered pl e)) (ends db secret e)) (ends db name pl))"

text \<open>Every match of the patterns here takes at least one character.\<close>

definition next_match :: "matcher \<Rightarrow> place \<Rightarrow> (pystr \<times> place) option" where
  "next_match m pl = first (filter (\<lambda>x. length (snd (snd x)) < length (snd pl)) (m pl))"

lemma next_match_shorter: "next_match m pl = Some (kept, e) \<Longrightarrow> length (snd e) < length (snd pl)"
proof -
  have "first xs = Some x \<Longrightarrow> x \<in> set xs" for x and xs :: "(pystr \<times> place) list" by (cases xs) auto
  then show "next_match m pl = Some (kept, e) \<Longrightarrow> length (snd e) < length (snd pl)"
    unfolding next_match_def by fastforce
qed

text \<open>\<open>pattern.sub\<close>: from the left, each match replaced.\<close>

function substituted :: "matcher \<Rightarrow> pystr \<Rightarrow> place \<Rightarrow> pystr" where
  "substituted m r pl =
     (case next_match m pl of
        Some (kept, e) \<Rightarrow> kept @ r @ substituted m r e
      | None \<Rightarrow> (case snd pl of [] \<Rightarrow> [] | c # s \<Rightarrow> c # substituted m r (Some c, s)))"
  by pat_completeness auto
termination
  by (relation "measure (\<lambda>(m, r, pl). length (snd pl))") (auto dest: next_match_shorter)

declare substituted.simps [simp del]

definition sub_all :: "matcher \<Rightarrow> string \<Rightarrow> pystr \<Rightarrow> pystr" where
  "sub_all m r s = substituted m (lit r) (None, s)"

definition not_in :: "string \<Rightarrow> rx" where
  "not_in cs = Ch (\<lambda>c. \<not> py_isspace c \<and> c \<notin> set (lit cs))"

definition key_words :: rx where
  "key_words = Alt (alt_icase [''token'', ''password'', ''secret''])
     (seq_of [icase ''api'', Opt (Ch (\<lambda>c. c = 95 \<or> c = 45)), icase ''key''])"

definition separator :: rx where
  "separator = seq_of [spaces, Ch (\<lambda>c. c = 61 \<or> c = 58)]"

definition secret_matcher :: "text_db \<Rightarrow> matcher" where
  "secret_matcher db = after_name db (rxs [key_words, separator, spaces]) (Rx (plus1 (not_in '','')))"

definition authorization_matcher :: "text_db \<Rightarrow> matcher" where
  "authorization_matcher db = after_name db (rxs [icase ''authorization'', separator, spaces, Opt quote_rx])
     (rxs [Opt (seq_of [icase ''bearer'', spaces1]), plus1 (Ch (\<lambda>c. \<not> py_isspace c \<and> c \<notin> {44, 39, 34}))])"

definition connection_matcher :: "text_db \<Rightarrow> matcher" where
  "connection_matcher db = whole db (Then Bound (rxs
     [Alt (Cat (icase ''postgres'') (Opt (icase ''ql''))) (Alt (icase ''mysql'')
        (Alt (Cat (icase ''mongodb'') (Opt (icase ''+srv''))) (icase ''redis''))),
      s_lit ''://'', plus1 (Ch (\<lambda>c. \<not> py_isspace c \<and> c \<notin> {39, 34}))]))"

definition upper_word :: "nat \<Rightarrow> bool" where
  "upper_word c \<longleftrightarrow> 65 \<le> c \<and> c \<le> 90 \<or> 48 \<le> c \<and> c \<le> 57 \<or> c = 95"

text \<open>The value of a line up to its end; the line begins where the text or a line begins.\<close>

definition env_matcher :: "text_db \<Rightarrow> matcher" where
  "env_matcher db pl =
     (if fst pl \<in> {None, Some 10} then
        filter (\<lambda>x. snd (snd x) = [] \<or> hd (snd (snd x)) = 10)
          (after_name db (rxs [spaces, Ch (\<lambda>c. 65 \<le> c \<and> c \<le> 90), Star (Ch upper_word),
             alt_of [''TOKEN'', ''PASSWORD'', ''SECRET'', ''KEY'', ''CREDENTIAL''], Star (Ch upper_word), spaces, s_lit ''=''])
           (Rx (plus1 in_line)) pl)
      else [])"

definition provider_matcher :: "text_db \<Rightarrow> matcher" where
  "provider_matcher db = whole db (pats [Bound,
          Either (rxs [s_lit ''sk-'', at_least 12 (Ch (alnum_rx ''_-''))])
         (Either (rxs [s_lit ''gh'', Ch (\<lambda>c. c \<in> set (lit ''pousr'')), s_lit ''_'', at_least 12 (Ch (alnum_rx ''_''))])
         (Either (rxs [s_lit ''AKIA'', at_least 12 (Ch (\<lambda>c. 48 \<le> c \<and> c \<le> 57 \<or> 65 \<le> c \<and> c \<le> 90))])
            (rxs [s_lit ''eyJ'', at_least 10 (Ch (alnum_rx ''_-'')), s_lit ''.'', at_least 10 (Ch (alnum_rx ''_-'')), s_lit ''.'',
               at_least 8 (Ch (alnum_rx ''_-''))]))), Bound])"

definition named_matcher :: "text_db \<Rightarrow> matcher" where
  "named_matcher db = whole db (pats [Bound,
     rxs [alt_icase [''api'', ''webhook'', ''bearer'', ''github_pat''], s_lit ''_'',
       at_least 8 (Ch (\<lambda>c. alnum_rx ''_-'' c \<or> c \<in> set letter_variants))], Bound])"

text \<open>The gap between the two marks of a private key is as short as possible.\<close>

definition key_mark :: "string \<Rightarrow> rx" where
  "key_mark w = seq_of [s_lit w, Star (Ch (\<lambda>c. c \<notin> {45, 13, 10})), s_lit ''PRIVATE KEY-----'']"

definition private_key_matcher :: "text_db \<Rightarrow> matcher" where
  "private_key_matcher db pl =
     concat (map (\<lambda>b. concat (map (\<lambda>gap. map (Pair []) (ends db (Rx (key_mark ''-----END '')) gap)) (places (fst b) (snd b))))
       (ends db (Rx (key_mark ''-----BEGIN '')) pl))"

definition redact :: "text_db \<Rightarrow> pystr \<Rightarrow> pystr" where
  "redact db s =
     sub_all (secret_matcher db) ''[REDACTED]''
    (sub_all (named_matcher db) ''[REDACTED TOKEN]''
    (sub_all (provider_matcher db) ''[REDACTED TOKEN]''
    (sub_all (env_matcher db) ''[REDACTED]''
    (sub_all (connection_matcher db) ''[REDACTED CONNECTION STRING]''
    (sub_all (authorization_matcher db) ''[REDACTED]''
    (sub_all (private_key_matcher db) ''[REDACTED PRIVATE KEY]'' s))))))"

section \<open>Values\<close>

definition sensitive_key :: "text_db \<Rightarrow> pystr \<Rightarrow> bool" where
  "sensitive_key db k \<longleftrightarrow> searches db (Rx (Alt key_words (Alt (icase ''credential'')
     (seq_of [icase ''private'', Opt (Ch (\<lambda>c. c = 95 \<or> c = 45)), icase ''key''])))) k"

text \<open>A value under its key; an empty key is as none.\<close>

fun redact_data :: "text_db \<Rightarrow> pystr \<Rightarrow> json \<Rightarrow> json" where
  "redact_data db k v =
     (if k \<noteq> [] \<and> sensitive_key db k then J_Text (lit ''[REDACTED]'')
      else (case v of
          J_Object ms \<Rightarrow> J_Object (map (\<lambda>(n, x). (n, redact_data db n x)) ms)
        | J_List xs \<Rightarrow> J_List (map (redact_data db []) xs)
        | J_Text s \<Rightarrow> J_Text (redact db s)
        | _ \<Rightarrow> v))"

declare redact_data.simps [simp del]

section \<open>The stored form\<close>

definition hex_digit :: "nat \<Rightarrow> nat" where
  "hex_digit n = (if n < 10 then 48 + n else 87 + n)"

definition escaped :: "nat \<Rightarrow> pystr" where
  "escaped c =
     (if c = 34 then [92, 34] else if c = 92 then [92, 92] else if c = 10 then [92, 110] else if c = 13 then [92, 114]
      else if c = 9 then [92, 116] else if c = 12 then [92, 102] else if c = 8 then [92, 98]
      else if c < 32 then [92, 117, 48, 48, hex_digit (c div 16), hex_digit (c mod 16)] else [c])"

definition quoted :: "pystr \<Rightarrow> pystr" where
  "quoted s = 34 # concat (map escaped s) @ [34]"

definition int_text :: "int \<Rightarrow> pystr" where
  "int_text i = (if i < 0 then 45 # decimal_text (nat (- i)) else decimal_text (nat i))"

text \<open>\<open>json.dumps\<close> with no spaces and characters outside ASCII as they are, and with or without sorted keys.\<close>

fun dumps :: "bool \<Rightarrow> json \<Rightarrow> pystr" where
  "dumps sorting J_Null = lit ''null''"
| "dumps sorting (J_Bool b) = lit (if b then ''true'' else ''false'')"
| "dumps sorting (J_Int i) = int_text i"
| "dumps sorting (J_Float s) = s"
| "dumps sorting (J_Text s) = quoted s"
| "dumps sorting (J_List xs) = [91] @ join_char 44 (map (dumps sorting) xs) @ [93]"
| "dumps sorting (J_Object ms) =
     (let xs = map (\<lambda>(n, x). (n, quoted n @ [58] @ dumps sorting x)) ms
      in [123] @ join_char 44 (map snd (if sorting then sort_key fst xs else xs)) @ [125])"

definition stored_json :: "text_db \<Rightarrow> json \<Rightarrow> pystr" where
  "stored_json db v = dumps True (redact_data db [] v)"

text \<open>The collation \<open>NOCASE\<close> of the database folds the case of ASCII letters.\<close>

definition nocase :: "pystr \<Rightarrow> pystr" where
  "nocase s = map (\<lambda>c. if 65 \<le> c \<and> c \<le> 90 then c + 32 else c) s"

section \<open>What redaction leaves\<close>

text \<open>The texts among the values of data, and those that stand under no sensitive key.\<close>

fun texts :: "json \<Rightarrow> pystr list" where
  "texts (J_Text s) = [s]"
| "texts (J_List xs) = concat (map texts xs)"
| "texts (J_Object ms) = concat (map (\<lambda>(n, x). texts x) ms)"
| "texts J_Null = []"
| "texts (J_Bool b) = []"
| "texts (J_Int i) = []"
| "texts (J_Float s) = []"

fun open_texts :: "text_db \<Rightarrow> pystr \<Rightarrow> json \<Rightarrow> pystr list" where
  "open_texts db k v =
     (if k \<noteq> [] \<and> sensitive_key db k then []
      else (case v of
          J_Object ms \<Rightarrow> concat (map (\<lambda>(n, x). open_texts db n x) ms)
        | J_List xs \<Rightarrow> concat (map (open_texts db []) xs)
        | J_Text s \<Rightarrow> [s]
        | _ \<Rightarrow> []))"

declare open_texts.simps [simp del]

text \<open>C33: redaction lets no text through that stands under a sensitive key, and no other text as it is: every
  text in redacted data is the mark of a redacted value or what the patterns leave of a text of the data
  that stands under no sensitive key, at whatever depth.\<close>

theorem redaction_keeps_only_open_texts:
  "set (texts (redact_data db k v)) \<subseteq> insert (lit ''[REDACTED]'') (redact db ` set (open_texts db k v))"
proof (induction db k v rule: redact_data.induct)
  case (1 db k v)
  show ?case
  proof (cases "k \<noteq> [] \<and> sensitive_key db k")
    case True
    then show ?thesis by (simp add: redact_data.simps)
  next
    case open_key: False
    show ?thesis
    proof (cases v)
      case (J_List xs)
      have "set (texts (redact_data db [] x)) \<subseteq> insert (lit ''[REDACTED]'') (redact db ` set (open_texts db [] x))"
        if "x \<in> set xs" for x
        using "1.IH"(1)[OF open_key J_List that] .
      moreover have "redact_data db k v = J_List (map (redact_data db []) xs)"
        and "open_texts db k v = concat (map (open_texts db []) xs)"
        using open_key J_List by (subst redact_data.simps[of db k v] open_texts.simps[of db k v]; auto)+
      ultimately show ?thesis by (simp only: texts.simps set_concat set_map image_image) blast
    next
      case (J_Object ms)
      have "set (texts (redact_data db n x)) \<subseteq> insert (lit ''[REDACTED]'') (redact db ` set (open_texts db n x))"
        if "(n, x) \<in> set ms" for n x
        using "1.IH"(2)[OF open_key J_Object that refl] .
      moreover have "redact_data db k v = J_Object (map (\<lambda>(n, x). (n, redact_data db n x)) ms)"
        and "open_texts db k v = concat (map (\<lambda>(n, x). open_texts db n x) ms)"
        using open_key J_Object by (subst redact_data.simps[of db k v] open_texts.simps[of db k v]; auto)+
      ultimately show ?thesis by (simp only: texts.simps set_concat set_map image_image split_beta fst_conv snd_conv) fastforce
    qed (use open_key in \<open>simp_all add: redact_data.simps open_texts.simps\<close>)
  qed
qed

text \<open>
  The patterns know names written without quotes: the value of a quoted name, as in JSON text, passes
  unredacted.
\<close>

lemma quoted_name_is_not_redacted:
  "redact ascii_text (lit ''token: abc'') = lit ''token: [REDACTED]''"
  "redact ascii_text (34 # lit ''token'' @ 34 # lit '': abc'') = 34 # lit ''token'' @ 34 # lit '': abc''"
  by code_simp+

lemma sample_redaction:
  "redact_data ascii_text [] (J_Object [(lit ''user'', J_Text (lit ''a'')), (lit ''api_key'', J_List [J_Int 1]),
      (lit ''xs'', J_List [J_Text (lit ''pw password=b c''), J_Int 2])])
   = J_Object [(lit ''user'', J_Text (lit ''a'')), (lit ''api_key'', J_Text (lit ''[REDACTED]'')),
      (lit ''xs'', J_List [J_Text (lit ''pw password=[REDACTED] c''), J_Int 2])]"
  by code_simp

end
