(* ===== verification/Repair.thy ===== *)
theory Repair
  imports Redaction Validation_Run
begin

text \<open>
  Repair of a change whose validation failed: the bounded engine of \<open>validation/repair.py\<close> and the
  sequence of targeted checks, repairs, required checks and decision of
  \<open>agent/code_agent.py\<close> (\<open>run_intelligent_validation\<close>). The language model, the tool that applies a
  patch and the files are calls on the world of the worktree; the call of the model includes the redaction of
  the prompt. The engine's counters of calls and of
  applied patches are there for the bounds only.
\<close>

section \<open>The engine\<close>

record repair_plan = implementation_plan +
  rq_request :: pystr
  rq_summary :: pystr

record repair_evidence =
  ev_diff :: pystr
  ev_source :: pystr
  ev_contracts :: pystr
  ev_rejected :: pystr
  ev_preflight :: pystr

record repair_attempt =
  ra_number :: nat
  ra_rationale :: pystr
  ra_patch :: pystr
  ra_hash :: pystr
  ra_status :: decision_status

type_synonym prompt = "(string \<times> pystr list) list"

record 'w repair_ports =
  rp_chat :: "prompt \<Rightarrow> ('w, pystr) act"
  rp_truncated :: "('w, bool) act"
  rp_parse :: "pystr \<Rightarrow> exn + json"
  rp_hash :: "pystr \<Rightarrow> pystr"
  rp_db :: text_db
  rp_ast :: python_parser
  rp_policy :: scope_policy
  rp_symbols :: "symbol_record list"
  rp_prefix :: pystr
  rp_max :: int

record 'w repair_world =
  rw_tree :: "'w validation_world"
  rw_attempts :: "repair_attempt list"
  rw_prints :: "pystr list"
  rw_calls :: nat
  rw_applied :: nat

type_synonym ('w, 'a) repair_act = "('w repair_world, 'a) act"

definition on_tree :: "('w, 'a) validation_act \<Rightarrow> ('w, 'a) repair_act" where
  "on_tree m w = (case m (rw_tree w) of (r, t) \<Rightarrow> (r, w\<lparr>rw_tree := t\<rparr>))"

definition outside :: "('w, 'a) act \<Rightarrow> ('w, 'a) repair_act" where
  "outside m = on_tree (tree_call m)"

abbreviation repair_error :: "string \<Rightarrow> exn" where
  "repair_error \<equiv> Exn ValidationIntelligenceErrorC"

definition demand :: "bool \<Rightarrow> string \<Rightarrow> ('s, unit) act" where
  "demand b msg = (if b then act_ok () else act_raise (repair_error msg))"

definition last_chars :: "nat \<Rightarrow> pystr \<Rightarrow> pystr" where
  "last_chars n s = drop (length s - n) s"

definition plan_context :: "repair_plan \<Rightarrow> prompt" where
  "plan_context plan =
    [(''task_id'', [im_task plan]), (''request'', [take 2000 (rq_request plan)]), (''summary'', [take 1000 (rq_summary plan)]),
     (''files_to_modify'', map (take 120) (take 20 (im_modify plan))),
     (''files_to_create'', map (take 120) (take 20 (im_create plan))),
     (''symbols_to_modify'', map (take 160) (take 20 (im_symbols plan))),
     (''validation_commands'', map (take 240) (take 10 (im_commands plan)))]"

definition evidence_context :: "repair_evidence \<Rightarrow> prompt" where
  "evidence_context e =
    [(''current_diff'', [last_chars 3000 (ev_diff e)]), (''affected_source_context'', [take 6000 (ev_source e)]),
     (''binding_contracts'', [take 2500 (ev_contracts e)]), (''previous_rejected_patch'', [last_chars 6000 (ev_rejected e)]),
     (''git_preflight_error'', [take 1000 (ev_preflight e)])]"

text \<open>The classifier leaves related files and symbols empty.\<close>

definition failure_context :: "failure_record \<Rightarrow> prompt" where
  "failure_context f =
    [(''category'', [lit (category_value (fl_category f))]), (''command'', [take 300 (fl_command f)]),
     (''output'', [last_chars 2000 (fl_output f)]), (''related_files'', []), (''related_symbols'', [])]"

definition repair_prompt :: "repair_plan \<Rightarrow> failure_record \<Rightarrow> repair_evidence \<Rightarrow> prompt" where
  "repair_prompt plan f e =
     (''request'', [take 2000 (rq_request plan)]) # plan_context plan @ failure_context f @ evidence_context e"

definition correction_prompt :: "repair_plan \<Rightarrow> repair_evidence \<Rightarrow> pystr \<Rightarrow> pystr \<Rightarrow> string \<Rightarrow> prompt" where
  "correction_prompt plan e rationale patch msg =
     plan_context plan
     @ [(''acceptance_contract'', [take 2500 (ev_contracts e)]), (''prior_rationale'', [take 1000 rationale]),
        (''rejected_patch'', [take 6000 patch]), (''parser_error'', [take 500 (lit msg)])]"

text \<open>An object with exactly the two texts, neither of them blank.\<close>

definition read_answer :: "json \<Rightarrow> (pystr \<times> pystr) option" where
  "read_answer v =
     (case v of
        J_Object members \<Rightarrow>
          if set (map fst members) \<noteq> {lit ''rationale'', lit ''patch''} then None
          else (case (map_of members (lit ''rationale''), map_of members (lit ''patch'')) of
             (Some (J_Text a), Some (J_Text b)) \<Rightarrow> if strip a \<noteq> [] \<and> strip b \<noteq> [] then Some (a, b) else None
           | _ \<Rightarrow> None)
      | _ \<Rightarrow> None)"

definition ask_model :: "'w repair_ports \<Rightarrow> prompt \<Rightarrow> string \<Rightarrow> string \<Rightarrow> ('w, pystr \<times> pystr) repair_act" where
  "ask_model p q truncated malformed =
     act_seq (act_lift (\<lambda>w. w\<lparr>rw_calls := rw_calls w + 1\<rparr>))
     (act_bind (outside (rp_chat p q)) (\<lambda>raw.
     act_bind (outside (rp_truncated p)) (\<lambda>cut.
     act_seq (demand (\<not> cut) truncated)
       (case rp_parse p raw of
          Inl e \<Rightarrow> if caught_by [ValueErrorC, TypeErrorC, KeyErrorC] e then act_raise (repair_error malformed) else act_raise e
        | Inr v \<Rightarrow> (case read_answer v of None \<Rightarrow> act_raise (repair_error malformed) | Some a \<Rightarrow> act_ok a)))))"

definition scope_of_patch :: "'w repair_ports \<Rightarrow> pystr \<Rightarrow> exn + patch_scope" where
  "scope_of_patch p patch = extract_patch_scope (rp_db p) patch (rp_symbols p) (rp_prefix p)"

definition rescope :: "'w repair_ports \<Rightarrow> pystr \<times> pystr \<Rightarrow> ('w, (pystr \<times> pystr) \<times> patch_scope) repair_act" where
  "rescope p again =
     (case scope_of_patch p (snd again) of
        Inr x \<Rightarrow> act_ok (again, x)
      | Inl err \<Rightarrow>
          if is_instance err PatchValidationErrorC
          then act_raise (repair_error ''Repair rejected because corrected patch is malformed'') else act_raise err)"

text \<open>A patch that is none gets one more answer from the model.\<close>

definition patch_with_scope ::
    "'w repair_ports \<Rightarrow> repair_plan \<Rightarrow> repair_evidence \<Rightarrow> pystr \<times> pystr \<Rightarrow> ('w, (pystr \<times> pystr) \<times> patch_scope) repair_act" where
  "patch_with_scope p plan e answer =
     (case scope_of_patch p (snd answer) of
        Inr x \<Rightarrow> act_ok (answer, x)
      | Inl err \<Rightarrow>
          if \<not> is_instance err PatchValidationErrorC then act_raise err
          else if \<not> sublist ''no deterministic file changes'' (exn_msg err) then
            act_raise (repair_error ''Repair rejected because its patch is malformed'')
          else
            act_bind (ask_model p (correction_prompt plan e (fst answer) (snd answer) (exn_msg err))
                ''Truncated model response while correcting patch format'' ''Malformed repair format correction'')
              (rescope p))"

definition validation_files :: "pystr list" where
  "validation_files = map lit [''pyproject.toml'', ''pytest.ini'', ''tox.ini'', ''ruff.toml'', ''mypy.ini'',
     ''pyrightconfig.json'', ''package.json'', ''tsconfig.json'', ''Cargo.toml'', ''foundry.toml'', ''.gitleaks.toml'']"

primrec disables_lines :: "text_db \<Rightarrow> pystr \<Rightarrow> pystr list \<Rightarrow> bool" where
  "disables_lines db current [] = False"
| "disables_lines db current (l # ls) =
     (if starts_with (lit ''--- a/'') l then disables_lines db (drop 6 l) ls
      else list_ex (\<lambda>f. ends_with f current) validation_files \<and> removed_text l
          \<and> searches db (Rx (alt_icase [''pytest'', ''test'', ''ruff'', ''mypy'', ''pyright'', ''eslint'', ''lint'', ''build'',
              ''security'', ''gitleaks''])) l
        \<or> disables_lines db current ls)"

definition disables_validation :: "text_db \<Rightarrow> pystr \<Rightarrow> bool" where
  "disables_validation db patch \<longleftrightarrow> disables_lines db [] (splitlines patch)"

text \<open>A line that is \<open>pass\<close> and a comment: the match begins at a line's start and ends at a line's end.\<close>

definition pass_line_rx :: rx where
  "pass_line_rx = seq_of [spaces, s_lit ''pass'', spaces, Opt (Cat (s_lit ''#'') (Star in_line))]"

definition whole_lines :: "text_db \<Rightarrow> rx \<Rightarrow> pystr \<Rightarrow> bool" where
  "whole_lines db r s \<longleftrightarrow> list_ex (\<lambda>pl. fst pl \<in> {None, Some 10}
     \<and> list_ex (\<lambda>t. t = [] \<or> hd t = 10) (rests r (snd pl))) (places None s)"

definition repair_shortcut :: "text_db \<Rightarrow> pystr \<Rightarrow> bool" where
  "repair_shortcut db patch \<longleftrightarrow>
     (let additions = join_char 10 (map tl (filter added_text (splitlines patch)))
      in whole_lines db pass_line_rx additions
         \<or> searches db (pats [Bound, Rx (alt_of [''TODO'', ''FIXME'']), Bound]) additions
         \<or> searches db (pats [rxs [s_lit ''except'', spaces1, alt_of [''Exception'', ''BaseException'']], Bound,
              rxs [Star (Ch (\<lambda>c. c \<noteq> 58)), s_lit '':'', spaces, alt_of [''pass'', ''return'']]]) additions)"

definition weakens_tests :: "review_finding list \<Rightarrow> bool" where
  "weakens_tests fs \<longleftrightarrow> list_ex (\<lambda>f. rf_blocking f \<and> rf_category f \<noteq> lit ''production_mutation'') fs"

definition act_result :: "exn + 'a \<Rightarrow> ('s, 'a) act" where
  "act_result r = (case r of Inl e \<Rightarrow> act_raise e | Inr x \<Rightarrow> act_ok x)"

text \<open>A patch is checked first without, and then, where the plan binds contracts, with their allowance.\<close>

definition check_weakening :: "'w repair_ports \<Rightarrow> repair_evidence \<Rightarrow> pystr \<Rightarrow> ('w, unit) repair_act" where
  "check_weakening p e patch =
     act_bind (act_result (validate_test_patch (rp_db p) (rp_ast p) patch [] False)) (\<lambda>strict.
     act_bind (if ev_contracts e = [] then act_ok strict
         else act_result (validate_test_patch (rp_db p) (rp_ast p) patch [] True)) (\<lambda>fs.
       demand (\<not> weakens_tests fs) ''Repair rejected for test weakening''))"

definition failure_print :: "'w repair_ports \<Rightarrow> failure_record \<Rightarrow> pystr" where
  "failure_print p f = rp_hash p (lit (category_value (fl_category f)) @ 0 # fl_output f)"

definition repair_limit :: "'w repair_ports \<Rightarrow> nat" where
  "repair_limit p = nat (rp_max p)"

text \<open>The answer of the model after every check; nothing is recorded before.\<close>

definition checked_patch ::
    "'w repair_ports \<Rightarrow> repair_plan \<Rightarrow> failure_record \<Rightarrow> repair_evidence \<Rightarrow> ('w, pystr \<times> pystr) repair_act" where
  "checked_patch p plan f e =
     act_bind (ask_model p (repair_prompt plan f e) ''Truncated model response; repair was not applied''
         ''Malformed repair response'') (\<lambda>answer.
     act_bind (patch_with_scope p plan e answer) (\<lambda>((rationale, patch), x).
     act_bind (act_result (validate_patch_scope (rp_db p) (rp_policy p) x)) (\<lambda>issues.
     act_seq (demand (issues = []) ''Repair requires reapproval'')
     (act_seq (check_weakening p e patch)
     (act_seq (demand (\<not> list_ex rf_blocking (scan_changed_content (rp_db p) patch))
         ''Repair requires reapproval for increased security risk'')
     (act_seq (demand (\<not> disables_validation (rp_db p) patch) ''Repair may not disable validation configuration'')
     (act_seq (demand (\<not> repair_shortcut (rp_db p) patch)
         ''Repair contains placeholder or exception-swallowing shortcut'')
     (act_ok (rationale, patch)))))))))"

definition record_attempt :: "'w repair_ports \<Rightarrow> pystr \<times> pystr \<Rightarrow> ('w, repair_attempt) repair_act" where
  "record_attempt p answer w =
     (let a = \<lparr>ra_number = length (rw_attempts w) + 1, ra_rationale = take 1000 (fst answer), ra_patch = snd answer,
          ra_hash = rp_hash p (snd answer), ra_status = Dec_Repair_Required\<rparr>
      in (Inr a, w\<lparr>rw_attempts := rw_attempts w @ [a]\<rparr>))"

definition propose ::
    "'w repair_ports \<Rightarrow> repair_plan \<Rightarrow> failure_record \<Rightarrow> repair_evidence \<Rightarrow> ('w, repair_attempt) repair_act" where
  "propose p plan f e w =
     (let fp = failure_print p f;
          status = repair_decision (fl_category f) (length (rw_attempts w)) (repair_limit p) (fp \<in> set (rw_prints w)) False False
      in if status \<noteq> Dec_Repair_Required \<or> \<not> fl_repair f then (Inl (repair_error ''Repair stopped''), w)
         else act_seq (act_lift (\<lambda>w. w\<lparr>rw_prints := rw_prints w @ [fp]\<rparr>))
           (act_bind (checked_patch p plan f e) (record_attempt p)) w)"

section \<open>Validation with repairs\<close>

record apply_result =
  ar_success :: bool
  ar_summary :: pystr
  ar_stderr :: pystr

text \<open>
  The calls around the engine: the evidence collected from the files, the tool that applies a patch, the
  report file with its import into the history.
\<close>

record 'w agent_ports =
  ag_validation :: "'w validation_ports"
  ag_repair :: "'w repair_ports"
  ag_evidence :: "('w, repair_evidence) act"
  ag_apply :: "repair_attempt \<Rightarrow> ('w, apply_result) act"
  ag_persist :: "('w, unit) act"
  ag_context :: bool
  ag_facts :: planning_facts
  ag_timeouts :: "(pystr \<times> int) list"

definition apply_repair :: "'w agent_ports \<Rightarrow> repair_attempt \<Rightarrow> ('w, apply_result) repair_act" where
  "apply_repair g a =
     act_seq (act_lift (\<lambda>w. w\<lparr>rw_applied := rw_applied w + 1\<rparr>)) (outside (ag_apply g a))"

definition patch_failure :: "'w agent_ports \<Rightarrow> pystr \<Rightarrow> failure_record" where
  "patch_failure g err =
     classify_failure (rp_db (ag_repair g)) (vp_redact (ag_validation g)) (lit ''git apply --check --recount'') (Some 1)
       (lit ''SyntaxError: Git rejected the bounded repair patch. '' @ take 1000 err) False 0 0"

definition room_for_repair :: "'w agent_ports \<Rightarrow> 'w repair_world \<Rightarrow> bool" where
  "room_for_repair g w \<longleftrightarrow> int (length (rw_attempts w)) < rp_max (ag_repair g)"

text \<open>One repair: whether the loop goes on with a new validation.\<close>

definition repair_once :: "'w agent_ports \<Rightarrow> repair_plan \<Rightarrow> failure_record \<Rightarrow> ('w, bool) repair_act" where
  "repair_once g plan f =
     act_bind (outside (ag_evidence g)) (\<lambda>e.
     act_bind (propose (ag_repair g) plan f e) (\<lambda>a.
     act_bind (apply_repair g a) (\<lambda>o1.
       if ar_success o1 then act_ok True
       else if ar_stderr o1 = [] then act_ok False
       else (\<lambda>w. if \<not> room_for_repair g w then (Inr False, w)
         else act_bind (propose (ag_repair g) plan (patch_failure g (ar_stderr o1))
                (e\<lparr>ev_rejected := ra_patch a, ev_preflight := ar_stderr o1\<rparr>)) (\<lambda>b.
              act_bind (apply_repair g b) (\<lambda>o2. act_ok (ar_success o2))) w))))"

definition repair_errors :: "exn_class list" where
  "repair_errors = [ToolExecutionErrorC, ValidationIntelligenceErrorC, LLMErrorC]"

definition targeted_run :: "'w agent_ports \<Rightarrow> validation_plan \<Rightarrow> ('w, validation_report) repair_act" where
  "targeted_run g v = on_tree (validation_run (rp_db (ag_repair g)) (ag_validation g) (ag_facts g) v True False False)"

text \<open>The loop with \<open>fuel\<close> rounds; \<open>None\<close> when they are used up.\<close>

primrec repair_loop ::
    "nat \<Rightarrow> 'w agent_ports \<Rightarrow> repair_plan \<Rightarrow> validation_plan \<Rightarrow> validation_report \<Rightarrow> ('w, validation_report option) repair_act" where
  "repair_loop 0 g plan v rep = (\<lambda>w.
     if vt_failures rep \<noteq> [] \<and> ag_context g \<and> room_for_repair g w then (Inr None, w) else (Inr (Some rep), w))"
| "repair_loop (Suc fuel) g plan v rep = (\<lambda>w.
     if vt_failures rep \<noteq> [] \<and> ag_context g \<and> room_for_repair g w then
       act_bind (act_catch (repair_once g plan (hd (vt_failures rep)))
           (\<lambda>e. if caught_by repair_errors e then act_ok False else act_raise e)) (\<lambda>again.
         if again then act_bind (targeted_run g v) (repair_loop fuel g plan v) else act_ok (Some rep)) w
     else (Inr (Some rep), w))"

definition build_step :: "'w agent_ports \<Rightarrow> ('w, validation_plan) repair_act" where
  "build_step g =
     act_bind (outside (vp_build (ag_validation g) False (ag_timeouts g))) (\<lambda>built.
     act_bind (outside (vp_configuration (ag_validation g))) (\<lambda>c. act_ok (built\<lparr>va_configuration := c\<rparr>)))"

text \<open>The plan, the report and its decision over the results of both phases.\<close>

definition intelligent_validation ::
    "nat \<Rightarrow> 'w agent_ports \<Rightarrow> repair_plan
     \<Rightarrow> ('w, (validation_plan \<times> validation_result list \<times> final_decision) option) repair_act" where
  "intelligent_validation fuel g plan =
     act_bind (build_step g) (\<lambda>v.
     act_bind (targeted_run g v) (\<lambda>rep0.
     act_bind (repair_loop fuel g plan v rep0) (\<lambda>done_rep.
       case done_rep of None \<Rightarrow> act_ok None
       | Some rep \<Rightarrow>
           if \<not> passing (vt_decision rep) then
             act_seq (outside (ag_persist g)) (act_ok (Some (v, vt_results rep, vt_decision rep)))
           else
             act_bind (on_tree (validation_run (rp_db (ag_repair g)) (ag_validation g) (ag_facts g) v False True True)) (\<lambda>req.
               let results = vt_results rep @ vt_results req;
                   decision = decide_final v results (vt_findings req) False False
               in act_seq (outside (ag_persist g)) (act_ok (Some (v, results, decision)))))))"

section \<open>An accepted repair\<close>

lemma demand_Inr: "demand b msg w = (Inr u, w') \<longleftrightarrow> b \<and> w' = w"
  by (auto simp: demand_def act_ok_def act_raise_def)

lemma act_result_Inr: "act_result r w = (Inr x, w') \<longleftrightarrow> r = Inr x \<and> w' = w"
  by (cases r) (auto simp: act_result_def act_ok_def act_raise_def)

lemma rescope_Inr: "rescope p again w = (Inr (a, x), w') \<Longrightarrow> scope_of_patch p (snd a) = Inr x"
  by (cases "scope_of_patch p (snd again)") (auto simp: rescope_def ok_eq act_raise_def split: if_splits)

lemma patch_with_scope_Inr:
  assumes "patch_with_scope p plan e answer w = (Inr (a, x), w')"
  shows "scope_of_patch p (snd a) = Inr x"
proof (cases "scope_of_patch p (snd answer)")
  case (Inr y)
  then show ?thesis using assms by (auto simp: patch_with_scope_def ok_eq)
next
  case (Inl err)
  then obtain again v where "rescope p again v = (Inr (a, x), w')"
    using assms by (auto simp: patch_with_scope_def bind_Inr act_raise_def split: if_splits)
  then show ?thesis by (rule rescope_Inr)
qed

lemma check_weakening_Inr:
  assumes "check_weakening p e patch w = (Inr u, w')"
  shows "\<exists>fs. validate_test_patch (rp_db p) (rp_ast p) patch [] (ev_contracts e \<noteq> []) = Inr fs \<and> \<not> weakens_tests fs"
  using assms
  by (cases "ev_contracts e = []") (auto simp: check_weakening_def run_simps act_result_Inr demand_Inr)

text \<open>What every patch the engine hands out satisfies.\<close>

definition confined_patch :: "'w repair_ports \<Rightarrow> repair_evidence \<Rightarrow> pystr \<Rightarrow> bool" where
  "confined_patch p e patch \<longleftrightarrow>
     (\<exists>x. scope_of_patch p patch = Inr x \<and> validate_patch_scope (rp_db p) (rp_policy p) x = Inr [])
     \<and> (\<exists>fs. validate_test_patch (rp_db p) (rp_ast p) patch [] (ev_contracts e \<noteq> []) = Inr fs \<and> \<not> weakens_tests fs)
     \<and> clean_additions (rp_db p) patch \<and> \<not> disables_validation (rp_db p) patch \<and> \<not> repair_shortcut (rp_db p) patch"

lemma checked_patch_Inr:
  assumes "checked_patch p plan f e w = (Inr (rationale, patch), w')"
  shows "confined_patch p e patch"
proof -
  obtain answer w1 x w2 issues w3 u w4 where
    "patch_with_scope p plan e answer w1 = (Inr ((rationale, patch), x), w2)"
    and "validate_patch_scope (rp_db p) (rp_policy p) x = Inr issues" and "issues = []"
    and "check_weakening p e patch w3 = (Inr u, w4)"
    and "\<not> list_ex rf_blocking (scan_changed_content (rp_db p) patch)"
    and "\<not> disables_validation (rp_db p) patch" and "\<not> repair_shortcut (rp_db p) patch"
    using assms by (auto simp: checked_patch_def run_simps act_result_Inr demand_Inr split: prod.splits)
  then show ?thesis
    unfolding confined_patch_def
    using patch_with_scope_Inr[of p plan e answer w1 "(rationale, patch)" x w2] check_weakening_Inr[of p e patch w3 u w4]
      scan_clean[of "rp_db p" patch]
    by (auto simp: list_ex_iff)
qed

section \<open>Bounds\<close>

text \<open>The action leaves the attempts and the count of applied patches and makes at most \<open>k\<close> calls.\<close>

definition costs :: "nat \<Rightarrow> ('w, 'a) repair_act \<Rightarrow> bool" where
  "costs k m \<longleftrightarrow> (\<forall>w r w'. m w = (r, w') \<longrightarrow>
     rw_attempts w' = rw_attempts w \<and> rw_applied w' = rw_applied w \<and> rw_calls w' \<le> rw_calls w + k)"

named_theorems costs_intros \<open>costs of composed actions\<close>

lemma costsD:
  "costs k m \<Longrightarrow> m w = (r, w') \<Longrightarrow>
     rw_attempts w' = rw_attempts w \<and> rw_applied w' = rw_applied w \<and> rw_calls w' \<le> rw_calls w + k"
  by (simp add: costs_def)

lemma costs_ok [costs_intros]: "costs 0 (act_ok x)" "costs 0 (act_raise e)" "costs 0 (demand b msg)" "costs 0 (act_result r)"
  by (auto simp: costs_def act_ok_def act_raise_def demand_def act_result_def split: sum.splits)

lemma costs_tree [costs_intros]: "costs 0 (on_tree m)" "costs 0 (outside n)"
  by (auto simp: costs_def on_tree_def outside_def split: prod.splits)

lemma costs_bind:
  assumes "costs i m" and "\<And>x. costs j (f x)"
  shows "costs (i + j) (act_bind m f)"
  unfolding costs_def
proof (intro allI impI)
  fix w r w' assume run: "act_bind m f w = (r, w')"
  obtain a v where m: "m w = (a, v)" by fastforce
  show "rw_attempts w' = rw_attempts w \<and> rw_applied w' = rw_applied w \<and> rw_calls w' \<le> rw_calls w + (i + j)"
  proof (cases a)
    case (Inl x)
    then show ?thesis using run m costsD[OF assms(1) m] by (simp add: act_bind_def)
  next
    case (Inr x)
    then have "f x v = (r, w')" using run m by (simp add: act_bind_def)
    from costsD[OF assms(2) this] costsD[OF assms(1) m] show ?thesis by simp
  qed
qed

lemmas costs_bind0 = costs_bind[where i = 0 and j = j for j, simplified]
  and costs_tail0 = costs_bind[where j = 0, simplified]

lemma costs_mono: "costs i m \<Longrightarrow> i \<le> j \<Longrightarrow> costs j m"
  unfolding costs_def by (meson add_le_mono order_refl order_trans)

lemma costs_ask [costs_intros]: "costs 1 (ask_model p q truncated malformed)"
proof -
  have count: "costs 1 (act_lift (\<lambda>w. w\<lparr>rw_calls := rw_calls w + 1\<rparr>) :: ('w, unit) repair_act)"
    by (auto simp: costs_def act_lift_def)
  have rest: "costs 0 (act_seq (demand (\<not> cut) truncated)
       (case rp_parse p raw of
          Inl e \<Rightarrow> if caught_by [ValueErrorC, TypeErrorC, KeyErrorC] e then act_raise (repair_error malformed) else act_raise e
        | Inr v \<Rightarrow> (case read_answer v of None \<Rightarrow> act_raise (repair_error malformed) | Some a \<Rightarrow> act_ok a)))" for cut raw
    by (rule costs_bind0[OF costs_ok(3)]) (auto intro: costs_intros split: sum.splits option.splits)
  show ?thesis
    unfolding ask_model_def
    by (rule costs_tail0[OF count], rule costs_bind0[OF costs_tree(2)], rule costs_bind0[OF costs_tree(2) rest])
qed

lemma costs_scope: "costs 1 (patch_with_scope p plan e answer)"
proof -
  have r: "costs 0 (rescope p again)" for again
    unfolding rescope_def by (auto intro: costs_intros split: sum.splits)
  have again: "costs (Suc 0) (act_bind (ask_model p q t1 t2) (rescope p))" for q t1 t2
    using costs_bind[OF costs_ask[of p q t1 t2] r] by simp
  show ?thesis
    unfolding patch_with_scope_def
    by (auto intro: again costs_mono[OF costs_ok(1)] costs_mono[OF costs_ok(2)] split: sum.splits)
qed

lemma costs_checked: "costs 2 (checked_patch p plan f e)"
proof -
  have weak: "costs 0 (check_weakening p e patch)" for patch
    unfolding check_weakening_def by (intro costs_bind0 costs_intros) (auto intro: costs_intros)
  have rest: "costs 0 (act_bind (act_result (validate_patch_scope (rp_db p) (rp_policy p) x)) (\<lambda>issues.
     act_seq (demand (issues = []) m1)
     (act_seq (check_weakening p e patch)
     (act_seq (demand (\<not> list_ex rf_blocking (scan_changed_content (rp_db p) patch)) m2)
     (act_seq (demand (\<not> disables_validation (rp_db p) patch) m3)
     (act_seq (demand (\<not> repair_shortcut (rp_db p) patch) m4)
     (act_ok (rationale, patch))))))))" for x patch rationale m1 m2 m3 m4
    by (intro costs_bind0 costs_intros weak)
  have "costs 1 (act_bind (patch_with_scope p plan e answer) (\<lambda>((rationale, patch), x).
     act_bind (act_result (validate_patch_scope (rp_db p) (rp_policy p) x)) (\<lambda>issues.
     act_seq (demand (issues = []) m1)
     (act_seq (check_weakening p e patch)
     (act_seq (demand (\<not> list_ex rf_blocking (scan_changed_content (rp_db p) patch)) m2)
     (act_seq (demand (\<not> disables_validation (rp_db p) patch) m3)
     (act_seq (demand (\<not> repair_shortcut (rp_db p) patch) m4)
     (act_ok (rationale, patch)))))))))" for answer m1 m2 m3 m4
    by (rule costs_tail0[OF costs_scope]) (auto intro: rest split: prod.splits)
  from costs_bind[OF costs_ask this] show ?thesis
    unfolding checked_patch_def by (simp add: numeral_2_eq_2)
qed

lemma propose_cases:
  assumes "propose p plan f e w = (r, w')"
  obtains (stopped) err where "r = Inl err" and "w' = w" 
  | (tried) "length (rw_attempts w) < repair_limit p" and "rw_calls w' \<le> rw_calls w + 2" and "rw_applied w' = rw_applied w"
    and "case r of Inl _ \<Rightarrow> rw_attempts w' = rw_attempts w
       | Inr a \<Rightarrow> rw_attempts w' = rw_attempts w @ [a] \<and> ra_number a = length (rw_attempts w) + 1 \<and> confined_patch p e (ra_patch a)"
proof (cases "repair_decision (fl_category f) (length (rw_attempts w)) (repair_limit p) (failure_print p f \<in> set (rw_prints w)) False False
    \<noteq> Dec_Repair_Required \<or> \<not> fl_repair f")
  case True
  then show thesis using assms stopped by (auto simp: propose_def Let_def)
next
  case False
  then have room: "length (rw_attempts w) < repair_limit p" by (auto simp: repair_decision_def split: if_splits)
  let ?w = "w\<lparr>rw_prints := rw_prints w @ [failure_print p f]\<rparr>"
  have run: "act_bind (checked_patch p plan f e) (record_attempt p) ?w = (r, w')"
    using assms False by (simp add: propose_def Let_def act_bind_def act_lift_def)
  obtain c v where c: "checked_patch p plan f e ?w = (c, v)" by fastforce
  note cost = costsD[OF costs_checked c]
  show thesis
  proof (cases c)
    case (Inl err)
    then have "r = Inl err" "w' = v" using run c by (auto simp: act_bind_def)
    then show thesis using tried room cost by simp
  next
    case (Inr answer)
    then have "record_attempt p answer v = (r, w')" using run c by (simp add: act_bind_def)
    moreover obtain rationale patch where "answer = (rationale, patch)" by (cases answer)
    moreover from this have "confined_patch p e patch" using checked_patch_Inr c Inr by blast
    ultimately show thesis using tried room cost by (auto simp: record_attempt_def Let_def)
  qed
qed

text \<open>The budget while the engine may go on, and when it ends.\<close>

definition within_budget :: "'w repair_ports \<Rightarrow> 'w repair_world \<Rightarrow> bool" where
  "within_budget p w \<longleftrightarrow> rw_applied w \<le> length (rw_attempts w) \<and> length (rw_attempts w) \<le> repair_limit p
     \<and> rw_calls w \<le> 2 * length (rw_attempts w)"

definition budget_kept :: "'w repair_ports \<Rightarrow> 'w repair_world \<Rightarrow> bool" where
  "budget_kept p w \<longleftrightarrow> rw_applied w \<le> length (rw_attempts w) \<and> length (rw_attempts w) \<le> repair_limit p
     \<and> rw_calls w \<le> 2 * repair_limit p"

lemma budget_kept: "within_budget p w \<Longrightarrow> budget_kept p w"
  by (simp add: within_budget_def budget_kept_def)

lemma within_budget_costs: "costs 0 m \<Longrightarrow> m w = (r, w') \<Longrightarrow> within_budget p w \<Longrightarrow> within_budget p w'"
  using costsD[of 0 m w r w'] by (simp add: within_budget_def)

lemma budget_kept_costs: "costs 0 m \<Longrightarrow> m w = (r, w') \<Longrightarrow> budget_kept p w \<Longrightarrow> budget_kept p w'"
  using costsD[of 0 m w r w'] by (simp add: budget_kept_def)

lemma apply_repair_counts:
  assumes "apply_repair g a w = (r, w')"
  shows "rw_attempts w' = rw_attempts w" and "rw_applied w' = rw_applied w + 1" and "rw_calls w' = rw_calls w"
  using assms by (auto simp: apply_repair_def act_bind_def act_lift_def outside_def on_tree_def tree_call_def
      split: prod.splits sum.splits)

text \<open>A proposal and its application: one attempt more, or the end of the repairs.\<close>

lemma propose_apply:
  assumes "act_bind (propose (ag_repair g) plan f e) (\<lambda>a. act_bind (apply_repair g a) (k a)) w = (r, w')"
    and "within_budget (ag_repair g) w"
  obtains (stopped) err where "r = Inl err" and "budget_kept (ag_repair g) w'"
  | (applied) a ob v where "within_budget (ag_repair g) v" and "length (rw_attempts w) < length (rw_attempts v)"
    and "k a ob v = (r, w')"
proof -
  let ?p = "ag_repair g"
  obtain c v where c: "propose ?p plan f e w = (c, v)" by fastforce
  show thesis
  proof (cases c)
    case (Inl err)
    then have "r = Inl err" "w' = v" using assms(1) c by (auto simp: act_bind_def)
    moreover have "budget_kept ?p v"
      using c Inl assms(2) by (cases rule: propose_cases) (auto simp: within_budget_def budget_kept_def)
    ultimately show thesis using stopped by blast
  next
    case (Inr a)
    have v: "rw_attempts v = rw_attempts w @ [a]" "length (rw_attempts w) < repair_limit ?p"
      "rw_calls v \<le> rw_calls w + 2" "rw_applied v = rw_applied w"
      using c Inr by (cases rule: propose_cases; simp)+
    have rest: "act_bind (apply_repair g a) (k a) v = (r, w')" using assms(1) c Inr by (simp add: act_bind_def)
    obtain d u where d: "apply_repair g a v = (d, u)" by fastforce
    have u: "within_budget ?p u" "length (rw_attempts w) < length (rw_attempts u)"
      using apply_repair_counts[OF d] v assms(2) by (auto simp: within_budget_def)
    show thesis
    proof (cases d)
      case (Inl err)
      then have "r = Inl err" "w' = u" using rest d by (auto simp: act_bind_def)
      then show thesis using stopped budget_kept u(1) by blast
    next
      case (Inr ob)
      then have "k a ob u = (r, w')" using rest d by (simp add: act_bind_def)
      then show thesis using applied u by blast
    qed
  qed
qed

lemma repair_once_budget:
  assumes "repair_once g plan f w = (r, w')" and "within_budget (ag_repair g) w"
  shows "case r of Inl _ \<Rightarrow> budget_kept (ag_repair g) w'
    | Inr _ \<Rightarrow> within_budget (ag_repair g) w' \<and> length (rw_attempts w) < length (rw_attempts w')"
proof -
  let ?p = "ag_repair g"
  obtain c v where c: "outside (ag_evidence g) w = (c, v)" by fastforce
  note b = within_budget_costs[OF costs_tree(2) c assms(2)] and same = costsD[OF costs_tree(2) c]
  show ?thesis
  proof (cases c)
    case (Inl err)
    then have "r = Inl err" "w' = v" using assms(1) c by (auto simp: repair_once_def act_bind_def)
    then show ?thesis using budget_kept b by simp
  next
    case (Inr e)
    let ?k2 = "\<lambda>(b :: repair_attempt) o2. act_ok (ar_success o2) :: ('w, bool) repair_act"
    let ?k = "\<lambda>a o1. if ar_success o1 then act_ok True
       else if ar_stderr o1 = [] then act_ok False
       else (\<lambda>w. if \<not> room_for_repair g w then (Inr False, w)
         else act_bind (propose ?p plan (patch_failure g (ar_stderr o1))
                (e\<lparr>ev_rejected := ra_patch a, ev_preflight := ar_stderr o1\<rparr>)) (\<lambda>b. act_bind (apply_repair g b) (?k2 b)) w)"
    have run: "act_bind (propose ?p plan f e) (\<lambda>a. act_bind (apply_repair g a) (?k a)) v = (r, w')"
      using assms(1) c Inr by (simp add: repair_once_def act_bind_def)
    show ?thesis
      using run b
    proof (cases rule: propose_apply)
      case (applied a ob u)
      have len: "length (rw_attempts w) < length (rw_attempts u)" using applied(2) same by simp
      show ?thesis
      proof (cases "ar_success ob \<or> ar_stderr ob = [] \<or> \<not> room_for_repair g u")
        case True
        then have "w' = u \<and> (\<exists>x. r = Inr x)" using applied(3) by (auto simp: act_ok_def split: if_splits)
        then show ?thesis using applied(1) len by auto
      next
        case False
        then have "act_bind (propose ?p plan (patch_failure g (ar_stderr ob))
                (e\<lparr>ev_rejected := ra_patch a, ev_preflight := ar_stderr ob\<rparr>)) (\<lambda>b. act_bind (apply_repair g b) (?k2 b)) u = (r, w')"
          using applied(3) by simp
        from this applied(1) show ?thesis
        proof (cases rule: propose_apply)
          case (applied b ob2 u2)
          then show ?thesis using len by (auto simp: act_ok_def)
        qed simp
      qed
    qed simp
  qed
qed

lemma no_room: "repair_limit (ag_repair g) \<le> length (rw_attempts w) \<Longrightarrow> \<not> room_for_repair g w"
  by (simp add: room_for_repair_def repair_limit_def)

lemma targeted_costs: "costs 0 (targeted_run g v)"
  by (simp add: targeted_run_def costs_tree)

lemma repair_loop_budget:
  assumes "repair_loop fuel g plan v rep w = (r, w')" and "within_budget (ag_repair g) w"
    and "repair_limit (ag_repair g) \<le> fuel + length (rw_attempts w)"
  shows "r \<noteq> Inr None \<and> budget_kept (ag_repair g) w'"
  using assms
proof (induction fuel arbitrary: rep w)
  case 0
  then show ?case using no_room[of g w] budget_kept by auto
next
  case (Suc fuel)
  let ?p = "ag_repair g"
  show ?case
  proof (cases "vt_failures rep \<noteq> [] \<and> ag_context g \<and> room_for_repair g w")
    case False
    then show ?thesis using Suc.prems budget_kept by (auto split: if_splits)
  next
    case True
    let ?attempt = "act_catch (repair_once g plan (hd (vt_failures rep)))
           (\<lambda>e. if caught_by repair_errors e then act_ok False else act_raise e)"
    obtain c u where c: "?attempt w = (c, u)" by fastforce
    have run: "(case c of Inl e \<Rightarrow> (Inl e, u)
      | Inr again \<Rightarrow> (if again then act_bind (targeted_run g v) (repair_loop fuel g plan v) else act_ok (Some rep)) u) = (r, w')"
      using Suc.prems(1) True c by (auto simp: act_bind_def split: sum.splits prod.splits)
    obtain d x where d: "repair_once g plan (hd (vt_failures rep)) w = (d, x)" by fastforce
    note once = repair_once_budget[OF d Suc.prems(2)]
    show ?thesis
    proof (cases d)
      case (Inl e)
      then have "u = x" "c \<noteq> Inr True" using c d by (auto simp: act_catch_def act_ok_def act_raise_def split: if_splits)
      then have "r \<noteq> Inr None" "w' = u" using run by (auto simp: act_ok_def split: sum.splits)
      then show ?thesis using once Inl \<open>u = x\<close> by simp
    next
      case (Inr again)
      then have cu: "c = Inr again" "u = x" using c d by (auto simp: act_catch_def)
      have b: "within_budget ?p u" "length (rw_attempts w) < length (rw_attempts u)" using once Inr cu by auto
      show ?thesis
      proof (cases again)
        case False
        then show ?thesis using run cu b budget_kept by (auto simp: act_ok_def)
      next
        case True
        then have next_round: "act_bind (targeted_run g v) (repair_loop fuel g plan v) u = (r, w')" using run cu by simp
        obtain t y where t: "targeted_run g v u = (t, y)" by fastforce
        note by_y = within_budget_costs[OF targeted_costs t b(1)] and same = costsD[OF targeted_costs t]
        show ?thesis
        proof (cases t)
          case (Inl e)
          then show ?thesis using next_round t by_y budget_kept by (auto simp: act_bind_def)
        next
          case (Inr rep')
          then have "repair_loop fuel g plan v rep' y = (r, w')" using next_round t by (simp add: act_bind_def)
          from Suc.IH[OF this by_y] show ?thesis using Suc.prems(3) b(2) same by simp
        qed
      qed
    qed
  qed
qed

text \<open>C32: validation with repairs ends, within its budget. Given as many rounds of fuel as repairs are
  allowed, the sequence never runs out of rounds, whatever the model, the tool and the commands answer
  and raise; it makes at most two calls of the model for each allowed repair and applies at most as many
  patches as it recorded attempts, never more than the limit.\<close>

theorem repairs_are_bounded:
  assumes "intelligent_validation fuel g plan w = (r, w')"
    and "rw_attempts w = []" and "rw_calls w = 0" and "rw_applied w = 0" and "repair_limit (ag_repair g) \<le> fuel"
  shows "r \<noteq> Inr None \<and> rw_applied w' \<le> length (rw_attempts w')
    \<and> length (rw_attempts w') \<le> repair_limit (ag_repair g) \<and> rw_calls w' \<le> 2 * repair_limit (ag_repair g)"
proof -
  let ?p = "ag_repair g"
  have start: "within_budget ?p w" using assms(2-4) by (simp add: within_budget_def)
  have "r \<noteq> Inr None \<and> budget_kept ?p w'"
  proof -
    obtain c1 w1 where c1: "build_step g w = (c1, w1)" by fastforce
    have "costs 0 (build_step g)" unfolding build_step_def by (intro costs_bind0 costs_intros)
    note b1 = within_budget_costs[OF this c1 start] and s1 = costsD[OF this c1]
    show ?thesis
    proof (cases c1)
      case (Inl e)
      then show ?thesis using assms(1) c1 b1 budget_kept by (auto simp: intelligent_validation_def act_bind_def)
    next
      case (Inr v)
      obtain c2 w2 where c2: "targeted_run g v w1 = (c2, w2)" by fastforce
      note b2 = within_budget_costs[OF targeted_costs c2 b1] and s2 = costsD[OF targeted_costs c2]
      show ?thesis
      proof (cases c2)
        case (Inl e)
        then show ?thesis using assms(1) c1 c2 \<open>c1 = Inr v\<close> b2 budget_kept
          by (auto simp: intelligent_validation_def act_bind_def)
      next
        case (Inr rep0)
        obtain c3 w3 where c3: "repair_loop fuel g plan v rep0 w2 = (c3, w3)" by fastforce
        have "repair_limit ?p \<le> fuel + length (rw_attempts w2)" using assms(5) by simp
        note loop = repair_loop_budget[OF c3 b2 this]
        let ?rest = "\<lambda>done_rep. case done_rep of None \<Rightarrow> act_ok None
         | Some rep \<Rightarrow>
           if \<not> passing (vt_decision rep) then
             act_seq (outside (ag_persist g)) (act_ok (Some (v, vt_results rep, vt_decision rep)))
           else
             act_bind (on_tree (validation_run (rp_db (ag_repair g)) (ag_validation g) (ag_facts g) v False True True)) (\<lambda>req.
               let results = vt_results rep @ vt_results req;
                   decision = decide_final v results (vt_findings req) False False
               in act_seq (outside (ag_persist g)) (act_ok (Some (v, results, decision))))"
        have run: "(case c3 of Inl e \<Rightarrow> (Inl e, w3) | Inr x \<Rightarrow> ?rest x w3) = (r, w')"
          using assms(1) c1 c2 c3 \<open>c1 = Inr v\<close> Inr
          by (simp add: intelligent_validation_def act_bind_def split: sum.splits)
        show ?thesis
        proof (cases c3)
          case (Inl e)
          then show ?thesis using run loop by auto
        next
          case (Inr x)
          then obtain rep where x: "x = Some rep" using loop by (cases x) auto
          have "costs 0 (?rest (Some rep))"
            by (auto intro!: costs_bind0 costs_intros simp: Let_def)
          moreover have "?rest (Some rep) w3 = (r, w')" using run Inr x by simp
          ultimately have "budget_kept ?p w'" using budget_kept_costs loop by blast
          moreover have "r \<noteq> Inr None"
            using \<open>?rest (Some rep) w3 = (r, w')\<close>
            by (auto simp: act_bind_def act_ok_def Let_def split: if_splits prod.splits sum.splits)
          ultimately show ?thesis by blast
        qed
      qed
    qed
  qed
  then show ?thesis by (simp add: budget_kept_def)
qed

section \<open>What a success says\<close>

text \<open>The engine and the tool leave the cache and the trace of the validation.\<close>

definition off_trace :: "('w, 'a) repair_act \<Rightarrow> bool" where
  "off_trace m \<longleftrightarrow> (\<forall>w r w'. m w = (r, w') \<longrightarrow>
     vw_trace (rw_tree w') = vw_trace (rw_tree w) \<and> vw_cache (rw_tree w') = vw_cache (rw_tree w))"

named_theorems off_trace_intros \<open>actions beside the validation\<close>

lemma off_traceD: "off_trace m \<Longrightarrow> m w = (r, w') \<Longrightarrow>
    vw_trace (rw_tree w') = vw_trace (rw_tree w) \<and> vw_cache (rw_tree w') = vw_cache (rw_tree w)"
  by (simp add: off_trace_def)

lemma off_trace_basic [off_trace_intros]:
  "off_trace (act_ok x)" "off_trace (act_raise e)" "off_trace (demand b msg)" "off_trace (act_result r)"
  "off_trace (outside m)" "off_trace (record_attempt p answer)"
  by (auto simp: off_trace_def act_ok_def act_raise_def demand_def act_result_def outside_def on_tree_def tree_call_def
      record_attempt_def Let_def split: sum.splits prod.splits)

lemma off_trace_bind [off_trace_intros]: "off_trace m \<Longrightarrow> (\<And>x. off_trace (f x)) \<Longrightarrow> off_trace (act_bind m f)"
proof -
  assume m: "off_trace m" and f: "\<And>x. off_trace (f x)"
  have "vw_trace (rw_tree w') = vw_trace (rw_tree w) \<and> vw_cache (rw_tree w') = vw_cache (rw_tree w)"
    if run: "act_bind m f w = (r, w')" for w r w'
  proof (cases "m w")
    case (Pair a v)
    note mv = off_traceD[OF m Pair]
    show ?thesis
    proof (cases a)
      case (Inl x)
      then show ?thesis using run Pair mv by (simp add: act_bind_def)
    next
      case (Inr x)
      then have "f x v = (r, w')" using run Pair by (simp add: act_bind_def)
      from off_traceD[OF f this] mv show ?thesis by simp
    qed
  qed
  then show ?thesis by (simp add: off_trace_def)
qed

lemma off_trace_catch [off_trace_intros]: "off_trace m \<Longrightarrow> (\<And>e. off_trace (h e)) \<Longrightarrow> off_trace (act_catch m h)"
proof -
  assume m: "off_trace m" and h: "\<And>e. off_trace (h e)"
  have "vw_trace (rw_tree w') = vw_trace (rw_tree w) \<and> vw_cache (rw_tree w') = vw_cache (rw_tree w)"
    if run: "act_catch m h w = (r, w')" for w r w'
  proof (cases "m w")
    case (Pair a v)
    note mv = off_traceD[OF m Pair]
    show ?thesis
    proof (cases a)
      case (Inr x)
      then show ?thesis using run Pair mv by (simp add: act_catch_def)
    next
      case (Inl x)
      then have "h x v = (r, w')" using run Pair by (simp add: act_catch_def)
      from off_traceD[OF h this] mv show ?thesis by simp
    qed
  qed
  then show ?thesis by (simp add: off_trace_def)
qed

lemma off_trace_counters [off_trace_intros]:
  "off_trace (act_lift (\<lambda>w. w\<lparr>rw_calls := rw_calls w + 1\<rparr>))" "off_trace (act_lift (\<lambda>w. w\<lparr>rw_applied := rw_applied w + 1\<rparr>))"
  "off_trace (act_lift (\<lambda>w. w\<lparr>rw_prints := rw_prints w @ ps\<rparr>))"
  by (auto simp: off_trace_def act_lift_def)

lemma off_trace_ask [off_trace_intros]: "off_trace (ask_model p q a b)"
  unfolding ask_model_def by (intro off_trace_intros) (auto intro: off_trace_intros split: sum.splits option.splits)

lemma off_trace_scope [off_trace_intros]: "off_trace (patch_with_scope p plan e answer)"
proof -
  have "off_trace (rescope p again)" for again
    unfolding rescope_def by (auto intro: off_trace_intros split: sum.splits)
  then show ?thesis unfolding patch_with_scope_def by (auto intro!: off_trace_intros split: sum.splits)
qed

lemma off_trace_checked [off_trace_intros]: "off_trace (checked_patch p plan f e)"
proof -
  have weak: "off_trace (check_weakening p e patch)" for patch
    unfolding check_weakening_def by (intro off_trace_intros) (auto intro: off_trace_intros)
  show ?thesis unfolding checked_patch_def by (auto intro!: off_trace_intros weak split: prod.splits)
qed

lemma off_trace_propose [off_trace_intros]: "off_trace (propose p plan f e)"
  unfolding off_trace_def
proof (intro allI impI)
  fix w r w' assume run: "propose p plan f e w = (r, w')"
  let ?m = "act_seq (act_lift (\<lambda>w. w\<lparr>rw_prints := rw_prints w @ [failure_print p f]\<rparr>))
           (act_bind (checked_patch p plan f e) (record_attempt p))"
  have "w' = w \<or> ?m w = (r, w')" using run by (auto simp: propose_def Let_def split: if_splits)
  moreover have "off_trace ?m" by (intro off_trace_intros)
  ultimately show "vw_trace (rw_tree w') = vw_trace (rw_tree w) \<and> vw_cache (rw_tree w') = vw_cache (rw_tree w)"
    by (auto dest: off_traceD)
qed

lemma off_trace_apply [off_trace_intros]: "off_trace (apply_repair g a)"
  unfolding apply_repair_def by (intro off_trace_intros)

lemma off_trace_once [off_trace_intros]: "off_trace (repair_once g plan f)"
proof -
  have choice: "off_trace (\<lambda>w. if P w then (Inr x, w) else m w)" if "off_trace m" for P x and m :: "('w, 'c) repair_act"
    using that by (auto simp: off_trace_def)
  show ?thesis unfolding repair_once_def by (auto intro!: off_trace_intros choice)
qed

text \<open>The results of a run of the steps, each pass with its evidence.\<close>

definition backed ::
    "'w agent_ports \<Rightarrow> validation_step list \<Rightarrow> validation_result list \<Rightarrow> validation_event list \<Rightarrow> bool" where
  "backed g ss rs tr \<longleftrightarrow> length rs = length ss \<and> (\<forall>(s, r) \<in> set (zip ss rs). vr_step r = vs_id s
     \<and> (passed r \<longrightarrow> (\<exists>d. evidence (ag_validation g) (pf_commit (ag_facts g)) d s tr)))"

lemma backed_mono: "backed g ss rs tr \<Longrightarrow> set tr \<subseteq> set tr' \<Longrightarrow> backed g ss rs tr'"
  unfolding backed_def using evidence_mono by blast

lemma run_backed:
  assumes "on_tree (validation_run db (ag_validation g) (ag_facts g) v tf rf review) w = (Inr rep, w')"
    and "cache_sound (rw_tree w)" and "phase_of tf rf = Inr ph"
  shows "backed g (phase_steps ph v) (vt_results rep) (vw_trace (rw_tree w'))" and "cache_sound (rw_tree w')"
    and "set (vw_trace (rw_tree w)) \<subseteq> set (vw_trace (rw_tree w'))"
proof -
  have run: "validation_run db (ag_validation g) (ag_facts g) v tf rf review (rw_tree w) = (Inr rep, rw_tree w')"
    using assms(1) by (auto simp: on_tree_def split: prod.splits)
  obtain ph' d bs where ph': "phase_of tf rf = Inr ph'"
    and tr: "vw_trace (rw_tree w') = vw_trace (rw_tree w) @ Saw_Diff d # concat bs @ [Saw_Diff d]"
    and bs: "list_all2 (\<lambda>(s, r) es. step_block d s r es) (zip (phase_steps ph' v) (vt_results rep)) bs"
    and len: "length (vt_results rep) = length (phase_steps ph' v)" and cs: "cache_sound (rw_tree w')"
    and ev: "\<forall>(s, r) \<in> set (zip (phase_steps ph' v) (vt_results rep)). passed r \<longrightarrow>
      evidence (ag_validation g) (pf_commit (ag_facts g)) d s (vw_trace (rw_tree w'))"
    by (rule validation_run_InrE[OF run assms(2)])
  have ph: "ph' = ph" using ph' assms(3) by simp
  note bs = bs[unfolded ph] and len = len[unfolded ph] and ev = ev[unfolded ph]
  have "vr_step r = vs_id s" if "(s, r) \<in> set (zip (phase_steps ph v) (vt_results rep))" for s r
    using bs that len by (auto simp: list_all2_conv_all_nth in_set_conv_nth step_block_def)
  then show "backed g (phase_steps ph v) (vt_results rep) (vw_trace (rw_tree w'))"
    using len ev unfolding backed_def by blast
  show "cache_sound (rw_tree w')" by (rule cs)
  show "set (vw_trace (rw_tree w)) \<subseteq> set (vw_trace (rw_tree w'))" using tr by auto
qed

lemma targeted_backed:
  assumes "targeted_run g v w = (Inr rep, w')" and "cache_sound (rw_tree w)"
  shows "backed g (va_targeted v) (vt_results rep) (vw_trace (rw_tree w'))" and "cache_sound (rw_tree w')"
    and "set (vw_trace (rw_tree w)) \<subseteq> set (vw_trace (rw_tree w'))"
  using run_backed[OF assms(1)[unfolded targeted_run_def] assms(2), of Phase_Targeted]
  by (simp_all add: phase_of_def phase_steps_def)

lemma loop_backed:
  assumes "repair_loop fuel g plan v rep w = (Inr (Some rep'), w')"
    and "backed g (va_targeted v) (vt_results rep) (vw_trace (rw_tree w))" and "cache_sound (rw_tree w)"
  shows "backed g (va_targeted v) (vt_results rep') (vw_trace (rw_tree w')) \<and> cache_sound (rw_tree w')
    \<and> set (vw_trace (rw_tree w)) \<subseteq> set (vw_trace (rw_tree w'))"
  using assms
proof (induction fuel arbitrary: rep w)
  case 0
  then show ?case by (auto split: if_splits)
next
  case (Suc fuel)
  show ?case
  proof (cases "vt_failures rep \<noteq> [] \<and> ag_context g \<and> room_for_repair g w")
    case False
    then show ?thesis using Suc.prems by (auto split: if_splits)
  next
    case True
    let ?attempt = "act_catch (repair_once g plan (hd (vt_failures rep)))
           (\<lambda>e. if caught_by repair_errors e then act_ok False else act_raise e)"
    obtain again u where u: "?attempt w = (Inr again, u)"
      and rest: "(if again then act_bind (targeted_run g v) (repair_loop fuel g plan v) else act_ok (Some rep)) u = (Inr (Some rep'), w')"
      using Suc.prems(1) True by (auto simp: bind_Inr)
    have "off_trace ?attempt" by (auto intro!: off_trace_intros)
    note same = off_traceD[OF this u]
    have cs: "cache_sound (rw_tree u)" using same Suc.prems(3) by (simp add: cache_sound_def)
    show ?thesis
    proof (cases again)
      case False
      then have "w' = u" "rep' = rep" using rest by (auto simp: ok_eq)
      then show ?thesis using same cs Suc.prems(2) by simp
    next
      case True
      then obtain rep1 y where t: "targeted_run g v u = (Inr rep1, y)" and l: "repair_loop fuel g plan v rep1 y = (Inr (Some rep'), w')"
        using rest by (auto simp: bind_Inr)
      note b = targeted_backed[OF t cs]
      from Suc.IH[OF l b(1,2)] b(3) same show ?thesis by auto
    qed
  qed
qed



section \<open>A repair\<close>

text \<open>
  The check fails once; the model's patch adds a line to the planned file; the check then passes. In the
  world of the sample the text is the number of checks still to fail, as one character each.
\<close>

definition sample_engine :: "pystr repair_ports" where
  "sample_engine = \<lparr>rp_chat = (\<lambda>_. act_ok (lit ''answer'')), rp_truncated = act_ok False,
     rp_parse = (\<lambda>_. Inr (J_Object [(lit ''rationale'', J_Text (lit ''bind x'')), (lit ''patch'', J_Text sample_diff)])),
     rp_hash = (\<lambda>s. s), rp_db = ascii_text, rp_ast = no_parser, rp_policy = sample_policy, rp_symbols = sample_symbols,
     rp_prefix = [], rp_max = 2\<rparr>"

definition sample_plan :: repair_plan where
  "sample_plan = \<lparr>im_task = [], im_token = [], im_modify = [lit ''a.py''], im_create = [], im_delete = [], im_tests = [], im_symbols = [], im_commands = [],
     im_risk = Risk_Low, rq_request = lit ''bind x'', rq_summary = []\<rparr>"

definition sample_evidence :: repair_evidence where
  "sample_evidence = \<lparr>ev_diff = [], ev_source = [], ev_contracts = [], ev_rejected = [], ev_preflight = []\<rparr>"

definition sample_agent :: "pystr agent_ports" where
  "sample_agent = \<lparr>ag_validation = sample_tools\<lparr>vp_diff := act_ok [],
        vp_build := (\<lambda>_ _. act_ok (lone_step\<lparr>va_repository := lit ''/r'', va_targeted := va_final lone_step, va_final := []\<rparr>)),
        vp_patch := (\<lambda>_. act_ok []),
        vp_run := (\<lambda>c _ w. (Inr \<lparr>so_code = Some (if w = [] then 0 else 1), so_timed_out = False,
          so_stdout = lit ''SyntaxError: bad'', so_stderr = []\<rparr>, w))\<rparr>,
     ag_repair = sample_engine, ag_evidence = act_ok sample_evidence,
     ag_apply = (\<lambda>_ w. (Inr \<lparr>ar_success = True, ar_summary = [], ar_stderr = []\<rparr>, tl w)),
     ag_persist = act_ok (), ag_context = True, ag_facts = sample_facts, ag_timeouts = []\<rparr>"

definition sample_world :: "pystr repair_world" where
  "sample_world = \<lparr>rw_tree = sample_start\<lparr>vw_world := [1]\<rparr>, rw_attempts = [], rw_prints = [], rw_calls = 0, rw_applied = 0\<rparr>"

definition sample_repair :: "(exn + (validation_plan \<times> validation_result list \<times> final_decision) option) \<times> pystr repair_world" where
  "sample_repair = intelligent_validation 2 sample_agent sample_plan sample_world"

text \<open>A repair of the sample: the model's patch passes every check of the engine and is applied.\<close>

definition sample_failure :: failure_record where
  "sample_failure = classify_failure ascii_text (\<lambda>s. s) (lit ''ruff check .'') (Some 1) (lit ''SyntaxError: bad'') False 0 0"

lemma sample_repair_applied:
  "(case repair_once sample_agent sample_plan sample_failure sample_world of
      (r, w) \<Rightarrow> r = Inr True \<and> map ra_number (rw_attempts w) = [1] \<and> rw_calls w = 1 \<and> rw_applied w = 1
        \<and> vw_world (rw_tree w) = []) = True"
  by code_simp

theorem repairs_are_bounded_witness:
  "(case sample_repair of (r, w') \<Rightarrow> r \<noteq> Inr None \<and> rw_applied w' \<le> length (rw_attempts w')
      \<and> length (rw_attempts w') \<le> 2 \<and> rw_calls w' \<le> 4) = True"
proof -
  obtain r w' where run: "sample_repair = (r, w')" by fastforce
  have "repair_limit (ag_repair (sample_agent :: pystr agent_ports)) = 2"
    by (simp add: sample_agent_def sample_engine_def repair_limit_def)
  with repairs_are_bounded[OF run[unfolded sample_repair_def]] show ?thesis unfolding run by (simp add: sample_world_def)
qed



end
