(* ===== verification/Proactive.thy ===== *)
theory Proactive
  imports Redaction Validation_Run
begin

text \<open>
  The engine of local watches and notifications (\<open>proactive/service.py\<close>, with the round of
  \<open>proactive/runtime.py\<close>). A state of the engine is its database, the observers attached to it and its
  limit; every method runs under the lock, so one call is one step, except that a poll calls its observers
  and takes in their events one after the other between the steps of others. Times of the clock are whole
  microseconds (the source compares the ISO texts of UTC times, which order the same way), due times whole
  seconds; fresh identifiers are inputs. Metadata is stored as its redacted text, here the redacted value;
  rows are in the order of their insertion.
\<close>

section \<open>Data\<close>

datatype event_source =
  Src_System | Src_Service | Src_Repository | Src_Filesystem | Src_Task | Src_External | Src_Schedule

primrec source_value :: "event_source \<Rightarrow> string" where
  "source_value Src_System = ''system''"
| "source_value Src_Service = ''service''"
| "source_value Src_Repository = ''repository''"
| "source_value Src_Filesystem = ''filesystem''"
| "source_value Src_Task = ''task''"
| "source_value Src_External = ''external''"
| "source_value Src_Schedule = ''schedule''"

datatype watch_permission = Perm_Notify

record watch =
  wt_id :: pystr
  wt_source :: event_source
  wt_label :: pystr
  wt_permission :: watch_permission
  wt_relevance :: int
  wt_interval :: int
  wt_enabled :: bool
  wt_schedule :: bool
  wt_metadata :: json

record watch_row = watch +
  wr_due :: int

record proactive_event =
  pe_id :: pystr
  pe_watch :: pystr
  pe_source :: event_source
  pe_kind :: pystr
  pe_summary :: pystr
  pe_relevance :: int
  pe_occurred :: int
  pe_hash :: pystr
  pe_metadata :: json

record notification =
  nt_id :: pystr
  nt_event :: pystr
  nt_watch :: pystr
  nt_summary :: pystr
  nt_relevance :: int
  nt_created :: int
  nt_acknowledged :: "int option"

record proactive_db =
  pd_watches :: "watch_row list"
  pd_events :: "proactive_event list"
  pd_notes :: "notification list"

text \<open>What an observer reports: kind, summary, relevance and metadata.\<close>

type_synonym report = "pystr \<times> pystr \<times> int \<times> json"

text \<open>The tables of Unicode and the hash of texts.\<close>

record proactive_env =
  en_db :: text_db
  en_hash :: "pystr \<Rightarrow> pystr"

section \<open>Watches\<close>

text \<open>At most 32 members, and no more than 16384 characters when stored; the result is redacted.\<close>

definition checked_metadata :: "proactive_env \<Rightarrow> json \<Rightarrow> string \<Rightarrow> exn + json" where
  "checked_metadata env v subject =
     (case v of
        J_Object ms \<Rightarrow>
          if length ms > 32 then Inl (ValueError (subject @ '' metadata is too large''))
          else let safe = redact_data (en_db env) [] v
            in if length (stored_json (en_db env) safe) > 16384
               then Inl (ValueError (subject @ '' metadata exceeds the configured bound'')) else Inr safe
      | _ \<Rightarrow> Inl (ValueError (subject @ '' metadata is too large'')))"

definition watch_bounds :: "'z watch_scheme \<Rightarrow> bool" where
  "watch_bounds t \<longleftrightarrow> wt_id t \<noteq> [] \<and> length (wt_id t) \<le> 128 \<and> wt_label t \<noteq> [] \<and> length (wt_label t) \<le> 500
     \<and> 1 \<le> wt_relevance t \<and> wt_relevance t \<le> 100 \<and> 1 \<le> wt_interval t \<and> wt_interval t \<le> 86400"

text \<open>The checks of a watch when it is made, also when it is read back from its row.\<close>

definition watch_check :: "proactive_env \<Rightarrow> 'z watch_scheme \<Rightarrow> exn + unit" where
  "watch_check env t =
     (if wt_id t = [] \<or> length (wt_id t) > 128 \<or> wt_label t = [] \<or> length (wt_label t) > 500
        then Inl (ValueError ''watch identity and label must be bounded'')
      else if \<not> (1 \<le> wt_relevance t \<and> wt_relevance t \<le> 100)
        then Inl (ValueError ''watch relevance must be between 1 and 100'')
      else if \<not> (1 \<le> wt_interval t \<and> wt_interval t \<le> 86400)
        then Inl (ValueError ''watch interval must be between 1 and 86400 seconds'')
      else map_sum id (\<lambda>_. ()) (checked_metadata env (wt_metadata t) ''watch''))"

definition row_of :: "proactive_env \<Rightarrow> watch \<Rightarrow> int \<Rightarrow> watch_row" where
  "row_of env t due =
     \<lparr>wt_id = wt_id t, wt_source = wt_source t, wt_label = wt_label t, wt_permission = wt_permission t,
      wt_relevance = wt_relevance t, wt_interval = wt_interval t, wt_enabled = wt_enabled t, wt_schedule = wt_schedule t,
      wt_metadata = redact_data (en_db env) [] (wt_metadata t), wr_due = due\<rparr>"

definition find_watch :: "pystr \<Rightarrow> watch_row list \<Rightarrow> watch_row option" where
  "find_watch i rows = List.find (\<lambda>r. wt_id r = i) rows"

text \<open>A known watch is replaced where it stands and keeps its due time.\<close>

definition upsert_watch :: "proactive_env \<Rightarrow> watch \<Rightarrow> watch_row list \<Rightarrow> watch_row list" where
  "upsert_watch env t rows =
     (if find_watch (wt_id t) rows = None then rows @ [row_of env t 0]
      else map (\<lambda>r. if wt_id r = wt_id t then row_of env t (wr_due r) else r) rows)"

text \<open>
  The engine around its database: the limit of notifications per hour and the observers, each a call on
  a world of its own.
\<close>

record 'o engine =
  eg_db :: proactive_db
  eg_limit :: nat
  eg_observers :: "pystr \<Rightarrow> ('o, report option) act option"

definition open_engine :: "int \<Rightarrow> proactive_db \<Rightarrow> exn + 'o engine" where
  "open_engine rate db =
     (if \<not> (1 \<le> rate \<and> rate \<le> 10000) then Inl (ValueError ''notification rate must be between 1 and 10000 per hour'')
      else Inr \<lparr>eg_db = db, eg_limit = nat rate, eg_observers = (\<lambda>_. None)\<rparr>)"

definition register :: "proactive_env \<Rightarrow> watch \<Rightarrow> ('o, report option) act option \<Rightarrow> 'o engine \<Rightarrow> 'o engine" where
  "register env t obs g =
     g\<lparr>eg_db := (eg_db g)\<lparr>pd_watches := upsert_watch env t (pd_watches (eg_db g))\<rparr>,
       eg_observers := (case obs of None \<Rightarrow> eg_observers g | Some f \<Rightarrow> (eg_observers g)(wt_id t := Some f))\<rparr>"

definition disable :: "pystr \<Rightarrow> ('o engine, unit) act" where
  "disable i g =
     (if find_watch i (pd_watches (eg_db g)) = None then (Inl (ValueError ''watch is unavailable''), g)
      else (Inr (), g\<lparr>eg_db := (eg_db g)\<lparr>pd_watches :=
          map (\<lambda>r. if wt_id r = i then r\<lparr>wt_enabled := False\<rparr> else r) (pd_watches (eg_db g))\<rparr>,
        eg_observers := (eg_observers g)(i := None)\<rparr>))"

section \<open>Events\<close>

text \<open>\<open>metadata or {}\<close>\<close>

definition or_empty :: "json \<Rightarrow> json" where
  "or_empty v = (if v = J_Null then J_Object [] else v)"

definition enabled_watch :: "pystr \<Rightarrow> proactive_db \<Rightarrow> watch_row option" where
  "enabled_watch i d = List.find (\<lambda>r. wt_id r = i \<and> wt_enabled r) (pd_watches d)"

definition payload_hash :: "proactive_env \<Rightarrow> pystr \<Rightarrow> pystr \<Rightarrow> json \<Rightarrow> pystr" where
  "payload_hash env kind summary safe =
     en_hash env (stored_json (en_db env)
       (J_Object [(lit ''kind'', J_Text kind), (lit ''summary'', J_Text summary), (lit ''metadata'', safe)]))"

definition event_key_taken :: "proactive_event \<Rightarrow> proactive_event list \<Rightarrow> bool" where
  "event_key_taken e es \<longleftrightarrow> (\<exists>x \<in> set es. pe_id x = pe_id e \<or> (pe_watch x = pe_watch e \<and> pe_hash x = pe_hash e))"

definition hour :: int where "hour = 3600 * 1000000"

definition recent_notes :: "int \<Rightarrow> proactive_db \<Rightarrow> nat" where
  "recent_notes now d = length (filter (\<lambda>n. now - hour \<le> nt_created n) (pd_notes d))"

definition event_fields_valid :: "pystr \<Rightarrow> pystr \<Rightarrow> int \<Rightarrow> bool" where
  "event_fields_valid kind summary relevance \<longleftrightarrow> kind \<noteq> [] \<and> length kind \<le> 128 \<and> summary \<noteq> [] \<and> length summary \<le> 4000
     \<and> 0 \<le> relevance \<and> relevance \<le> 100"

text \<open>
  The rows of a new event and its notification. The event stays when the limit is reached; a
  notification identifier that is taken raises and undoes both.
\<close>

definition add_event :: "nat \<Rightarrow> proactive_event \<Rightarrow> notification \<Rightarrow> (proactive_db, notification option) act" where
  "add_event limit e n d =
     (if event_key_taken e (pd_events d) then (Inr None, d)
      else let d' = d\<lparr>pd_events := pd_events d @ [e]\<rparr>
        in if recent_notes (pe_occurred e) d \<ge> limit then (Inr None, d')
           else if (\<exists>x \<in> set (pd_notes d). nt_id x = nt_id n \<or> nt_event x = nt_event n)
             then (Inl (Exn IntegrityErrorC ''UNIQUE constraint failed''), d)
           else (Inr (Some n), d'\<lparr>pd_notes := pd_notes d @ [n]\<rparr>))"

text \<open>The clock and the two fresh identifiers of a call.\<close>

record call_stamp =
  cs_now :: int
  cs_event :: pystr
  cs_note :: pystr

definition ingest :: "proactive_env \<Rightarrow> call_stamp \<Rightarrow> pystr \<Rightarrow> pystr \<Rightarrow> pystr \<Rightarrow> int \<Rightarrow> json \<Rightarrow>
    ('o engine, notification option) act" where
  "ingest env c i kind summary relevance metadata g =
     (if \<not> event_fields_valid kind summary relevance then (Inl (ValueError ''event fields are invalid or exceed bounds''), g)
      else case checked_metadata env (or_empty metadata) ''event'' of
        Inl e \<Rightarrow> (Inl e, g)
      | Inr safe \<Rightarrow>
          (case enabled_watch i (eg_db g) of
             None \<Rightarrow> (Inl (ValueError ''enabled watch is required''), g)
           | Some t \<Rightarrow>
               (case watch_check env t of
                  Inl e \<Rightarrow> (Inl e, g)
                | Inr _ \<Rightarrow>
                    if relevance < wt_relevance t \<or> wt_permission t \<noteq> Perm_Notify then (Inr None, g)
                    else
                      (case add_event (eg_limit g)
                          \<lparr>pe_id = cs_event c, pe_watch = i, pe_source = wt_source t, pe_kind = kind, pe_summary = summary,
                           pe_relevance = relevance, pe_occurred = cs_now c, pe_hash = payload_hash env kind summary safe,
                           pe_metadata = redact_data (en_db env) [] safe\<rparr>
                          \<lparr>nt_id = cs_note c, nt_event = cs_event c, nt_watch = i, nt_summary = summary,
                           nt_relevance = relevance, nt_created = cs_now c, nt_acknowledged = None\<rparr> (eg_db g) of
                         (r, d) \<Rightarrow> (r, g\<lparr>eg_db := d\<rparr>)))))"

text \<open>An external signal; its identifier takes the place of a member of that name.\<close>

definition set_member :: "pystr \<Rightarrow> json \<Rightarrow> json \<Rightarrow> json" where
  "set_member k x v = (case v of J_Object ms \<Rightarrow> J_Object (AList.update k x ms) | _ \<Rightarrow> v)"

definition external_event :: "proactive_env \<Rightarrow> call_stamp \<Rightarrow> pystr \<Rightarrow> pystr \<Rightarrow> pystr \<Rightarrow> int \<Rightarrow> json \<Rightarrow>
    ('o engine, notification option) act" where
  "external_event env c i event_id summary relevance metadata g =
     (if event_id = [] \<or> length event_id > 256 then (Inl (ValueError ''external event ID is required''), g)
      else if map_option wt_source (find_watch i (pd_watches (eg_db g))) \<noteq> Some Src_External
        then (Inl (ValueError ''external events require an external watch''), g)
      else ingest env c i (lit ''external.received'') summary relevance
        (set_member (lit ''external_event_id'') (J_Text event_id) (or_empty metadata)) g)"

section \<open>Polling\<close>

definition due_watch :: "int \<Rightarrow> watch_row \<Rightarrow> bool" where
  "due_watch now r \<longleftrightarrow> wt_enabled r \<and> wr_due r \<le> now"

text \<open>The first step of a poll: the due rows, whose due times move on.\<close>

definition claim_due :: "int \<Rightarrow> 'o engine \<Rightarrow> watch_row list \<times> 'o engine" where
  "claim_due now g =
     (filter (due_watch now) (pd_watches (eg_db g)),
      g\<lparr>eg_db := (eg_db g)\<lparr>pd_watches :=
        map (\<lambda>r. if due_watch now r then r\<lparr>wr_due := now + wt_interval r\<rparr> else r) (pd_watches (eg_db g))\<rparr>\<rparr>)"

definition schedule_report :: "int \<Rightarrow> 'z watch_scheme \<Rightarrow> report" where
  "schedule_report now t = (lit ''schedule.due'', wt_label t, 50,
     J_Object [(lit ''scheduled'', J_Bool True), (lit ''due_at'', J_Int now)])"

text \<open>What a due watch reports: a schedule always, another watch by its observer.\<close>

definition watch_report :: "int \<Rightarrow> watch_row \<Rightarrow> 'o engine \<Rightarrow> ('o, report option) act" where
  "watch_report now t g =
     (if wt_schedule t then act_ok (Some (schedule_report now t))
      else case eg_observers g (wt_id t) of None \<Rightarrow> act_ok None | Some f \<Rightarrow> f)"

definition poll_one :: "proactive_env \<Rightarrow> (pystr \<Rightarrow> call_stamp) \<Rightarrow> int \<Rightarrow> watch_row \<Rightarrow>
    ('o engine \<times> 'o, notification option) act" where
  "poll_one env stamp now t s =
     (case watch_check env t of
        Inl e \<Rightarrow> (Inl e, s)
      | Inr _ \<Rightarrow>
          (case watch_report now t (fst s) (snd s) of
             (Inl e, w) \<Rightarrow> (Inl e, (fst s, w))
           | (Inr None, w) \<Rightarrow> (Inr None, (fst s, w))
           | (Inr (Some (kind, summary, relevance, metadata)), w) \<Rightarrow>
               (case ingest env (stamp (wt_id t)) (wt_id t) kind summary relevance metadata (fst s) of
                  (r, g) \<Rightarrow> (r, (g, w)))))"

text \<open>Nothing is returned of the notifications before a report or an event that raises.\<close>

definition poll_due :: "proactive_env \<Rightarrow> (pystr \<Rightarrow> call_stamp) \<Rightarrow> int \<Rightarrow> ('o engine \<times> 'o, notification list) act" where
  "poll_due env stamp now s =
     (case claim_due now (fst s) of
        (rows, g) \<Rightarrow> act_bind (each (poll_one env stamp now) rows) (\<lambda>ns. act_ok (concat (map (\<lambda>x. case x of None \<Rightarrow> [] | Some n \<Rightarrow> [n]) ns))) (g, snd s))"

text \<open>A round of the runner; whatever raises ends the round, and only that.\<close>

definition runner_round :: "proactive_env \<Rightarrow> (pystr \<Rightarrow> call_stamp) \<Rightarrow> int \<Rightarrow> (notification \<Rightarrow> ('o engine \<times> 'o, unit) act) \<Rightarrow>
    ('o engine \<times> 'o, unit) act" where
  "runner_round env stamp now publish =
     act_catch (act_bind (poll_due env stamp now) (\<lambda>ns. act_bind (each publish ns) (\<lambda>_. act_ok ()))) (\<lambda>_. act_ok ())"

section \<open>Notifications\<close>

definition acknowledge :: "int \<Rightarrow> pystr \<Rightarrow> ('o engine, notification) act" where
  "acknowledge now i g =
     (case List.find (\<lambda>n. nt_id n = i \<and> nt_acknowledged n = None) (pd_notes (eg_db g)) of
        None \<Rightarrow> (Inl (ValueError ''unacknowledged notification is unavailable''), g)
      | Some n \<Rightarrow> (Inr (n\<lparr>nt_acknowledged := Some now\<rparr>), g\<lparr>eg_db := (eg_db g)\<lparr>pd_notes :=
          map (\<lambda>x. if nt_id x = i \<and> nt_acknowledged x = None then x\<lparr>nt_acknowledged := Some now\<rparr> else x)
            (pd_notes (eg_db g))\<rparr>\<rparr>))"

definition shown_notes :: "bool \<Rightarrow> proactive_db \<Rightarrow> notification list" where
  "shown_notes acknowledged d = filter (\<lambda>n. acknowledged \<or> nt_acknowledged n = None) (pd_notes d)"

definition notifications :: "int \<Rightarrow> bool \<Rightarrow> proactive_db \<Rightarrow> exn + notification list" where
  "notifications limit acknowledged d =
     (if \<not> (1 \<le> limit \<and> limit \<le> 1000) then Inl (ValueError ''notification limit must be between 1 and 1000'')
      else Inr (take (nat limit) (sort_key (\<lambda>n. - nt_created n) (shown_notes acknowledged d))))"

record projection =
  pj_note :: notification
  pj_label :: "pystr option"
  pj_source :: "event_source option"
  pj_kind :: "pystr option"
  pj_occurred :: "int option"

text \<open>The left join of a notification with its event and its watch.\<close>

definition project :: "proactive_db \<Rightarrow> notification \<Rightarrow> projection" where
  "project d n =
     (let e = List.find (\<lambda>e. pe_id e = nt_event n) (pd_events d)
      in \<lparr>pj_note = n, pj_label = map_option wt_label (find_watch (nt_watch n) (pd_watches d)),
          pj_source = map_option pe_source e, pj_kind = map_option pe_kind e, pj_occurred = map_option pe_occurred e\<rparr>)"

definition projections :: "int \<Rightarrow> bool \<Rightarrow> proactive_db \<Rightarrow> exn + projection list" where
  "projections limit acknowledged d =
     (if \<not> (1 \<le> limit \<and> limit \<le> 1000) then Inl (ValueError ''notification limit must be between 1 and 1000'')
      else Inr (map (project d)
        (take (nat limit) (rev (sort_key nt_created (sort_key nt_id (shown_notes acknowledged d)))))))"

definition watch_statuses :: "'o engine \<Rightarrow> (watch_row \<times> bool) list" where
  "watch_statuses g = map (\<lambda>r. (r, wt_schedule r \<or> eg_observers g (wt_id r) \<noteq> None))
     (sort_key (\<lambda>r. nocase (wt_label r)) (sort_key wt_id (pd_watches (eg_db g))))"

section \<open>Observers of changes\<close>

text \<open>What an observer remembers is the fingerprint it saw last.\<close>

definition changed :: "pystr option \<Rightarrow> pystr \<Rightarrow> bool" where
  "changed previous now \<longleftrightarrow> previous \<noteq> None \<and> previous \<noteq> Some now"

definition state_observer :: "proactive_env \<Rightarrow> event_source \<Rightarrow> pystr \<Rightarrow> int \<Rightarrow> json \<Rightarrow> pystr option \<Rightarrow> report option \<times> pystr option" where
  "state_observer env source label relevance snapshot previous =
     (let now = stored_json (en_db env) snapshot
      in (if changed previous now
          then Some (lit (source_value source @ ''.changed''), label @ lit '' changed'', relevance,
            J_Object [(lit ''snapshot'', J_Text (take 4000 now))]) else None, Some now))"

definition filesystem_observer :: "pystr \<Rightarrow> pystr \<Rightarrow> pystr option \<Rightarrow> report option \<times> pystr option" where
  "filesystem_observer name fingerprint previous =
     (if changed previous fingerprint
      then Some (lit ''filesystem.changed'', lit ''Filesystem watch changed: '' @ name, 50,
        J_Object [(lit ''fingerprint'', J_Text fingerprint)]) else None, Some fingerprint)"

section \<open>Runs\<close>

text \<open>The calls on an engine, each one step under its lock.\<close>

datatype 'o engine_call =
    Call_Register watch "('o, report option) act option"
  | Call_Disable pystr
  | Call_Claim int
  | Call_Ingest call_stamp pystr pystr pystr int json
  | Call_External call_stamp pystr pystr pystr int json
  | Call_Acknowledge int pystr

primrec run_call :: "proactive_env \<Rightarrow> 'o engine_call \<Rightarrow> 'o engine \<Rightarrow> 'o engine" where
  "run_call env (Call_Register t obs) g = register env t obs g"
| "run_call env (Call_Disable i) g = snd (disable i g)"
| "run_call env (Call_Claim now) g = snd (claim_due now g)"
| "run_call env (Call_Ingest c i kind summary relevance metadata) g = snd (ingest env c i kind summary relevance metadata g)"
| "run_call env (Call_External c i event_id summary relevance metadata) g =
     snd (external_event env c i event_id summary relevance metadata g)"
| "run_call env (Call_Acknowledge now i) g = snd (acknowledge now i g)"

definition run_calls :: "proactive_env \<Rightarrow> 'o engine_call list \<Rightarrow> 'o engine \<Rightarrow> 'o engine" where
  "run_calls env cs g = fold (run_call env) cs g"

text \<open>Only watches that passed their checks exist to be registered.\<close>

primrec call_allowed :: "proactive_env \<Rightarrow> 'o engine_call \<Rightarrow> bool" where
  "call_allowed env (Call_Register t obs) \<longleftrightarrow> watch_check env t = Inr ()"
| "call_allowed env (Call_Disable i) \<longleftrightarrow> True"
| "call_allowed env (Call_Claim now) \<longleftrightarrow> True"
| "call_allowed env (Call_Ingest c i kind summary relevance metadata) \<longleftrightarrow> True"
| "call_allowed env (Call_External c i event_id summary relevance metadata) \<longleftrightarrow> True"
| "call_allowed env (Call_Acknowledge now i) \<longleftrightarrow> True"

text \<open>The clock readings under which events were taken in.\<close>

primrec event_times :: "'o engine_call \<Rightarrow> int list" where
  "event_times (Call_Register t obs) = []"
| "event_times (Call_Disable i) = []"
| "event_times (Call_Claim now) = []"
| "event_times (Call_Ingest c i kind summary relevance metadata) = [cs_now c]"
| "event_times (Call_External c i event_id summary relevance metadata) = [cs_now c]"
| "event_times (Call_Acknowledge now i) = []"

section \<open>The database is well typed\<close>

text \<open>
  Rows within their bounds, keys unique, every event of a watch that exists, every notification of an
  event that exists and with its watch, text, relevance and time.
\<close>

definition rows_typed :: "watch_row list \<Rightarrow> bool" where
  "rows_typed rows \<longleftrightarrow> distinct (map wt_id rows) \<and> (\<forall>r \<in> set rows. watch_bounds r)"

definition events_typed :: "pystr set \<Rightarrow> proactive_event list \<Rightarrow> bool" where
  "events_typed watches es \<longleftrightarrow> distinct (map pe_id es) \<and> distinct (map (\<lambda>e. (pe_watch e, pe_hash e)) es)
     \<and> (\<forall>e \<in> set es. pe_watch e \<in> watches \<and> event_fields_valid (pe_kind e) (pe_summary e) (pe_relevance e) \<and> 1 \<le> pe_relevance e)"

definition notes_typed :: "proactive_event list \<Rightarrow> notification list \<Rightarrow> bool" where
  "notes_typed es ns \<longleftrightarrow> distinct (map nt_id ns) \<and> distinct (map nt_event ns)
     \<and> (\<forall>n \<in> set ns. \<exists>e \<in> set es. pe_id e = nt_event n \<and> pe_watch e = nt_watch n \<and> pe_summary e = nt_summary n
         \<and> pe_relevance e = nt_relevance n \<and> pe_occurred e = nt_created n)"

definition well_typed :: "proactive_db \<Rightarrow> bool" where
  "well_typed d \<longleftrightarrow> rows_typed (pd_watches d) \<and> events_typed (wt_id ` set (pd_watches d)) (pd_events d)
     \<and> notes_typed (pd_events d) (pd_notes d)"

lemma find_Some: "List.find P xs = Some x \<Longrightarrow> x \<in> set xs \<and> P x"
  by (auto simp: find_Some_iff)

lemma find_watch_None: "find_watch i rows = None \<longleftrightarrow> i \<notin> wt_id ` set rows"
  by (auto simp: find_watch_def find_None_iff)

lemma watch_check_bounds: "watch_check env t = Inr () \<Longrightarrow> watch_bounds t"
  by (auto simp: watch_check_def watch_bounds_def split: if_splits)

lemma row_of_simps [simp]:
  "wt_id (row_of env t due) = wt_id t" "wt_interval (row_of env t due) = wt_interval t" "wr_due (row_of env t due) = due"
  "watch_bounds (row_of env t due) = watch_bounds t"
  by (simp_all add: row_of_def watch_bounds_def)

text \<open>Changes of rows that leave their identifiers and bounds.\<close>

lemma rows_typed_map:
  assumes "rows_typed rows" and "\<And>r. r \<in> set rows \<Longrightarrow> wt_id (f r) = wt_id r \<and> watch_bounds (f r)"
  shows "rows_typed (map f rows)" and "wt_id ` set (map f rows) = wt_id ` set rows"
proof -
  have same: "map wt_id (map f rows) = map wt_id rows" using assms(2) by simp
  then show "rows_typed (map f rows)" using assms unfolding rows_typed_def by (metis (no_types, lifting) imageE list.set_map)
  show "wt_id ` set (map f rows) = wt_id ` set rows" using same by (metis list.set_map)
qed

lemma upsert_typed:
  assumes "rows_typed rows" and "watch_bounds t"
  shows "rows_typed (upsert_watch env t rows)"
    and "wt_id ` set rows \<subseteq> wt_id ` set (upsert_watch env t rows)"
proof -
  have "rows_typed (upsert_watch env t rows) \<and> wt_id ` set rows \<subseteq> wt_id ` set (upsert_watch env t rows)"
  proof (cases "find_watch (wt_id t) rows = None")
    case True
    then show ?thesis using assms by (auto simp: upsert_watch_def rows_typed_def find_watch_None)
  next
    case False
    have up: "upsert_watch env t rows = map (\<lambda>r. if wt_id r = wt_id t then row_of env t (wr_due r) else r) rows"
      using False by (simp add: upsert_watch_def)
    have "wt_id (if wt_id r = wt_id t then row_of env t (wr_due r) else r) = wt_id r
        \<and> watch_bounds (if wt_id r = wt_id t then row_of env t (wr_due r) else r)" if "r \<in> set rows" for r
      using assms that by (auto simp: rows_typed_def)
    from rows_typed_map[of rows, OF assms(1) this] show ?thesis unfolding up by blast
  qed
  then show "rows_typed (upsert_watch env t rows)" and "wt_id ` set rows \<subseteq> wt_id ` set (upsert_watch env t rows)" by auto
qed

lemma well_typed_rows:
  assumes "well_typed d" and "rows_typed rows" and "wt_id ` set (pd_watches d) \<subseteq> wt_id ` set rows"
  shows "well_typed (d\<lparr>pd_watches := rows\<rparr>)"
  using assms by (auto simp: well_typed_def events_typed_def)

lemma add_event_cases:
  assumes "add_event limit e n d = (r, d')"
  obtains (refused) "d' = d" and "r = Inr None \<or> (\<exists>x. r = Inl x)"
  | (silent) "d' = d\<lparr>pd_events := pd_events d @ [e]\<rparr>" and "r = Inr None" and "\<not> event_key_taken e (pd_events d)"
      and "limit \<le> recent_notes (pe_occurred e) d"
  | (notified) "d' = d\<lparr>pd_events := pd_events d @ [e], pd_notes := pd_notes d @ [n]\<rparr>" and "r = Inr (Some n)"
      and "\<not> event_key_taken e (pd_events d)" and "recent_notes (pe_occurred e) d < limit"
      and "\<forall>x \<in> set (pd_notes d). nt_id x \<noteq> nt_id n \<and> nt_event x \<noteq> nt_event n"
  using assms by (auto simp: add_event_def Let_def split: if_splits)

lemma well_typed_events:
  assumes "well_typed d" and "\<not> event_key_taken e (pd_events d)" and "pe_watch e \<in> wt_id ` set (pd_watches d)"
    and "event_fields_valid (pe_kind e) (pe_summary e) (pe_relevance e)" and "1 \<le> pe_relevance e"
  shows "well_typed (d\<lparr>pd_events := pd_events d @ [e]\<rparr>)"
proof -
  have "pe_id e \<notin> pe_id ` set (pd_events d)" and "(pe_watch e, pe_hash e) \<notin> (\<lambda>e. (pe_watch e, pe_hash e)) ` set (pd_events d)"
    using assms(2) by (auto simp: event_key_taken_def)
  then have "events_typed (wt_id ` set (pd_watches d)) (pd_events d @ [e])"
    using assms by (auto simp: well_typed_def events_typed_def)
  moreover have "notes_typed (pd_events d @ [e]) (pd_notes d)"
    using assms(1) by (auto simp: well_typed_def notes_typed_def)
  ultimately show ?thesis using assms(1) by (simp add: well_typed_def)
qed

lemma well_typed_note:
  assumes "well_typed d" and "e \<in> set (pd_events d)" and "nt_event n = pe_id e" and "nt_watch n = pe_watch e"
    and "nt_summary n = pe_summary e" and "nt_relevance n = pe_relevance e" and "nt_created n = pe_occurred e"
    and "\<forall>x \<in> set (pd_notes d). nt_id x \<noteq> nt_id n \<and> nt_event x \<noteq> nt_event n"
  shows "well_typed (d\<lparr>pd_notes := pd_notes d @ [n]\<rparr>)"
proof -
  have "notes_typed (pd_events d) (pd_notes d @ [n])"
    using assms by (auto simp: well_typed_def notes_typed_def)
  then show ?thesis using assms(1) by (simp add: well_typed_def)
qed

lemma enabled_watch_Some:
  "enabled_watch i d = Some t \<Longrightarrow> t \<in> set (pd_watches d) \<and> wt_id t = i \<and> wt_enabled t"
  unfolding enabled_watch_def by (auto dest: find_Some)

text \<open>The new row of an event that gets past the checks, and its notification.\<close>

definition new_event :: "proactive_env \<Rightarrow> call_stamp \<Rightarrow> watch_row \<Rightarrow> pystr \<Rightarrow> pystr \<Rightarrow> int \<Rightarrow> json \<Rightarrow> proactive_event" where
  "new_event env c t kind summary relevance safe =
     \<lparr>pe_id = cs_event c, pe_watch = wt_id t, pe_source = wt_source t, pe_kind = kind, pe_summary = summary,
      pe_relevance = relevance, pe_occurred = cs_now c, pe_hash = payload_hash env kind summary safe,
      pe_metadata = redact_data (en_db env) [] safe\<rparr>"

definition new_note :: "call_stamp \<Rightarrow> pystr \<Rightarrow> pystr \<Rightarrow> int \<Rightarrow> notification" where
  "new_note c i summary relevance =
     \<lparr>nt_id = cs_note c, nt_event = cs_event c, nt_watch = i, nt_summary = summary,
      nt_relevance = relevance, nt_created = cs_now c, nt_acknowledged = None\<rparr>"

lemma ingest_cases:
  assumes "ingest env c i kind summary relevance metadata g = (r, g')"
  obtains (refused) "g' = g" and "r = Inr None \<or> (\<exists>x. r = Inl x)"
  | (taken) t safe d where "enabled_watch i (eg_db g) = Some t" and "watch_check env t = Inr ()" and "wt_relevance t \<le> relevance"
      and "event_fields_valid kind summary relevance" and "checked_metadata env (or_empty metadata) ''event'' = Inr safe"
      and "add_event (eg_limit g) (new_event env c t kind summary relevance safe) (new_note c i summary relevance) (eg_db g) = (r, d)"
      and "g' = g\<lparr>eg_db := d\<rparr>"
proof (cases "event_fields_valid kind summary relevance")
  case False
  then show thesis using assms refused by (auto simp: ingest_def)
next
  case valid: True
  show thesis
  proof (cases "checked_metadata env (or_empty metadata) ''event''")
    case (Inl e)
    then show thesis using assms valid refused by (auto simp: ingest_def)
  next
    case (Inr safe)
    show thesis
    proof (cases "enabled_watch i (eg_db g)")
      case None
      then show thesis using assms valid Inr refused by (auto simp: ingest_def)
    next
      case (Some t)
      note t = enabled_watch_Some[OF Some]
      show thesis
      proof (cases "watch_check env t = Inr () \<and> wt_relevance t \<le> relevance")
        case False
        then show thesis using assms valid Inr Some refused
          by (auto simp: ingest_def watch_permission.exhaust not_less split: sum.splits if_splits)
      next
        case True
        obtain d where "add_event (eg_limit g) (new_event env c t kind summary relevance safe)
            (new_note c i summary relevance) (eg_db g) = (r, d)" and "g' = g\<lparr>eg_db := d\<rparr>"
          using assms valid Inr Some True t
          by (auto simp: ingest_def new_event_def new_note_def split: prod.splits if_splits watch_permission.splits)
            (metis watch_permission.exhaust)
        with taken valid Inr Some True show thesis by blast
      qed
    qed
  qed
qed

lemma add_event_typed:
  assumes "add_event limit e n d = (r, d')" and "well_typed d" and "pe_watch e \<in> wt_id ` set (pd_watches d)"
    and "event_fields_valid (pe_kind e) (pe_summary e) (pe_relevance e)" and "1 \<le> pe_relevance e"
    and "nt_event n = pe_id e" and "nt_watch n = pe_watch e" and "nt_summary n = pe_summary e"
    and "nt_relevance n = pe_relevance e" and "nt_created n = pe_occurred e"
  shows "well_typed d'"
  using assms(1)
proof (cases rule: add_event_cases)
  case refused
  then show ?thesis using assms(2) by simp
next
  case silent
  then show ?thesis using well_typed_events[OF assms(2) _ assms(3-5)] by simp
next
  case notified
  let ?d = "d\<lparr>pd_events := pd_events d @ [e]\<rparr>"
  have "well_typed ?d" using well_typed_events[OF assms(2) _ assms(3-5)] notified by simp
  from well_typed_note[of ?d e n, OF this _ assms(6-10)] notified show ?thesis by simp
qed

lemma ingest_typed:
  assumes "ingest env c i kind summary relevance metadata g = (r, g')" and "well_typed (eg_db g)"
  shows "well_typed (eg_db g')"
  using assms(1)
proof (cases rule: ingest_cases)
  case refused
  then show ?thesis using assms(2) by simp
next
  case (taken t safe d)
  note t = enabled_watch_Some[OF taken(1)]
  have "1 \<le> wt_relevance t" using watch_check_bounds[OF taken(2)] by (simp add: watch_bounds_def)
  then have "1 \<le> relevance" using taken(3) by simp
  moreover have "i \<in> wt_id ` set (pd_watches (eg_db g))" using t by blast
  ultimately have "well_typed d"
    using add_event_typed[OF taken(6) assms(2)] taken(4) t by (simp add: new_event_def new_note_def)
  then show ?thesis using taken(7) by simp
qed

lemma external_is_ingest:
  "snd (external_event env c i event_id summary relevance metadata g) = g
   \<or> (\<exists>kind m. snd (external_event env c i event_id summary relevance metadata g) = snd (ingest env c i kind summary relevance m g))"
  by (auto simp: external_event_def)

lemma acknowledge_cases:
  "snd (acknowledge now i g) = g
   \<or> snd (acknowledge now i g) = g\<lparr>eg_db := (eg_db g)\<lparr>pd_notes :=
        map (\<lambda>x. if nt_id x = i \<and> nt_acknowledged x = None then x\<lparr>nt_acknowledged := Some now\<rparr> else x) (pd_notes (eg_db g))\<rparr>\<rparr>"
  by (auto simp: acknowledge_def split: option.splits)

lemma notes_typed_map:
  assumes "notes_typed es ns"
    and "\<And>n. n \<in> set ns \<Longrightarrow> nt_id (f n) = nt_id n \<and> nt_event (f n) = nt_event n \<and> nt_watch (f n) = nt_watch n
      \<and> nt_summary (f n) = nt_summary n \<and> nt_relevance (f n) = nt_relevance n \<and> nt_created (f n) = nt_created n"
  shows "notes_typed es (map f ns)"
proof -
  have "map nt_id (map f ns) = map nt_id ns" and "map nt_event (map f ns) = map nt_event ns" using assms(2) by simp_all
  moreover have "\<exists>e \<in> set es. pe_id e = nt_event n \<and> pe_watch e = nt_watch n \<and> pe_summary e = nt_summary n
      \<and> pe_relevance e = nt_relevance n \<and> pe_occurred e = nt_created n" if n: "n \<in> set (map f ns)" for n
  proof -
    obtain m where "m \<in> set ns" "n = f m" using n by auto
    then show ?thesis using assms by (simp add: notes_typed_def)
  qed
  ultimately show ?thesis using assms(1) unfolding notes_typed_def by metis
qed

lemma run_call_typed:
  assumes "well_typed (eg_db g)" and "call_allowed env c"
  shows "well_typed (eg_db (run_call env c g))"
proof (cases c)
  case (Call_Register t obs)
  have "rows_typed (pd_watches (eg_db g))" using assms(1) by (simp add: well_typed_def)
  note up = upsert_typed[OF this, of t env]
  have "watch_bounds t" using assms(2) Call_Register watch_check_bounds by simp
  with well_typed_rows[OF assms(1) up] Call_Register show ?thesis by (simp add: register_def)
next
  case (Call_Disable i)
  let ?f = "\<lambda>r. if wt_id r = i then r\<lparr>wt_enabled := False\<rparr> else r"
  have rows: "rows_typed (pd_watches (eg_db g))" using assms(1) by (simp add: well_typed_def)
  have "wt_id (?f r) = wt_id r \<and> watch_bounds (?f r)" if "r \<in> set (pd_watches (eg_db g))" for r
    using that rows by (auto simp: rows_typed_def watch_bounds_def)
  note f = rows_typed_map[of _ ?f, OF rows this]
  have "well_typed ((eg_db g)\<lparr>pd_watches := map ?f (pd_watches (eg_db g))\<rparr>)"
    using well_typed_rows[OF assms(1) f(1)] f(2) by blast
  then show ?thesis using assms(1) Call_Disable by (simp add: disable_def)
next
  case (Call_Claim now)
  let ?f = "\<lambda>r. if due_watch now r then r\<lparr>wr_due := now + wt_interval r\<rparr> else r"
  have rows: "rows_typed (pd_watches (eg_db g))" using assms(1) by (simp add: well_typed_def)
  have "wt_id (?f r) = wt_id r \<and> watch_bounds (?f r)" if "r \<in> set (pd_watches (eg_db g))" for r
    using that rows by (auto simp: rows_typed_def watch_bounds_def)
  note f = rows_typed_map[of _ ?f, OF rows this]
  have "well_typed ((eg_db g)\<lparr>pd_watches := map ?f (pd_watches (eg_db g))\<rparr>)"
    using well_typed_rows[OF assms(1) f(1)] f(2) by blast
  then show ?thesis using Call_Claim by (simp add: claim_due_def)
next
  case (Call_Ingest s i kind summary relevance metadata)
  then show ?thesis using assms(1) ingest_typed by (metis prod.collapse run_call.simps(4))
next
  case (Call_External s i event_id summary relevance metadata)
  then show ?thesis using assms(1) ingest_typed external_is_ingest by (metis prod.collapse run_call.simps(5))
next
  case (Call_Acknowledge now i)
  let ?f = "\<lambda>x. if nt_id x = i \<and> nt_acknowledged x = None then x\<lparr>nt_acknowledged := Some now\<rparr> else x"
  have "notes_typed (pd_events (eg_db g)) (map ?f (pd_notes (eg_db g)))"
    using assms(1) by (intro notes_typed_map) (simp_all add: well_typed_def)
  then have "well_typed ((eg_db g)\<lparr>pd_notes := map ?f (pd_notes (eg_db g))\<rparr>)"
    using assms(1) by (simp add: well_typed_def)
  then show ?thesis using acknowledge_cases[of now i g] assms(1) Call_Acknowledge by auto
qed

lemma run_calls_induct:
  assumes "P g" and "\<And>c g. c \<in> set cs \<Longrightarrow> P g \<Longrightarrow> P (run_call env c g)"
  shows "P (run_calls env cs g)"
  using assms unfolding run_calls_def by (induction cs arbitrary: g) simp_all

text \<open>C34: the database of watches, events and notifications is well typed, whatever calls come in whatever
  order. Rows keep their bounds and keys stay unique, no event lacks its watch and no notification its
  event, whose watch, text, relevance and time it repeats; no event of a watch has the same payload as
  another, so no payload is notified twice; and no projection of a notification misses a field.\<close>

theorem proactive_database_well_typed:
  assumes "well_typed (eg_db g)" and "\<forall>c \<in> set cs. call_allowed env c"
  shows "well_typed (eg_db (run_calls env cs g))
    \<and> (\<forall>ps limit acknowledged. projections limit acknowledged (eg_db (run_calls env cs g)) = Inr ps \<longrightarrow>
        (\<forall>p \<in> set ps. pj_label p \<noteq> None \<and> pj_source p \<noteq> None \<and> pj_kind p \<noteq> None
          \<and> pj_occurred p = Some (nt_created (pj_note p))))"
proof -
  let ?d = "eg_db (run_calls env cs g)"
  have typed: "well_typed ?d"
    using assms by (intro run_calls_induct[where P = "\<lambda>g. well_typed (eg_db g)"] run_call_typed) auto
  have "pj_label (project ?d n) \<noteq> None \<and> pj_source (project ?d n) \<noteq> None \<and> pj_kind (project ?d n) \<noteq> None
      \<and> pj_occurred (project ?d n) = Some (nt_created n)" if n: "n \<in> set (pd_notes ?d)" for n
  proof -
    obtain e where e: "e \<in> set (pd_events ?d)" "pe_id e = nt_event n" "pe_watch e = nt_watch n" "pe_occurred e = nt_created n"
      using typed n by (auto simp: well_typed_def notes_typed_def)
    have "distinct (map pe_id (pd_events ?d))" and "pe_watch e \<in> wt_id ` set (pd_watches ?d)"
      using typed e(1) by (simp_all add: well_typed_def events_typed_def)
    moreover obtain e' where e': "List.find (\<lambda>e. pe_id e = nt_event n) (pd_events ?d) = Some e'"
      using e by (cases "List.find (\<lambda>e. pe_id e = nt_event n) (pd_events ?d)") (auto simp: find_None_iff)
    ultimately have "e' = e" and "find_watch (nt_watch n) (pd_watches ?d) \<noteq> None"
      using find_Some[OF e'] e by (auto simp: distinct_map inj_on_def find_watch_None)
    then show ?thesis using e' e by (auto simp: project_def Let_def)
  qed
  moreover have "pj_note (project ?d n) = n" for n by (simp add: project_def Let_def)
  ultimately show ?thesis using typed
    by (auto simp: projections_def shown_notes_def split: if_splits dest!: in_set_takeD)
qed

section \<open>What is notified, and how often\<close>

definition window_notes :: "int \<Rightarrow> proactive_db \<Rightarrow> nat" where
  "window_notes t d = length (filter (\<lambda>n. t \<le> nt_created n \<and> nt_created n \<le> t + hour) (pd_notes d))"

text \<open>The windows are full at most, and no notification is from after \<open>latest\<close>.\<close>

definition rate_kept :: "nat \<Rightarrow> int option \<Rightarrow> proactive_db \<Rightarrow> bool" where
  "rate_kept limit latest d \<longleftrightarrow> (\<forall>t. window_notes t d \<le> limit)
     \<and> (\<forall>n \<in> set (pd_notes d). \<exists>l. latest = Some l \<and> nt_created n \<le> l)"

lemma window_recent: "window_notes t d \<le> recent_notes now d" if "now - hour \<le> t"
proof -
  have eq: "filter (\<lambda>n. t \<le> nt_created n \<and> nt_created n \<le> t + hour) (pd_notes d)
      = filter (\<lambda>n. t \<le> nt_created n \<and> nt_created n \<le> t + hour) (filter (\<lambda>n. now - hour \<le> nt_created n) (pd_notes d))"
    unfolding filter_filter using that by (intro filter_cong) auto
  show ?thesis unfolding window_notes_def recent_notes_def
    by (rule ord_eq_le_trans[OF arg_cong[where f = length, OF eq] length_filter_le])
qed

lemma ingest_rate:
  assumes "ingest env c i kind summary relevance metadata g = (r, g')" and "rate_kept (eg_limit g) latest (eg_db g)"
    and "\<forall>l. latest = Some l \<longrightarrow> l \<le> cs_now c"
  shows "rate_kept (eg_limit g') (Some (cs_now c)) (eg_db g') \<and> eg_limit g' = eg_limit g"
  using assms(1)
proof (cases rule: ingest_cases)
  case refused
  then show ?thesis using assms(2,3) by (fastforce simp: rate_kept_def)
next
  case (taken t safe d)
  let ?now = "cs_now c"
  from taken(6) show ?thesis
  proof (cases rule: add_event_cases)
    case notified
    have old: "window_notes s (eg_db g) < eg_limit g" if "?now - hour \<le> s" for s
      using window_recent[OF that, of "eg_db g"] notified(4) by (simp add: new_event_def)
    have "window_notes s d \<le> eg_limit g" for s
    proof (cases "?now - hour \<le> s \<and> s \<le> ?now")
      case True
      then show ?thesis using old[of s] notified(1) by (simp add: window_notes_def new_note_def)
    next
      case False
      then have "window_notes s d = window_notes s (eg_db g)" using notified(1) by (auto simp: window_notes_def new_note_def)
      then show ?thesis using assms(2) by (simp add: rate_kept_def)
    qed
    then show ?thesis using notified(1) taken(7) assms(2,3) by (fastforce simp: rate_kept_def new_note_def)
  qed (use assms(2,3) taken(7) in \<open>fastforce simp: rate_kept_def window_notes_def\<close>)+
qed

lemma other_calls_rate:
  assumes "event_times c = []"
  shows "map nt_created (pd_notes (eg_db (run_call env c g))) = map nt_created (pd_notes (eg_db g))
    \<and> eg_limit (run_call env c g) = eg_limit g"
proof (cases c)
  case (Call_Acknowledge now i)
  then show ?thesis using acknowledge_cases[of now i g] by auto
qed (use assms in \<open>auto simp: register_def disable_def claim_due_def\<close>)

lemma rate_kept_created:
  assumes "rate_kept limit latest d" and "map nt_created (pd_notes d') = map nt_created (pd_notes d)"
  shows "rate_kept limit latest d'"
proof -
  have "window_notes t x = length (filter (\<lambda>s. t \<le> s \<and> s \<le> t + hour) (map nt_created (pd_notes x)))" for t x
    by (simp add: window_notes_def filter_map comp_def)
  then have "window_notes t d' = window_notes t d" for t by (simp only: assms(2))
  moreover have "nt_created ` set (pd_notes d') = nt_created ` set (pd_notes d)" using assms(2) by (metis list.set_map)
  ultimately show ?thesis using assms(1) unfolding rate_kept_def by (metis (no_types, lifting) imageE imageI)
qed

lemma run_calls_rate:
  assumes "sorted (concat (map event_times cs))" and "\<forall>l. latest = Some l \<longrightarrow> (\<forall>s \<in> set (concat (map event_times cs)). l \<le> s)"
    and "rate_kept (eg_limit g) latest (eg_db g)"
  shows "(\<exists>l. rate_kept (eg_limit g) l (eg_db (run_calls env cs g)))"
  using assms
proof (induction cs arbitrary: g latest)
  case Nil
  then show ?case by (auto simp: run_calls_def)
next
  case (Cons c cs)
  have rest: "run_calls env (c # cs) g = run_calls env cs (run_call env c g)" by (simp add: run_calls_def)
  show ?case
  proof (cases "event_times c = []")
    case True
    note same = other_calls_rate[OF True, of env g]
    have "rate_kept (eg_limit (run_call env c g)) latest (eg_db (run_call env c g))"
      using rate_kept_created[OF Cons.prems(3)] same by simp
    from Cons.IH[OF _ _ this] Cons.prems True same rest show ?thesis by simp
  next
    case False
    then obtain s where s: "event_times c = [s]" by (cases c) auto
    have "rate_kept (eg_limit g) (Some s) (eg_db (run_call env c g)) \<and> eg_limit (run_call env c g) = eg_limit g"
    proof -
      have early: "\<forall>l. latest = Some l \<longrightarrow> l \<le> s" using Cons.prems(2) s by simp
      have one: "rate_kept (eg_limit g) (Some s) (eg_db (snd (ingest env a i kind summary relevance m g)))
          \<and> eg_limit (snd (ingest env a i kind summary relevance m g)) = eg_limit g" if "cs_now a = s" for a i kind summary relevance m
        using ingest_rate[of env a i kind summary relevance m g _ _ latest] Cons.prems(3) early that
        by (metis prod.collapse)
      have unchanged: "rate_kept (eg_limit g) (Some s) (eg_db g)"
        using Cons.prems(3) early by (fastforce simp: rate_kept_def)
      show ?thesis
      proof (cases c)
        case (Call_External a i event_id summary relevance metadata)
        then have a: "cs_now a = s" using s by simp
        show ?thesis using external_is_ingest[of env a i event_id summary relevance metadata g] one[OF a] unchanged
          unfolding Call_External by auto
      qed (use s one in simp_all)
    qed
    moreover have "\<forall>x \<in> set (concat (map event_times cs)). s \<le> x" and "sorted (concat (map event_times cs))"
      using Cons.prems(1) s by simp_all
    ultimately show ?thesis using Cons.IH[of "Some s" "run_call env c g"] rest by simp
  qed
qed

text \<open>C35: notifications are rate limited over every hour, not only the last. While the clock does not run
  backwards, no hour at all, wherever it begins, holds more notifications than the limit of the engine,
  whichever watches and observers they come from and whatever else is called in between.\<close>

theorem notifications_are_rate_limited:
  assumes "pd_notes (eg_db g) = []" and "sorted (concat (map event_times cs))"
  shows "length (filter (\<lambda>n. t \<le> nt_created n \<and> nt_created n \<le> t + hour) (pd_notes (eg_db (run_calls env cs g)))) \<le> eg_limit g"
proof -
  have "rate_kept (eg_limit g) None (eg_db g)" using assms(1) by (simp add: rate_kept_def window_notes_def)
  from run_calls_rate[OF assms(2) _ this, of env] show ?thesis by (auto simp: rate_kept_def window_notes_def)
qed

text \<open>Events are never removed.\<close>

lemma run_call_events: "set (pd_events (eg_db g)) \<subseteq> set (pd_events (eg_db (run_call env c g)))"
proof -
  have ingest: "set (pd_events (eg_db g)) \<subseteq> set (pd_events (eg_db (snd (ingest env a i kind summary relevance m g))))"
    for a i kind summary relevance m
  proof -
    obtain r g' where run: "ingest env a i kind summary relevance m g = (r, g')" by fastforce
    from run show ?thesis
    proof (cases rule: ingest_cases)
      case (taken t safe d)
      from taken(6) have "set (pd_events (eg_db g)) \<subseteq> set (pd_events d)" by (cases rule: add_event_cases) auto
      then show ?thesis using run taken(7) by simp
    qed (use run in simp)
  qed
  show ?thesis
  proof (cases c)
    case (Call_External s i event_id summary relevance metadata)
    then show ?thesis using ingest external_is_ingest by (metis run_call.simps(5) subset_refl)
  next
    case (Call_Acknowledge now i)
    then show ?thesis using acknowledge_cases[of now i g] by auto
  qed (use ingest in \<open>auto simp: register_def disable_def claim_due_def\<close>)
qed

lemma run_calls_events: "set (pd_events (eg_db g)) \<subseteq> set (pd_events (eg_db (run_calls env cs g)))"
  by (rule run_calls_induct[where P = "\<lambda>x. set (pd_events (eg_db g)) \<subseteq> set (pd_events (eg_db x))"])
    (use run_call_events in blast)+

text \<open>C36: an event is notified at most once. Once a call gave a notification, no later call for the same watch
  with the same kind, summary and metadata gives one, with whatever relevance, at whatever time and
  whatever happened in between.\<close>

theorem payload_is_notified_once:
  assumes "ingest env a i kind summary relevance metadata g = (Inr (Some n), g')"
    and "ingest env b i kind summary relevance' metadata (run_calls env cs g') = (r, g'')"
  shows "r = Inr None \<or> (\<exists>e. r = Inl e)"
proof -
  let ?g = "run_calls env cs g'"
  from assms(1) obtain safe e where safe: "checked_metadata env (or_empty metadata) ''event'' = Inr safe"
    and e: "e \<in> set (pd_events (eg_db g'))" "pe_watch e = i" "pe_hash e = payload_hash env kind summary safe"
  proof (cases rule: ingest_cases)
    case (taken t safe d)
    note t = enabled_watch_Some[OF taken(1)]
    from taken(6) show thesis
    proof (cases rule: add_event_cases)
      case notified
      then have "new_event env a t kind summary relevance safe \<in> set (pd_events (eg_db g'))" using taken(7) by simp
      then show thesis using that taken(5) t by (simp add: new_event_def)
    qed simp_all
  qed simp_all
  have kept: "e \<in> set (pd_events (eg_db ?g))" using run_calls_events e(1) by blast
  from assms(2) show ?thesis
  proof (cases rule: ingest_cases)
    case (taken t safe' d)
    note t = enabled_watch_Some[OF taken(1)]
    have "event_key_taken (new_event env b t kind summary relevance' safe') (pd_events (eg_db ?g))"
      unfolding event_key_taken_def using kept e t taken(5) safe by (intro bexI[of _ e]) (auto simp: new_event_def)
    from taken(6) this show ?thesis by (simp add: add_event_def)
  qed auto
qed

section \<open>The pace of polling\<close>

definition due_rows :: "pystr \<Rightarrow> int \<Rightarrow> watch_row list \<Rightarrow> bool" where
  "due_rows i t rows \<longleftrightarrow> i \<in> wt_id ` set rows \<and> (\<forall>r \<in> set rows. wt_id r = i \<longrightarrow> t \<le> wr_due r)"

lemma due_rows_map:
  assumes "due_rows i t rows"
    and "\<And>r. r \<in> set rows \<Longrightarrow> wt_id (f r) = wt_id r \<and> (t \<le> wr_due r \<longrightarrow> t \<le> wr_due (f r))"
  shows "due_rows i t (map f rows)"
proof -
  have "wt_id ` set (map f rows) = wt_id ` set rows" using assms(2) by (force simp: image_iff)
  then show ?thesis using assms unfolding due_rows_def by auto
qed

definition not_due_before :: "pystr \<Rightarrow> int \<Rightarrow> proactive_db \<Rightarrow> bool" where
  "not_due_before i t d \<longleftrightarrow> due_rows i t (pd_watches d)"

lemma run_call_due:
  assumes "not_due_before i t (eg_db g)" and "well_typed (eg_db g)"
  shows "not_due_before i t (eg_db (run_call env c g))"
proof -
  have same: "not_due_before i t (eg_db g')" if "pd_watches (eg_db g') = pd_watches (eg_db g)" for g' :: "'a engine"
    using assms(1) that by (simp add: not_due_before_def)
  have ingest: "pd_watches (eg_db (snd (ingest env a j kind summary relevance m g))) = pd_watches (eg_db g)"
    for a j kind summary relevance m
  proof -
    obtain r g' where run: "ingest env a j kind summary relevance m g = (r, g')" by fastforce
    from run show ?thesis
    proof (cases rule: ingest_cases)
      case (taken w safe d)
      from taken(6) have "pd_watches d = pd_watches (eg_db g)" by (cases rule: add_event_cases) auto
      then show ?thesis using run taken(7) by simp
    qed (use run in simp)
  qed
  show ?thesis
  proof (cases c)
    case (Call_Register w obs)
    have "not_due_before i t ((eg_db g)\<lparr>pd_watches := upsert_watch env w (pd_watches (eg_db g))\<rparr>)"
    proof (cases "find_watch (wt_id w) (pd_watches (eg_db g)) = None")
      case True
      then have "wt_id w \<noteq> i" using assms(1) by (auto simp: find_watch_None not_due_before_def due_rows_def)
      then show ?thesis using True assms(1) by (auto simp: upsert_watch_def not_due_before_def due_rows_def)
    next
      case False
      then have up: "upsert_watch env w (pd_watches (eg_db g))
          = map (\<lambda>r. if wt_id r = wt_id w then row_of env w (wr_due r) else r) (pd_watches (eg_db g))"
        by (simp add: upsert_watch_def)
      have "due_rows i t (upsert_watch env w (pd_watches (eg_db g)))"
        unfolding up by (rule due_rows_map) (use assms(1) in \<open>simp_all add: not_due_before_def\<close>)
      then show ?thesis by (simp add: not_due_before_def)
    qed
    then show ?thesis using Call_Register by (simp add: register_def)
  next
    case (Call_Disable j)
    have "due_rows i t (map (\<lambda>r. if wt_id r = j then r\<lparr>wt_enabled := False\<rparr> else r) (pd_watches (eg_db g)))"
      by (rule due_rows_map) (use assms(1) in \<open>simp_all add: not_due_before_def\<close>)
    then show ?thesis using Call_Disable assms(1) by (simp add: disable_def not_due_before_def)
  next
    case (Call_Claim now)
    have pos: "1 \<le> wt_interval r" if "r \<in> set (pd_watches (eg_db g))" for r
      using assms(2) that by (simp add: well_typed_def rows_typed_def watch_bounds_def)
    have "due_rows i t (map (\<lambda>r. if due_watch now r then r\<lparr>wr_due := now + wt_interval r\<rparr> else r) (pd_watches (eg_db g)))"
    proof (rule due_rows_map)
      show "due_rows i t (pd_watches (eg_db g))" using assms(1) by (simp add: not_due_before_def)
      show "wt_id (if due_watch now r then r\<lparr>wr_due := now + wt_interval r\<rparr> else r) = wt_id r \<and>
          (t \<le> wr_due r \<longrightarrow> t \<le> wr_due (if due_watch now r then r\<lparr>wr_due := now + wt_interval r\<rparr> else r))"
        if "r \<in> set (pd_watches (eg_db g))" for r
        using pos[OF that] by (simp add: due_watch_def)
    qed
    then show ?thesis using Call_Claim by (simp add: claim_due_def not_due_before_def)
  next
    case (Call_External s j event_id summary relevance metadata)
    then show ?thesis using same ingest external_is_ingest by (metis assms(1) run_call.simps(5))
  next
    case (Call_Acknowledge now j)
    then show ?thesis using acknowledge_cases[of now j g] assms(1) by (auto simp: not_due_before_def)
  qed (use same ingest in simp)
qed

text \<open>C37: a watch is polled at its pace. Two polls that both take up a watch are apart by at least the interval
  the watch had at the first, whatever is called between them: registering a watch again does not bring
  its due time forward, nor does disabling and enabling it.\<close>

theorem polls_are_spaced:
  assumes "r \<in> set (fst (claim_due now g))" and "well_typed (eg_db g)" and "\<forall>c \<in> set cs. call_allowed env c"
    and "r' \<in> set (fst (claim_due later (run_calls env cs (snd (claim_due now g)))))" and "wt_id r' = wt_id r"
  shows "now + wt_interval r \<le> later"
proof -
  let ?P = "\<lambda>g. well_typed (eg_db g) \<and> not_due_before (wt_id r) (now + wt_interval r) (eg_db g)"
  have r: "r \<in> set (pd_watches (eg_db g))" "due_watch now r" using assms(1) by (auto simp: claim_due_def)
  have one: "s = r" if "s \<in> set (pd_watches (eg_db g))" "wt_id s = wt_id r" for s
    using assms(2) r(1) that by (auto simp: well_typed_def rows_typed_def distinct_map inj_on_def)
  have "not_due_before (wt_id r) (now + wt_interval r) (eg_db (snd (claim_due now g)))"
  proof -
    have "r\<lparr>wr_due := now + wt_interval r\<rparr> \<in> set (pd_watches (eg_db (snd (claim_due now g))))"
      using r by (auto simp: claim_due_def intro!: image_eqI[where x = r])
    then have "wt_id (r\<lparr>wr_due := now + wt_interval r\<rparr>) \<in> wt_id ` set (pd_watches (eg_db (snd (claim_due now g))))"
      by (rule imageI)
    then have "wt_id r \<in> wt_id ` set (pd_watches (eg_db (snd (claim_due now g))))" by simp
    moreover have "now + wt_interval r \<le> wr_due s"
      if s: "s \<in> set (pd_watches (eg_db (snd (claim_due now g))))" "wt_id s = wt_id r" for s
    proof -
      obtain q where q: "q \<in> set (pd_watches (eg_db g))" "s = (if due_watch now q then q\<lparr>wr_due := now + wt_interval q\<rparr> else q)"
        using s(1) by (auto simp: claim_due_def)
      then have "wt_id q = wt_id s" by simp
      then have "q = r" using one[OF q(1)] s(2) by simp
      then show ?thesis using q(2) r(2) by simp
    qed
    ultimately show ?thesis by (simp add: not_due_before_def due_rows_def)
  qed
  moreover have "well_typed (eg_db (snd (claim_due now g)))"
    using run_call_typed[OF assms(2), of env "Call_Claim now"] by simp
  ultimately have "?P (run_calls env cs (snd (claim_due now g)))"
    using assms(3) by (intro run_calls_induct[where P = ?P]) (auto intro: run_call_typed run_call_due)
  then show ?thesis using assms(4,5) by (force simp: claim_due_def not_due_before_def due_rows_def due_watch_def)
qed

section \<open>A poll is a run\<close>

text \<open>A poll is a claim and the intake of what its watches report, so what holds of runs holds of polls.\<close>

lemma run_calls_Cons: "run_calls env (c # cs) g = run_calls env cs (run_call env c g)"
  by (simp add: run_calls_def)

lemma poll_one_run:
  assumes "poll_one env stamp now t (g, w) = (r, (g', w'))"
  shows "\<exists>cs. g' = run_calls env cs g \<and> (\<forall>c \<in> set cs. call_allowed env c)"
proof -
  have "g' = g \<or> (\<exists>kind summary relevance m. g' = snd (ingest env (stamp (wt_id t)) (wt_id t) kind summary relevance m g))"
    using assms by (auto simp: poll_one_def split: sum.splits prod.splits option.splits) (metis snd_conv)
  then show ?thesis
  proof
    assume "g' = g"
    then show ?thesis by (intro exI[of _ "[]"]) (simp add: run_calls_def)
  next
    assume "\<exists>kind summary relevance m. g' = snd (ingest env (stamp (wt_id t)) (wt_id t) kind summary relevance m g)"
    then obtain kind summary relevance m where "g' = run_call env (Call_Ingest (stamp (wt_id t)) (wt_id t) kind summary relevance m) g"
      by auto
    then show ?thesis by (intro exI[of _ "[Call_Ingest (stamp (wt_id t)) (wt_id t) kind summary relevance m]"]) (simp add: run_calls_def)
  qed
qed

lemma run_calls_append: "run_calls env (cs @ ds) g = run_calls env ds (run_calls env cs g)"
  by (simp add: run_calls_def)

lemma poll_rows_run:
  assumes "each (poll_one env stamp now) rows (g, w) = (r, (g', w'))"
  shows "\<exists>cs. g' = run_calls env cs g \<and> (\<forall>c \<in> set cs. call_allowed env c)"
  using assms
proof (induction rows arbitrary: g w r g' w')
  case Nil
  then show ?case by (intro exI[of _ "[]"]) (simp add: act_ok_def run_calls_def)
next
  case (Cons t rows)
  obtain x g1 w1 where x: "poll_one env stamp now t (g, w) = (x, (g1, w1))" by (metis prod.exhaust)
  obtain cs where cs: "g1 = run_calls env cs g" "\<forall>c \<in> set cs. call_allowed env c" using poll_one_run[OF x] by blast
  show ?case
  proof (cases x)
    case (Inl e)
    then show ?thesis using Cons.prems x cs by (auto simp: act_bind_def)
  next
    case (Inr n)
    obtain y g2 w2 where y: "each (poll_one env stamp now) rows (g1, w1) = (y, (g2, w2))" by (metis prod.exhaust)
    have "g' = g2" using Cons.prems x Inr y by (auto simp: act_bind_def act_ok_def split: sum.splits)
    moreover obtain ds where "g2 = run_calls env ds g1" "\<forall>c \<in> set ds. call_allowed env c" using Cons.IH[OF y] by blast
    ultimately show ?thesis using cs by (intro exI[of _ "cs @ ds"]) (auto simp: run_calls_append)
  qed
qed

lemma poll_due_run:
  assumes "poll_due env stamp now (g, w) = (r, (g', w'))"
  shows "\<exists>cs. g' = run_calls env (Call_Claim now # cs) g \<and> (\<forall>c \<in> set cs. call_allowed env c)"
proof -
  obtain rows h where claim: "claim_due now g = (rows, h)" by fastforce
  obtain x h' v where x: "each (poll_one env stamp now) rows (h, w) = (x, (h', v))" by (metis prod.exhaust)
  have "g' = h'" using assms claim x by (auto simp: poll_due_def act_bind_def act_ok_def split: sum.splits)
  moreover obtain cs where "h' = run_calls env cs h" "\<forall>c \<in> set cs. call_allowed env c" using poll_rows_run[OF x] by blast
  ultimately show ?thesis using claim by (intro exI[of _ cs]) (simp add: run_calls_Cons)
qed

section \<open>A desk of watches\<close>

definition sample_env :: proactive_env where
  "sample_env = \<lparr>en_db = ascii_text, en_hash = (\<lambda>s. s)\<rparr>"

definition sample_watch :: "string \<Rightarrow> bool \<Rightarrow> watch" where
  "sample_watch i scheduled = \<lparr>wt_id = lit i, wt_source = Src_System, wt_label = lit i, wt_permission = Perm_Notify,
     wt_relevance = 1, wt_interval = 60, wt_enabled = True, wt_schedule = scheduled, wt_metadata = J_Object []\<rparr>"

definition sample_desk :: "nat \<Rightarrow> unit engine" where
  "sample_desk limit = \<lparr>eg_db = \<lparr>pd_watches = [], pd_events = [], pd_notes = []\<rparr>, eg_limit = limit, eg_observers = (\<lambda>_. None)\<rparr>"

definition stamp_at :: "int \<Rightarrow> string \<Rightarrow> call_stamp" where
  "stamp_at t i = \<lparr>cs_now = t, cs_event = lit (CHR ''e'' # i), cs_note = lit (CHR ''n'' # i)\<rparr>"

definition sample_intake :: "int \<Rightarrow> string \<Rightarrow> string \<Rightarrow> (unit engine, notification option) act" where
  "sample_intake t i summary = ingest sample_env (stamp_at t i) (lit ''a'') (lit ''k'') (lit summary) 5 J_Null"

lemma sample_desk_typed: "well_typed (eg_db (sample_desk limit))"
  by (simp add: sample_desk_def well_typed_def rows_typed_def events_typed_def notes_typed_def)

lemma sample_watch_checked:
  "watch_check sample_env (sample_watch ''a'' b) = Inr ()" "watch_check sample_env (sample_watch ''b'' b) = Inr ()"
  by code_simp+

text \<open>
  An event that came while the limit was reached is lost: its row stays and its payload counts as known, so
  no later report of it, when there is room again, gives a notification.
\<close>

lemma rate_limited_event_is_lost:
  "map fst (let g0 = register sample_env (sample_watch ''a'' True) None (sample_desk 1);
       (r1, g1) = sample_intake 0 ''1'' ''first'' g0;
       (r2, g2) = sample_intake 1 ''2'' ''second'' g1;
       (r3, g3) = sample_intake (2 * hour) ''3'' ''second'' g2;
       (r4, g4) = sample_intake (2 * hour) ''4'' ''third'' g3
     in [(map_sum id (map_option nt_summary) r1, g1), (map_sum id (map_option nt_summary) r2, g2),
       (map_sum id (map_option nt_summary) r3, g3), (map_sum id (map_option nt_summary) r4, g4)])
   = [Inr (Some (lit ''first'')), Inr None, Inr None, Inr (Some (lit ''third''))]"
  by code_simp

text \<open>
  An observer that raises ends the poll for the watches after it: their due time has moved on, so a schedule
  that was due is not notified before its next interval.
\<close>

lemma failing_observer_silences_others:
  "(let g = register sample_env (sample_watch ''b'' True) None
         (register sample_env (sample_watch ''a'' False) (Some (act_raise (RuntimeError ''gone''))) (sample_desk 9));
      (r, s) = poll_due sample_env (\<lambda>i. stamp_at 0 ''1'') 0 (g, ())
    in is_instance (projl r) RuntimeErrorC \<and> map wr_due (pd_watches (eg_db (fst s))) = [60, 60] \<and> pd_notes (eg_db (fst s)) = []) = True"
  by code_simp

text \<open>The metadata of an event are redacted, and so is the text that is hashed, but the summary is stored as given.\<close>

lemma summary_is_stored_as_given:
  "map (\<lambda>e. (pe_summary e, pe_metadata e)) (pd_events (eg_db (snd (ingest sample_env (stamp_at 0 ''1'') (lit ''a'') (lit ''k'')
      (lit ''token=x'') 5 (J_Object [(lit ''d'', J_Text (lit ''token=x''))])
      (register sample_env (sample_watch ''a'' True) None (sample_desk 9))))))
   = [(lit ''token=x'', J_Object [(lit ''d'', J_Text (lit ''token=[REDACTED]''))])]"
  by code_simp

definition sample_calls :: "unit engine_call list" where
  "sample_calls = [Call_Register (sample_watch ''a'' True) None,
     Call_Ingest (stamp_at 0 ''1'') (lit ''a'') (lit ''k'') (lit ''one'') 5 J_Null, Call_Claim 0,
     Call_Ingest (stamp_at 7 ''2'') (lit ''a'') (lit ''k'') (lit ''two'') 5 J_Null]"

lemma sample_calls_allowed: "\<forall>c \<in> set sample_calls. call_allowed sample_env c"
  by (simp add: sample_calls_def sample_watch_checked)

theorem proactive_database_well_typed_witness:
  "well_typed (eg_db (run_calls sample_env sample_calls (sample_desk 2)))"
  using proactive_database_well_typed[OF sample_desk_typed sample_calls_allowed] by blast

theorem notifications_are_rate_limited_witness:
  "length (filter (\<lambda>n. 0 \<le> nt_created n \<and> nt_created n \<le> 0 + hour) (pd_notes (eg_db (run_calls sample_env sample_calls (sample_desk 1))))) \<le> 1"
proof -
  have "pd_notes (eg_db (sample_desk 1)) = []" and "eg_limit (sample_desk 1) = 1" by (simp_all add: sample_desk_def)
  moreover have "sorted (concat (map event_times sample_calls))" by (simp add: sample_calls_def stamp_at_def)
  ultimately show ?thesis using notifications_are_rate_limited[of "sample_desk 1" sample_calls 0 sample_env] by simp
qed

theorem payload_is_notified_once_witness:
  "(case sample_intake 5 ''2'' ''first'' (run_calls sample_env [] (snd (sample_intake 0 ''1'' ''first''
      (register sample_env (sample_watch ''a'' True) None (sample_desk 9))))) of (r, g) \<Rightarrow> r = Inr None \<or> (\<exists>e. r = Inl e))"
proof -
  let ?g = "register sample_env (sample_watch ''a'' True) None (sample_desk 9)"
  have "(case fst (sample_intake 0 ''1'' ''first'' ?g) of Inr (Some n) \<Rightarrow> True | _ \<Rightarrow> False) = True" by code_simp
  then obtain n where n: "fst (sample_intake 0 ''1'' ''first'' ?g) = Inr (Some n)" by (auto split: sum.splits option.splits)
  obtain r g where r: "sample_intake 5 ''2'' ''first'' (run_calls sample_env [] (snd (sample_intake 0 ''1'' ''first'' ?g))) = (r, g)"
    by fastforce
  have "sample_intake 0 ''1'' ''first'' ?g = (Inr (Some n), snd (sample_intake 0 ''1'' ''first'' ?g))" using n by (metis prod.collapse)
  from payload_is_notified_once[OF this[unfolded sample_intake_def] r[unfolded sample_intake_def]] show ?thesis
    unfolding r by simp
qed

theorem polls_are_spaced_witness:
  "0 + wt_interval (row_of sample_env (sample_watch ''a'' True) 0) \<le> 60"
proof -
  let ?g = "run_calls sample_env [Call_Register (sample_watch ''a'' True) None] (sample_desk 9)"
  have typed: "well_typed (eg_db ?g)"
    unfolding run_calls_def by (simp only: fold.simps comp_apply id_apply)
      (rule run_call_typed, rule sample_desk_typed, simp add: sample_watch_checked)
  have first: "row_of sample_env (sample_watch ''a'' True) 0 \<in> set (fst (claim_due 0 ?g))"
    by (simp add: run_calls_def register_def sample_desk_def upsert_watch_def find_watch_def claim_due_def due_watch_def
        row_of_def sample_watch_def)
  have second: "row_of sample_env (sample_watch ''a'' True) 60 \<in> set (fst (claim_due 60 (run_calls sample_env [] (snd (claim_due 0 ?g)))))"
    by (simp add: run_calls_def register_def sample_desk_def upsert_watch_def find_watch_def claim_due_def due_watch_def
        row_of_def sample_watch_def)
  have "\<forall>c \<in> set []. call_allowed sample_env c" by simp
  from polls_are_spaced[OF first typed this second] show ?thesis by simp
qed

end
