(* ===== verification/Memory.thy ===== *)
theory Memory
  imports Redaction Complex_Main
begin

text \<open>
  The memory of the assistant (\<open>memory/service.py\<close>): records with a lifecycle, relationships between
  subjects, the retention of records and the context of preferences for a conversation. Each transaction
  on the tables is a step; times are the ISO texts the database compares; fresh identifiers and the texts
  of confidences are inputs. The search with its embeddings is not part of the model.
\<close>

section \<open>Records\<close>

datatype memory_kind = Mem_Episodic | Mem_Preference | Mem_Fact | Mem_Working

datatype memory_state = Mem_Active | Mem_Superseded | Mem_Conflicted | Mem_Deleted | Mem_Expired

datatype relationship_state = Rel_Active | Rel_Deleted

record memory_record =
  mr_id :: pystr
  mr_kind :: memory_kind
  mr_subject :: pystr
  mr_content :: pystr
  mr_provenance :: pystr
  mr_confidence :: rat
  mr_created :: pystr
  mr_updated :: pystr
  mr_state :: memory_state
  mr_supersedes :: "pystr option"
  mr_expires :: "pystr option"

record memory_relationship =
  rl_id :: pystr
  rl_source :: pystr
  rl_relationship :: pystr
  rl_target :: pystr
  rl_provenance :: pystr
  rl_confidence :: rat
  rl_created :: pystr
  rl_updated :: pystr
  rl_state :: relationship_state

record memory_db =
  md_records :: "memory_record list"
  md_relationships :: "memory_relationship list"
  md_adaptation :: "pystr option"

definition open_memory :: "int \<Rightarrow> exn + nat" where
  "open_memory working_limit =
     (if working_limit < 1 then Inl (ValueError ''working_subject_limit must be at least 1'') else Inr (nat working_limit))"

definition normalized :: "pystr \<Rightarrow> string \<Rightarrow> exn + pystr" where
  "normalized v field =
     (if strip v = [] then Inl (ValueError (''memory '' @ field @ '' must not be empty'')) else Inr (strip v))"

definition find_record :: "pystr \<Rightarrow> memory_db \<Rightarrow> memory_record option" where
  "find_record i d = List.find (\<lambda>r. mr_id r = i) (md_records d)"

definition get_record :: "pystr \<Rightarrow> memory_db \<Rightarrow> exn + memory_record" where
  "get_record i d = (case find_record i d of None \<Rightarrow> Inl (Exn KeyErrorC ''memory'') | Some r \<Rightarrow> Inr r)"

text \<open>\<open>UPDATE memories SET state=?, updated_at=? WHERE memory_id=? AND ...\<close> with the number of rows changed.\<close>

definition set_state :: "(memory_record \<Rightarrow> bool) \<Rightarrow> memory_state \<Rightarrow> pystr \<Rightarrow> memory_db \<Rightarrow> nat \<times> memory_db" where
  "set_state P st now d =
     (length (filter P (md_records d)),
      d\<lparr>md_records := map (\<lambda>r. if P r then r\<lparr>mr_state := st, mr_updated := now\<rparr> else r) (md_records d)\<rparr>)"

definition change_one :: "(memory_record \<Rightarrow> bool) \<Rightarrow> memory_state \<Rightarrow> pystr \<Rightarrow> string \<Rightarrow> (memory_db, unit) act" where
  "change_one P st now msg d =
     (case set_state P st now d of (n, d') \<Rightarrow> if n \<noteq> 1 then (Inl (ValueError msg), d') else (Inr (), d'))"

section \<open>Retention\<close>

definition newest_first :: "memory_record list \<Rightarrow> memory_record list" where
  "newest_first rs = rev (sort_key mr_updated (sort_key mr_id rs))"

definition active_working :: "pystr \<Rightarrow> memory_record \<Rightarrow> bool" where
  "active_working s r \<longleftrightarrow> mr_kind r = Mem_Working \<and> mr_subject r = s \<and> mr_state r = Mem_Active"

definition overdue :: "pystr \<Rightarrow> memory_record \<Rightarrow> bool" where
  "overdue now r \<longleftrightarrow> mr_state r = Mem_Active \<and> (case mr_expires r of None \<Rightarrow> False | Some t \<Rightarrow> t \<le> now)"

definition surplus :: "nat \<Rightarrow> pystr \<Rightarrow> memory_record list \<Rightarrow> pystr list" where
  "surplus limit s rs = map mr_id (drop limit (newest_first (filter (active_working s) rs)))"

definition bound_subject :: "nat \<Rightarrow> pystr \<Rightarrow> pystr \<Rightarrow> memory_db \<Rightarrow> memory_db" where
  "bound_subject limit now s d =
     snd (set_state (\<lambda>r. mr_id r \<in> set (surplus limit s (md_records d)) \<and> mr_state r = Mem_Active) Mem_Expired now d)"

definition working_subjects :: "memory_db \<Rightarrow> pystr list" where
  "working_subjects d =
     remdups (map mr_subject (filter (\<lambda>r. mr_kind r = Mem_Working \<and> mr_state r = Mem_Active) (md_records d)))"

definition enforce_retention :: "nat \<Rightarrow> pystr \<Rightarrow> memory_db \<Rightarrow> memory_db" where
  "enforce_retention limit now d =
     (let d' = snd (set_state (overdue now) Mem_Expired now d) in fold (bound_subject limit now) (working_subjects d') d')"

section \<open>Operations on records\<close>

definition insert_record ::
    "pystr \<Rightarrow> pystr \<Rightarrow> memory_kind \<Rightarrow> pystr \<Rightarrow> pystr \<Rightarrow> pystr \<Rightarrow> rat \<Rightarrow> pystr option \<Rightarrow> pystr option \<Rightarrow> (memory_db, unit) act" where
  "insert_record i now kind subject content provenance confidence supersedes expires d =
     (let new = \<lparr>mr_id = i, mr_kind = kind, mr_subject = subject, mr_content = content, mr_provenance = provenance,
        mr_confidence = confidence, mr_created = now, mr_updated = now, mr_state = Mem_Active,
        mr_supersedes = supersedes, mr_expires = expires\<rparr>;
        s = (case supersedes of None \<Rightarrow> [] | Some x \<Rightarrow> x);
        (n, d') = set_state (\<lambda>r. mr_id r = s \<and> mr_state r = Mem_Active) Mem_Superseded now d
      in if s \<noteq> [] \<and> n \<noteq> 1 then (Inl (ValueError ''superseded memory must be active''), d)
         else let e = (if s \<noteq> [] then d' else d)
           in if find_record i e \<noteq> None then (Inl (Exn IntegrityErrorC ''UNIQUE constraint failed''), d)
              else (Inr (), e\<lparr>md_records := md_records e @ [new]\<rparr>))"

text \<open>Storing a record, with the clock at its row and at the retention after it.\<close>

definition remember ::
    "nat \<Rightarrow> pystr \<Rightarrow> pystr \<Rightarrow> pystr \<Rightarrow> memory_kind \<Rightarrow> pystr \<Rightarrow> pystr \<Rightarrow> pystr \<Rightarrow> rat \<Rightarrow> pystr option \<Rightarrow> pystr option
     \<Rightarrow> (memory_db, memory_record) act" where
  "remember limit i now later kind subject content provenance confidence supersedes expires d =
     (case normalized subject ''subject'' of Inl e \<Rightarrow> (Inl e, d) | Inr subject' \<Rightarrow>
     (case normalized content ''content'' of Inl e \<Rightarrow> (Inl e, d) | Inr content' \<Rightarrow>
     (case normalized provenance ''provenance'' of Inl e \<Rightarrow> (Inl e, d) | Inr provenance' \<Rightarrow>
        if \<not> (0 \<le> confidence \<and> confidence \<le> 1) then (Inl (ValueError ''memory confidence must be between 0 and 1''), d)
        else act_seq (insert_record i now kind subject' content' provenance' confidence supersedes expires)
          (act_seq (act_lift (enforce_retention limit later)) (\<lambda>d. (get_record i d, d))) d)))"

definition mark_conflicted :: "pystr \<Rightarrow> pystr \<Rightarrow> (memory_db, unit) act" where
  "mark_conflicted i now =
     change_one (\<lambda>r. mr_id r = i \<and> mr_state r = Mem_Active) Mem_Conflicted now ''memory is not active''"

definition resolve_conflict :: "pystr \<Rightarrow> bool \<Rightarrow> pystr \<Rightarrow> (memory_db, memory_record) act" where
  "resolve_conflict i keep now =
     act_seq (change_one (\<lambda>r. mr_id r = i \<and> mr_state r = Mem_Conflicted) (if keep then Mem_Active else Mem_Deleted) now
       ''memory is not conflicted'') (\<lambda>d. (get_record i d, d))"

definition forget :: "pystr \<Rightarrow> pystr \<Rightarrow> (memory_db, unit) act" where
  "forget i now =
     change_one (\<lambda>r. mr_id r = i \<and> mr_state r \<noteq> Mem_Deleted) Mem_Deleted now ''memory is already deleted or does not exist''"

definition limit_valid :: "int \<Rightarrow> bool" where
  "limit_valid n \<longleftrightarrow> 1 \<le> n \<and> n \<le> 100"

definition limit_error :: exn where
  "limit_error = ValueError ''memory recall limit must be between 1 and 100''"

text \<open>The most confident first, among equals the newest.\<close>

definition by_confidence :: "memory_record list \<Rightarrow> memory_record list" where
  "by_confidence rs = rev (sort_key mr_confidence (sort_key mr_updated rs))"

definition recall :: "nat \<Rightarrow> pystr \<Rightarrow> pystr \<Rightarrow> int \<Rightarrow> (memory_db, memory_record list) act" where
  "recall bound now subject n d =
     (case normalized subject ''subject'' of Inl e \<Rightarrow> (Inl e, d) | Inr s \<Rightarrow>
        if \<not> limit_valid n then (Inl limit_error, d)
        else let d' = enforce_retention bound now d
          in (Inr (take (nat n) (by_confidence (filter (\<lambda>r. mr_subject r = s \<and> mr_state r = Mem_Active) (md_records d')))), d'))"

text \<open>\<open>LIKE\<close> folds the case of ASCII letters; in its pattern a percent sign stands for any text and an
  underscore for any character.\<close>

fun like :: "pystr \<Rightarrow> pystr \<Rightarrow> bool" where
  "like [] s \<longleftrightarrow> s = []"
| "like (p # ps) s \<longleftrightarrow>
     (if p = 37 then (case s of [] \<Rightarrow> like ps [] | c # t \<Rightarrow> like ps s \<or> like (p # ps) t)
      else (case s of [] \<Rightarrow> False | c # t \<Rightarrow> (p = 95 \<or> nocase [p] = nocase [c]) \<and> like ps t))"

definition list_records ::
    "nat \<Rightarrow> pystr \<Rightarrow> memory_state option \<Rightarrow> pystr option \<Rightarrow> int \<Rightarrow> int \<Rightarrow> (memory_db, memory_record list) act" where
  "list_records bound now st query n offset d =
     (if \<not> limit_valid n then (Inl limit_error, d)
      else if offset < 0 then (Inl (ValueError ''memory offset must not be negative''), d)
      else case (case query of None \<Rightarrow> Inr None | Some q \<Rightarrow> map_sum id Some (normalized q ''search query'')) of
        Inl e \<Rightarrow> (Inl e, d)
      | Inr q \<Rightarrow>
          let d' = enforce_retention bound now d;
              wanted = (\<lambda>r. (st = None \<or> Some (mr_state r) = st)
                \<and> (case q of None \<Rightarrow> True | Some t \<Rightarrow> like (37 # t @ [37]) (mr_subject r) \<or> like (37 # t @ [37]) (mr_content r)))
          in (Inr (take (nat n) (drop (nat offset) (newest_first (filter wanted (md_records d'))))), d'))"

section \<open>Relationships\<close>

definition find_relationship :: "pystr \<Rightarrow> memory_db \<Rightarrow> memory_relationship option" where
  "find_relationship i d = List.find (\<lambda>r. rl_id r = i) (md_relationships d)"

definition get_relationship :: "pystr \<Rightarrow> memory_db \<Rightarrow> exn + memory_relationship" where
  "get_relationship i d = (case find_relationship i d of None \<Rightarrow> Inl (Exn KeyErrorC ''relationship'') | Some r \<Rightarrow> Inr r)"

definition relationship_key :: "memory_relationship \<Rightarrow> pystr \<times> pystr \<times> pystr \<times> relationship_state" where
  "relationship_key r = (rl_source r, rl_relationship r, rl_target r, rl_state r)"

definition unique_error :: exn where
  "unique_error = Exn IntegrityErrorC ''UNIQUE constraint failed''"

definition insert_relationship :: "memory_relationship \<Rightarrow> (memory_db, unit) act" where
  "insert_relationship r d =
     (if \<exists>x \<in> set (md_relationships d). rl_id x = rl_id r \<or> relationship_key x = relationship_key r then (Inl unique_error, d)
      else (Inr (), d\<lparr>md_relationships := md_relationships d @ [r]\<rparr>))"

definition relate ::
    "pystr \<Rightarrow> pystr \<Rightarrow> pystr \<Rightarrow> pystr \<Rightarrow> pystr \<Rightarrow> pystr \<Rightarrow> rat \<Rightarrow> (memory_db, memory_relationship) act" where
  "relate i now source relationship target provenance confidence d =
     (case normalized source ''relationship source'' of Inl e \<Rightarrow> (Inl e, d) | Inr s \<Rightarrow>
     (case normalized relationship ''relationship'' of Inl e \<Rightarrow> (Inl e, d) | Inr rel \<Rightarrow>
     (case normalized target ''relationship target'' of Inl e \<Rightarrow> (Inl e, d) | Inr t \<Rightarrow>
     (case normalized provenance ''provenance'' of Inl e \<Rightarrow> (Inl e, d) | Inr p \<Rightarrow>
        if \<not> (0 \<le> confidence \<and> confidence \<le> 1)
        then (Inl (ValueError ''relationship confidence must be between 0 and 1''), d)
        else act_seq (insert_relationship \<lparr>rl_id = i, rl_source = s, rl_relationship = rel, rl_target = t, rl_provenance = p,
            rl_confidence = confidence, rl_created = now, rl_updated = now, rl_state = Rel_Active\<rparr>)
          (\<lambda>d. (get_relationship i d, d)) d))))"

text \<open>The update is refused when a deleted row of the same subjects and name is there already.\<close>

definition forget_relationship :: "pystr \<Rightarrow> pystr \<Rightarrow> (memory_db, unit) act" where
  "forget_relationship i now d =
     (case List.find (\<lambda>r. rl_id r = i \<and> rl_state r = Rel_Active) (md_relationships d) of
        None \<Rightarrow> (Inl (ValueError ''relationship is not active''), d)
      | Some r \<Rightarrow>
          if \<exists>x \<in> set (md_relationships d). rl_id x \<noteq> i \<and> relationship_key x = relationship_key (r\<lparr>rl_state := Rel_Deleted\<rparr>)
          then (Inl unique_error, d)
          else (Inr (), d\<lparr>md_relationships :=
            map (\<lambda>x. if rl_id x = i \<and> rl_state x = Rel_Active then x\<lparr>rl_state := Rel_Deleted, rl_updated := now\<rparr> else x)
              (md_relationships d)\<rparr>))"

definition relationships :: "pystr \<Rightarrow> int \<Rightarrow> memory_db \<Rightarrow> exn + memory_relationship list" where
  "relationships subject n d =
     (case normalized subject ''relationship subject'' of Inl e \<Rightarrow> Inl e | Inr s \<Rightarrow>
        if \<not> limit_valid n then Inl limit_error
        else Inr (take (nat n) (rev (sort_key rl_confidence (sort_key rl_updated
          (filter (\<lambda>r. rl_state r = Rel_Active \<and> (rl_source r = s \<or> rl_target r = s)) (md_relationships d)))))))"

section \<open>Preferences in a conversation\<close>

definition adaptation_enabled :: "memory_db \<Rightarrow> bool" where
  "adaptation_enabled d \<longleftrightarrow> md_adaptation d = Some (lit ''true'')"

definition set_adaptation :: "bool \<Rightarrow> memory_db \<Rightarrow> memory_db" where
  "set_adaptation b d = d\<lparr>md_adaptation := Some (lit (if b then ''true'' else ''false''))\<rparr>"

record adaptation =
  ad_enabled :: bool
  ad_eligible :: "memory_record list"
  ad_applied :: "memory_record list"
  ad_context :: pystr
  ad_truncated :: bool

definition unexpired :: "pystr \<Rightarrow> memory_record \<Rightarrow> bool" where
  "unexpired now r \<longleftrightarrow> mr_state r = Mem_Active \<and> (case mr_expires r of None \<Rightarrow> True | Some t \<Rightarrow> now < t)"

definition eligible_preferences :: "pystr \<Rightarrow> memory_db \<Rightarrow> memory_record list" where
  "eligible_preferences now d =
     filter (\<lambda>r. mr_kind r = Mem_Preference) (take 100 (newest_first (filter (unexpired now) (md_records d))))"

definition preference_entry :: "(rat \<Rightarrow> pystr) \<Rightarrow> memory_record \<Rightarrow> json" where
  "preference_entry float r = J_Object
     [(lit ''memory_id'', J_Text (mr_id r)), (lit ''subject'', J_Text (take 200 (mr_subject r))),
      (lit ''content'', J_Text (take 1000 (mr_content r))), (lit ''content_truncated'', J_Bool (1000 < length (mr_content r))),
      (lit ''provenance'', J_Text (take 200 (mr_provenance r))), (lit ''confidence'', J_Float (float (mr_confidence r)))]"

definition context_text :: "(rat \<Rightarrow> pystr) \<Rightarrow> memory_record list \<Rightarrow> pystr" where
  "context_text float rs = dumps False (J_List (map (preference_entry float) rs))"

text \<open>Records are taken in while the text of all of them stays within the bound.\<close>

primrec applied_preferences ::
    "(rat \<Rightarrow> pystr) \<Rightarrow> int \<Rightarrow> memory_record list \<Rightarrow> memory_record list \<Rightarrow> bool \<Rightarrow> memory_record list \<times> bool" where
  "applied_preferences float bound [] taken clipped = (taken, clipped)"
| "applied_preferences float bound (r # rs) taken clipped =
     (if bound < int (length (context_text float (taken @ [r]))) then (taken, True)
      else applied_preferences float bound rs (taken @ [r]) (clipped \<or> 1000 < length (mr_content r)))"

definition adaptation_projection ::
    "(rat \<Rightarrow> pystr) \<Rightarrow> pystr \<Rightarrow> int \<Rightarrow> int \<Rightarrow> memory_db \<Rightarrow> exn + adaptation" where
  "adaptation_projection float now max_preferences max_characters d =
     (if max_preferences < 1 \<or> max_characters < 1 then Inl (ValueError ''preference adaptation bounds must be positive'')
      else let rs = eligible_preferences now d
        in if \<not> adaptation_enabled d
           then Inr \<lparr>ad_enabled = False, ad_eligible = rs, ad_applied = [], ad_context = [], ad_truncated = False\<rparr>
           else (case applied_preferences float max_characters (take (nat max_preferences) rs) []
               (100 \<le> length rs \<or> max_preferences < int (length rs)) of
             (taken, clipped) \<Rightarrow> Inr \<lparr>ad_enabled = True, ad_eligible = rs, ad_applied = taken,
               ad_context = (if taken = [] then [] else context_text float taken), ad_truncated = clipped\<rparr>))"

section \<open>Runs\<close>

text \<open>The transactions on the records: the whole of the calls, or the parts between which others may come.\<close>

datatype memory_step =
    Step_Insert pystr pystr memory_kind pystr pystr pystr rat "pystr option" "pystr option"
  | Step_Retain pystr
  | Step_Conflict pystr pystr
  | Step_Resolve pystr bool pystr
  | Step_Forget pystr pystr

primrec in_memory :: "nat \<Rightarrow> memory_step \<Rightarrow> memory_db \<Rightarrow> memory_db" where
  "in_memory bound (Step_Insert i now kind subject content provenance confidence supersedes expires) d =
     snd (insert_record i now kind subject content provenance confidence supersedes expires d)"
| "in_memory bound (Step_Retain now) d = enforce_retention bound now d"
| "in_memory bound (Step_Conflict i now) d = snd (mark_conflicted i now d)"
| "in_memory bound (Step_Resolve i keep now) d = snd (resolve_conflict i keep now d)"
| "in_memory bound (Step_Forget i now) d = snd (forget i now d)"

definition memory_run :: "nat \<Rightarrow> memory_step list \<Rightarrow> memory_db \<Rightarrow> memory_db" where
  "memory_run bound ss d = fold (in_memory bound) ss d"

section \<open>Updates of states\<close>

lemma set_state_records:
  "md_records (snd (set_state P st now d)) = map (\<lambda>r. if P r then r\<lparr>mr_state := st, mr_updated := now\<rparr> else r) (md_records d)"
  by (simp add: set_state_def)

lemma set_state_ids [simp]: "map mr_id (md_records (snd (set_state P st now d))) = map mr_id (md_records d)"
  by (simp add: set_state_records comp_def if_distrib cong: if_cong)

lemma change_one_records:
  "md_records (snd (change_one P st now msg d)) = md_records (snd (set_state P st now d))"
  by (simp add: change_one_def set_state_def)

lemma bound_subject_ids [simp]: "map mr_id (md_records (bound_subject limit now s d)) = map mr_id (md_records d)"
  by (simp add: bound_subject_def)

lemma fold_bound_ids [simp]:
  "map mr_id (md_records (fold (bound_subject limit now) ss d)) = map mr_id (md_records d)"
  by (induction ss arbitrary: d) simp_all

lemma retention_ids [simp]: "map mr_id (md_records (enforce_retention limit now d)) = map mr_id (md_records d)"
  by (simp add: enforce_retention_def Let_def)

definition distinct_ids :: "memory_db \<Rightarrow> bool" where
  "distinct_ids d \<longleftrightarrow> distinct (map mr_id (md_records d))"

lemma same_id: "distinct_ids d \<Longrightarrow> r \<in> set (md_records d) \<Longrightarrow> x \<in> set (md_records d) \<Longrightarrow> mr_id r = mr_id x \<Longrightarrow> r = x"
  by (auto simp: distinct_ids_def distinct_map inj_on_def)

section \<open>What retention keeps\<close>

lemma newest_first_set [simp]: "set (newest_first rs) = set rs" "length (newest_first rs) = length rs"
  by (simp_all add: newest_first_def)

lemma newest_first_distinct: "distinct (map mr_id rs) \<Longrightarrow> distinct (map mr_id (newest_first rs))"
  by (simp add: newest_first_def distinct_map)

lemma in_drop_iff: "distinct xs \<Longrightarrow> x \<in> set xs \<Longrightarrow> x \<in> set (drop n xs) \<longleftrightarrow> x \<notin> set (take n xs)"
  by (metis Un_iff append_take_drop_id distinct_append disjoint_iff set_append)

lemma key_in_drop_iff:
  assumes "distinct (map f xs)" and "x \<in> set xs"
  shows "f x \<in> f ` set (drop n xs) \<longleftrightarrow> x \<notin> set (take n xs)"
proof -
  have "inj_on f (set xs)" and "distinct xs" using assms(1) by (simp_all add: distinct_map)
  then show ?thesis using assms(2) in_drop_iff inj_on_image_mem_iff set_drop_subset by metis
qed

definition beyond :: "nat \<Rightarrow> memory_record list \<Rightarrow> memory_record \<Rightarrow> bool" where
  "beyond limit rs r \<longleftrightarrow> mr_id r \<in> set (surplus limit (mr_subject r) rs)"

lemma surplus_row:
  assumes "distinct (map mr_id rs)" and "r \<in> set rs" and "mr_id r \<in> set (surplus limit s rs)"
  shows "active_working s r"
proof -
  obtain x where "x \<in> set rs" "active_working s x" "mr_id x = mr_id r"
    using assms(3) by (auto simp: surplus_def dest!: in_set_dropD)
  then show ?thesis using assms(1,2) by (auto simp: distinct_map inj_on_def)
qed

definition expire :: "pystr \<Rightarrow> memory_record \<Rightarrow> memory_record" where
  "expire now r = r\<lparr>mr_state := Mem_Expired, mr_updated := now\<rparr>"

lemma expire_simps [simp]:
  "mr_id (expire now r) = mr_id r" "mr_kind (expire now r) = mr_kind r" "mr_subject (expire now r) = mr_subject r"
  "mr_state (expire now r) = Mem_Expired" "mr_expires (expire now r) = mr_expires r"
  "\<not> active_working s (expire now r)"
  by (simp_all add: expire_def active_working_def)

lemma bound_subject_records:
  assumes "distinct_ids d"
  shows "md_records (bound_subject limit now s d)
    = map (\<lambda>r. if active_working s r \<and> beyond limit (md_records d) r then expire now r else r) (md_records d)"
proof -
  have "(mr_id r \<in> set (surplus limit s (md_records d)) \<and> mr_state r = Mem_Active)
      = (active_working s r \<and> beyond limit (md_records d) r)" if "r \<in> set (md_records d)" for r
    using surplus_row[of "md_records d" r limit s] assms that
    by (auto simp: distinct_ids_def beyond_def active_working_def)
  then show ?thesis by (simp add: bound_subject_def set_state_records expire_def)
qed

text \<open>Bounding one subject leaves the working records of the others.\<close>

lemma filter_bounded:
  assumes "s \<noteq> s'"
  shows "filter (active_working s') (map (\<lambda>r. if active_working s r \<and> Q r then expire now r else r) rs)
    = filter (active_working s') rs"
  using assms by (induction rs) (auto simp: active_working_def)

lemma bound_subjects_records:
  assumes "distinct_ids d" and "distinct ss"
  shows "md_records (fold (bound_subject limit now) ss d)
    = map (\<lambda>r. if (\<exists>s \<in> set ss. active_working s r) \<and> beyond limit (md_records d) r then expire now r else r) (md_records d)"
  using assms
proof (induction ss arbitrary: d)
  case (Cons s ss)
  let ?f = "\<lambda>r. if active_working s r \<and> beyond limit (md_records d) r then expire now r else r"
  let ?d = "bound_subject limit now s d"
  have rs: "md_records ?d = map ?f (md_records d)" using bound_subject_records[OF Cons.prems(1)] .
  have ids: "distinct_ids ?d" using Cons.prems(1) by (simp add: distinct_ids_def)
  have same: "beyond limit (md_records ?d) (?f r) = beyond limit (md_records d) r" if "\<exists>s' \<in> set ss. active_working s' r" for r
  proof -
    have "mr_subject r \<noteq> s" using that Cons.prems(2) by (auto simp: active_working_def)
    then show ?thesis unfolding rs by (simp add: beyond_def surplus_def filter_bounded)
  qed
  have "(if (\<exists>s' \<in> set ss. active_working s' (?f r)) \<and> beyond limit (md_records ?d) (?f r) then expire now (?f r) else ?f r)
      = (if (\<exists>s' \<in> set (s # ss). active_working s' r) \<and> beyond limit (md_records d) r then expire now r else r)" for r
  proof (cases "active_working s r \<and> beyond limit (md_records d) r")
    case True
    then show ?thesis by (auto simp: expire_def active_working_def)
  next
    case False
    then have f: "?f r = r" by auto
    show ?thesis using same[of r] False unfolding f by auto
  qed
  then show ?case using Cons.IH[OF ids] Cons.prems(2) unfolding rs by simp
qed simp

text \<open>
  The rule of retention at a glance: an active record ends when its time is over, a working record also
  when it is not among the newest of its subject that are left, as many as the limit.
\<close>

definition live_working :: "pystr \<Rightarrow> pystr \<Rightarrow> memory_record \<Rightarrow> bool" where
  "live_working now s r \<longleftrightarrow> active_working s r \<and> \<not> overdue now r"

definition retired :: "nat \<Rightarrow> pystr \<Rightarrow> memory_record list \<Rightarrow> memory_record \<Rightarrow> bool" where
  "retired limit now rs r \<longleftrightarrow> overdue now r
     \<or> live_working now (mr_subject r) r \<and> r \<notin> set (take limit (newest_first (filter (live_working now (mr_subject r)) rs)))"

lemma filter_overdue:
  "filter (active_working s) (map (\<lambda>r. if overdue now r then expire now r else r) rs) = filter (live_working now s) rs"
  by (induction rs) (auto simp: live_working_def)

lemma retention_by_rule:
  assumes "distinct (map mr_id (md_records d))"
  shows "md_records (enforce_retention limit now d)
    = map (\<lambda>r. if retired limit now (md_records d) r then r\<lparr>mr_state := Mem_Expired, mr_updated := now\<rparr> else r) (md_records d)"
proof -
  let ?rs = "md_records d"
  let ?g = "\<lambda>r. if overdue now r then expire now r else r"
  let ?d = "snd (set_state (overdue now) Mem_Expired now d)"
  have rs: "md_records ?d = map ?g ?rs" by (simp add: set_state_records expire_def)
  have ids: "distinct_ids ?d" using assms by (simp add: distinct_ids_def)
  have loop: "md_records (enforce_retention limit now d)
      = map (\<lambda>r. if (\<exists>s \<in> set (working_subjects ?d). active_working s r) \<and> beyond limit (md_records ?d) r then expire now r else r) (md_records ?d)"
    unfolding enforce_retention_def Let_def by (rule bound_subjects_records[OF ids]) (simp add: working_subjects_def)
  have "(if (\<exists>s \<in> set (working_subjects ?d). active_working s (?g r)) \<and> beyond limit (md_records ?d) (?g r) then expire now (?g r) else ?g r)
      = (if retired limit now ?rs r then expire now r else r)" if r: "r \<in> set ?rs" for r
  proof (cases "overdue now r")
    case True
    then show ?thesis by (simp add: retired_def)
  next
    case False
    let ?L = "newest_first (filter (live_working now (mr_subject r)) ?rs)"
    have "(\<exists>s \<in> set (working_subjects ?d). active_working s r) = live_working now (mr_subject r) r"
      using r False unfolding working_subjects_def rs
      by (force simp: live_working_def active_working_def)
    moreover have "beyond limit (md_records ?d) r = (r \<notin> set (take limit ?L))" if "live_working now (mr_subject r) r"
    proof -
      have "distinct (map mr_id ?L)" using assms by (intro newest_first_distinct distinct_map_filter)
      moreover have "r \<in> set ?L" using r that by simp
      moreover have "beyond limit (md_records ?d) r = (mr_id r \<in> mr_id ` set (drop limit ?L))"
        unfolding beyond_def surplus_def rs filter_overdue by simp
      ultimately show ?thesis using key_in_drop_iff[of mr_id ?L r limit] by simp
    qed
    ultimately show ?thesis using False by (auto simp: retired_def)
  qed
  then show ?thesis unfolding loop rs by (simp add: expire_def)
qed

text \<open>C39: retention keeps what its rule says. The loop over the subjects, whose updates could disturb each
  other, is one pass by the rule: exactly the active records whose time is over and the working records
  beyond the newest of their subject become expired, every other record stays as it is.\<close>

theorem retention_is_exact:
  assumes "distinct (map mr_id (md_records d))"
  shows "md_records (enforce_retention limit now d)
    = map (\<lambda>r. if retired limit now (md_records d) r then r\<lparr>mr_state := Mem_Expired, mr_updated := now\<rparr> else r) (md_records d)"
  using assms by (rule retention_by_rule)

section \<open>The life of a record\<close>

fun may_become :: "memory_state \<Rightarrow> memory_state \<Rightarrow> bool" where
  "may_become Mem_Active t = True"
| "may_become Mem_Conflicted t = True"
| "may_become Mem_Superseded t = (t \<in> {Mem_Superseded, Mem_Deleted})"
| "may_become Mem_Expired t = (t \<in> {Mem_Expired, Mem_Deleted})"
| "may_become Mem_Deleted t = (t = Mem_Deleted)"

lemma may_become_refl [simp]: "may_become s s"
  by (cases s) simp_all

lemma may_become_deleted [simp]: "may_become s Mem_Deleted"
  by (cases s) simp_all

lemma may_become_trans: "may_become s t \<Longrightarrow> may_become t u \<Longrightarrow> may_become s u"
  by (cases s) auto

text \<open>What a record says, and its state only forward.\<close>

definition later_form :: "memory_record \<Rightarrow> memory_record \<Rightarrow> bool" where
  "later_form r x \<longleftrightarrow> x = r\<lparr>mr_state := mr_state x, mr_updated := mr_updated x\<rparr> \<and> may_become (mr_state r) (mr_state x)"

definition grown :: "memory_db \<Rightarrow> memory_db \<Rightarrow> bool" where
  "grown d d' \<longleftrightarrow> (\<exists>old new. md_records d' = old @ new \<and> list_all2 later_form (md_records d) old)"

lemma later_form_refl: "later_form r r"
  by (simp add: later_form_def)

lemma later_form_trans: "later_form r x \<Longrightarrow> later_form x y \<Longrightarrow> later_form r y"
proof -
  assume "later_form r x" "later_form x y"
  then have x: "x = r\<lparr>mr_state := mr_state x, mr_updated := mr_updated x\<rparr>" and y: "y = x\<lparr>mr_state := mr_state y, mr_updated := mr_updated y\<rparr>"
    and m: "may_become (mr_state r) (mr_state y)" by (auto simp: later_form_def intro: may_become_trans)
  have "y = r\<lparr>mr_state := mr_state y, mr_updated := mr_updated y\<rparr>" by (subst y, subst x) simp
  then show ?thesis using m by (simp add: later_form_def)
qed

lemma grown_refl: "grown d d"
  unfolding grown_def by (rule exI[of _ "md_records d"], rule exI[of _ "[]"]) (simp add: list.rel_refl later_form_refl)

lemma grown_trans: "grown a b \<Longrightarrow> grown b c \<Longrightarrow> grown a c"
proof -
  assume "grown a b" "grown b c"
  then obtain o1 n1 o2 n2 where b: "md_records b = o1 @ n1" "list_all2 later_form (md_records a) o1"
    and c: "md_records c = o2 @ n2" "list_all2 later_form (md_records b) o2" by (auto simp: grown_def)
  then obtain p q where "o2 = p @ q" "list_all2 later_form o1 p" by (auto simp: list_all2_append1)
  moreover from this b(2) have "list_all2 later_form (md_records a) p"
    by (rule_tac list_all2_trans[of later_form later_form later_form]) (blast intro: later_form_trans)+
  ultimately show ?thesis using c(1) by (auto simp: grown_def)
qed

lemma grown_map:
  assumes "md_records d' = map f (md_records d)" and "\<And>r. r \<in> set (md_records d) \<Longrightarrow> later_form r (f r)"
  shows "grown d d'"
  unfolding grown_def using assms
  by (intro exI[of _ "map f (md_records d)"] exI[of _ "[]"]) (simp add: list_all2_conv_all_nth)

lemma set_state_grown:
  assumes "\<And>r. P r \<Longrightarrow> may_become (mr_state r) st"
  shows "grown d (snd (set_state P st now d))"
  by (rule grown_map[OF set_state_records]) (use assms in \<open>auto simp: later_form_def\<close>)

lemma change_one_grown:
  assumes "\<And>r. P r \<Longrightarrow> may_become (mr_state r) st"
  shows "grown d (snd (change_one P st now msg d))"
  using set_state_grown[of P st d now] assms by (auto simp: change_one_def split: prod.splits)

lemma retention_grown: "grown d (enforce_retention limit now d)"
proof -
  have one: "grown x (bound_subject limit now s x)" for s x
    unfolding bound_subject_def by (rule set_state_grown) simp
  have "grown x (fold (bound_subject limit now) ss x)" for ss x
    by (induction ss arbitrary: x) (simp_all add: grown_refl, metis one grown_trans)
  moreover have "grown d (snd (set_state (overdue now) Mem_Expired now d))"
    by (rule set_state_grown) (simp add: overdue_def)
  ultimately show ?thesis unfolding enforce_retention_def Let_def by (metis grown_trans)
qed

section \<open>Supersession\<close>

text \<open>
  Identifiers are unique; what a record supersedes is a record that is out of use for good, and no two
  records supersede the same one.
\<close>

definition superseding :: "memory_record \<Rightarrow> pystr \<Rightarrow> bool" where
  "superseding r y \<longleftrightarrow> mr_supersedes r = Some y \<and> y \<noteq> []"

definition supersession_sound :: "memory_record list \<Rightarrow> bool" where
  "supersession_sound rs \<longleftrightarrow> distinct (map mr_id rs)
     \<and> (\<forall>r \<in> set rs. \<forall>y. superseding r y \<longrightarrow> (\<exists>x \<in> set rs. mr_id x = y \<and> mr_state x \<in> {Mem_Superseded, Mem_Deleted}))
     \<and> (\<forall>r \<in> set rs. \<forall>x \<in> set rs. \<forall>y. superseding r y \<and> superseding x y \<longrightarrow> mr_id r = mr_id x)"

lemma later_form_simps:
  "later_form r x \<Longrightarrow> mr_id x = mr_id r \<and> superseding x = superseding r
     \<and> (mr_state r \<in> {Mem_Superseded, Mem_Deleted} \<longrightarrow> mr_state x \<in> {Mem_Superseded, Mem_Deleted})"
proof -
  assume "later_form r x"
  then obtain s u where "x = r\<lparr>mr_state := s, mr_updated := u\<rparr>" "may_become (mr_state r) s" unfolding later_form_def by blast
  then show ?thesis by (cases "mr_state r") (auto simp: superseding_def fun_eq_iff)
qed

lemma supersession_later:
  assumes "list_all2 later_form rs xs" and "supersession_sound rs"
  shows "supersession_sound xs"
proof -
  have origin: "\<exists>r \<in> set rs. later_form r x" if "x \<in> set xs" for x
    using assms(1) that by (metis in_set_conv_nth list_all2_conv_all_nth)
  have later: "\<exists>x \<in> set xs. later_form r x" if "r \<in> set rs" for r
    using assms(1) that by (metis in_set_conv_nth list_all2_conv_all_nth)
  have "map mr_id xs = map mr_id rs"
    using assms(1) by (auto simp: list_all2_conv_all_nth later_form_simps intro!: nth_equalityI)
  moreover have "\<exists>x \<in> set xs. mr_id x = y \<and> mr_state x \<in> {Mem_Superseded, Mem_Deleted}" if q: "q \<in> set xs" "superseding q y" for q y
  proof -
    obtain r where "r \<in> set rs" "superseding r y" using origin[OF q(1)] later_form_simps q(2) by metis
    then obtain z where "z \<in> set rs" "mr_id z = y" "mr_state z \<in> {Mem_Superseded, Mem_Deleted}"
      using assms(2) unfolding supersession_sound_def by blast
    then show ?thesis using later later_form_simps by metis
  qed
  moreover have "mr_id q = mr_id x" if q: "q \<in> set xs" "x \<in> set xs" "superseding q y" "superseding x y" for q x y
  proof -
    obtain r where r: "r \<in> set rs" "later_form r q" using origin[OF q(1)] by blast
    obtain z where z: "z \<in> set rs" "later_form z x" using origin[OF q(2)] by blast
    have "superseding r y" "superseding z y" using later_form_simps[OF r(2)] later_form_simps[OF z(2)] q(3,4) by simp_all
    then have "mr_id r = mr_id z" using assms(2) r(1) z(1) unfolding supersession_sound_def by blast
    then show ?thesis using later_form_simps[OF r(2)] later_form_simps[OF z(2)] by simp
  qed
  moreover have "distinct (map mr_id rs)" using assms(2) by (simp add: supersession_sound_def)
  ultimately show ?thesis unfolding supersession_sound_def by (simp only:) blast
qed

lemma supersession_grown:
  assumes "grown d d'" and "length (md_records d') = length (md_records d)" and "supersession_sound (md_records d)"
  shows "supersession_sound (md_records d')"
proof -
  obtain old new where o: "md_records d' = old @ new" "list_all2 later_form (md_records d) old" using assms(1) by (auto simp: grown_def)
  then have "length old = length (md_records d)" by (simp add: list_all2_lengthD)
  then have "md_records d' = old" using o(1) assms(2) by simp
  then show ?thesis using supersession_later[OF o(2) assms(3)] by simp
qed

lemma insert_record_cases:
  assumes "insert_record i now kind subject content provenance confidence supersedes expires d = (r, d')"
  obtains (refused) "d' = d"
  | (added) e new where "d' = e\<lparr>md_records := md_records e @ [new]\<rparr>" and "mr_id new = i" and "mr_id new \<notin> mr_id ` set (md_records e)"
      and "mr_state new = Mem_Active" and "mr_supersedes new = supersedes" and "grown d e" and "length (md_records e) = length (md_records d)"
      and "\<And>y. superseding new y \<Longrightarrow> \<exists>x \<in> set (md_records d). mr_id x = y \<and> mr_state x = Mem_Active"
      and "\<And>y. superseding new y \<Longrightarrow> e = snd (set_state (\<lambda>r. mr_id r = y \<and> mr_state r = Mem_Active) Mem_Superseded now d)"
proof -
  let ?s = "case supersedes of None \<Rightarrow> [] | Some x \<Rightarrow> x"
  let ?P = "\<lambda>r. mr_id r = ?s \<and> mr_state r = Mem_Active"
  let ?d = "snd (set_state ?P Mem_Superseded now d)"
  let ?e = "if ?s \<noteq> [] then ?d else d"
  show thesis
  proof (cases "(?s \<noteq> [] \<and> fst (set_state ?P Mem_Superseded now d) \<noteq> 1) \<or> find_record i ?e \<noteq> None")
    case True
    then show thesis using assms refused by (auto simp: insert_record_def Let_def split: prod.splits if_splits)
  next
    case False
    let ?new = "\<lparr>mr_id = i, mr_kind = kind, mr_subject = subject, mr_content = content,
        mr_provenance = provenance, mr_confidence = confidence, mr_created = now, mr_updated = now, mr_state = Mem_Active,
        mr_supersedes = supersedes, mr_expires = expires\<rparr>"
    have sup: "?s = y \<and> ?s \<noteq> []" if "superseding ?new y" for y using that by (simp add: superseding_def)
    show thesis
    proof (rule added[of ?e ?new])
      show "d' = ?e\<lparr>md_records := md_records ?e @ [?new]\<rparr>"
        using assms False by (auto simp: insert_record_def Let_def split: prod.splits if_splits)
      show "grown d ?e" using set_state_grown[of ?P Mem_Superseded d now] grown_refl by (auto simp: may_become.simps)
      show "mr_id ?new \<notin> mr_id ` set (md_records ?e)" using False by (auto simp: find_record_def find_None_iff)
      show "length (md_records ?e) = length (md_records d)" by (simp add: set_state_def)
      show "?e = snd (set_state (\<lambda>r. mr_id r = y \<and> mr_state r = Mem_Active) Mem_Superseded now d)" if "superseding ?new y" for y
        using sup[OF that] by auto
      show "\<exists>x \<in> set (md_records d). mr_id x = y \<and> mr_state x = Mem_Active" if "superseding ?new y" for y
      proof -
        have "filter ?P (md_records d) \<noteq> []" using False sup[OF that] by (auto simp: set_state_def)
        then show ?thesis using sup[OF that] by (auto simp: filter_empty_conv)
      qed
    qed simp_all
  qed
qed

lemma insert_record_sound:
  assumes "insert_record i now kind subject content provenance confidence supersedes expires d = (r, d')"
    and "supersession_sound (md_records d)"
  shows "supersession_sound (md_records d') \<and> grown d d'"
  using assms(1)
proof (cases rule: insert_record_cases)
  case refused
  then show ?thesis using assms(2) grown_refl by simp
next
  case (added e new)
  have e: "supersession_sound (md_records e)" using supersession_grown[OF added(6,7) assms(2)] .
  have out: "\<exists>x \<in> set (md_records e). mr_id x = y \<and> mr_state x = Mem_Superseded" if s: "superseding new y" for y
  proof -
    obtain x where x: "x \<in> set (md_records d)" "mr_id x = y" "mr_state x = Mem_Active" using added(8)[OF s] by blast
    then have "x\<lparr>mr_state := Mem_Superseded, mr_updated := now\<rparr> \<in> set (md_records e)"
      unfolding added(9)[OF s] set_state_records by force
    then show ?thesis using x(2) by (intro bexI[of _ "x\<lparr>mr_state := Mem_Superseded, mr_updated := now\<rparr>"]) simp_all
  qed
  have fresh: "\<not> superseding q y" if new: "superseding new y" and q: "q \<in> set (md_records e)" for q y
  proof
    assume "superseding q y"
    moreover obtain old rest where old: "md_records e = old @ rest" "list_all2 later_form (md_records d) old"
      using added(6) by (auto simp: grown_def)
    moreover have "rest = []" using old added(7) by (auto dest!: list_all2_lengthD)
    ultimately obtain r where "r \<in> set (md_records d)" "superseding r y"
      using q later_form_simps by (metis append_Nil2 in_set_conv_nth list_all2_conv_all_nth)
    then obtain x where "x \<in> set (md_records d)" "mr_id x = y" "mr_state x \<in> {Mem_Superseded, Mem_Deleted}"
      using assms(2) unfolding supersession_sound_def by blast
    moreover obtain z where "z \<in> set (md_records d)" "mr_id z = y" "mr_state z = Mem_Active" using added(8)[OF new] by blast
    moreover have "distinct (map mr_id (md_records d))" using assms(2) by (simp add: supersession_sound_def)
    ultimately show False by (auto simp: distinct_map inj_on_def)
  qed
  have "supersession_sound (md_records e @ [new])"
    unfolding supersession_sound_def
  proof (intro conjI ballI allI impI)
    show "distinct (map mr_id (md_records e @ [new]))" using e added(3) by (simp add: supersession_sound_def)
    show "\<exists>x \<in> set (md_records e @ [new]). mr_id x = y \<and> mr_state x \<in> {Mem_Superseded, Mem_Deleted}"
      if q: "q \<in> set (md_records e @ [new])" "superseding q y" for q y
    proof (cases "q = new")
      case True
      then show ?thesis using out q(2) by fastforce
    next
      case False
      then have "q \<in> set (md_records e)" using q(1) by simp
      then obtain x where "x \<in> set (md_records e)" "mr_id x = y" "mr_state x \<in> {Mem_Superseded, Mem_Deleted}"
        using e q(2) unfolding supersession_sound_def by blast
      then show ?thesis by auto
    qed
    show "mr_id q = mr_id x" if "q \<in> set (md_records e @ [new])" "x \<in> set (md_records e @ [new])" "superseding q y \<and> superseding x y" for q x y
    proof (cases "q = new \<or> x = new")
      case True
      then show ?thesis using fresh that by auto
    next
      case False
      then have "q \<in> set (md_records e)" "x \<in> set (md_records e)" using that by auto
      then show ?thesis using e that(3) unfolding supersession_sound_def by blast
    qed
  qed
  moreover have "grown e d'"
    unfolding grown_def by (intro exI[of _ "md_records e"] exI[of _ "[new]"]) (simp add: added(1) list.rel_refl later_form_refl)
  moreover note grown_trans[OF added(6)]
  ultimately show ?thesis unfolding added(1) by simp
qed

lemma in_memory_sound:
  assumes "supersession_sound (md_records d)"
  shows "supersession_sound (md_records (in_memory bound s d)) \<and> grown d (in_memory bound s d)"
proof (cases s)
  case (Step_Insert i now kind subject content provenance confidence supersedes expires)
  obtain r d' where run: "insert_record i now kind subject content provenance confidence supersedes expires d = (r, d')" by fastforce
  from insert_record_sound[OF run assms] run show ?thesis using Step_Insert by simp
next
  case (Step_Retain now)
  have "length (md_records (enforce_retention bound now d)) = length (md_records d)"
    using retention_ids[of bound now d] by (metis length_map)
  with supersession_grown[OF retention_grown _ assms] retention_grown Step_Retain show ?thesis by simp
next
  case (Step_Conflict i now)
  have g: "grown d (snd (mark_conflicted i now d))" unfolding mark_conflicted_def by (rule change_one_grown) auto
  have "length (md_records (snd (mark_conflicted i now d))) = length (md_records d)"
    by (simp add: mark_conflicted_def change_one_records set_state_def)
  with supersession_grown[OF g _ assms] g Step_Conflict show ?thesis by simp
next
  case (Step_Resolve i keep now)
  let ?m = "change_one (\<lambda>r. mr_id r = i \<and> mr_state r = Mem_Conflicted) (if keep then Mem_Active else Mem_Deleted) now
       ''memory is not conflicted''"
  have same: "snd (resolve_conflict i keep now d) = snd (?m d)"
    by (auto simp: resolve_conflict_def act_bind_def split: prod.splits sum.splits)
  have g: "grown d (snd (?m d))" by (rule change_one_grown) auto
  have "length (md_records (snd (?m d))) = length (md_records d)" by (simp add: change_one_records set_state_def)
  with supersession_grown[OF g _ assms] g same Step_Resolve show ?thesis by simp
next
  case (Step_Forget i now)
  have g: "grown d (snd (forget i now d))" unfolding forget_def by (rule change_one_grown) simp
  have "length (md_records (snd (forget i now d))) = length (md_records d)"
    by (simp add: forget_def change_one_records set_state_def)
  with supersession_grown[OF g _ assms] g Step_Forget show ?thesis by simp
qed

text \<open>C38: memories live forward. Whatever transactions come in whatever order, no record vanishes and what it
  says, its subject, content, provenance, confidence, times and what it supersedes, never changes; a
  superseded or expired record is never active again, a deleted one stays deleted; what a record supersedes
  exists and is out of use for good, and is superseded by that record alone.\<close>

theorem memories_live_forward:
  assumes "supersession_sound (md_records d)"
  shows "supersession_sound (md_records (memory_run bound ss d)) \<and> grown d (memory_run bound ss d)"
  using assms
proof (induction ss arbitrary: d)
  case Nil
  then show ?case by (simp add: memory_run_def grown_refl)
next
  case (Cons s ss)
  note one = in_memory_sound[OF Cons.prems, of bound s]
  have rest: "memory_run bound (s # ss) d = memory_run bound ss (in_memory bound s d)" by (simp add: memory_run_def)
  from one Cons.IH[of "in_memory bound s d"] show ?case unfolding rest using grown_trans by blast
qed

section \<open>What is recalled\<close>

lemma retained_alive:
  assumes "distinct (map mr_id (md_records d))" and "r \<in> set (md_records (enforce_retention bound now d))" and "mr_state r = Mem_Active"
  shows "r \<in> set (md_records d) \<and> \<not> overdue now r"
proof -
  from assms(2) obtain x where "x \<in> set (md_records d)"
    and "r = (if retired bound now (md_records d) x then x\<lparr>mr_state := Mem_Expired, mr_updated := now\<rparr> else x)"
    unfolding retention_by_rule[OF assms(1)] by auto
  then show ?thesis using assms(3) by (auto simp: retired_def split: if_splits)
qed

text \<open>What is recalled is in force. Every record that is recalled for a subject is a stored one of that
  subject, active and not past its time at the moment of the call; there are no more than asked for, and
  the more confident come first.\<close>

theorem recall_gives_live_memories:
  assumes "recall bound now subject n d = (Inr rs, d')" and "distinct (map mr_id (md_records d))"
  shows "(\<forall>r \<in> set rs. r \<in> set (md_records d) \<and> mr_subject r = strip subject \<and> mr_state r = Mem_Active
        \<and> (\<forall>t. mr_expires r = Some t \<longrightarrow> now < t))
    \<and> int (length rs) \<le> n \<and> sorted (map (\<lambda>r. - mr_confidence r) rs)"
proof -
  let ?d = "enforce_retention bound now d"
  let ?all = "filter (\<lambda>r. mr_subject r = strip subject \<and> mr_state r = Mem_Active) (md_records ?d)"
  have n: "limit_valid n" and rs: "rs = take (nat n) (by_confidence ?all)"
    using assms(1) by (auto simp: recall_def normalized_def Let_def split: if_splits)
  have "r \<in> set (md_records d) \<and> mr_subject r = strip subject \<and> mr_state r = Mem_Active \<and> (\<forall>t. mr_expires r = Some t \<longrightarrow> now < t)"
    if "r \<in> set rs" for r
  proof -
    have r: "r \<in> set (md_records ?d)" "mr_subject r = strip subject" "mr_state r = Mem_Active"
      using that unfolding rs by (auto simp: by_confidence_def dest!: in_set_takeD)
    from retained_alive[OF assms(2) r(1,3)] r show ?thesis by (auto simp: overdue_def)
  qed
  moreover have "int (length rs) \<le> n" using n unfolding rs by (auto simp: limit_valid_def)
  moreover have "sorted (map (\<lambda>r. - mr_confidence r) rs)"
  proof -
    have flip: "sorted (map uminus ys)" if "sorted (rev ys)" for ys :: "rat list"
      using that by (induction ys) (auto simp: sorted_append)
    have "sorted (rev (map mr_confidence (by_confidence ?all)))" by (simp add: by_confidence_def rev_map)
    from flip[OF this] have "sorted (map (\<lambda>r. - mr_confidence r) (by_confidence ?all))" by (simp add: comp_def)
    then show ?thesis unfolding rs take_map[symmetric] by (rule sorted_wrt_take)
  qed
  ultimately show ?thesis by blast
qed

section \<open>What preferences enter a conversation\<close>

lemma applied_bound:
  assumes "applied_preferences float bound rs taken clipped = (all, c)"
    and "taken = [] \<or> int (length (context_text float taken)) \<le> bound"
  shows "(\<exists>more_rs. all = taken @ more_rs \<and> prefix more_rs rs) \<and> (all = [] \<or> int (length (context_text float all)) \<le> bound)"
  using assms
proof (induction rs arbitrary: taken clipped)
  case (Cons r rs)
  show ?case
  proof (cases "bound < int (length (context_text float (taken @ [r])))")
    case True
    then show ?thesis using Cons.prems by auto
  next
    case False
    then have run: "applied_preferences float bound rs (taken @ [r]) (clipped \<or> 1000 < length (mr_content r)) = (all, c)"
      using Cons.prems(1) by simp
    from Cons.IH[OF run] False show ?thesis by auto
  qed
qed auto


section \<open>A memory\<close>

definition no_memory :: memory_db where
  "no_memory = \<lparr>md_records = [], md_relationships = [], md_adaptation = None\<rparr>"

definition sample_note :: "string \<Rightarrow> string \<Rightarrow> string option \<Rightarrow> memory_step" where
  "sample_note i now supersedes =
     Step_Insert (lit i) (lit now) Mem_Working (lit ''s'') (lit ''c'') (lit ''p'') 1 (map_option lit supersedes) None"

definition sample_steps :: "memory_step list" where
  "sample_steps = [sample_note ''a'' ''1'' None, sample_note ''b'' ''2'' (Some ''a''), sample_note ''c'' ''3'' None, Step_Retain (lit ''4'')]"

lemma sample_memory:
  "map (\<lambda>r. (mr_id r, mr_state r)) (md_records (memory_run 1 sample_steps no_memory))
   = [(lit ''a'', Mem_Superseded), (lit ''b'', Mem_Expired), (lit ''c'', Mem_Active)]"
  by code_simp

text \<open>
  A relationship that was forgotten, stated again and is to be forgotten again cannot be: the row of the
  first time has the same subjects, name and state, and the database refuses the second.
\<close>

lemma relationship_is_forgotten_once:
  "(let (r1, d1) = relate (lit ''x'') [] (lit ''a'') (lit ''knows'') (lit ''b'') (lit ''p'') 1 no_memory;
      (r2, d2) = forget_relationship (lit ''x'') [] d1;
      (r3, d3) = relate (lit ''y'') [] (lit ''a'') (lit ''knows'') (lit ''b'') (lit ''p'') 1 d2
    in (r2, fst (forget_relationship (lit ''y'') [] d3), map_sum id length (relationships (lit ''a'') 9 d3))
       = (Inr (), Inl unique_error, Inr 1)) = True"
  by code_simp

text \<open>
  The bound on the rows that are read comes before the choice of the preferences: a hundred newer memories
  of other kinds hide a preference, and the projection does not say that anything was left out.
\<close>

definition numbered :: "memory_kind \<Rightarrow> pystr \<Rightarrow> pystr \<Rightarrow> memory_record" where
  "numbered kind i now = \<lparr>mr_id = i, mr_kind = kind, mr_subject = lit ''s'', mr_content = lit ''c'', mr_provenance = lit ''p'',
     mr_confidence = 1, mr_created = now, mr_updated = now, mr_state = Mem_Active, mr_supersedes = None, mr_expires = None\<rparr>"

lemma newer_memories_hide_preference:
  fixes float :: "rat \<Rightarrow> pystr"
  defines "d \<equiv> \<lparr>md_records = numbered Mem_Preference [] [1] # map (\<lambda>n. numbered Mem_Fact [n] [2]) [0..<100],
      md_relationships = [], md_adaptation = Some (lit ''true'')\<rparr>"
  shows "adaptation_projection float [3] 20 6000 d
    = Inr \<lparr>ad_enabled = True, ad_eligible = [], ad_applied = [], ad_context = [], ad_truncated = False\<rparr>"
proof -
  let ?facts = "map (\<lambda>n. numbered Mem_Fact [n] [2]) [0..<100]" and ?p = "numbered Mem_Preference [] [1]"
  have all: "filter (unexpired [3]) (md_records d) = ?p # ?facts"
    by (simp add: d_def unexpired_def numbered_def filter_map comp_def)
  have "sorted (map mr_id (?p # ?facts))" and "sorted (map mr_updated (?p # ?facts))"
    by (auto simp: numbered_def comp_def sorted_iff_nth_mono)
  then have "newest_first (?p # ?facts) = rev (?p # ?facts)"
    by (simp only: newest_first_def sorted_sort_id sort_key_id_if_sorted)
  then have "take 100 (newest_first (?p # ?facts)) = rev ?facts" by simp
  then have "eligible_preferences [3] d = []"
    unfolding eligible_preferences_def all by (auto simp: filter_empty_conv numbered_def)
  moreover have "adaptation_enabled d" by (simp add: d_def adaptation_enabled_def)
  ultimately show ?thesis by (simp add: adaptation_projection_def)
qed

theorem retention_is_exact_witness:
  "map (\<lambda>r. (mr_id r, mr_state r)) (md_records (enforce_retention 1 (lit ''4'') (memory_run 2 (take 3 sample_steps) no_memory)))
   = [(lit ''a'', Mem_Superseded), (lit ''b'', Mem_Expired), (lit ''c'', Mem_Active)]"
proof -
  let ?d = "memory_run 2 (take 3 sample_steps) no_memory"
  have "distinct (map mr_id (md_records ?d)) = True" by code_simp
  then have "distinct (map mr_id (md_records ?d))" by simp
  note rule = retention_is_exact[OF this, of 1 "lit ''4''"]
  have "map (\<lambda>r. (mr_id r, mr_state r)) (map (\<lambda>r. if retired 1 (lit ''4'') (md_records ?d) r
        then r\<lparr>mr_state := Mem_Expired, mr_updated := lit ''4''\<rparr> else r) (md_records ?d))
      = [(lit ''a'', Mem_Superseded), (lit ''b'', Mem_Expired), (lit ''c'', Mem_Active)]" by code_simp
  then show ?thesis unfolding rule .
qed

theorem memories_live_forward_witness:
  "supersession_sound (md_records (memory_run 1 sample_steps no_memory))"
  using memories_live_forward[of no_memory 1 sample_steps] by (simp add: no_memory_def supersession_sound_def)


end
