(* ===== verification/Spec2Isabelle.thy ===== *)
theory Spec2Isabelle
  imports Friday_Prelude Py_Text Vad Wake Follow_Up Barge_In Speech_Text Session Interaction Events Runtime
    Wake_Runtime Wake_Capture Wake_Orchestrator Task_Store Task_Lifecycle Task_Audit Task_Admission
    Command_Policy Patch_Scope Patch_Guard Objectives Worktrees Rollback Gateway Publication Validation Validation_Run
    Change_Review Redaction Repair Proactive Memory
begin

text \<open>
  Friday is a local assistant: a program on one machine that listens for a wake phrase, holds
  a spoken or typed conversation, and carries out coding tasks in isolated worktrees under a
  durable, audited history. This development models the parts whose mistakes would matter
  most, as definitions translated from the Python sources under
  \<open>src/local_ai_assistant/\<close>, and proves what makes each part correct.

  \<^bold>\<open>How the parts work together.\<close> A microphone chunk goes through voice activity detection and
  segmentation; the wake loop hands a completed utterance to the resident wake worker through
  the detector cascade; the orchestrator takes the microphone from the wake loop for one
  conversation turn and gives it back; during playback the barge-in monitor listens on the
  echo-cancelled input. A conversation turn is admitted by the interaction coordinator, logged
  in the session, announced through the runtime's event stream and spoken through the
  sentence chunker and the speech queue. A request for work becomes an objective; the
  objective reserves a task in the task history; the task is planned, approved, claimed and
  attempted; its attempt runs in a worktree of its own, through the command policy and the patch
  scope guard, and can be taken back by a transactional restore.

  \<^bold>\<open>Conventions.\<close> An exception is a value of type \<open>exn\<close>; a method that changes its object and
  may raise is a function from a state to a result and the state it leaves, \<open>('s, 'a) act\<close>, so
  that a change made before a raise persists as it does in Python. Strings that the code
  inspects character by character are lists of code points (\<open>pystr\<close>), identifiers and messages
  are \<open>string\<close>. Clock readings, audio samples, random identities, answers of git, of the file
  system, of speech libraries and of other processes are inputs: arguments, fields of an
  environment record, or actions on a world of their own that may raise at every call. Python
  integers are \<open>int\<close> or \<open>nat\<close>; 16-bit samples are decoded from bytes as the code does. Times in
  seconds are reals, because the properties do not depend on rounding.

  \<^bold>\<open>The theories.\<close>

  \<^item> \<open>Friday_Prelude\<close>: the class hierarchy of the exceptions, actions and their rules, Python's
    whitespace and deque operations, lists. \<open>Py_Text\<close>: \<open>shlex.split\<close>, \<open>PurePosixPath\<close>,
    \<open>splitlines\<close> and the other text functions the policies call.
  \<^item> \<open>Vad\<close> (\<open>voice/vad.py\<close>, the configuration of \<open>voice/audio.py\<close>): the energy detector and the
    segmenter. Utterances are disjoint, ordered, contiguous pieces of the stream, and have the
    length, the speech and the bytes they claim. The locale \<open>utterance_segmenter\<close> is what the
    other loops rely on; it is interpreted on this segmenter.
  \<^item> \<open>Wake\<close> (\<open>voice/wake.py\<close>): normalisation, the strict phrase match and the supervisor.
    \<open>Follow_Up\<close> and \<open>Barge_In\<close> (\<open>voice/follow_up_capture.py\<close>, \<open>voice/barge_in.py\<close>): capture loops
    over ticks of the environment, with their deadlines, close on every path, and coherent results.
  \<^item> \<open>Wake_Runtime\<close> (\<open>voice/wake_runtime.py\<close>): the worker process and its line protocol; a response
    never answers an older request. \<open>Wake_Capture\<close> (\<open>voice/wake_capture.py\<close>): the wake loop as a
    system of a loop with a program counter and callers from other threads.
    \<open>Wake_Orchestrator\<close> (\<open>voice/wake_orchestrator.py\<close>): a turn owns the microphone, follows the
    abstract protocol of the handoff, and gives the microphone back on every path. The session
    loop of a turn takes fuel and returns \<open>None\<close> when it is used up; a turn with more rounds
    of fuel than the seconds left of its session returns.
  \<^item> \<open>Speech_Text\<close> (\<open>voice/speech_chunks.py\<close>, \<open>voice/speech_queue.py\<close>), \<open>Session\<close>, \<open>Interaction\<close>,
    \<open>Events\<close>, \<open>Runtime\<close> (\<open>interface/session.py\<close>, \<open>interaction.py\<close>, \<open>states.py\<close>, \<open>events.py\<close>,
    \<open>runtime.py\<close>): no text is lost in chunking, the queue is bounded and ordered under every
    interleaving, the log is the longest recent suffix within its bounds, one interaction at a
    time, and every connected subscriber has every event since it joined.
  \<^item> \<open>Task_Store\<close> (\<open>history/models.py\<close>, \<open>store.py\<close>): the transactions over tasks, claims, attempts,
    approvals and events. \<open>Task_Lifecycle\<close>, \<open>Task_Audit\<close> and \<open>Task_Admission\<close> prove over any
    sequence of calls that a status moves along the lifecycle table only, that a failed call
    changes nothing, that the audit trail has no gap and that a running attempt was admitted with
    the exclusive claim and the exact approved plan.
  \<^item> \<open>Command_Policy\<close> (\<open>execution/commands.py\<close>): what is started without asking is an allowlisted
    command with arguments inside the repository; the output kept is the last bytes of the whole.
    \<open>Patch_Scope\<close> and \<open>Patch_Guard\<close> (\<open>planning/patch_scope.py\<close>, \<open>planning/analysis.py\<close>): what a
    patch touches, and that an accepted patch stays in the files and symbols of its plan.
  \<^item> \<open>Objectives\<close> (\<open>autonomy/service.py\<close>): the service beside other callers that write between its
    own accesses; bindings are final and only the exact approved plan is executed.
  \<^item> \<open>Worktrees\<close> (\<open>isolation/worktrees.py\<close>, \<open>locks.py\<close>, \<open>paths.py\<close>): creation, state changes and
    cleanup under the lock of the task. \<open>Rollback\<close> (\<open>isolation/transactional_rollback.py\<close>): the
    restore of a checkpoint ends verified, compensated, or marked.
  \<^item> \<open>Gateway\<close> (\<open>gateway/auth.py\<close>, \<open>events.py\<close>): tokens and scopes, the limit of calls, which is
    exactly that of any minute, and the event bus as a window over the log of its events.
    \<open>Publication\<close> (\<open>gateway/publication.py\<close>, the publication rows of \<open>history/store.py\<close>): what a
    publication may do to the remote repository, and what is true there when it returns. The
    trace records what was pushed, created and read.
  \<^item> \<open>Validation\<close> (\<open>validation/models.py\<close>, \<open>decision.py\<close>, \<open>failures.py\<close>, \<open>detection.py\<close>): what a
    failure is, which steps a plan is validated by, and when a decision is to pass.
    \<open>Validation_Run\<close> (\<open>validation/service.py\<close>, \<open>cache.py\<close>): the steps beside a worktree that a
    command may change; a passing report rests on commands that passed on exactly this diff.
  \<^item> \<open>Change_Review\<close> (\<open>validation/security.py\<close>, \<open>tests.py\<close>): what a scan of a patch finds in added
    lines, dependencies and tests; the patterns of the source are terms of a small language with
    its positions of matches. \<open>Redaction\<close> (\<open>execution/history.py\<close>): texts by the same language, data also
    by key. \<open>Repair\<close> (\<open>validation/repair.py\<close>, \<open>agent/code_agent.py\<close>): the repair engine around a model,
    and the sequence of targeted checks, repairs and required checks. The loop takes rounds as fuel;
    as many as repairs are allowed are enough, since each round records an attempt.
  \<^item> \<open>Proactive\<close> (\<open>proactive/service.py\<close>, \<open>runtime.py\<close>): the tables of watches, events and
    notifications under any sequence of calls, each a step under the lock; a poll is such a sequence.
  \<^item> \<open>Memory\<close> (\<open>memory/service.py\<close>): records that supersede, conflict, expire and are forgotten, under any
    sequence of transactions; what retention keeps, what is recalled, and which preferences enter a
    conversation.
  \<^bold>\<open>Behaviour worth a look.\<close> Where the model shows that the code does something it does not mean
  to, a lemma with a concrete run says so: for example \<open>rearming_loses_confirmed_speech\<close>,
  \<open>reader_can_miss_accepted_text\<close>, \<open>stream_open_can_miss_event\<close>, \<open>find_may_write\<close>,
  \<open>create_race_raises\<close>, \<open>second_publisher_proceeds\<close>,
  \<open>colliding_steps_hide_failure\<close>, \<open>approved_command_may_fail\<close>,
  \<open>failed_checkout_is_not_cleaned\<close>, \<open>failed_event_skips_compensation\<close>,
  \<open>disguised_additions_are_not_scanned\<close>, \<open>deleted_test_file_is_not_noticed\<close>, \<open>plain_assertion_raises\<close>,
  \<open>quoted_name_is_not_redacted\<close>, \<open>rate_limited_event_is_lost\<close>, \<open>failing_observer_silences_others\<close>,
  \<open>summary_is_stored_as_given\<close>, \<open>relationship_is_forgotten_once\<close> and \<open>newer_memories_hide_preference\<close>.

  \<^bold>\<open>Not modelled.\<close> Speech recognition and synthesis back ends, language model clients, HTTP and
  MCP routes, desktop control, retrieval and its indexes, and the domain services for
  learning and careers are drivers of native libraries, network protocols, models or SQL of
  their own; so are checkpoint archives, the sandbox and git itself. Of the modelled files,
  constructors that read environment variables, dictionaries for display, and listings are
  left out. The memory model of Python threads is taken as interleaving at the calls the
  models name as steps.
\<close>

end
